(* ===== verification/Prelude.thy ===== *)
theory Prelude
  imports Main "HOL-Library.Word" "HOL-Library.More_List"
begin

unbundle bit_operations_syntax

text \<open>
  What every component shares: the names of the C integer types, the arithmetic macros of
  \<^verbatim>\<open>board/utils.h\<close>, the elapsed-time helper, and the generic lemmas about \<open>let\<close>
  chains that carry the frame proofs of the handlers. A handler of the source is a
  sequence of statements over global variables; its model is a chain of
  \<open>let s = ... in\<close> over the record of those variables.
\<close>

type_synonym u8 = "8 word"
type_synonym u16 = "16 word"
type_synonym u32 = "32 word"

named_theorems frame_simps "how projections of the state commute with the operations"
named_theorems sample_simps "facts on sampled signals"
named_theorems float_simps "facts on the single precision arithmetic"

section \<open>Macros of utils.h\<close>

definition MIN_m :: "'a::linorder \<Rightarrow> 'a \<Rightarrow> 'a" where
  "MIN_m a b = (if a < b then a else b)"

definition MAX_m :: "'a::linorder \<Rightarrow> 'a \<Rightarrow> 'a" where
  "MAX_m a b = (if a > b then a else b)"

definition CLAMP :: "'a::linorder \<Rightarrow> 'a \<Rightarrow> 'a \<Rightarrow> 'a" where
  "CLAMP x low high = (if x > high then high else if x < low then low else x)"

definition ABS :: "'a::linordered_idom \<Rightarrow> 'a" where
  "ABS a = (if a > 0 then a else - a)"

lemma MIN_m_eq_min [simp]: "MIN_m a b = min a b"
  by (auto simp: MIN_m_def min_def)

lemma MAX_m_eq_max [simp]: "MAX_m a b = max a b"
  by (auto simp: MAX_m_def max_def)

lemma ABS_eq_abs [simp]: "ABS a = \<bar>a\<bar>"
  by (simp add: ABS_def abs_if)

lemma CLAMP_bounds: "low \<le> high \<Longrightarrow> low \<le> CLAMP x low high \<and> CLAMP x low high \<le> high"
  by (auto simp: CLAMP_def)

lemma CLAMP_id: "low \<le> x \<Longrightarrow> x \<le> high \<Longrightarrow> CLAMP x low high = x"
  by (auto simp: CLAMP_def)

text \<open>The difference of two readings of the free-running microsecond counter.\<close>

definition get_ts_elapsed :: "u32 \<Rightarrow> u32 \<Rightarrow> u32" where
  "get_ts_elapsed ts ts_last = ts - ts_last"

lemma get_ts_elapsed_wrap:
  "unat (get_ts_elapsed (ts + d) ts) = unat d"
  by (simp add: get_ts_elapsed_def)

section \<open>Flags and C conversions\<close>

definition GET_FLAG :: "'a::len word \<Rightarrow> 'a word \<Rightarrow> bool" where
  "GET_FLAG v m = (v AND m = m)"

text \<open>The value of a \<open>bool\<close> converted to \<open>int\<close>, and C's division, which truncates.\<close>

definition int_of_bool :: "bool \<Rightarrow> int" where
  "int_of_bool b = (if b then 1 else 0)"

definition c_div :: "int \<Rightarrow> int \<Rightarrow> int" where
  "c_div a b = sgn a * sgn b * (\<bar>a\<bar> div \<bar>b\<bar>)"

lemma c_div_abs_le: "\<bar>c_div a b\<bar> \<le> \<bar>a\<bar>"
proof (cases "b = 0")
  case False
  then have "\<bar>a\<bar> div \<bar>b\<bar> \<le> \<bar>a\<bar>" using zdiv_mono2 [of "\<bar>a\<bar>" 1 "\<bar>b\<bar>"] by simp
  moreover have "0 \<le> \<bar>a\<bar> div \<bar>b\<bar>" using False by (simp add: pos_imp_zdiv_nonneg_iff)
  ultimately show ?thesis by (auto simp: c_div_def abs_mult sgn_if)
qed (simp add: c_div_def)

section \<open>Chains of let\<close>

text \<open>
  Bindings of plain values are unfolded; bindings of states stay, so that a chain of
  \<open>n\<close> statements costs \<open>n\<close> small goals.
\<close>

lemma let_values:
  "(let x = (b :: bool) in f x) = f b"
  "(let x = (i :: int) in g x) = g i"
  "(let x = (n :: nat) in h x) = h n"
  "(let x = (w8 :: u8) in k8 x) = k8 w8"
  "(let x = (w16 :: u16) in k16 x) = k16 w16"
  "(let x = (w32 :: u32) in k32 x) = k32 w32"
  by (simp_all add: Let_def)

end
