(* ===== verification/Can_Packet.thy ===== *)
theory Can_Packet
  imports Prelude
begin

text \<open>
  The CAN packet of \<^verbatim>\<open>board/can_declarations.h\<close>, its accessors, and the byte
  layout the packed struct has on the target: one byte of bit fields
  (reserved, bus, length code), a little endian 32 bit word of bit fields (rejected,
  returned, extended, address), the checksum byte, then the data.
\<close>

section \<open>The packet\<close>

record CANPacket_t =
  p_reserved :: bool
  p_bus :: "3 word"
  p_data_len_code :: "4 word"
  p_rejected :: bool
  p_returned :: bool
  p_extended :: bool
  p_addr :: "29 word"
  p_checksum :: u8
  p_data :: "u8 list"

definition CANPACKET_HEAD_SIZE :: nat where
  "CANPACKET_HEAD_SIZE = 6"

definition CANPACKET_DATA_SIZE_MAX :: nat where
  "CANPACKET_DATA_SIZE_MAX = 64"

definition dlc_to_len :: "nat list" where
  "dlc_to_len = [0, 1, 2, 3, 4, 5, 6, 7, 8, 12, 16, 20, 24, 32, 48, 64]"

text \<open>A packet in memory: the data array has its declared size.\<close>

definition packet_ok :: "CANPacket_t \<Rightarrow> bool" where
  "packet_ok p \<longleftrightarrow> length (p_data p) = CANPACKET_DATA_SIZE_MAX"

definition GET_BUS :: "CANPacket_t \<Rightarrow> int" where
  "GET_BUS m = uint (p_bus m)"

definition GET_ADDR :: "CANPacket_t \<Rightarrow> int" where
  "GET_ADDR m = uint (p_addr m)"

definition GET_LEN :: "CANPacket_t \<Rightarrow> nat" where
  "GET_LEN m = dlc_to_len ! unat (p_data_len_code m)"

text \<open>
  A read past the end of the data array is undefined in C and is given the value 0 here;
  the modelled code never makes one on a packet whose data array has its declared size.
\<close>

definition GET_BYTE :: "CANPacket_t \<Rightarrow> nat \<Rightarrow> u8" where
  "GET_BYTE m b = nth_default 0 (p_data m) b"

definition GET_BIT :: "CANPacket_t \<Rightarrow> nat \<Rightarrow> bool" where
  "GET_BIT m b = bit (GET_BYTE m (b div 8)) (b mod 8)"

text \<open>A byte promoted to \<open>int\<close>.\<close>

definition BYTE :: "CANPacket_t \<Rightarrow> nat \<Rightarrow> int" where
  "BYTE m b = uint (GET_BYTE m b)"

fun GET_BYTES_loop :: "CANPacket_t \<Rightarrow> nat \<Rightarrow> nat \<Rightarrow> nat \<Rightarrow> u32 \<Rightarrow> u32" where
  "GET_BYTES_loop m start i 0 ret = ret"
| "GET_BYTES_loop m start i (Suc n) ret =
     GET_BYTES_loop m start (Suc i) n
       (ret OR push_bit (i * 8) (ucast (GET_BYTE m (start + i)) :: u32))"

definition GET_BYTES :: "CANPacket_t \<Rightarrow> nat \<Rightarrow> nat \<Rightarrow> u32" where
  "GET_BYTES m start len = GET_BYTES_loop m start 0 len 0"

lemma GET_LEN_le: "GET_LEN m \<le> 64"
proof -
  have "unat (p_data_len_code m) < 16" using unsigned_less [of "p_data_len_code m"] by simp
  then have "dlc_to_len ! unat (p_data_len_code m) \<in> set dlc_to_len"
    by (intro nth_mem) (simp add: dlc_to_len_def)
  then show ?thesis by (auto simp: GET_LEN_def dlc_to_len_def)
qed

lemma BYTE_bounds: "0 \<le> BYTE m b" "BYTE m b < 256"
  using uint_lt2p [of "GET_BYTE m b"] by (simp_all add: BYTE_def)

text \<open>Reading four bytes from the start gives zero exactly when all of them are zero.\<close>

lemma bit_GET_BYTES_loop:
  "bit (GET_BYTES_loop m start i n ret) k \<longleftrightarrow>
     bit ret k \<or> (\<exists>j. i \<le> j \<and> j < i + n \<and> k < 32 \<and> 8 * j \<le> k \<and> bit (GET_BYTE m (start + j)) (k - 8 * j))"
proof (induction n arbitrary: i ret)
  case 0
  show ?case by auto
next
  case (Suc n)
  have split: "(\<exists>j. i \<le> j \<and> j < i + Suc n \<and> Q j) \<longleftrightarrow> Q i \<or> (\<exists>j. Suc i \<le> j \<and> j < Suc i + n \<and> Q j)" for Q
    by (metis add_Suc_right add_Suc_shift le_eq_less_or_eq less_add_Suc1 Suc_le_eq)
  show ?case
    unfolding GET_BYTES_loop.simps Suc.IH split [of "\<lambda>j. k < 32 \<and> 8 * j \<le> k \<and> bit (GET_BYTE m (start + j)) (k - 8 * j)"]
    by (auto simp: bit_simps mult.commute)
qed

lemma bit_GET_BYTES:
  "bit (GET_BYTES m start n) k \<longleftrightarrow>
     (\<exists>j<n. k < 32 \<and> 8 * j \<le> k \<and> bit (GET_BYTE m (start + j)) (k - 8 * j))"
  by (auto simp: GET_BYTES_def bit_GET_BYTES_loop)

lemma bit_GET_BYTES_div:
  assumes "n \<le> 4"
  shows "bit (GET_BYTES m start n) k \<longleftrightarrow> k < 8 * n \<and> bit (GET_BYTE m (start + k div 8)) (k mod 8)"
proof
  assume "bit (GET_BYTES m start n) k"
  then obtain j where j: "j < n" "8 * j \<le> k" "bit (GET_BYTE m (start + j)) (k - 8 * j)"
    by (auto simp: bit_GET_BYTES)
  define r where "r = k - 8 * j"
  have k: "k = 8 * j + r" using j(2) by (simp add: r_def)
  have r: "r < 8" using bit_imp_le_length [OF j(3)] by (simp add: r_def)
  have "k < 8 * n" using j(1) r unfolding k by linarith
  moreover have "k div 8 = j" "k mod 8 = r" using r by (simp_all add: k)
  ultimately show "k < 8 * n \<and> bit (GET_BYTE m (start + k div 8)) (k mod 8)"
    using j by (simp add: r_def)
next
  assume a: "k < 8 * n \<and> bit (GET_BYTE m (start + k div 8)) (k mod 8)"
  then have "k div 8 < n" "k < 32" using assms by auto
  moreover have "8 * (k div 8) \<le> k" "k - 8 * (k div 8) = k mod 8"
    by (simp_all add: minus_mult_div_eq_mod)
  ultimately show "bit (GET_BYTES m start n) k" using a unfolding bit_GET_BYTES by metis
qed

lemma GET_BYTES_eq_0:
  assumes "n \<le> 4"
  shows "GET_BYTES m start n = 0 \<longleftrightarrow> (\<forall>j<n. GET_BYTE m (start + j) = 0)"
proof
  assume z: "GET_BYTES m start n = 0"
  show "\<forall>j<n. GET_BYTE m (start + j) = 0"
  proof (intro allI impI bit_word_eqI)
    fix j b assume "j < n" "b < LENGTH(8)"
    moreover have "\<not> bit (GET_BYTES m start n) (8 * j + b)" by (simp add: z)
    ultimately show "bit (GET_BYTE m (start + j)) b = bit (0 :: u8) b"
      using assms by (simp add: bit_GET_BYTES_div)
  qed
next
  assume z: "\<forall>j<n. GET_BYTE m (start + j) = 0"
  show "GET_BYTES m start n = 0"
  proof (intro bit_word_eqI)
    fix k assume "k < LENGTH(32)"
    show "bit (GET_BYTES m start n) k = bit (0 :: u32) k"
      using z assms by (auto simp: bit_GET_BYTES_div)
  qed
qed

end
