(* ===== verification/Can_Ring.thy ===== *)
theory Can_Ring
  imports Can_Packet
begin

text \<open>
  The ring buffers of \<^verbatim>\<open>drivers/can_common.h\<close>: two indices and a size that are
  machine words over an array of elements, of which one slot is always left free. A
  bounded queue is specified as a locale over the list of its elements; the ring implements it. The
  critical sections make each operation one step.
\<close>

section \<open>The ring\<close>

record 'e can_ring =
  w_ptr :: u32
  r_ptr :: u32
  fifo_size :: u32
  elems :: "'e list"

definition can_pop :: "'e can_ring \<Rightarrow> 'e option \<times> 'e can_ring" where
  "can_pop q =
     (if w_ptr q \<noteq> r_ptr q
      then (Some (elems q ! unat (r_ptr q)),
            if r_ptr q + 1 = fifo_size q then q\<lparr>r_ptr := 0\<rparr> else q\<lparr>r_ptr := r_ptr q + 1\<rparr>)
      else (None, q))"

definition can_push :: "'e can_ring \<Rightarrow> 'e \<Rightarrow> bool \<times> 'e can_ring" where
  "can_push q elem =
     (let next_w_ptr = (if w_ptr q + 1 = fifo_size q then 0 else w_ptr q + 1)
      in if next_w_ptr \<noteq> r_ptr q
         then (True, q\<lparr>elems := (elems q)[unat (w_ptr q) := elem], w_ptr := next_w_ptr\<rparr>)
         else (False, q))"

definition can_slots_empty :: "'e can_ring \<Rightarrow> u32" where
  "can_slots_empty q =
     (if w_ptr q \<ge> r_ptr q then fifo_size q - 1 - w_ptr q + r_ptr q
      else r_ptr q - w_ptr q - 1)"

definition clear_ptrs :: "'e can_ring \<Rightarrow> 'e can_ring" where
  "clear_ptrs q = q\<lparr>w_ptr := 0, r_ptr := 0\<rparr>"

definition can_buffer :: "'e \<Rightarrow> u32 \<Rightarrow> 'e can_ring" where
  "can_buffer x size_v = \<lparr>w_ptr = 0, r_ptr = 0, fifo_size = size_v, elems = replicate (unat size_v) x\<rparr>"

section \<open>A bounded queue\<close>

text \<open>What its clients rely on: the list of the queued elements, the oldest first.\<close>

locale bounded_queue =
  fixes ok :: "'q \<Rightarrow> bool"
    and content :: "'q \<Rightarrow> 'e list"
    and capacity :: "'q \<Rightarrow> nat"
    and push :: "'q \<Rightarrow> 'e \<Rightarrow> bool \<times> 'q"
    and pop :: "'q \<Rightarrow> 'e option \<times> 'q"
  assumes push_ok: "ok q \<Longrightarrow> ok (snd (push q x))"
    and push_capacity: "ok q \<Longrightarrow> capacity (snd (push q x)) = capacity q"
    and push_accepts: "ok q \<Longrightarrow> fst (push q x) \<longleftrightarrow> length (content q) < capacity q"
    and push_content: "ok q \<Longrightarrow>
      content (snd (push q x)) = (if fst (push q x) then content q @ [x] else content q)"
    and pop_ok: "ok q \<Longrightarrow> ok (snd (pop q))"
    and pop_capacity: "ok q \<Longrightarrow> capacity (snd (pop q)) = capacity q"
    and pop_content: "ok q \<Longrightarrow> content q = (case fst (pop q) of None \<Rightarrow> [] | Some x \<Rightarrow> x # content (snd (pop q)))"
    and pop_None: "ok q \<Longrightarrow> fst (pop q) = None \<Longrightarrow> content (snd (pop q)) = []"
    and bounded: "ok q \<Longrightarrow> length (content q) \<le> capacity q"

text \<open>A schedule of producers and consumers; the elements accepted and those delivered.\<close>

datatype 'e queue_op = Push 'e | Pop

fun queue_run ::
  "('q \<Rightarrow> 'e \<Rightarrow> bool \<times> 'q) \<Rightarrow> ('q \<Rightarrow> 'e option \<times> 'q) \<Rightarrow> 'q \<Rightarrow> 'e queue_op list \<Rightarrow> 'e list \<times> 'e list \<times> 'q" where
  "queue_run push pop q [] = ([], [], q)"
| "queue_run push pop q (Push x # ops) =
     (let (accepted, q) = push q x;
          (ins, outs, q) = queue_run push pop q ops
      in (if accepted then x # ins else ins, outs, q))"
| "queue_run push pop q (Pop # ops) =
     (let (delivered, q) = pop q;
          (ins, outs, q) = queue_run push pop q ops
      in (ins, case delivered of None \<Rightarrow> outs | Some x \<Rightarrow> x # outs, q))"

context bounded_queue
begin

lemma run_ok: "ok q \<Longrightarrow> ok (snd (snd (queue_run push pop q ops)))"
proof (induction ops arbitrary: q)
  case (Cons a ops)
  then show ?case by (cases a) (simp_all add: Let_def case_prod_beta push_ok pop_ok)
qed simp

text \<open>Nothing is lost, duplicated or reordered.\<close>

lemma run_fifo:
  "ok q \<Longrightarrow> content q @ fst (queue_run push pop q ops) =
     fst (snd (queue_run push pop q ops)) @ content (snd (snd (queue_run push pop q ops)))"
proof (induction ops arbitrary: q)
  case (Cons a ops)
  show ?case
  proof (cases a)
    case (Push x)
    then show ?thesis using Cons.IH [OF push_ok [OF Cons.prems, of x]] push_content [OF Cons.prems, of x]
      by (cases "fst (push q x)") (simp_all add: Let_def case_prod_beta)
  next
    case Pop
    then show ?thesis using Cons.IH [OF pop_ok [OF Cons.prems]] pop_content [OF Cons.prems] pop_None [OF Cons.prems]
      by (auto simp: Let_def case_prod_beta split: option.splits)
  qed
qed simp

end

section \<open>The ring implements it\<close>

definition ring_ok :: "'e can_ring \<Rightarrow> bool" where
  "ring_ok q \<longleftrightarrow> w_ptr q < fifo_size q \<and> r_ptr q < fifo_size q \<and> length (elems q) = unat (fifo_size q)"

definition ring_index :: "'e can_ring \<Rightarrow> nat \<Rightarrow> nat" where
  "ring_index q i = (unat (r_ptr q) + i) mod unat (fifo_size q)"

definition ring_count :: "'e can_ring \<Rightarrow> nat" where
  "ring_count q = (unat (w_ptr q) + unat (fifo_size q) - unat (r_ptr q)) mod unat (fifo_size q)"

definition ring_content :: "'e can_ring \<Rightarrow> 'e list" where
  "ring_content q = map (\<lambda>i. elems q ! ring_index q i) [0..<ring_count q]"

definition ring_capacity :: "'e can_ring \<Rightarrow> nat" where
  "ring_capacity q = unat (fifo_size q) - 1"

lemma ring_bounds:
  assumes "ring_ok q"
  shows "unat (w_ptr q) < unat (fifo_size q)" "unat (r_ptr q) < unat (fifo_size q)"
  using assms by (simp_all add: ring_ok_def word_less_nat_alt)

text \<open>Advancing a pointer is addition modulo the size; it never wraps around the word.\<close>

definition advance :: "u32 \<Rightarrow> u32 \<Rightarrow> u32" where
  "advance n p = (if p + 1 = n then 0 else p + 1)"

lemma unat_advance:
  assumes "unat p < unat n"
  shows "unat (advance n p) = (unat p + 1) mod unat n"
proof -
  have "unat n < 2 ^ 32" using unsigned_less [of n] by simp
  then have "unat (p + 1) = unat p + 1" using assms by (simp add: unat_word_ariths)
  then show ?thesis using assms
    by (cases "p + 1 = n") (auto simp: advance_def word_unat_eq_iff)
qed

lemma unat_advance_split:
  assumes "unat p < unat n"
  shows "unat (advance n p) = (if unat p + 1 = unat n then 0 else unat p + 1)"
  using unat_advance [OF assms] assms by (auto simp: mod_if)

lemma advance_less: "p < n \<Longrightarrow> advance n p < n"
  using unat_advance [of p n] by (simp add: word_less_nat_alt)

lemma can_pop_eq:
  "can_pop q = (if w_ptr q \<noteq> r_ptr q
     then (Some (elems q ! unat (r_ptr q)), q\<lparr>r_ptr := advance (fifo_size q) (r_ptr q)\<rparr>) else (None, q))"
  by (simp add: can_pop_def advance_def)

lemma can_push_eq:
  "can_push q x = (if advance (fifo_size q) (w_ptr q) \<noteq> r_ptr q
     then (True, q\<lparr>elems := (elems q)[unat (w_ptr q) := x], w_ptr := advance (fifo_size q) (w_ptr q)\<rparr>)
     else (False, q))"
  by (simp add: can_push_def advance_def Let_def)

lemma ring_count_cases:
  assumes "ring_ok q"
  shows "ring_count q = (if unat (r_ptr q) \<le> unat (w_ptr q) then unat (w_ptr q) - unat (r_ptr q)
    else unat (w_ptr q) + unat (fifo_size q) - unat (r_ptr q))"
proof (cases "unat (r_ptr q) \<le> unat (w_ptr q)")
  case True
  then obtain k where k: "unat (w_ptr q) = unat (r_ptr q) + k" using nat_le_iff_add by blast
  then have "k < unat (fifo_size q)" using ring_bounds [OF assms] by simp
  then show ?thesis using k by (simp add: ring_count_def add.commute)
qed (use ring_bounds [OF assms] in \<open>simp add: ring_count_def\<close>)

lemma ring_count_less: "ring_ok q \<Longrightarrow> ring_count q < unat (fifo_size q)"
  using ring_bounds [of q] by (simp add: ring_count_def)

lemma ring_content_length [simp]: "length (ring_content q) = ring_count q"
  by (simp add: ring_content_def)

lemma ring_full_iff:
  assumes "ring_ok q"
  shows "advance (fifo_size q) (w_ptr q) \<noteq> r_ptr q \<longleftrightarrow> ring_count q < ring_capacity q"
  using ring_bounds [OF assms] unat_advance_split [OF ring_bounds(1) [OF assms]]
  by (auto simp: word_unat_eq_iff ring_count_cases [OF assms] ring_capacity_def split: if_splits)

lemma ring_push_count:
  assumes "ring_ok q" "ring_count q < ring_capacity q"
  shows "ring_count (q\<lparr>elems := es, w_ptr := advance (fifo_size q) (w_ptr q)\<rparr>) = Suc (ring_count q)"
  using ring_bounds [OF assms(1)] unat_advance_split [OF ring_bounds(1) [OF assms(1)]] assms(2)
  by (simp add: ring_count_cases [OF assms(1)] ring_capacity_def)
    (auto simp: ring_count_def mod_if split: if_splits)

lemma ring_index_split:
  assumes "ring_ok q" "i < unat (fifo_size q)"
  shows "ring_index q i = (if unat (r_ptr q) + i < unat (fifo_size q) then unat (r_ptr q) + i
    else unat (r_ptr q) + i - unat (fifo_size q))"
  using ring_bounds [OF assms(1)] assms(2) by (simp add: ring_index_def mod_if)

lemma ring_index_count: "ring_ok q \<Longrightarrow> ring_index q (ring_count q) = unat (w_ptr q)"
  using ring_bounds [of q] ring_count_less [of q]
  by (simp add: ring_index_split) (auto simp: ring_count_cases split: if_splits)

lemma ring_index_inj:
  assumes "ring_ok q" "i < unat (fifo_size q)" "j < unat (fifo_size q)" "ring_index q i = ring_index q j"
  shows "i = j"
  using assms ring_bounds [OF assms(1)] by (auto simp: ring_index_split split: if_splits)

lemma ring_index_less: "ring_ok q \<Longrightarrow> ring_index q i < unat (fifo_size q)"
  using ring_bounds [of q] by (simp add: ring_index_def)

lemma ring_push_content:
  assumes "ring_ok q" "ring_count q < ring_capacity q"
  shows "ring_content (q\<lparr>elems := (elems q)[unat (w_ptr q) := x],
      w_ptr := advance (fifo_size q) (w_ptr q)\<rparr>) = ring_content q @ [x]"
proof -
  let ?q = "q\<lparr>elems := (elems q)[unat (w_ptr q) := x], w_ptr := advance (fifo_size q) (w_ptr q)\<rparr>"
  have n: "ring_count q < unat (fifo_size q)" by (rule ring_count_less [OF assms(1)])
  have idx: "ring_index ?q = ring_index q" by (rule ext) (simp add: ring_index_def)
  have old: "elems ?q ! ring_index q i = elems q ! ring_index q i" if "i < ring_count q" for i
  proof -
    have "ring_index q i \<noteq> unat (w_ptr q)"
      using ring_index_inj [OF assms(1), of i "ring_count q"] that n ring_index_count [OF assms(1)] by auto
    then show ?thesis by simp
  qed
  have new: "elems ?q ! ring_index q (ring_count q) = x"
    using assms(1) ring_bounds [OF assms(1)] by (simp add: ring_index_count ring_ok_def)
  have "ring_content ?q = map (\<lambda>i. elems ?q ! ring_index q i) ([0..<ring_count q] @ [ring_count q])"
    unfolding ring_content_def idx ring_push_count [OF assms] by simp
  also have "\<dots> = ring_content q @ [x]" using old new by (simp add: ring_content_def)
  finally show ?thesis .
qed

lemma ring_pop_content:
  assumes "ring_ok q" "w_ptr q \<noteq> r_ptr q"
  shows "ring_content q = elems q ! unat (r_ptr q) #
    ring_content (q\<lparr>r_ptr := advance (fifo_size q) (r_ptr q)\<rparr>)"
proof -
  let ?q = "q\<lparr>r_ptr := advance (fifo_size q) (r_ptr q)\<rparr>"
  have ne: "unat (w_ptr q) \<noteq> unat (r_ptr q)" using assms(2) by (simp add: word_unat_eq_iff)
  have a: "unat (advance (fifo_size q) (r_ptr q)) = (unat (r_ptr q) + 1) mod unat (fifo_size q)"
    by (rule unat_advance [OF ring_bounds(2) [OF assms(1)]])
  have ok: "ring_ok ?q"
    using assms(1) advance_less by (simp add: ring_ok_def)
  have cnt: "ring_count q = Suc (ring_count ?q)"
    using ring_count_cases [OF assms(1)] ring_count_cases [OF ok] ring_bounds [OF assms(1)] ne
      unat_advance_split [OF ring_bounds(2) [OF assms(1)]]
    by (auto split: if_splits)
  have idx: "ring_index ?q i = ring_index q (Suc i)" for i
    by (simp add: ring_index_def a mod_add_left_eq)
  have z: "ring_index q 0 = unat (r_ptr q)" using ring_bounds [OF assms(1)] by (simp add: ring_index_def)
  have "[0..<Suc (ring_count ?q)] = 0 # map Suc [0..<ring_count ?q]" by (simp only: upt_conv_Cons map_Suc_upt zero_less_Suc)
  then show ?thesis by (simp add: ring_content_def cnt z idx comp_def del: upt_Suc)
qed

lemma ring_ok_push: "ring_ok q \<Longrightarrow> ring_ok (snd (can_push q x))"
  using advance_less [of "w_ptr q" "fifo_size q"] by (simp add: can_push_eq ring_ok_def)

lemma ring_ok_pop: "ring_ok q \<Longrightarrow> ring_ok (snd (can_pop q))"
  using advance_less [of "r_ptr q" "fifo_size q"] by (simp add: can_pop_eq ring_ok_def)

lemma ring_empty_iff: "ring_ok q \<Longrightarrow> ring_content q = [] \<longleftrightarrow> w_ptr q = r_ptr q"
  using ring_bounds [of q] by (auto simp: ring_content_def ring_count_cases word_unat_eq_iff split: if_splits)

interpretation ring: bounded_queue ring_ok ring_content ring_capacity can_push can_pop
proof unfold_locales
  fix q :: "'e can_ring" and x
  assume ok: "ring_ok q"
  show "ring_ok (snd (can_push q x))" "ring_ok (snd (can_pop q))"
    by (rule ring_ok_push [OF ok], rule ring_ok_pop [OF ok])
  show "ring_capacity (snd (can_push q x)) = ring_capacity q" "ring_capacity (snd (can_pop q)) = ring_capacity q"
    by (simp_all add: ring_capacity_def can_push_eq can_pop_eq)
  show "fst (can_push q x) \<longleftrightarrow> length (ring_content q) < ring_capacity q"
    using ring_full_iff [OF ok] by (simp add: can_push_eq)
  show "ring_content (snd (can_push q x)) = (if fst (can_push q x) then ring_content q @ [x] else ring_content q)"
    using ring_full_iff [OF ok] ring_push_content [OF ok] by (simp add: can_push_eq)
  show "ring_content q = (case fst (can_pop q) of None \<Rightarrow> [] | Some y \<Rightarrow> y # ring_content (snd (can_pop q)))"
    using ring_pop_content [OF ok] ring_empty_iff [OF ok] by (simp add: can_pop_eq)
  show "fst (can_pop q) = None \<Longrightarrow> ring_content (snd (can_pop q)) = []"
    using ring_empty_iff [OF ok] by (auto simp: can_pop_eq split: if_splits)
  show "length (ring_content q) \<le> ring_capacity q"
    using ring_count_less [OF ok] by (simp add: ring_capacity_def)
qed

lemma can_slots_empty_spec:
  assumes "ring_ok q"
  shows "unat (can_slots_empty q) = ring_capacity q - length (ring_content q)"
proof (cases "r_ptr q \<le> w_ptr q")
  case True
  define d where "d = w_ptr q - r_ptr q"
  have n32: "unat (fifo_size q) < 2 ^ 32" using unsigned_less [of "fifo_size q"] by simp
  have e: "can_slots_empty q = fifo_size q - (1 + d)" using True by (simp add: can_slots_empty_def d_def)
  have d: "unat d = ring_count q"
    using True ring_count_cases [OF assms] by (simp add: d_def unat_sub word_le_nat_alt)
  have d1: "unat (1 + d) = 1 + ring_count q"
    using d n32 ring_count_less [OF assms] by (simp add: unat_word_ariths)
  then have "1 + d \<le> fifo_size q" using ring_count_less [OF assms] by (simp add: word_le_nat_alt)
  then show ?thesis using d1 by (simp add: e unat_sub ring_capacity_def)
next
  case False
  then have lt: "unat (w_ptr q) < unat (r_ptr q)" by (simp add: word_le_nat_alt)
  then have "w_ptr q \<le> r_ptr q" by (simp add: word_le_nat_alt)
  then have d: "unat (r_ptr q - w_ptr q) = unat (r_ptr q) - unat (w_ptr q)" by (simp add: unat_sub)
  then have "(1 :: u32) \<le> r_ptr q - w_ptr q" using lt by (simp add: word_le_nat_alt)
  then have "unat (r_ptr q - w_ptr q - 1) = unat (r_ptr q) - unat (w_ptr q) - 1" using d by (simp add: unat_sub)
  then show ?thesis using False lt ring_bounds [OF assms]
    by (simp add: can_slots_empty_def ring_count_cases [OF assms] ring_capacity_def)
qed

lemma can_buffer_ok: "0 < n \<Longrightarrow> ring_ok (can_buffer x n)"
  by (simp add: ring_ok_def can_buffer_def)

lemma can_buffer_content: "ring_content (can_buffer x n) = []"
  by (simp add: ring_content_def ring_count_def can_buffer_def)

lemma clear_ptrs_ok: "ring_ok q \<Longrightarrow> ring_ok (clear_ptrs q)"
  by (auto simp: ring_ok_def clear_ptrs_def word_less_nat_alt)

lemma clear_ptrs_content: "ring_content (clear_ptrs q) = []"
  by (simp add: ring_content_def ring_count_def clear_ptrs_def)

end
