(* ===== verification/Can_Checksum.thy ===== *)
theory Can_Checksum
  imports Can_Packet
begin

text \<open>
  The bytes of a packet, and the checksum of \<^verbatim>\<open>drivers/can_common.h\<close> over them. The struct is
  packed: a byte of bit fields, a little endian word of bit fields, the checksum, the data.
\<close>

section \<open>The bytes of a packet\<close>

definition packet_byte0 :: "CANPacket_t \<Rightarrow> u8" where
  "packet_byte0 p = of_bool (p_reserved p) OR push_bit 1 (ucast (p_bus p)) OR push_bit 4 (ucast (p_data_len_code p))"

definition packet_word :: "CANPacket_t \<Rightarrow> u32" where
  "packet_word p = of_bool (p_rejected p) OR push_bit 1 (of_bool (p_returned p)) OR
     push_bit 2 (of_bool (p_extended p)) OR push_bit 3 (ucast (p_addr p))"

definition word_bytes :: "u32 \<Rightarrow> u8 list" where
  "word_bytes w = [ucast w, ucast (drop_bit 8 w), ucast (drop_bit 16 w), ucast (drop_bit 24 w)]"

definition bytes_word :: "u8 \<Rightarrow> u8 \<Rightarrow> u8 \<Rightarrow> u8 \<Rightarrow> u32" where
  "bytes_word b0 b1 b2 b3 = ucast b0 OR push_bit 8 (ucast b1) OR push_bit 16 (ucast b2) OR push_bit 24 (ucast b3)"

definition packet_bytes :: "CANPacket_t \<Rightarrow> u8 list" where
  "packet_bytes p = packet_byte0 p # word_bytes (packet_word p) @ p_checksum p # p_data p"

text \<open>The packet whose first bytes these are, in memory that was zero.\<close>

definition bytes_packet :: "u8 list \<Rightarrow> CANPacket_t" where
  "bytes_packet bs =
     (let b = nth_default 0 bs; w = bytes_word (b 1) (b 2) (b 3) (b 4)
      in \<lparr>p_reserved = bit (b 0) 0, p_bus = ucast (drop_bit 1 (b 0)), p_data_len_code = ucast (drop_bit 4 (b 0)),
          p_rejected = bit w 0, p_returned = bit w 1, p_extended = bit w 2, p_addr = ucast (drop_bit 3 w),
          p_checksum = b 5, p_data = map (\<lambda>i. b (6 + i)) [0..<CANPACKET_DATA_SIZE_MAX]\<rparr>)"

lemma length_packet_bytes: "packet_ok p \<Longrightarrow> length (packet_bytes p) = CANPACKET_HEAD_SIZE + CANPACKET_DATA_SIZE_MAX"
  by (simp add: packet_bytes_def word_bytes_def packet_ok_def CANPACKET_HEAD_SIZE_def)

lemma bytes_word_word_bytes:
  "bytes_word (ucast w) (ucast (drop_bit 8 w)) (ucast (drop_bit 16 w)) (ucast (drop_bit 24 w)) = w"
proof (rule bit_word_eqI)
  fix n assume "n < LENGTH(32)"
  then consider "n < 8" | "8 \<le> n" "n < 16" | "16 \<le> n" "n < 24" | "24 \<le> n" "n < 32" by force
  then show "bit (bytes_word (ucast w) (ucast (drop_bit 8 w)) (ucast (drop_bit 16 w)) (ucast (drop_bit 24 w))) n = bit w n"
    by cases (auto simp: bytes_word_def bit_simps)
qed

lemma bit_packet_byte0:
  "bit (packet_byte0 p) n \<longleftrightarrow> n = 0 \<and> p_reserved p \<or> 1 \<le> n \<and> n < 4 \<and> bit (p_bus p) (n - 1) \<or>
     4 \<le> n \<and> n < 8 \<and> bit (p_data_len_code p) (n - 4)"
  using bit_imp_le_length [of "p_bus p" "n - 1"] bit_imp_le_length [of "p_data_len_code p" "n - 4"]
  unfolding packet_byte0_def bit_or_iff bit_push_bit_iff bit_unsigned_iff bit_of_bool_iff
  by auto

lemma bit_packet_word:
  "bit (packet_word p) n \<longleftrightarrow> n = 0 \<and> p_rejected p \<or> n = 1 \<and> p_returned p \<or> n = 2 \<and> p_extended p \<or>
     3 \<le> n \<and> n < 32 \<and> bit (p_addr p) (n - 3)"
  using bit_imp_le_length [of "p_addr p" "n - 3"]
  unfolding packet_word_def bit_or_iff bit_push_bit_iff bit_unsigned_iff bit_of_bool_iff
  by auto

lemma packet_byte0_fields:
  "bit (packet_byte0 p) 0 = p_reserved p"
  "ucast (drop_bit 1 (packet_byte0 p)) = p_bus p"
  "ucast (drop_bit 4 (packet_byte0 p)) = p_data_len_code p"
  by (simp add: bit_packet_byte0)
    (rule bit_word_eqI, auto simp: bit_simps bit_packet_byte0)+

lemma packet_word_fields:
  "bit (packet_word p) 0 = p_rejected p"
  "bit (packet_word p) 1 = p_returned p"
  "bit (packet_word p) 2 = p_extended p"
  "ucast (drop_bit 3 (packet_word p)) = p_addr p"
  by (simp_all add: bit_packet_word)
    (rule bit_word_eqI, auto simp: bit_simps bit_packet_word)

lemma bytes_packet_bytes:
  assumes "packet_ok p"
  shows "bytes_packet (packet_bytes p) = p"
proof -
  have d: "map (\<lambda>i. nth_default 0 (packet_bytes p) (6 + i)) [0..<CANPACKET_DATA_SIZE_MAX] = p_data p"
    using assms by (intro nth_equalityI)
      (simp_all add: packet_ok_def packet_bytes_def word_bytes_def nth_default_def CANPACKET_DATA_SIZE_MAX_def)
  have w: "bytes_word (nth_default 0 (packet_bytes p) 1) (nth_default 0 (packet_bytes p) 2)
      (nth_default 0 (packet_bytes p) 3) (nth_default 0 (packet_bytes p) 4) = packet_word p"
    using bytes_word_word_bytes [of "packet_word p"]
    by (simp add: packet_bytes_def word_bytes_def nth_default_def)
  have b: "nth_default 0 (packet_bytes p) 0 = packet_byte0 p" "nth_default 0 (packet_bytes p) 5 = p_checksum p"
    by (simp_all add: packet_bytes_def word_bytes_def nth_default_def)
  show ?thesis
    unfolding bytes_packet_def Let_def w b d by (simp only: packet_byte0_fields packet_word_fields) simp
qed

section \<open>The checksum\<close>

fun calculate_checksum_loop :: "u8 list \<Rightarrow> nat \<Rightarrow> nat \<Rightarrow> u8 \<Rightarrow> u8" where
  "calculate_checksum_loop dat i 0 checksum = checksum"
| "calculate_checksum_loop dat i (Suc n) checksum =
     calculate_checksum_loop dat (Suc i) n (checksum XOR nth_default 0 dat i)"

definition calculate_checksum :: "u8 list \<Rightarrow> nat \<Rightarrow> u8" where
  "calculate_checksum dat len = calculate_checksum_loop dat 0 len 0"

definition can_set_checksum :: "CANPacket_t \<Rightarrow> CANPacket_t" where
  "can_set_checksum packet =
     (let packet = packet\<lparr>p_checksum := 0\<rparr>
      in packet\<lparr>p_checksum := calculate_checksum (packet_bytes packet) (CANPACKET_HEAD_SIZE + GET_LEN packet)\<rparr>)"

definition can_check_checksum :: "CANPacket_t \<Rightarrow> bool" where
  "can_check_checksum packet \<longleftrightarrow>
     calculate_checksum (packet_bytes packet) (CANPACKET_HEAD_SIZE + GET_LEN packet) = 0"

lemma packet_bytes_Cons:
  "packet_bytes p = [packet_byte0 p, ucast (packet_word p), ucast (drop_bit 8 (packet_word p)),
     ucast (drop_bit 16 (packet_word p)), ucast (drop_bit 24 (packet_word p)), p_checksum p] @ p_data p"
  by (simp add: packet_bytes_def word_bytes_def)

text \<open>Each byte enters once: changing one changes the sum by the difference.\<close>

lemma checksum_loop_start: "calculate_checksum_loop dat i n c = c XOR calculate_checksum_loop dat i n 0"
proof (induction n arbitrary: i c)
  case (Suc n)
  show ?case
    unfolding calculate_checksum_loop.simps
    by (subst (1 2) Suc.IH) (simp add: xor.assoc)
qed simp

lemma checksum_loop_update:
  assumes "k < length dat"
  shows "calculate_checksum_loop (dat[k := v]) i n c =
    calculate_checksum_loop dat i n c XOR (if i \<le> k \<and> k < i + n then dat ! k XOR v else 0)"
proof (induction n arbitrary: i c)
  case (Suc n)
  show ?case
  proof (cases "i = k")
    case True
    have "c XOR v = (c XOR dat ! k) XOR (dat ! k XOR v)" by (simp add: xor.assoc [symmetric]) (simp add: xor.assoc)
    moreover have "calculate_checksum_loop dat (Suc i) n (x XOR y) = calculate_checksum_loop dat (Suc i) n x XOR y" for x y
      by (subst (1 2) checksum_loop_start) (simp add: ac_simps)
    ultimately show ?thesis using True assms by (simp add: Suc.IH nth_default_def)
  next
    case False
    then show ?thesis by (simp add: Suc.IH nth_default_def nth_list_update le_Suc_eq Suc_le_eq)
  qed
qed auto

lemma calculate_checksum_update:
  assumes "k < length dat" "k < len"
  shows "calculate_checksum (dat[k := v]) len = calculate_checksum dat len XOR (dat ! k XOR v)"
  using assms by (simp add: calculate_checksum_def checksum_loop_update)

lemma packet_fields_checksum [simp]:
  "packet_byte0 (p\<lparr>p_checksum := c\<rparr>) = packet_byte0 p" "packet_word (p\<lparr>p_checksum := c\<rparr>) = packet_word p"
  "GET_LEN (p\<lparr>p_checksum := c\<rparr>) = GET_LEN p"
  by (simp_all add: packet_byte0_def packet_word_def GET_LEN_def)

lemma packet_bytes_checksum: "packet_bytes (p\<lparr>p_checksum := c\<rparr>) = (packet_bytes p)[5 := c]"
  by (simp add: packet_bytes_Cons)

lemma packet_bytes_5: "packet_bytes p ! 5 = p_checksum p" "5 < length (packet_bytes p)"
  by (simp_all add: packet_bytes_Cons)

lemma can_set_checksum_simps [simp]:
  "p_reserved (can_set_checksum p) = p_reserved p" "p_bus (can_set_checksum p) = p_bus p"
  "p_data_len_code (can_set_checksum p) = p_data_len_code p" "p_rejected (can_set_checksum p) = p_rejected p"
  "p_returned (can_set_checksum p) = p_returned p" "p_extended (can_set_checksum p) = p_extended p"
  "p_addr (can_set_checksum p) = p_addr p" "p_data (can_set_checksum p) = p_data p"
  "GET_LEN (can_set_checksum p) = GET_LEN p" "packet_ok (can_set_checksum p) = packet_ok p"
  by (simp_all add: can_set_checksum_def GET_LEN_def packet_ok_def Let_def)

lemma can_check_set_checksum: "can_check_checksum (can_set_checksum p)"
proof -
  let ?q = "p\<lparr>p_checksum := 0\<rparr>"
  let ?c = "calculate_checksum (packet_bytes ?q) (CANPACKET_HEAD_SIZE + GET_LEN ?q)"
  have "calculate_checksum ((packet_bytes ?q)[5 := ?c]) (CANPACKET_HEAD_SIZE + GET_LEN ?q) = ?c XOR (0 XOR ?c)"
    by (subst calculate_checksum_update) (use packet_bytes_5 [of ?q] in \<open>simp_all add: CANPACKET_HEAD_SIZE_def\<close>)
  then show ?thesis
    by (simp add: can_check_checksum_def can_set_checksum_def Let_def packet_bytes_checksum)
qed

text \<open>The inverse on a full buffer, and the detection of a corrupted byte.\<close>

lemma word_bytes_bytes_word: "word_bytes (bytes_word b0 b1 b2 b3) = [b0, b1, b2, b3]"
  unfolding word_bytes_def list.inject
  by (intro conjI bit_word_eqI refl; auto simp: bytes_word_def bit_simps dest: bit_imp_le_length)

lemma packet_bytes_packet:
  assumes "length bs = CANPACKET_HEAD_SIZE + CANPACKET_DATA_SIZE_MAX"
  shows "packet_bytes (bytes_packet bs) = bs"
proof -
  obtain b0 b1 b2 b3 b4 b5 ds where bs: "bs = b0 # b1 # b2 # b3 # b4 # b5 # ds" and l: "length ds = CANPACKET_DATA_SIZE_MAX"
    using assms unfolding CANPACKET_HEAD_SIZE_def by (auto simp: numeral_eq_Suc length_Suc_conv)
  have d: "map (\<lambda>i. nth_default 0 bs (6 + i)) [0..<CANPACKET_DATA_SIZE_MAX] = ds"
    using l by (intro nth_equalityI) (simp_all add: bs nth_default_def)
  have w: "packet_word (bytes_packet bs) = bytes_word b1 b2 b3 b4"
  proof (rule bit_word_eqI)
    fix n assume "n < LENGTH(32)"
    then consider "n = 0" | "n = 1" | "n = 2" | "3 \<le> n" "n < 32" by force
    then show "bit (packet_word (bytes_packet bs)) n = bit (bytes_word b1 b2 b3 b4) n"
      by cases (auto simp: bit_packet_word bytes_packet_def Let_def bs nth_default_def bit_unsigned_iff bit_drop_bit_eq)
  qed
  have "packet_byte0 (bytes_packet bs) = b0"
  proof (rule bit_word_eqI)
    fix n assume "n < LENGTH(8)"
    then consider "n = 0" | "1 \<le> n" "n < 4" | "4 \<le> n" "n < 8" by force
    then show "bit (packet_byte0 (bytes_packet bs)) n = bit b0 n"
      by cases (auto simp: bit_packet_byte0 bytes_packet_def Let_def bs nth_default_def bit_unsigned_iff bit_drop_bit_eq)
  qed
  moreover have "p_checksum (bytes_packet bs) = b5" "p_data (bytes_packet bs) = ds"
    using d by (simp_all add: bytes_packet_def Let_def bs nth_default_def)
  ultimately show ?thesis using w by (simp add: packet_bytes_def word_bytes_bytes_word bs)
qed

lemma packet_ok_bytes_packet [simp]: "packet_ok (bytes_packet bs)"
  by (simp add: packet_ok_def bytes_packet_def Let_def)

lemma xor_eq_0: "a XOR v = 0 \<Longrightarrow> v = (a :: u8)"
proof -
  assume z: "a XOR v = 0"
  have "v = (a XOR v) XOR a" by (simp add: xor.commute [of a] xor.assoc)
  then show "v = a" by (simp add: z)
qed

text \<open>Only the length code decides how many bytes the sum covers.\<close>

lemma checksum_detects:
  assumes "packet_ok p" "can_check_checksum p"
    and "k < CANPACKET_HEAD_SIZE + GET_LEN p" "v \<noteq> packet_bytes p ! k"
    and "GET_LEN (bytes_packet ((packet_bytes p)[k := v])) = GET_LEN p"
  shows "\<not> can_check_checksum (bytes_packet ((packet_bytes p)[k := v]))"
proof -
  have l: "length (packet_bytes p) = CANPACKET_HEAD_SIZE + CANPACKET_DATA_SIZE_MAX"
    by (rule length_packet_bytes [OF assms(1)])
  then have "k < length (packet_bytes p)" using assms(3) GET_LEN_le [of p] by (simp add: CANPACKET_DATA_SIZE_MAX_def)
  then have "calculate_checksum ((packet_bytes p)[k := v]) (CANPACKET_HEAD_SIZE + GET_LEN p) = packet_bytes p ! k XOR v"
    using calculate_checksum_update [of k "packet_bytes p" _ v] assms(2,3) by (simp add: can_check_checksum_def)
  moreover have "packet_bytes p ! k XOR v \<noteq> 0" using assms(4) xor_eq_0 by blast
  ultimately show ?thesis using l by (simp add: can_check_checksum_def assms(5) packet_bytes_packet)
qed

end
