(* ===== verification/Llfdcan.thy ===== *)
theory Llfdcan
  imports Prelude
begin

text \<open>
  \<^verbatim>\<open>stm32h7/llfdcan.h\<close>: the registers of an FDCAN core, its bit timing, its setup. The core
  itself is silicon: how its registers react to a write is the parameter \<open>core_behaviour\<close>.
  Waiting is polling: the wait for the end of the clock stop has no timeout and is a partial function, the
  others are loops over the polls their timeout allows. The prints are left out. No board with these cores
  lacks CAN FD, so the data rate that the timing divides by is never 0.
\<close>

section \<open>The registers\<close>

text \<open>An element of the message memory.\<close>

record canfd_fifo =
  header0 :: u32
  header1 :: u32
  data_word :: "u32 list"

definition canfd_fifo_0 :: canfd_fifo where
  "canfd_fifo_0 = \<lparr>header0 = 0, header1 = 0, data_word = replicate 16 0\<rparr>"

record fdcan =
  CCCR :: u32
  TEST :: u32
  NBTP :: u32
  DBTP :: u32
  TXBC :: u32
  TXESC :: u32
  RXESC :: u32
  XIDFC :: u32
  SIDFC :: u32
  GFC :: u32
  RXF0C :: u32
  ILE :: u32
  ILS :: u32
  IE :: u32
  IR :: u32
  PSR :: u32
  ECR :: u32
  TXFQS :: u32
  RXF0S :: u32
  rx_elements :: "canfd_fifo list"
  irq_enabled :: bool

record core_behaviour =
  write_IR :: "u32 \<Rightarrow> fdcan \<Rightarrow> fdcan"
  write_TXBAR :: "u32 \<Rightarrow> fdcan \<Rightarrow> fdcan"
  write_RXF0A :: "u32 \<Rightarrow> fdcan \<Rightarrow> fdcan"
  csa_clear_at :: "fdcan \<Rightarrow> nat \<Rightarrow> bool"
  init_set_at :: "fdcan \<Rightarrow> nat \<Rightarrow> bool"
  init_clear_at :: "fdcan \<Rightarrow> nat \<Rightarrow> bool"

definition FDCAN_CCCR_INIT :: u32 where "FDCAN_CCCR_INIT = push_bit 0 1"
definition FDCAN_CCCR_CCE :: u32 where "FDCAN_CCCR_CCE = push_bit 1 1"
definition FDCAN_CCCR_ASM :: u32 where "FDCAN_CCCR_ASM = push_bit 2 1"
definition FDCAN_CCCR_CSR :: u32 where "FDCAN_CCCR_CSR = push_bit 4 1"
definition FDCAN_CCCR_MON :: u32 where "FDCAN_CCCR_MON = push_bit 5 1"
definition FDCAN_CCCR_DAR :: u32 where "FDCAN_CCCR_DAR = push_bit 6 1"
definition FDCAN_CCCR_TEST :: u32 where "FDCAN_CCCR_TEST = push_bit 7 1"
definition FDCAN_CCCR_FDOE :: u32 where "FDCAN_CCCR_FDOE = push_bit 8 1"
definition FDCAN_CCCR_BRSE :: u32 where "FDCAN_CCCR_BRSE = push_bit 9 1"
definition FDCAN_CCCR_PXHD :: u32 where "FDCAN_CCCR_PXHD = push_bit 12 1"
definition FDCAN_CCCR_TXP :: u32 where "FDCAN_CCCR_TXP = push_bit 14 1"
definition FDCAN_CCCR_NISO :: u32 where "FDCAN_CCCR_NISO = push_bit 15 1"
definition FDCAN_TEST_LBCK :: u32 where "FDCAN_TEST_LBCK = push_bit 4 1"
definition FDCAN_TXBC_TFQM :: u32 where "FDCAN_TXBC_TFQM = push_bit 30 1"
definition FDCAN_XIDFC_LSE :: u32 where "FDCAN_XIDFC_LSE = push_bit 16 0x7F"
definition FDCAN_SIDFC_LSS :: u32 where "FDCAN_SIDFC_LSS = push_bit 16 0xFF"
definition FDCAN_GFC_RRFE :: u32 where "FDCAN_GFC_RRFE = push_bit 0 1"
definition FDCAN_GFC_RRFS :: u32 where "FDCAN_GFC_RRFS = push_bit 1 1"
definition FDCAN_GFC_ANFE :: u32 where "FDCAN_GFC_ANFE = push_bit 2 3"
definition FDCAN_GFC_ANFS :: u32 where "FDCAN_GFC_ANFS = push_bit 4 3"
definition FDCAN_RXF0C_F0OM :: u32 where "FDCAN_RXF0C_F0OM = push_bit 31 1"
definition FDCAN_ILE_EINT0 :: u32 where "FDCAN_ILE_EINT0 = push_bit 0 1"
definition FDCAN_ILE_EINT1 :: u32 where "FDCAN_ILE_EINT1 = push_bit 1 1"
definition FDCAN_IE_RF0NE :: u32 where "FDCAN_IE_RF0NE = push_bit 0 1"
definition FDCAN_IE_RF0LE :: u32 where "FDCAN_IE_RF0LE = push_bit 3 1"
definition FDCAN_IE_TFEE :: u32 where "FDCAN_IE_TFEE = push_bit 11 1"
definition FDCAN_IE_EPE :: u32 where "FDCAN_IE_EPE = push_bit 23 1"
definition FDCAN_IE_BOE :: u32 where "FDCAN_IE_BOE = push_bit 25 1"
definition FDCAN_IE_PEAE :: u32 where "FDCAN_IE_PEAE = push_bit 27 1"
definition FDCAN_IE_PEDE :: u32 where "FDCAN_IE_PEDE = push_bit 28 1"
definition FDCAN_ILS_TFEL :: u32 where "FDCAN_ILS_TFEL = push_bit 11 1"

definition FDCAN_OFFSET_W :: u32 where "FDCAN_OFFSET_W = 846"
definition FDCAN_RX_FIFO_0_EL_CNT :: u32 where "FDCAN_RX_FIFO_0_EL_CNT = 46"
definition FDCAN_RX_FIFO_0_EL_W_SIZE :: u32 where "FDCAN_RX_FIFO_0_EL_W_SIZE = 72 div 4"
definition FDCAN_RX_FIFO_0_OFFSET :: u32 where "FDCAN_RX_FIFO_0_OFFSET = 0"
definition FDCAN_TX_FIFO_EL_CNT :: u32 where "FDCAN_TX_FIFO_EL_CNT = 1"
definition FDCAN_TX_FIFO_OFFSET :: u32 where
  "FDCAN_TX_FIFO_OFFSET = FDCAN_RX_FIFO_0_OFFSET + (FDCAN_RX_FIFO_0_EL_CNT * FDCAN_RX_FIFO_0_EL_W_SIZE)"

section \<open>Entering and leaving the initialisation\<close>

definition CAN_INIT_TIMEOUT_MS :: nat where "CAN_INIT_TIMEOUT_MS = 500"

text \<open>The loop polls until the flag is as requested; \<open>n\<close> polls are left of those the timeout allows.\<close>

fun fdcan_wait :: "(nat \<Rightarrow> bool) \<Rightarrow> nat \<Rightarrow> nat \<Rightarrow> bool" where
  "fdcan_wait reached timeout_counter 0 = False"
| "fdcan_wait reached timeout_counter (Suc n) =
     (if reached timeout_counter then True else fdcan_wait reached (Suc timeout_counter) n)"

text \<open>
  The wait for the core to leave its clock stop has no timeout. \<open>None\<close>: the program waits forever.
\<close>

partial_function (option) csa_wait :: "(nat \<Rightarrow> bool) \<Rightarrow> nat \<Rightarrow> nat option" where
  "csa_wait cleared n = (if cleared n then Some n else csa_wait cleared (Suc n))"

definition fdcan_request_init :: "core_behaviour \<Rightarrow> fdcan \<Rightarrow> (bool \<times> fdcan) option" where
  "fdcan_request_init hw c =
     (let c = c\<lparr>CCCR := CCCR c AND NOT FDCAN_CCCR_CSR\<rparr>
      in case csa_wait (csa_clear_at hw c) 0 of
          None \<Rightarrow> None
        | Some _ \<Rightarrow>
            (let c = c\<lparr>CCCR := CCCR c OR FDCAN_CCCR_INIT\<rparr>
             in Some (fdcan_wait (init_set_at hw c) 0 CAN_INIT_TIMEOUT_MS, c)))"

definition fdcan_exit_init :: "core_behaviour \<Rightarrow> fdcan \<Rightarrow> bool \<times> fdcan" where
  "fdcan_exit_init hw c =
     (let c = c\<lparr>CCCR := CCCR c AND NOT FDCAN_CCCR_INIT\<rparr>
      in (fdcan_wait (init_clear_at hw c) 0 CAN_INIT_TIMEOUT_MS, c))"

section \<open>Bit timing\<close>

definition speeds :: "u32 list" where
  "speeds = [100, 200, 500, 1000, 1250, 2500, 5000, 10000]"

definition data_speeds :: "u32 list" where
  "data_speeds = [100, 200, 500, 1000, 1250, 2500, 5000, 10000, 20000, 50000]"

definition CAN_PCLK :: u32 where "CAN_PCLK = 80000"
definition BITRATE_PRESCALER :: u32 where "BITRATE_PRESCALER = 2"
definition CAN_SP_NOMINAL :: u32 where "CAN_SP_NOMINAL = 80"
definition CAN_SP_DATA_2M :: u32 where "CAN_SP_DATA_2M = 80"
definition CAN_SP_DATA_5M :: u32 where "CAN_SP_DATA_5M = 75"

definition CAN_QUANTA :: "u32 \<Rightarrow> u32 \<Rightarrow> u32" where
  "CAN_QUANTA speed prescaler = CAN_PCLK div (speed div 10 * prescaler)"

definition CAN_SEG1 :: "u32 \<Rightarrow> u32 \<Rightarrow> u32" where
  "CAN_SEG1 tq sp = (tq * sp div 100) - 1"

definition CAN_SEG2 :: "u32 \<Rightarrow> u32 \<Rightarrow> u32" where
  "CAN_SEG2 tq sp = tq * (100 - sp) div 100"

definition nominal_prescaler :: "u32 \<Rightarrow> u8" where
  "nominal_prescaler speed =
     (if speed < 2500 then ucast (BITRATE_PRESCALER * 16) else ucast BITRATE_PRESCALER)"

definition NBTP_value :: "u32 \<Rightarrow> u8 \<Rightarrow> u32" where
  "NBTP_value speed prescaler =
     (let tq = CAN_QUANTA speed (ucast prescaler);
          sp = CAN_SP_NOMINAL;
          seg1 = CAN_SEG1 tq sp;
          seg2 = CAN_SEG2 tq sp;
          sjw = (ucast (MIN_m 127 seg2) :: u8)
      in push_bit 25 ((ucast sjw AND 0x7F) - 1) OR push_bit 8 ((seg1 AND 0xFF) - 1) OR
         push_bit 0 ((seg2 AND 0x7F) - 1) OR push_bit 16 ((ucast prescaler AND 0x1FF) - 1))"

definition DBTP_value :: "u32 \<Rightarrow> u8 \<Rightarrow> u32" where
  "DBTP_value data_speed prescaler =
     (let sp = (if data_speed = 50000 then CAN_SP_DATA_5M else CAN_SP_DATA_2M);
          tq = CAN_QUANTA data_speed (ucast prescaler);
          seg1 = CAN_SEG1 tq sp;
          seg2 = CAN_SEG2 tq sp;
          sjw = (ucast (MIN_m 15 seg2) :: u8)
      in push_bit 0 ((ucast sjw AND 0xF) - 1) OR push_bit 8 ((seg1 AND 0x1F) - 1) OR
         push_bit 4 ((seg2 AND 0xF) - 1) OR push_bit 16 ((ucast prescaler AND 0x1F) - 1))"

definition llcan_set_speed ::
  "core_behaviour \<Rightarrow> u32 \<Rightarrow> u32 \<Rightarrow> bool \<Rightarrow> bool \<Rightarrow> bool \<Rightarrow> fdcan \<Rightarrow> (bool \<times> fdcan) option" where
  "llcan_set_speed hw speed data_speed non_iso loopback silent c =
     (case fdcan_request_init hw c of
        None \<Rightarrow> None
      | Some (ret, c) \<Rightarrow>
         if ret
         then let c = c\<lparr>CCCR := CCCR c OR FDCAN_CCCR_CCE\<rparr>;
                  c = c\<lparr>CCCR := CCCR c AND NOT FDCAN_CCCR_TEST\<rparr>;
                  c = c\<lparr>TEST := TEST c AND NOT FDCAN_TEST_LBCK\<rparr>;
                  c = c\<lparr>CCCR := CCCR c AND NOT FDCAN_CCCR_MON\<rparr>;
                  c = c\<lparr>CCCR := CCCR c AND NOT FDCAN_CCCR_ASM\<rparr>;
                  c = c\<lparr>CCCR := CCCR c AND NOT FDCAN_CCCR_NISO\<rparr>;
                  prescaler = nominal_prescaler speed;
                  c = c\<lparr>NBTP := NBTP_value speed prescaler\<rparr>;
                  c = c\<lparr>DBTP := DBTP_value data_speed prescaler\<rparr>;
                  c = (if non_iso then c\<lparr>CCCR := CCCR c OR FDCAN_CCCR_NISO\<rparr> else c);
                  c = (if loopback
                       then c\<lparr>CCCR := CCCR c OR FDCAN_CCCR_TEST OR FDCAN_CCCR_MON,
                              TEST := TEST c OR FDCAN_TEST_LBCK\<rparr> else c);
                  c = (if silent then c\<lparr>CCCR := CCCR c OR FDCAN_CCCR_MON\<rparr> else c)
              in Some (fdcan_exit_init hw c)
         else Some (ret, c))"

section \<open>Setup\<close>

definition llcan_irq_disable :: "fdcan \<Rightarrow> fdcan" where
  "llcan_irq_disable c = c\<lparr>irq_enabled := False\<rparr>"

definition llcan_irq_enable :: "fdcan \<Rightarrow> fdcan" where
  "llcan_irq_enable c = c\<lparr>irq_enabled := True\<rparr>"

definition llcan_init :: "core_behaviour \<Rightarrow> u8 \<Rightarrow> fdcan \<Rightarrow> (bool \<times> fdcan) option" where
  "llcan_init hw can_number c =
     (case fdcan_request_init hw c of
        None \<Rightarrow> None
      | Some (ret, c) \<Rightarrow>
         if ret
         then let c = c\<lparr>CCCR := CCCR c OR FDCAN_CCCR_CCE\<rparr>;
                  c = c\<lparr>CCCR := CCCR c AND NOT FDCAN_CCCR_DAR\<rparr>;
                  c = c\<lparr>CCCR := CCCR c OR FDCAN_CCCR_TXP\<rparr>;
                  c = c\<lparr>CCCR := CCCR c OR FDCAN_CCCR_PXHD\<rparr>;
                  c = c\<lparr>CCCR := CCCR c OR (FDCAN_CCCR_FDOE OR FDCAN_CCCR_BRSE)\<rparr>;
                  c = c\<lparr>TXBC := TXBC c AND NOT FDCAN_TXBC_TFQM\<rparr>;
                  c = c\<lparr>TXESC := TXESC c OR 0x7\<rparr>;
                  c = c\<lparr>RXESC := RXESC c OR 0x7\<rparr>;
                  c = c\<lparr>XIDFC := XIDFC c AND NOT FDCAN_XIDFC_LSE\<rparr>;
                  c = c\<lparr>SIDFC := SIDFC c AND NOT FDCAN_SIDFC_LSS\<rparr>;
                  c = c\<lparr>GFC := GFC c AND NOT FDCAN_GFC_RRFE AND NOT FDCAN_GFC_RRFS AND
                     NOT FDCAN_GFC_ANFE AND NOT FDCAN_GFC_ANFS\<rparr>;
                  c = c\<lparr>RXF0C := RXF0C c OR
                     push_bit 2 (FDCAN_RX_FIFO_0_OFFSET + ucast can_number * FDCAN_OFFSET_W)\<rparr>;
                  c = c\<lparr>RXF0C := RXF0C c OR push_bit 16 FDCAN_RX_FIFO_0_EL_CNT\<rparr>;
                  c = c\<lparr>RXF0C := RXF0C c OR FDCAN_RXF0C_F0OM\<rparr>;
                  c = c\<lparr>TXBC := TXBC c OR
                     push_bit 2 (FDCAN_TX_FIFO_OFFSET + ucast can_number * FDCAN_OFFSET_W)\<rparr>;
                  c = c\<lparr>TXBC := TXBC c OR push_bit 24 FDCAN_TX_FIFO_EL_CNT\<rparr>;
                  c = c\<lparr>rx_elements := replicate (unat FDCAN_RX_FIFO_0_EL_CNT) canfd_fifo_0\<rparr>;
                  c = c\<lparr>ILE := FDCAN_ILE_EINT0 OR FDCAN_ILE_EINT1\<rparr>;
                  c = c\<lparr>IE := 0\<rparr>;
                  c = c\<lparr>IE := IE c OR FDCAN_IE_RF0NE\<rparr>;
                  c = c\<lparr>IE := IE c OR (FDCAN_IE_PEDE OR FDCAN_IE_PEAE OR FDCAN_IE_BOE OR FDCAN_IE_EPE OR FDCAN_IE_RF0LE)\<rparr>;
                  c = c\<lparr>ILS := ILS c OR FDCAN_ILS_TFEL\<rparr>;
                  c = c\<lparr>IE := IE c OR FDCAN_IE_TFEE\<rparr>;
                  (ret, c) = fdcan_exit_init hw c
              in Some (ret, llcan_irq_enable c)
         else Some (ret, c))"

definition llcan_clear_send :: "core_behaviour \<Rightarrow> u8 \<Rightarrow> fdcan \<Rightarrow> fdcan option" where
  "llcan_clear_send hw can_number c =
     (let c = write_IR hw (IR c OR 0x3FCFFFFF) c
      in map_option snd (llcan_init hw can_number c))"

section \<open>The wait without a timeout\<close>

lemma csa_wait_ends: "cleared k \<Longrightarrow> n \<le> k \<Longrightarrow> csa_wait cleared n \<noteq> None"
proof (induction "k - n" arbitrary: n)
  case 0
  then show ?case by (simp add: csa_wait.simps)
next
  case (Suc d)
  then have "csa_wait cleared (Suc n) \<noteq> None" by simp
  then show ?case by (subst csa_wait.simps) simp
qed

text \<open>What the code relies on: a core asked to leave its clock stop leaves it at some time.\<close>

definition core_restarts :: "core_behaviour \<Rightarrow> bool" where
  "core_restarts hw \<longleftrightarrow> (\<forall>c. \<exists>n. csa_clear_at hw c n)"

lemma request_init_ends:
  assumes "core_restarts hw"
  shows "fdcan_request_init hw c \<noteq> None"
proof -
  obtain n where n: "csa_clear_at hw (c\<lparr>CCCR := CCCR c AND NOT FDCAN_CCCR_CSR\<rparr>) n"
    using assms unfolding core_restarts_def by blast
  show ?thesis using csa_wait_ends [of "csa_clear_at hw (c\<lparr>CCCR := CCCR c AND NOT FDCAN_CCCR_CSR\<rparr>)" n 0, OF n]
    by (auto simp: fdcan_request_init_def Let_def split: option.split)
qed

lemma setup_ends:
  assumes "core_restarts hw"
  shows "llcan_set_speed hw speed data_speed non_iso loopback silent c \<noteq> None" "llcan_init hw can_number c \<noteq> None"
    "llcan_clear_send hw can_number c \<noteq> None"
  using request_init_ends [OF assms]
  by (auto simp: llcan_set_speed_def llcan_init_def llcan_clear_send_def Let_def split: option.splits prod.splits)

section \<open>The timing the registers encode\<close>

text \<open>
  A core divides its clock by the prescaler and spends one quantum, the first segment and the
  second segment on a bit; each field holds its value minus one.
\<close>

definition bit_field :: "nat \<Rightarrow> nat \<Rightarrow> u32 \<Rightarrow> nat" where
  "bit_field pos width reg = unat (drop_bit pos reg AND mask width) + 1"

definition nominal_rate_ok :: "u32 \<Rightarrow> u32 \<Rightarrow> bool" where
  "nominal_rate_ok speed reg \<longleftrightarrow>
     unat (speed div 10) * (bit_field 16 9 reg * (1 + bit_field 8 8 reg + bit_field 0 7 reg)) = unat CAN_PCLK \<and>
     bit_field 25 7 reg \<le> bit_field 0 7 reg"

definition data_rate_ok :: "u32 \<Rightarrow> u32 \<Rightarrow> bool" where
  "data_rate_ok data_speed reg \<longleftrightarrow>
     unat (data_speed div 10) * (bit_field 16 5 reg * (1 + bit_field 8 5 reg + bit_field 4 4 reg)) = unat CAN_PCLK \<and>
     bit_field 0 4 reg \<le> bit_field 4 4 reg"

text \<open>Every bit rate the host may choose is met exactly.\<close>

lemmas timing_defs = NBTP_value_def DBTP_value_def nominal_prescaler_def BITRATE_PRESCALER_def CAN_QUANTA_def
  CAN_PCLK_def CAN_SEG1_def CAN_SEG2_def CAN_SP_NOMINAL_def CAN_SP_DATA_2M_def CAN_SP_DATA_5M_def

lemmas rate_defs = nominal_rate_ok_def data_rate_ok_def bit_field_def mask_eq_exp_minus_1

lemma nominal_rates:
  "nominal_rate_ok 100 (NBTP_value 100 (nominal_prescaler 100))"
  "nominal_rate_ok 200 (NBTP_value 200 (nominal_prescaler 200))"
  "nominal_rate_ok 500 (NBTP_value 500 (nominal_prescaler 500))"
  "nominal_rate_ok 1000 (NBTP_value 1000 (nominal_prescaler 1000))"
  "nominal_rate_ok 1250 (NBTP_value 1250 (nominal_prescaler 1250))"
  "nominal_rate_ok 2500 (NBTP_value 2500 (nominal_prescaler 2500))"
  "nominal_rate_ok 5000 (NBTP_value 5000 (nominal_prescaler 5000))"
  "nominal_rate_ok 10000 (NBTP_value 10000 (nominal_prescaler 10000))"
  by (simp add: timing_defs rate_defs Let_def)+

lemma nominal_timing: "speed \<in> set speeds \<Longrightarrow> nominal_rate_ok speed (NBTP_value speed (nominal_prescaler speed))"
  by (auto simp: speeds_def nominal_rates)

text \<open>
  The prescaler is chosen for the nominal rate and serves both phases. The data rates that come out exact
  are those from 1 Mbit/s with a nominal rate of 250 kbit/s or more, and those from 100 to 500 kbit/s below;
  the segments of the others overflow their fields or are not whole.
\<close>

definition data_rate_served :: "u32 \<Rightarrow> u32 \<Rightarrow> bool" where
  "data_rate_served speed data_speed \<longleftrightarrow>
     (if speed < 2500 then 1000 \<le> data_speed \<and> data_speed \<le> 5000 else 10000 \<le> data_speed)"

lemma data_rates_slow:
  "\<not> data_rate_ok 100 (DBTP_value 100 32)"
  "\<not> data_rate_ok 200 (DBTP_value 200 32)"
  "\<not> data_rate_ok 500 (DBTP_value 500 32)"
  "data_rate_ok 1000 (DBTP_value 1000 32)"
  "data_rate_ok 1250 (DBTP_value 1250 32)"
  "data_rate_ok 2500 (DBTP_value 2500 32)"
  "data_rate_ok 5000 (DBTP_value 5000 32)"
  "\<not> data_rate_ok 10000 (DBTP_value 10000 32)"
  "\<not> data_rate_ok 20000 (DBTP_value 20000 32)"
  "\<not> data_rate_ok 50000 (DBTP_value 50000 32)"
  by (simp add: timing_defs rate_defs Let_def)+

lemma data_rates_fast:
  "\<not> data_rate_ok 100 (DBTP_value 100 2)"
  "\<not> data_rate_ok 200 (DBTP_value 200 2)"
  "\<not> data_rate_ok 500 (DBTP_value 500 2)"
  "\<not> data_rate_ok 1000 (DBTP_value 1000 2)"
  "\<not> data_rate_ok 1250 (DBTP_value 1250 2)"
  "\<not> data_rate_ok 2500 (DBTP_value 2500 2)"
  "\<not> data_rate_ok 5000 (DBTP_value 5000 2)"
  "data_rate_ok 10000 (DBTP_value 10000 2)"
  "data_rate_ok 20000 (DBTP_value 20000 2)"
  "data_rate_ok 50000 (DBTP_value 50000 2)"
  by (simp add: timing_defs rate_defs Let_def)+

lemma data_timing:
  assumes "data_speed \<in> set data_speeds"
  shows "data_rate_ok data_speed (DBTP_value data_speed (nominal_prescaler speed)) \<longleftrightarrow> data_rate_served speed data_speed"
proof (cases "speed < 2500")
  case True
  then have "nominal_prescaler speed = 32" by (simp add: nominal_prescaler_def BITRATE_PRESCALER_def)
  then show ?thesis using True assms data_rates_slow by (auto simp: data_rate_served_def data_speeds_def)
next
  case False
  then have "nominal_prescaler speed = 2" by (simp add: nominal_prescaler_def BITRATE_PRESCALER_def)
  then show ?thesis using False assms data_rates_fast by (auto simp: data_rate_served_def data_speeds_def)
qed

text \<open>
  The slow prescaler is 32 and does not fit its mask: the field underflows and sets every bit above it, the
  transmitter delay compensation and the reserved bits among them.
\<close>

lemma slow_prescaler_overflows:
  "data_speed \<in> set data_speeds \<Longrightarrow> bit (DBTP_value data_speed 32) 23"
  by (auto simp: data_speeds_def timing_defs Let_def bit_or_iff bit_not_iff bit_mask_iff)

end
