(* ===== verification/Float32.thy ===== *)
theory Float32
  imports Prelude Complex_Main
begin

text \<open>
  The single precision arithmetic of the firmware. Both targets are built with
  \<^verbatim>\<open>-mhard-float -fsingle-precision-constant\<close> (\<^verbatim>\<open>SConscript\<close>), so
  every literal is a \<open>float\<close> and every operation is carried out in IEEE binary32. A
  float is modelled by the rational it denotes and \<open>fl\<close> rounds an exact result to
  the nearest binary32 value, ties to even, subnormals included. Values beyond the largest
  finite float, NaN and the infinities are not represented: no operation of the
  modelled code comes near them. Each operation rounds on its own (no contraction into
  fused multiply-add).
\<close>

section \<open>Rounding\<close>

fun bit_len :: "nat \<Rightarrow> nat" where
  "bit_len n = (if n = 0 then 0 else Suc (bit_len (n div 2)))"

declare bit_len.simps [simp del]

text \<open>The exponent \<open>e\<close> with \<open>2 ^ e \<le> \<bar>x\<bar> < 2 ^ (e + 1)\<close>.\<close>

definition float_exp :: "rat \<Rightarrow> int" where
  "float_exp x =
     (let (p, q) = quotient_of \<bar>x\<bar>;
          e = int (bit_len (nat p)) - int (bit_len (nat q))
      in if 2 powi e \<le> \<bar>x\<bar> then e else e - 1)"

definition round_even :: "rat \<Rightarrow> int" where
  "round_even x =
     (let f = floor x; r = x - of_int f
      in if r < 1 / 2 then f
         else if r > 1 / 2 then f + 1
         else if even f then f else f + 1)"

definition float_quantum :: "rat \<Rightarrow> int" where
  "float_quantum x = max (float_exp x - 23) (- 149)"

definition fl :: "rat \<Rightarrow> rat" where
  "fl x = (if x = 0 then 0
           else of_int (round_even (x / 2 powi (float_quantum x))) * 2 powi (float_quantum x))"

text \<open>Conversions: \<open>int\<close> to \<open>float\<close>, and \<open>float\<close> to \<open>int\<close>, which truncates.\<close>

definition float_of_int :: "int \<Rightarrow> rat" where
  "float_of_int i = fl (of_int i)"

definition int_of_float :: "rat \<Rightarrow> int" where
  "int_of_float x = (if x \<ge> 0 then floor x else ceiling x)"

section \<open>The exponent\<close>

lemma bit_len_bounds: "n > 0 \<Longrightarrow> 2 ^ (bit_len n - 1) \<le> n \<and> n < 2 ^ bit_len n \<and> 0 < bit_len n"
proof (induction n rule: bit_len.induct)
  case (1 n)
  show ?case
  proof (cases "n div 2 = 0")
    case True
    with "1.prems" have "n = 1" by simp
    then show ?thesis by (simp add: bit_len.simps)
  next
    case False
    then have IH: "2 ^ (bit_len (n div 2) - 1) \<le> n div 2" "n div 2 < 2 ^ bit_len (n div 2)"
      "0 < bit_len (n div 2)" using "1.IH" "1.prems" by auto
    then obtain k where k: "bit_len (n div 2) = Suc k" using gr0_implies_Suc by blast
    have "bit_len n = Suc (Suc k)" using "1.prems" k by (simp add: bit_len.simps [of n])
    moreover have "2 ^ k \<le> n div 2" "n div 2 < 2 * 2 ^ k" using IH k by simp_all
    moreover have "2 * (n div 2) \<le> n" "n < 2 * (n div 2) + 2" by simp_all
    ultimately show ?thesis by (simp del: div_le_dividend)
  qed
qed

lemma float_exp_bounds:
  assumes "x \<noteq> 0"
  shows "2 powi (float_exp x) \<le> \<bar>x\<bar>" and "\<bar>x\<bar> < 2 powi (float_exp x + 1)"
proof -
  obtain p q where pq: "quotient_of \<bar>x\<bar> = (p, q)" by fastforce
  then have q: "q > 0" and xq: "\<bar>x\<bar> = of_int p / of_int q"
    by (simp_all add: quotient_of_denom_pos quotient_of_div)
  have "0 < (of_int p / of_int q :: rat)" using assms xq by (metis zero_less_abs_iff)
  then have p: "p > 0" using q by (simp add: zero_less_divide_iff)
  define a b where "a = bit_len (nat p)" and "b = bit_len (nat q)"
  have A: "2 ^ (a - 1) \<le> nat p" "nat p < 2 ^ a" "0 < a"
    and B: "2 ^ (b - 1) \<le> nat q" "nat q < 2 ^ b" "0 < b"
    using bit_len_bounds [of "nat p"] bit_len_bounds [of "nat q"] p q
    by (simp_all add: a_def b_def)
  have pr: "(2 powi (int a - 1) :: rat) \<le> of_int p" "(of_int p :: rat) < 2 powi (int a)"
    and qr: "(2 powi (int b - 1) :: rat) \<le> of_int q" "(of_int q :: rat) < 2 powi (int b)"
  proof -
    have *: "(2 powi (int n - 1) :: rat) \<le> of_nat m \<and> (of_nat m :: rat) < 2 powi (int n)"
      if "2 ^ (n - 1) \<le> m" "m < 2 ^ n" "0 < n" for n m
    proof -
      have "(of_nat (2 ^ (n - 1)) :: rat) \<le> of_nat m" "(of_nat m :: rat) < of_nat (2 ^ n)"
        using that by (simp_all only: of_nat_le_iff of_nat_less_iff)
      moreover have "int n - 1 = int (n - 1)" using that by simp
      ultimately show ?thesis by (simp add: power_int_of_nat del: of_nat_diff)
    qed
    have pn: "(of_int p :: rat) = of_nat (nat p)" and qn: "(of_int q :: rat) = of_nat (nat q)"
      using p q by simp_all
    show "(2 powi (int a - 1) :: rat) \<le> of_int p" "(of_int p :: rat) < 2 powi (int a)"
      "(2 powi (int b - 1) :: rat) \<le> of_int q" "(of_int q :: rat) < 2 powi (int b)"
      using * [OF A] * [OF B] unfolding pn qn by auto
  qed
  have qpos: "(0 :: rat) < of_int q" using q by simp
  define e where "e = int a - int b"
  have lo: "2 powi (e - 1) \<le> \<bar>x\<bar>"
  proof -
    have "(2 powi (e - 1) :: rat) * of_int q \<le> 2 powi (e - 1) * 2 powi (int b)"
      using qr(2) by (intro mult_left_mono) simp_all
    also have "\<dots> = 2 powi (int a - 1)"
      by (subst power_int_add [symmetric]) (simp_all add: e_def)
    also have "\<dots> \<le> of_int p" by (rule pr)
    finally show ?thesis using qpos by (simp add: xq field_simps)
  qed
  have hi: "\<bar>x\<bar> < 2 powi (e + 1)"
  proof -
    have "(of_int p :: rat) < 2 powi (int a)" by (rule pr)
    also have "\<dots> = 2 powi (e + 1) * 2 powi (int b - 1)"
      by (subst power_int_add [symmetric]) (simp_all add: e_def)
    also have "\<dots> \<le> 2 powi (e + 1) * of_int q"
      using qr(1) by (intro mult_left_mono) simp_all
    finally show ?thesis using qpos by (simp add: xq field_simps)
  qed
  have fe: "float_exp x = (if 2 powi e \<le> \<bar>x\<bar> then e else e - 1)"
    by (simp add: float_exp_def pq a_def b_def e_def Let_def)
  show "2 powi (float_exp x) \<le> \<bar>x\<bar>" using lo by (simp add: fe)
  show "\<bar>x\<bar> < 2 powi (float_exp x + 1)" using hi by (auto simp: fe)
qed


section \<open>Rounding to an integer\<close>

lemma round_even_of_int [simp]: "round_even (of_int i) = i"
  by (simp add: round_even_def)

lemma round_even_near: "\<bar>of_int (round_even x) - x\<bar> \<le> 1 / 2"
proof -
  have "of_int (floor x) \<le> x" "x < of_int (floor x) + 1" by linarith+
  then show ?thesis unfolding round_even_def Let_def abs_if
    by (cases "even (floor x)") (simp_all split: if_splits, linarith+)
qed

lemma round_even_mono: "x \<le> y \<Longrightarrow> round_even x \<le> round_even y"
proof -
  assume xy: "x \<le> y"
  then have "floor x \<le> floor y" by (rule floor_mono)
  then consider "floor x = floor y" | "floor x + 1 \<le> floor y" by linarith
  then show ?thesis
  proof cases
    case 1
    then show ?thesis using xy by (auto simp: round_even_def Let_def)
  next
    case 2
    have "round_even x \<le> floor x + 1" "floor y \<le> round_even y"
      by (auto simp: round_even_def Let_def)
    with 2 show ?thesis by linarith
  qed
qed

lemma round_even_minus: "round_even (- x) = - round_even x"
proof (cases "x = of_int (floor x)")
  case True
  then have "- x = of_int (- floor x)" by simp
  with True show ?thesis by (metis round_even_of_int)
next
  case False
  have b: "of_int (floor x) \<le> x" "x < of_int (floor x) + 1" by linarith+
  with False have "of_int (floor x) < x" by (metis order_le_imp_less_or_eq)
  with b have "floor (- x) = - floor x - 1" by linarith
  then show ?thesis by (auto simp: round_even_def Let_def)
qed

section \<open>Rounding to a float\<close>

lemma float_exp_minus [simp]: "float_exp (- x) = float_exp x"
  by (simp add: float_exp_def)

lemma float_quantum_minus [simp]: "float_quantum (- x) = float_quantum x"
  by (simp add: float_quantum_def)

lemma fl_0 [simp]: "fl 0 = 0"
  by (simp add: fl_def)

lemma fl_minus: "fl (- x) = - fl x"
  by (simp add: fl_def round_even_minus)

lemma fl_nonneg: "0 \<le> x \<Longrightarrow> 0 \<le> fl x"
  using round_even_mono [of 0 "x / 2 powi (float_quantum x)"] round_even_of_int [of 0]
  by (simp add: fl_def)

lemma float_exp_mono: "0 < x \<Longrightarrow> x \<le> y \<Longrightarrow> float_exp x \<le> float_exp y"
proof (rule ccontr)
  assume a: "0 < x" "x \<le> y" "\<not> float_exp x \<le> float_exp y"
  then have "(2 powi (float_exp y + 1) :: rat) \<le> 2 powi (float_exp x)"
    by (intro power_int_increasing) simp_all
  also have "\<dots> \<le> \<bar>x\<bar>" using a by (intro float_exp_bounds) simp
  also have "\<bar>x\<bar> \<le> \<bar>y\<bar>" using a by simp
  also have "\<bar>y\<bar> < 2 powi (float_exp y + 1)" using a by (intro float_exp_bounds) simp
  finally show False by simp
qed

lemma fl_pos_mono:
  assumes "0 < x" and "x \<le> y"
  shows "fl x \<le> fl y"
proof -
  define qx qy where "qx = float_quantum x" and "qy = float_quantum y"
  have y: "0 < y" using assms by simp
  have fx: "fl x = of_int (round_even (x / 2 powi qx)) * 2 powi qx"
    and fy: "fl y = of_int (round_even (y / 2 powi qy)) * 2 powi qy"
    using assms y by (simp_all add: fl_def qx_def qy_def)
  have "qx \<le> qy" using float_exp_mono [OF assms] by (simp add: qx_def qy_def float_quantum_def)
  then consider "qx = qy" | "qx < qy" by linarith
  then show ?thesis
  proof cases
    case 1
    have "x / 2 powi qx \<le> y / 2 powi qx" using assms by (simp add: divide_right_mono)
    then have "round_even (x / 2 powi qx) \<le> round_even (y / 2 powi qx)" by (rule round_even_mono)
    then show ?thesis by (simp add: fx fy 1 mult_right_mono)
  next
    case 2
    define e where "e = float_exp y"
    have qy: "qy = e - 23" and ex: "float_exp x + 1 \<le> e" and qe: "qx \<le> e"
      using 2 by (auto simp: qx_def qy_def e_def float_quantum_def split: if_splits)
    have "\<bar>x\<bar> < 2 powi (float_exp x + 1)" using assms by (intro float_exp_bounds) simp
    also have "\<dots> \<le> 2 powi e" using ex by (intro power_int_increasing) simp_all
    finally have "x / 2 powi qx \<le> 2 powi e / 2 powi qx" using assms by (simp add: divide_right_mono)
    also have "\<dots> = 2 powi (e - qx)" by (simp add: power_int_diff)
    also have "\<dots> = of_int (2 ^ nat (e - qx))" using qe by (simp add: power_int_def)
    finally have "round_even (x / 2 powi qx) \<le> 2 ^ nat (e - qx)"
      using round_even_mono round_even_of_int by metis
    then have "(of_int (round_even (x / 2 powi qx)) :: rat) \<le> of_int (2 ^ nat (e - qx))"
      by (simp only: of_int_le_iff)
    also have "\<dots> = 2 powi (e - qx)" using qe by (simp add: power_int_def)
    finally have "fl x \<le> 2 powi (e - qx) * 2 powi qx" by (simp add: fx mult_right_mono)
    also have "\<dots> = 2 powi e" by (subst power_int_add [symmetric]) simp_all
    finally have 1: "fl x \<le> 2 powi e" .
    have "2 powi e \<le> \<bar>y\<bar>" unfolding e_def using y by (intro float_exp_bounds) simp
    then have "(2 powi e / 2 powi qy :: rat) \<le> y / 2 powi qy" using y by (simp add: divide_right_mono)
    moreover have "(2 powi e / 2 powi qy :: rat) = of_int (2 ^ 23)"
      by (simp add: power_int_diff [symmetric] qy)
    ultimately have "2 ^ 23 \<le> round_even (y / 2 powi qy)"
      using round_even_mono round_even_of_int by metis
    then have "(of_int (2 ^ 23) :: rat) \<le> of_int (round_even (y / 2 powi qy))"
      by (simp only: of_int_le_iff)
    then have "(2 ^ 23 * 2 powi qy :: rat) \<le> fl y" by (simp add: fy mult_right_mono)
    moreover have "(2 ^ 23 * 2 powi qy :: rat) = 2 powi e"
      using power_int_add [of "2 :: rat" 23 qy] by (simp add: qy)
    ultimately show ?thesis using 1 by simp
  qed
qed

lemma fl_mono: "x \<le> y \<Longrightarrow> fl x \<le> fl y"
proof -
  assume xy: "x \<le> y"
  consider "0 < x" | "x \<le> 0" "0 \<le> y" | "y < 0" by linarith
  then show ?thesis
  proof cases
    case 1
    then show ?thesis using xy by (rule fl_pos_mono)
  next
    case 2
    then show ?thesis using fl_nonneg [of y] fl_nonneg [of "- x"] by (simp add: fl_minus)
  next
    case 3
    then show ?thesis using fl_pos_mono [of "- y" "- x"] xy by (simp add: fl_minus)
  qed
qed

text \<open>A value with at most 24 significant bits is a float and is not changed.\<close>

lemma fl_exact:
  assumes "x = of_int m * 2 powi k" and "\<bar>m\<bar> < 2 ^ 24" and "- 149 \<le> k"
  shows "fl x = x"
proof (cases "m = 0")
  case False
  have x: "x \<noteq> 0" using assms False by simp
  have "(2 powi (float_exp x) :: rat) \<le> \<bar>x\<bar>" using x by (rule float_exp_bounds)
  also have "\<dots> = of_int \<bar>m\<bar> * 2 powi k" by (simp add: assms(1) abs_mult)
  also have "\<dots> < of_int (2 ^ 24) * 2 powi k"
    using assms(2) by (intro mult_strict_right_mono) (simp_all only: of_int_less_iff, simp)
  also have "\<dots> = 2 powi (24 + k)" by (simp add: power_int_add)
  finally have "(2 powi (float_exp x) :: rat) < 2 powi (24 + k)" .
  then have "float_exp x < 24 + k"
    by (metis linorder_not_less one_le_numeral power_int_increasing)
  then have q: "float_quantum x \<le> k" using assms(3) by (simp add: float_quantum_def)
  define d where "d = nat (k - float_quantum x)"
  have "x / 2 powi (float_quantum x) = of_int m * 2 powi (k - float_quantum x)"
    by (simp add: assms(1) power_int_diff)
  also have "\<dots> = of_int (m * 2 ^ d)" using q by (simp add: d_def power_int_def)
  finally have r: "x / 2 powi (float_quantum x) = of_int (m * 2 ^ d)" .
  then have "fl x = x / 2 powi (float_quantum x) * 2 powi (float_quantum x)"
    using x unfolding fl_def by (metis round_even_of_int)
  then show ?thesis by simp
qed (simp add: assms)

lemma fl_of_int: "\<bar>i\<bar> < 2 ^ 24 \<Longrightarrow> fl (of_int i) = of_int i"
  by (rule fl_exact [where m = i and k = 0]) simp_all

lemma float_of_int_exact [float_simps]: "\<bar>i\<bar> < 2 ^ 24 \<Longrightarrow> float_of_int i = of_int i"
  by (simp add: float_of_int_def fl_of_int)

section \<open>Conversion to int\<close>

lemma int_of_float_of_int [simp]: "int_of_float (of_int i) = i"
  by (simp add: int_of_float_def)

lemma int_of_float_mono: "x \<le> y \<Longrightarrow> int_of_float x \<le> int_of_float y"
  unfolding int_of_float_def
  by (auto intro: floor_mono ceiling_mono) (linarith | meson ceiling_le_zero order_trans zero_le_floor linorder_le_cases)+

end
