(* ===== verification/Faults.thy ===== *)
theory Faults
  imports Prelude
begin

text \<open>
  \<^verbatim>\<open>board/faults.h\<close>: the fault mask and the fault status. The prints are left out.
\<close>

definition FAULT_STATUS_NONE :: u8 where "FAULT_STATUS_NONE = 0"
definition FAULT_STATUS_TEMPORARY :: u8 where "FAULT_STATUS_TEMPORARY = 1"
definition FAULT_STATUS_PERMANENT :: u8 where "FAULT_STATUS_PERMANENT = 2"

definition FAULT_RELAY_MALFUNCTION :: u32 where "FAULT_RELAY_MALFUNCTION = push_bit 0 1"
definition FAULT_HEARTBEAT_LOOP_WATCHDOG :: u32 where "FAULT_HEARTBEAT_LOOP_WATCHDOG = push_bit 26 1"

definition PERMANENT_FAULTS :: u32 where "PERMANENT_FAULTS = 0"

record fault_state =
  fault_status :: u8
  faults :: u32

definition fault_occurred :: "u32 \<Rightarrow> 'a fault_state_scheme \<Rightarrow> 'a fault_state_scheme" where
  "fault_occurred fault s =
     (let s = (if faults s AND fault = 0
               then if PERMANENT_FAULTS AND fault \<noteq> 0
                    then s\<lparr>fault_status := FAULT_STATUS_PERMANENT\<rparr>
                    else s\<lparr>fault_status := FAULT_STATUS_TEMPORARY\<rparr>
               else s)
      in s\<lparr>faults := faults s OR fault\<rparr>)"

definition fault_recovered :: "u32 \<Rightarrow> 'a fault_state_scheme \<Rightarrow> 'a fault_state_scheme" where
  "fault_recovered fault s =
     (if PERMANENT_FAULTS AND fault = 0 then s\<lparr>faults := faults s AND NOT fault\<rparr> else s)"

lemma fault_occurred_sets: "faults (fault_occurred f s) AND f = f"
  by (auto simp: fault_occurred_def Let_def bit_eq_iff bit_simps)

lemma fault_recovered_clears: "faults (fault_recovered f s) AND f = 0"
  by (auto simp: fault_recovered_def PERMANENT_FAULTS_def bit_eq_iff bit_simps)

lemma fault_occurred_more [simp]: "fault_state.more (fault_occurred f s) = fault_state.more s"
  by (simp add: fault_occurred_def Let_def)

lemma fault_recovered_more [simp]: "fault_state.more (fault_recovered f s) = fault_state.more s"
  by (simp add: fault_recovered_def)

end
