(* ===== verification/Safety_Types.thy ===== *)
theory Safety_Types
  imports Float32 Can_Packet Faults
begin

text \<open>
  The data of the safety layer (\<^verbatim>\<open>board/safety_declarations.h\<close>) and its global
  variables (\<^verbatim>\<open>board/safety.h\<close>). The globals are the fields of the record
  \<open>safety\<close>; a safety mode adds its own static variables by extending the record. An
  array of checks is a list, its length field the length of the list. A pointer to one of the
  constant hook tables is a name of that table. The free-running microsecond counter is a
  field the environment sets: a handler reads it at most once.
\<close>

section \<open>Messages and their checks\<close>

record CanMsg =
  m_addr :: int
  m_bus :: int
  m_len :: int

definition MSG :: "int \<Rightarrow> int \<Rightarrow> int \<Rightarrow> CanMsg" where
  "MSG a b l = \<lparr>m_addr = a, m_bus = b, m_len = l\<rparr>"

record CanMsgCheck =
  c_addr :: int
  c_bus :: int
  c_len :: int
  check_checksum :: bool
  max_counter :: u8
  quality_flag :: bool
  frequency :: u32

text \<open>The initialiser \<open>{ 0 }\<close>, and one that sets the first three members and the frequency.\<close>

definition CHK_0 :: CanMsgCheck where
  "CHK_0 = \<lparr>c_addr = 0, c_bus = 0, c_len = 0, check_checksum = False, max_counter = 0,
            quality_flag = False, frequency = 0\<rparr>"

definition CHK :: "int \<Rightarrow> int \<Rightarrow> int \<Rightarrow> u32 \<Rightarrow> CanMsgCheck" where
  "CHK a b l f = CHK_0\<lparr>c_addr := a, c_bus := b, c_len := l, frequency := f\<rparr>"

record RxStatus =
  msg_seen :: bool
  st_index :: nat
  valid_checksum :: bool
  wrong_counters :: int
  valid_quality_flag :: bool
  last_counter :: u8
  last_timestamp :: u32
  lagging :: bool

definition RxStatus_0 :: RxStatus where
  "RxStatus_0 = \<lparr>msg_seen = False, st_index = 0, valid_checksum = False, wrong_counters = 0,
     valid_quality_flag = False, last_counter = 0, last_timestamp = 0, lagging = False\<rparr>"

definition MAX_ADDR_CHECK_MSGS :: nat where
  "MAX_ADDR_CHECK_MSGS = 3"

record RxCheck =
  rc_msg :: "CanMsgCheck list"
  rc_status :: RxStatus

text \<open>A static initialiser gives up to three messages; the rest of the array is zero.\<close>

definition RX :: "CanMsgCheck list \<Rightarrow> RxCheck" where
  "RX ms = \<lparr>rc_msg = take MAX_ADDR_CHECK_MSGS (ms @ replicate MAX_ADDR_CHECK_MSGS CHK_0),
            rc_status = RxStatus_0\<rparr>"

text \<open>The entry of a check that its status selects.\<close>

definition rc_cur :: "RxCheck \<Rightarrow> CanMsgCheck" where
  "rc_cur c = rc_msg c ! st_index (rc_status c)"

record safety_config =
  rx_checks :: "RxCheck list"
  tx_msgs :: "CanMsg list"

definition empty_cfg :: safety_config where
  "empty_cfg = \<lparr>rx_checks = [], tx_msgs = []\<rparr>"

definition BUILD_SAFETY_CFG :: "RxCheck list \<Rightarrow> CanMsg list \<Rightarrow> safety_config" where
  "BUILD_SAFETY_CFG rx tx = \<lparr>rx_checks = rx, tx_msgs = tx\<rparr>"

section \<open>Samples, tables and limits\<close>

definition MAX_SAMPLE_VALS :: nat where
  "MAX_SAMPLE_VALS = 6"

record sample_t =
  s_values :: "int list"
  s_min :: int
  s_max :: int

definition sample_0 :: sample_t where
  "sample_0 = \<lparr>s_values = replicate MAX_SAMPLE_VALS 0, s_min = 0, s_max = 0\<rparr>"

record lookup_t =
  lookup_x :: "rat list"
  lookup_y :: "rat list"

text \<open>A table given by decimal literals holds the nearest floats.\<close>

definition LOOKUP :: "rat list \<Rightarrow> rat list \<Rightarrow> lookup_t" where
  "LOOKUP xs ys = \<lparr>lookup_x = map fl xs, lookup_y = map fl ys\<rparr>"

datatype SteeringControlType = TorqueMotorLimited | TorqueDriverLimited

record SteeringLimits =
  max_steer :: int
  max_rate_up :: int
  max_rate_down :: int
  max_rt_delta :: int
  max_rt_interval :: u32
  sl_type :: SteeringControlType
  driver_torque_allowance :: int
  driver_torque_factor :: int
  max_torque_error :: int
  min_valid_request_frames :: int
  max_invalid_request_frames :: int
  min_valid_request_rt_interval :: u32
  has_steer_req_tolerance :: bool
  angle_deg_to_can :: rat
  angle_rate_up_lookup :: lookup_t
  angle_rate_down_lookup :: lookup_t
  max_angle_error :: int
  angle_error_min_speed :: rat
  enforce_angle_error :: bool
  inactive_angle_is_zero :: bool

definition SteeringLimits_0 :: SteeringLimits where
  "SteeringLimits_0 =
     \<lparr>max_steer = 0, max_rate_up = 0, max_rate_down = 0, max_rt_delta = 0, max_rt_interval = 0,
      sl_type = TorqueMotorLimited, driver_torque_allowance = 0, driver_torque_factor = 0,
      max_torque_error = 0, min_valid_request_frames = 0, max_invalid_request_frames = 0,
      min_valid_request_rt_interval = 0, has_steer_req_tolerance = False, angle_deg_to_can = 0,
      angle_rate_up_lookup = LOOKUP [0, 0, 0] [0, 0, 0],
      angle_rate_down_lookup = LOOKUP [0, 0, 0] [0, 0, 0], max_angle_error = 0,
      angle_error_min_speed = 0, enforce_angle_error = False, inactive_angle_is_zero = False\<rparr>"

record LongitudinalLimits =
  max_accel :: int
  min_accel :: int
  inactive_accel :: int
  max_gas :: int
  min_gas :: int
  inactive_gas :: int
  max_brake :: int
  max_transmission_rpm :: int
  min_transmission_rpm :: int
  inactive_transmission_rpm :: int
  inactive_speed :: int

definition LongitudinalLimits_0 :: LongitudinalLimits where
  "LongitudinalLimits_0 =
     \<lparr>max_accel = 0, min_accel = 0, inactive_accel = 0, max_gas = 0, min_gas = 0,
      inactive_gas = 0, max_brake = 0, max_transmission_rpm = 0, min_transmission_rpm = 0,
      inactive_transmission_rpm = 0, inactive_speed = 0\<rparr>"

section \<open>The global variables\<close>

datatype hooks_ref =
    Nooutput_hooks | Alloutput_hooks | Elm327_hooks | Body_hooks | Toyota_hooks
  | Honda_nidec_hooks | Honda_bosch_hooks | Gm_hooks | Ford_hooks | Hyundai_hooks
  | Hyundai_legacy_hooks | Hyundai_canfd_hooks | Chrysler_hooks | Tesla_hooks | Subaru_hooks
  | Subaru_preglobal_hooks | Mazda_hooks | Nissan_hooks | Volkswagen_mqb_hooks
  | Volkswagen_pq_hooks

record safety = fault_state +
  controls_allowed :: bool
  relay_malfunction :: bool
  gas_pressed :: bool
  gas_pressed_prev :: bool
  brake_pressed :: bool
  brake_pressed_prev :: bool
  regen_braking :: bool
  regen_braking_prev :: bool
  cruise_engaged_prev :: bool
  vehicle_speed :: sample_t
  vehicle_moving :: bool
  acc_main_on :: bool
  cruise_button_prev :: int
  safety_rx_checks_invalid :: bool
  desired_torque_last :: int
  rt_torque_last :: int
  valid_steer_req_count :: int
  invalid_steer_req_count :: int
  torque_meas :: sample_t
  torque_driver :: sample_t
  ts_torque_check_last :: u32
  ts_steer_req_mismatch_last :: u32
  heartbeat_engaged :: bool
  heartbeat_engaged_mismatches :: u32
  ts_angle_last :: u32
  desired_angle_last :: int
  angle_meas :: sample_t
  alternative_experience :: int
  safety_mode_cnt :: u32
  current_safety_mode :: u16
  current_safety_param :: u16
  current_hooks :: hooks_ref
  current_safety_config :: safety_config
  microsecond_timer :: u32

text \<open>The values before \<open>main\<close> runs.\<close>

definition safety_init :: safety where
  "safety_init =
     \<lparr>fault_status = FAULT_STATUS_NONE, faults = 0,
      controls_allowed = False, relay_malfunction = False, gas_pressed = False,
      gas_pressed_prev = False, brake_pressed = False, brake_pressed_prev = False,
      regen_braking = False, regen_braking_prev = False, cruise_engaged_prev = False,
      vehicle_speed = sample_0, vehicle_moving = False, acc_main_on = False,
      cruise_button_prev = 0, safety_rx_checks_invalid = False, desired_torque_last = 0,
      rt_torque_last = 0, valid_steer_req_count = 0, invalid_steer_req_count = 0,
      torque_meas = sample_0, torque_driver = sample_0, ts_torque_check_last = 0,
      ts_steer_req_mismatch_last = 0, heartbeat_engaged = False,
      heartbeat_engaged_mismatches = 0, ts_angle_last = 0, desired_angle_last = 0,
      angle_meas = sample_0, alternative_experience = 0, safety_mode_cnt = 0,
      current_safety_mode = 0, current_safety_param = 0, current_hooks = Nooutput_hooks,
      current_safety_config = empty_cfg, microsecond_timer = 0\<rparr>"

text \<open>The hook table of a safety mode over the state \<open>'s\<close>; a null pointer is \<open>None\<close>.\<close>

record 's safety_hooks =
  h_init :: "u16 \<Rightarrow> 's \<Rightarrow> safety_config \<times> 's"
  h_rx :: "CANPacket_t \<Rightarrow> 's \<Rightarrow> 's"
  h_tx :: "CANPacket_t \<Rightarrow> 's \<Rightarrow> bool \<times> 's"
  h_fwd :: "'s \<Rightarrow> int \<Rightarrow> int \<Rightarrow> int"
  h_get_checksum :: "(CANPacket_t \<Rightarrow> u32) option"
  h_compute_checksum :: "('s \<Rightarrow> CANPacket_t \<Rightarrow> u32) option"
  h_get_counter :: "(CANPacket_t \<Rightarrow> u8) option"
  h_get_quality_flag_valid :: "(CANPacket_t \<Rightarrow> bool) option"

text \<open>The preprocessor switches the safety layer depends on.\<close>

record build_flags =
  ALLOW_DEBUG :: bool
  CANFD :: bool

end
