(* ===== verification/Safety_Core.thy ===== *)
theory Safety_Core
  imports Safety_Types
begin

text \<open>
  The functions of \<^verbatim>\<open>board/safety.h\<close> that the safety modes call: sampled
  signals, the limit checks on steering and longitudinal commands, the generic checks run
  after each received message, the cruise state check and the CRC table generators. C
  \<open>int\<close> values are HOL integers: every quantity computed here is built from at most
  16 bit signals and small constants, far from the bounds of \<open>int\<close>; time stamps, which do
  wrap, are 32 bit words.
\<close>

section \<open>Signals\<close>

definition to_signed :: "int \<Rightarrow> int \<Rightarrow> int" where
  "to_signed d bits =
     (let max_value = 2 ^ nat (MAX_m (bits - 1) 0)
      in if d \<ge> max_value then d - 2 ^ nat (MAX_m bits 0) else d)"

fun shift_values :: "nat \<Rightarrow> int list \<Rightarrow> int list" where
  "shift_values 0 vs = vs"
| "shift_values (Suc i) vs = shift_values i (vs[Suc i := vs ! i])"

fun min_max_loop :: "int list \<Rightarrow> nat \<Rightarrow> nat \<Rightarrow> int \<Rightarrow> int \<Rightarrow> int \<times> int" where
  "min_max_loop vs i 0 mn mx = (mn, mx)"
| "min_max_loop vs i (Suc n) mn mx =
     (let mn = (if vs ! i < mn then vs ! i else mn);
          mx = (if vs ! i > mx then vs ! i else mx)
      in min_max_loop vs (Suc i) n mn mx)"

definition update_sample :: "sample_t \<Rightarrow> int \<Rightarrow> sample_t" where
  "update_sample smp sample_new =
     (let vs = shift_values (MAX_SAMPLE_VALS - 1) (s_values smp);
          vs = vs[0 := sample_new];
          (mn, mx) = min_max_loop vs 1 (MAX_SAMPLE_VALS - 1) (vs ! 0) (vs ! 0)
      in \<lparr>s_values = vs, s_min = mn, s_max = mx\<rparr>)"

definition reset_sample :: "sample_t \<Rightarrow> sample_t" where
  "reset_sample smp = update_sample (smp\<lparr>s_values := replicate MAX_SAMPLE_VALS 0\<rparr>) 0"

definition max_limit_check :: "int \<Rightarrow> int \<Rightarrow> int \<Rightarrow> bool" where
  "max_limit_check val MAX_VAL MIN_VAL \<longleftrightarrow> val > MAX_VAL \<or> val < MIN_VAL"

definition dist_to_meas_check :: "int \<Rightarrow> int \<Rightarrow> sample_t \<Rightarrow> int \<Rightarrow> int \<Rightarrow> int \<Rightarrow> bool" where
  "dist_to_meas_check val val_last val_meas MAX_RATE_UP MAX_RATE_DOWN MAX_ERROR =
     (let highest_allowed_rl = MAX_m val_last 0 + MAX_RATE_UP;
          lowest_allowed_rl = MIN_m val_last 0 - MAX_RATE_UP;
          highest_allowed = MIN_m highest_allowed_rl
            (MAX_m (val_last - MAX_RATE_DOWN) (MAX_m (s_max val_meas) 0 + MAX_ERROR));
          lowest_allowed = MAX_m lowest_allowed_rl
            (MIN_m (val_last + MAX_RATE_DOWN) (MIN_m (s_min val_meas) 0 - MAX_ERROR))
      in max_limit_check val highest_allowed lowest_allowed)"

definition driver_limit_check ::
  "int \<Rightarrow> int \<Rightarrow> sample_t \<Rightarrow> int \<Rightarrow> int \<Rightarrow> int \<Rightarrow> int \<Rightarrow> int \<Rightarrow> bool" where
  "driver_limit_check val val_last val_driver MAX_VAL MAX_RATE_UP MAX_RATE_DOWN
     MAX_ALLOWANCE DRIVER_FACTOR =
     (let highest_allowed_rl = MAX_m val_last 0 + MAX_RATE_UP;
          lowest_allowed_rl = MIN_m val_last 0 - MAX_RATE_UP;
          driver_max_limit = MAX_VAL + (MAX_ALLOWANCE + s_max val_driver) * DRIVER_FACTOR;
          driver_min_limit = - MAX_VAL + (- MAX_ALLOWANCE + s_min val_driver) * DRIVER_FACTOR;
          highest_allowed = MIN_m highest_allowed_rl
            (MAX_m (val_last - MAX_RATE_DOWN) (MAX_m driver_max_limit 0));
          lowest_allowed = MAX_m lowest_allowed_rl
            (MIN_m (val_last + MAX_RATE_DOWN) (MIN_m driver_min_limit 0))
      in max_limit_check val highest_allowed lowest_allowed)"

definition rt_rate_limit_check :: "int \<Rightarrow> int \<Rightarrow> int \<Rightarrow> bool" where
  "rt_rate_limit_check val val_last MAX_RT_DELTA =
     (let highest_val = MAX_m val_last 0 + MAX_RT_DELTA;
          lowest_val = MIN_m val_last 0 - MAX_RT_DELTA
      in max_limit_check val highest_val lowest_val)"

section \<open>Float helpers\<close>

definition VEHICLE_SPEED_FACTOR :: rat where
  "VEHICLE_SPEED_FACTOR = 100"

fun interpolate_loop :: "lookup_t \<Rightarrow> rat \<Rightarrow> nat \<Rightarrow> nat \<Rightarrow> rat" where
  "interpolate_loop xy x i 0 = last (lookup_y xy)"
| "interpolate_loop xy x i (Suc n) =
     (if x < lookup_x xy ! Suc i
      then (let x0 = lookup_x xy ! i;
                y0 = lookup_y xy ! i;
                dx = fl (lookup_x xy ! Suc i - x0);
                dy = fl (lookup_y xy ! Suc i - y0);
                dx = MAX_m dx (fl (1 / 10000))
            in fl (fl (fl (dy * fl (x - x0)) / dx) + y0))
      else interpolate_loop xy x (Suc i) n)"

definition interpolate :: "lookup_t \<Rightarrow> rat \<Rightarrow> rat" where
  "interpolate xy x =
     (if x \<le> lookup_x xy ! 0 then lookup_y xy ! 0
      else interpolate_loop xy x 0 (length (lookup_x xy) - 1))"

definition ROUND :: "rat \<Rightarrow> int" where
  "ROUND val = int_of_float (fl (val + (if val > 0 then 1 / 2 else - 1 / 2)))"

definition UPDATE_VEHICLE_SPEED :: "rat \<Rightarrow> 'a safety_scheme \<Rightarrow> 'a safety_scheme" where
  "UPDATE_VEHICLE_SPEED val_ms s =
     s\<lparr>vehicle_speed := update_sample (vehicle_speed s) (ROUND (fl (val_ms * VEHICLE_SPEED_FACTOR)))\<rparr>"

section \<open>Longitudinal commands\<close>

definition get_longitudinal_allowed :: "'a safety_scheme \<Rightarrow> bool" where
  "get_longitudinal_allowed s \<longleftrightarrow> controls_allowed s \<and> \<not> gas_pressed_prev s"

definition longitudinal_accel_checks :: "int \<Rightarrow> LongitudinalLimits \<Rightarrow> 'a safety_scheme \<Rightarrow> bool" where
  "longitudinal_accel_checks desired_accel limits s =
     (let accel_valid = get_longitudinal_allowed s \<and>
            \<not> max_limit_check desired_accel (max_accel limits) (min_accel limits);
          accel_inactive = (desired_accel = inactive_accel limits)
      in \<not> (accel_valid \<or> accel_inactive))"

definition longitudinal_speed_checks :: "int \<Rightarrow> LongitudinalLimits \<Rightarrow> 'a safety_scheme \<Rightarrow> bool" where
  "longitudinal_speed_checks desired_speed limits s =
     (\<not> get_longitudinal_allowed s \<and> desired_speed \<noteq> inactive_speed limits)"

definition longitudinal_transmission_rpm_checks ::
  "int \<Rightarrow> LongitudinalLimits \<Rightarrow> 'a safety_scheme \<Rightarrow> bool" where
  "longitudinal_transmission_rpm_checks desired_transmission_rpm limits s =
     (let transmission_rpm_valid = get_longitudinal_allowed s \<and>
            \<not> max_limit_check desired_transmission_rpm (max_transmission_rpm limits)
                (min_transmission_rpm limits);
          transmission_rpm_inactive =
            (desired_transmission_rpm = inactive_transmission_rpm limits)
      in \<not> (transmission_rpm_valid \<or> transmission_rpm_inactive))"

definition longitudinal_gas_checks :: "int \<Rightarrow> LongitudinalLimits \<Rightarrow> 'a safety_scheme \<Rightarrow> bool" where
  "longitudinal_gas_checks desired_gas limits s =
     (let gas_valid = get_longitudinal_allowed s \<and>
            \<not> max_limit_check desired_gas (max_gas limits) (min_gas limits);
          gas_inactive = (desired_gas = inactive_gas limits)
      in \<not> (gas_valid \<or> gas_inactive))"

definition longitudinal_brake_checks :: "int \<Rightarrow> LongitudinalLimits \<Rightarrow> 'a safety_scheme \<Rightarrow> bool" where
  "longitudinal_brake_checks desired_brake limits s =
     (let violation = False;
          violation = (violation \<or> \<not> get_longitudinal_allowed s \<and> desired_brake \<noteq> 0);
          violation = (violation \<or> desired_brake > max_brake limits)
      in violation)"

section \<open>Steering commands\<close>

text \<open>
  The body of \<open>steer_torque_cmd_checks\<close> in the order of the source: the torque limits
  while controls are allowed, the tolerance around the steer request bit, the reset.
\<close>

definition torque_limits_step ::
  "int \<Rightarrow> SteeringLimits \<Rightarrow> u32 \<Rightarrow> 'a safety_scheme \<Rightarrow> bool \<times> 'a safety_scheme" where
  "torque_limits_step desired_torque limits ts s =
     (if controls_allowed s then
        let violation = max_limit_check desired_torque (max_steer limits) (- max_steer limits);
            violation = (violation \<or>
              (if sl_type limits = TorqueDriverLimited
               then driver_limit_check desired_torque (desired_torque_last s) (torque_driver s)
                      (max_steer limits) (max_rate_up limits) (max_rate_down limits)
                      (driver_torque_allowance limits) (driver_torque_factor limits)
               else dist_to_meas_check desired_torque (desired_torque_last s) (torque_meas s)
                      (max_rate_up limits) (max_rate_down limits) (max_torque_error limits)));
            s = s\<lparr>desired_torque_last := desired_torque\<rparr>;
            violation = (violation \<or>
              rt_rate_limit_check desired_torque (rt_torque_last s) (max_rt_delta limits));
            ts_elapsed = get_ts_elapsed ts (ts_torque_check_last s);
            s = (if ts_elapsed > max_rt_interval limits
                 then s\<lparr>rt_torque_last := desired_torque, ts_torque_check_last := ts\<rparr>
                 else s)
        in (violation, s)
      else (False, s))"

definition steer_req_step ::
  "int \<Rightarrow> int \<Rightarrow> SteeringLimits \<Rightarrow> u32 \<Rightarrow> bool \<Rightarrow> 'a safety_scheme \<Rightarrow> bool \<times> 'a safety_scheme" where
  "steer_req_step desired_torque steer_req limits ts violation s =
     (let steer_req_mismatch = (steer_req = 0 \<and> desired_torque \<noteq> 0)
      in if \<not> has_steer_req_tolerance limits
         then (violation \<or> steer_req_mismatch, s)
         else if steer_req_mismatch then
           let violation =
                 (if invalid_steer_req_count s = 0
                  then violation \<or>
                         valid_steer_req_count s < min_valid_request_frames limits \<or>
                         get_ts_elapsed ts (ts_steer_req_mismatch_last s)
                           < min_valid_request_rt_interval limits
                  else violation \<or>
                         invalid_steer_req_count s \<ge> max_invalid_request_frames limits);
               s = s\<lparr>valid_steer_req_count := 0, ts_steer_req_mismatch_last := ts,
                     invalid_steer_req_count :=
                       MIN_m (invalid_steer_req_count s + 1) (max_invalid_request_frames limits)\<rparr>
           in (violation, s)
         else (violation,
               s\<lparr>valid_steer_req_count :=
                   MIN_m (valid_steer_req_count s + 1) (min_valid_request_frames limits),
                 invalid_steer_req_count := 0\<rparr>))"

definition torque_reset_step :: "u32 \<Rightarrow> bool \<Rightarrow> 'a safety_scheme \<Rightarrow> 'a safety_scheme" where
  "torque_reset_step ts violation s =
     (if violation \<or> \<not> controls_allowed s
      then s\<lparr>valid_steer_req_count := 0, invalid_steer_req_count := 0,
             desired_torque_last := 0, rt_torque_last := 0,
             ts_torque_check_last := ts, ts_steer_req_mismatch_last := ts\<rparr>
      else s)"

definition steer_torque_cmd_checks ::
  "int \<Rightarrow> int \<Rightarrow> SteeringLimits \<Rightarrow> 'a safety_scheme \<Rightarrow> bool \<times> 'a safety_scheme" where
  "steer_torque_cmd_checks desired_torque steer_req limits s =
     (let ts = microsecond_timer s;
          (violation, s) = torque_limits_step desired_torque limits ts s;
          violation = (violation \<or> \<not> controls_allowed s \<and> desired_torque \<noteq> 0);
          (violation, s) = steer_req_step desired_torque steer_req limits ts violation s;
          s = torque_reset_step ts violation s
      in (violation, s))"

text \<open>The rate limits of an angle command, as the integers the code truncates them to.\<close>

definition speed_of :: "int \<Rightarrow> rat" where
  "speed_of v = fl (float_of_int v / VEHICLE_SPEED_FACTOR)"

definition delta_angle :: "lookup_t \<Rightarrow> SteeringLimits \<Rightarrow> int \<Rightarrow> int" where
  "delta_angle tab limits speed_min =
     int_of_float (fl (fl (interpolate tab (fl (speed_of speed_min - 1)) * angle_deg_to_can limits) + 1))"

definition delta_angle_lower :: "lookup_t \<Rightarrow> SteeringLimits \<Rightarrow> int \<Rightarrow> int" where
  "delta_angle_lower tab limits speed_max =
     int_of_float (fl (interpolate tab (fl (speed_of speed_max + 1)) * angle_deg_to_can limits))"

definition steer_angle_cmd_checks ::
  "int \<Rightarrow> bool \<Rightarrow> SteeringLimits \<Rightarrow> 'a safety_scheme \<Rightarrow> bool \<times> 'a safety_scheme" where
  "steer_angle_cmd_checks desired_angle steer_control_enabled limits s =
     (let violation = False;
          violation =
            (if controls_allowed s \<and> steer_control_enabled then
               let delta_angle_up = delta_angle (angle_rate_up_lookup limits) limits (s_min (vehicle_speed s));
                   delta_angle_down = delta_angle (angle_rate_down_lookup limits) limits (s_min (vehicle_speed s));
                   highest_desired_angle = desired_angle_last s +
                     (if desired_angle_last s > 0 then delta_angle_up else delta_angle_down);
                   lowest_desired_angle = desired_angle_last s -
                     (if desired_angle_last s \<ge> 0 then delta_angle_down else delta_angle_up);
                   (highest_desired_angle, lowest_desired_angle) =
                     (if enforce_angle_error limits \<and>
                         speed_of (s_values (vehicle_speed s) ! 0) > angle_error_min_speed limits then
                        let delta_angle_up_lower = delta_angle_lower (angle_rate_up_lookup limits) limits
                              (s_max (vehicle_speed s));
                            delta_angle_down_lower = delta_angle_lower (angle_rate_down_lookup limits) limits
                              (s_max (vehicle_speed s));
                            highest_desired_angle_lower = desired_angle_last s +
                              (if desired_angle_last s > 0 then delta_angle_up_lower else delta_angle_down_lower);
                            lowest_desired_angle_lower = desired_angle_last s -
                              (if desired_angle_last s \<ge> 0 then delta_angle_down_lower else delta_angle_up_lower);
                            lowest_desired_angle = MIN_m
                              (MAX_m lowest_desired_angle (s_min (angle_meas s) - max_angle_error limits - 1))
                              highest_desired_angle_lower;
                            highest_desired_angle = MAX_m
                              (MIN_m highest_desired_angle (s_max (angle_meas s) + max_angle_error limits + 1))
                              lowest_desired_angle_lower;
                            lowest_desired_angle = CLAMP lowest_desired_angle (- max_steer limits) (max_steer limits);
                            highest_desired_angle = CLAMP highest_desired_angle (- max_steer limits) (max_steer limits)
                        in (highest_desired_angle, lowest_desired_angle)
                      else (highest_desired_angle, lowest_desired_angle))
               in violation \<or> max_limit_check desired_angle highest_desired_angle lowest_desired_angle
             else violation);
          s = s\<lparr>desired_angle_last := desired_angle\<rparr>;
          violation =
            (if \<not> steer_control_enabled
             then violation \<or>
                    (if inactive_angle_is_zero limits then desired_angle \<noteq> 0
                     else max_limit_check desired_angle (s_max (angle_meas s) + 1) (s_min (angle_meas s) - 1))
             else violation);
          violation = (violation \<or> \<not> controls_allowed s \<and> steer_control_enabled)
      in (violation, s))"

section \<open>Checks run on reception\<close>

definition ALT_EXP_DISABLE_DISENGAGE_ON_GAS :: int where "ALT_EXP_DISABLE_DISENGAGE_ON_GAS = 1"
definition ALT_EXP_DISABLE_STOCK_AEB :: int where "ALT_EXP_DISABLE_STOCK_AEB = 2"

definition relay_malfunction_set :: "'a safety_scheme \<Rightarrow> 'a safety_scheme" where
  "relay_malfunction_set s = fault_occurred FAULT_RELAY_MALFUNCTION (s\<lparr>relay_malfunction := True\<rparr>)"

definition relay_malfunction_reset :: "'a safety_scheme \<Rightarrow> 'a safety_scheme" where
  "relay_malfunction_reset s = fault_recovered FAULT_RELAY_MALFUNCTION (s\<lparr>relay_malfunction := False\<rparr>)"

definition generic_rx_checks :: "bool \<Rightarrow> 'a safety_scheme \<Rightarrow> 'a safety_scheme" where
  "generic_rx_checks stock_ecu_detected s =
     (let RELAY_TRNS_TIMEOUT = 1;
          s = (if gas_pressed s \<and> \<not> gas_pressed_prev s \<and>
                  \<not> (alternative_experience s AND ALT_EXP_DISABLE_DISENGAGE_ON_GAS \<noteq> 0)
               then s\<lparr>controls_allowed := False\<rparr> else s);
          s = s\<lparr>gas_pressed_prev := gas_pressed s\<rparr>;
          s = (if brake_pressed s \<and> (\<not> brake_pressed_prev s \<or> vehicle_moving s)
               then s\<lparr>controls_allowed := False\<rparr> else s);
          s = s\<lparr>brake_pressed_prev := brake_pressed s\<rparr>;
          s = (if regen_braking s \<and> (\<not> regen_braking_prev s \<or> vehicle_moving s)
               then s\<lparr>controls_allowed := False\<rparr> else s);
          s = s\<lparr>regen_braking_prev := regen_braking s\<rparr>
      in if safety_mode_cnt s > RELAY_TRNS_TIMEOUT \<and> stock_ecu_detected
         then relay_malfunction_set s else s)"

definition pcm_cruise_check :: "bool \<Rightarrow> 'a safety_scheme \<Rightarrow> 'a safety_scheme" where
  "pcm_cruise_check cruise_engaged s =
     (let s = (if \<not> cruise_engaged then s\<lparr>controls_allowed := False\<rparr> else s);
          s = (if cruise_engaged \<and> \<not> cruise_engaged_prev s then s\<lparr>controls_allowed := True\<rparr> else s)
      in s\<lparr>cruise_engaged_prev := cruise_engaged\<rparr>)"

section \<open>CRC tables\<close>

definition crc8_step :: "u8 \<Rightarrow> u8 \<Rightarrow> u8" where
  "crc8_step poly crc =
     (if crc AND 0x80 \<noteq> 0 then push_bit 1 crc XOR poly else push_bit 1 crc)"

definition gen_crc_lookup_table_8 :: "u8 \<Rightarrow> u8 list" where
  "gen_crc_lookup_table_8 poly = map (\<lambda>i. (crc8_step poly ^^ 8) (word_of_nat i)) [0..<256]"

definition crc16_step :: "u16 \<Rightarrow> u16 \<Rightarrow> u16" where
  "crc16_step poly crc =
     (if crc AND 0x8000 \<noteq> 0 then push_bit 1 crc XOR poly else push_bit 1 crc)"

definition gen_crc_lookup_table_16 :: "u16 \<Rightarrow> u16 list" where
  "gen_crc_lookup_table_16 poly =
     map (\<lambda>i. (crc16_step poly ^^ 8) (push_bit 8 (word_of_nat i))) [0..<256]"


section \<open>Frames\<close>

text \<open>
  A receive hook may touch neither the configuration (the mode, its checks, the counters
  the main loop owns) nor the history of accepted steering commands. A transmit hook may
  touch that history and nothing else of the common state.
\<close>

definition config_of where
  "config_of s = (alternative_experience s, safety_mode_cnt s, current_safety_mode s, current_safety_param s, current_hooks s, current_safety_config s, microsecond_timer s, heartbeat_engaged s, heartbeat_engaged_mismatches s, safety_rx_checks_invalid s)"

definition history_of where
  "history_of s = (desired_torque_last s, rt_torque_last s, valid_steer_req_count s, invalid_steer_req_count s, ts_torque_check_last s, ts_steer_req_mismatch_last s, desired_angle_last s)"

definition signals_of where
  "signals_of s = (fault_status s, faults s, controls_allowed s, relay_malfunction s, gas_pressed s, gas_pressed_prev s, brake_pressed s, brake_pressed_prev s, regen_braking s, regen_braking_prev s, cruise_engaged_prev s, vehicle_speed s, vehicle_moving s, acc_main_on s, cruise_button_prev s, torque_meas s, torque_driver s, angle_meas s)"

definition rx_frame where
  "rx_frame s = (config_of s, history_of s)"

definition tx_frame where
  "tx_frame s = (config_of s, signals_of s)"

lemmas frame_defs = config_of_def history_of_def signals_of_def rx_frame_def tx_frame_def

lemma rx_frame_update [frame_simps]:
  "rx_frame (s\<lparr>fault_status := x_0\<rparr>) = rx_frame s"
  "rx_frame (s\<lparr>faults := x_1\<rparr>) = rx_frame s"
  "rx_frame (s\<lparr>controls_allowed := x_2\<rparr>) = rx_frame s"
  "rx_frame (s\<lparr>relay_malfunction := x_3\<rparr>) = rx_frame s"
  "rx_frame (s\<lparr>gas_pressed := x_4\<rparr>) = rx_frame s"
  "rx_frame (s\<lparr>gas_pressed_prev := x_5\<rparr>) = rx_frame s"
  "rx_frame (s\<lparr>brake_pressed := x_6\<rparr>) = rx_frame s"
  "rx_frame (s\<lparr>brake_pressed_prev := x_7\<rparr>) = rx_frame s"
  "rx_frame (s\<lparr>regen_braking := x_8\<rparr>) = rx_frame s"
  "rx_frame (s\<lparr>regen_braking_prev := x_9\<rparr>) = rx_frame s"
  "rx_frame (s\<lparr>cruise_engaged_prev := x_10\<rparr>) = rx_frame s"
  "rx_frame (s\<lparr>vehicle_speed := x_11\<rparr>) = rx_frame s"
  "rx_frame (s\<lparr>vehicle_moving := x_12\<rparr>) = rx_frame s"
  "rx_frame (s\<lparr>acc_main_on := x_13\<rparr>) = rx_frame s"
  "rx_frame (s\<lparr>cruise_button_prev := x_14\<rparr>) = rx_frame s"
  "rx_frame (s\<lparr>torque_meas := x_15\<rparr>) = rx_frame s"
  "rx_frame (s\<lparr>torque_driver := x_16\<rparr>) = rx_frame s"
  "rx_frame (s\<lparr>angle_meas := x_17\<rparr>) = rx_frame s"
  by (simp_all add: frame_defs)

lemma tx_frame_update [frame_simps]:
  "tx_frame (s\<lparr>desired_torque_last := x_0\<rparr>) = tx_frame s"
  "tx_frame (s\<lparr>rt_torque_last := x_1\<rparr>) = tx_frame s"
  "tx_frame (s\<lparr>valid_steer_req_count := x_2\<rparr>) = tx_frame s"
  "tx_frame (s\<lparr>invalid_steer_req_count := x_3\<rparr>) = tx_frame s"
  "tx_frame (s\<lparr>ts_torque_check_last := x_4\<rparr>) = tx_frame s"
  "tx_frame (s\<lparr>ts_steer_req_mismatch_last := x_5\<rparr>) = tx_frame s"
  "tx_frame (s\<lparr>desired_angle_last := x_6\<rparr>) = tx_frame s"
  by (simp_all add: frame_defs)

text \<open>A chain of statements keeps a projection that every statement keeps.\<close>

lemma rx_frame_Let [frame_simps]:
  "(\<And>x. rx_frame (f x) = rx_frame x) \<Longrightarrow> rx_frame (let s = t in f s) = rx_frame t"
  by (simp add: Let_def)

lemma rx_frame_If [frame_simps]:
  "rx_frame (if c then a else b) = (if c then rx_frame a else rx_frame b)"
  by simp

lemma tx_frame_Let [frame_simps]:
  "(\<And>x. tx_frame (f x) = tx_frame x) \<Longrightarrow> tx_frame (let s = t in f s) = tx_frame t"
  by (simp add: Let_def)

lemma tx_frame_If [frame_simps]:
  "tx_frame (if c then a else b) = (if c then tx_frame a else tx_frame b)"
  by simp

lemma tx_frame_D:
  assumes "tx_frame t = tx_frame s"
  shows "config_of t = config_of s" "controls_allowed t = controls_allowed s"
    "relay_malfunction t = relay_malfunction s" "gas_pressed_prev t = gas_pressed_prev s"
    "torque_driver t = torque_driver s" "torque_meas t = torque_meas s"
  using assms by (simp_all add: tx_frame_def signals_of_def)

lemma rx_frame_D:
  assumes "rx_frame t = rx_frame s"
  shows "config_of t = config_of s" "history_of t = history_of s"
  using assms by (simp_all add: rx_frame_def)

lemma config_of_D:
  assumes "config_of t = config_of s"
  shows "current_hooks t = current_hooks s" "current_safety_config t = current_safety_config s"
    "current_safety_mode t = current_safety_mode s" "microsecond_timer t = microsecond_timer s"
    "heartbeat_engaged t = heartbeat_engaged s" "safety_mode_cnt t = safety_mode_cnt s"
    "alternative_experience t = alternative_experience s"
    "current_safety_param t = current_safety_param s"
    "heartbeat_engaged_mismatches t = heartbeat_engaged_mismatches s"
  using assms by (simp_all add: config_of_def)

lemma fault_occurred_safety [simp]:
  "controls_allowed (fault_occurred f s) = controls_allowed s"
  "relay_malfunction (fault_occurred f s) = relay_malfunction s"
  "rx_frame (fault_occurred f s) = rx_frame s"
  by (simp_all add: fault_occurred_def Let_def rx_frame_update)

lemma fault_recovered_safety [simp]:
  "controls_allowed (fault_recovered f s) = controls_allowed s"
  "relay_malfunction (fault_recovered f s) = relay_malfunction s"
  "rx_frame (fault_recovered f s) = rx_frame s"
  by (simp_all add: fault_recovered_def rx_frame_update)

lemma rx_frame_UPDATE_VEHICLE_SPEED [frame_simps]: "rx_frame (UPDATE_VEHICLE_SPEED v s) = rx_frame s"
  by (simp add: UPDATE_VEHICLE_SPEED_def frame_simps)

lemma rx_frame_relay_malfunction_set [frame_simps]: "rx_frame (relay_malfunction_set s) = rx_frame s"
  by (simp add: relay_malfunction_set_def frame_simps)

lemma rx_frame_generic_rx_checks [frame_simps]: "rx_frame (generic_rx_checks d s) = rx_frame s"
  by (simp only: generic_rx_checks_def frame_simps let_values if_cancel)

lemma rx_frame_pcm_cruise_check [frame_simps]: "rx_frame (pcm_cruise_check e s) = rx_frame s"
  by (simp only: pcm_cruise_check_def frame_simps if_cancel)

lemma tx_frame_torque_limits_step [frame_simps]:
  "tx_frame (snd (torque_limits_step t limits ts s)) = tx_frame s"
  by (simp add: torque_limits_step_def Let_def frame_simps)

lemma tx_frame_steer_req_step [frame_simps]:
  "tx_frame (snd (steer_req_step t r limits ts v s)) = tx_frame s"
  by (simp add: steer_req_step_def Let_def frame_simps)

lemma tx_frame_torque_reset_step [frame_simps]: "tx_frame (torque_reset_step ts v s) = tx_frame s"
  by (simp add: torque_reset_step_def frame_simps)

lemma tx_frame_steer_torque_cmd_checks [frame_simps]:
  "tx_frame (snd (steer_torque_cmd_checks t r limits s)) = tx_frame s"
  by (simp add: steer_torque_cmd_checks_def Let_def case_prod_beta frame_simps)

lemma snd_steer_angle_cmd_checks:
  "snd (steer_angle_cmd_checks a e limits s) = s\<lparr>desired_angle_last := a\<rparr>"
  by (simp only: steer_angle_cmd_checks_def Let_def snd_conv)

lemma tx_frame_steer_angle_cmd_checks [frame_simps]:
  "tx_frame (snd (steer_angle_cmd_checks a e limits s)) = tx_frame s"
  by (simp only: snd_steer_angle_cmd_checks tx_frame_update)

section \<open>The relay malfunction flag\<close>

lemma relay_Let: "relay_malfunction t \<Longrightarrow> (\<And>x. relay_malfunction x \<Longrightarrow> relay_malfunction (f x)) \<Longrightarrow>
  relay_malfunction (let s = t in f s)"
  by (simp add: Let_def)

lemma relay_If: "relay_malfunction a \<Longrightarrow> relay_malfunction b \<Longrightarrow> relay_malfunction (if c then a else b)"
  by simp

lemmas relay_intros = relay_Let relay_If

lemma relay_malfunction_generic_rx_checks [simp]:
  "relay_malfunction (generic_rx_checks d s) \<longleftrightarrow> relay_malfunction s \<or> (safety_mode_cnt s > 1 \<and> d)"
  by (auto simp: generic_rx_checks_def relay_malfunction_set_def Let_def)

lemma relay_malfunction_pcm_cruise_check [simp]:
  "relay_malfunction (pcm_cruise_check e s) = relay_malfunction s"
  by (simp add: pcm_cruise_check_def Let_def)

lemma relay_malfunction_UPDATE_VEHICLE_SPEED [simp]:
  "relay_malfunction (UPDATE_VEHICLE_SPEED v s) = relay_malfunction s"
  by (simp add: UPDATE_VEHICLE_SPEED_def)

end
