(* ===== verification/Signals.thy ===== *)
theory Signals
  imports Safety_Core
begin

text \<open>
  What the sampled signals mean: sign extension, the window of the last six samples with
  its extremes, and rounding of a float to the nearest integer.
\<close>

section \<open>Sign extension\<close>

lemma to_signed_signed_take_bit:
  assumes "0 \<le> d" and "d < 2 ^ Suc n"
  shows "to_signed d (int (Suc n)) = signed_take_bit n d"
proof (cases "d < 2 ^ n")
  case True
  then have "signed_take_bit n d = d" using assms by (simp add: signed_take_bit_int_eq_self)
  then show ?thesis using True by (simp add: to_signed_def)
next
  case False
  have "to_signed d (int (Suc n)) = d - 2 ^ Suc n"
    using False by (simp add: to_signed_def nat_add_distrib)
  moreover have "signed_take_bit n d = d - 2 ^ Suc n"
  proof -
    have "bit d n" using False assms by (simp add: bit_iff_odd div_pos_geq not_less)
    then show ?thesis using assms
      by (simp add: signed_take_bit_eq_take_bit_minus take_bit_int_eq_self)
  qed
  ultimately show ?thesis by simp
qed

lemma to_signed_bounds:
  assumes "0 \<le> d" and "d < 2 ^ Suc n"
  shows "- (2 ^ n) \<le> to_signed d (int (Suc n))" and "to_signed d (int (Suc n)) < 2 ^ n"
  unfolding to_signed_signed_take_bit [OF assms]
  by (rule signed_take_bit_int_greater_eq_minus_exp signed_take_bit_int_less_exp)+

section \<open>The sample window\<close>

definition sample_exact :: "sample_t \<Rightarrow> bool" where
  "sample_exact smp \<longleftrightarrow> length (s_values smp) = MAX_SAMPLE_VALS \<and>
     s_min smp = Min (set (s_values smp)) \<and> s_max smp = Max (set (s_values smp))"

lemma shift_values_length [simp]: "length (shift_values i vs) = length vs"
  by (induction i arbitrary: vs) auto

lemma min_max_loop_correct:
  assumes "i + n \<le> length vs"
  shows "min_max_loop vs i n mn mx =
    (Min (insert mn (set (take n (drop i vs)))), Max (insert mx (set (take n (drop i vs)))))"
  using assms
proof (induction n arbitrary: i mn mx)
  case 0
  then show ?case by simp
next
  case (Suc n)
  define A where "A = set (take n (drop (Suc i) vs))"
  have take: "set (take (Suc n) (drop i vs)) = insert (vs ! i) A"
    using Suc.prems by (simp add: A_def Cons_nth_drop_Suc [symmetric])
  have fin: "finite A" by (simp add: A_def)
  have mn: "Min (insert (if vs ! i < mn then vs ! i else mn) A) = Min (insert mn (insert (vs ! i) A))"
    using fin by (cases "A = {}") (auto simp: min_def)
  have mx: "Max (insert (if vs ! i > mx then vs ! i else mx) A) = Max (insert mx (insert (vs ! i) A))"
    using fin by (cases "A = {}") (auto simp: max_def)
  show ?case
    using Suc.IH [of "Suc i"] Suc.prems unfolding take by (simp add: Let_def A_def [symmetric] mn mx)
qed

lemma shift_values_6:
  assumes "length vs = MAX_SAMPLE_VALS"
  shows "(shift_values (MAX_SAMPLE_VALS - 1) vs)[0 := x] = x # butlast vs"
proof -
  obtain a b c d e f where "vs = [a, b, c, d, e, f]"
    using assms unfolding MAX_SAMPLE_VALS_def by (auto simp: numeral_eq_Suc length_Suc_conv)
  then show ?thesis by (simp add: MAX_SAMPLE_VALS_def numeral_eq_Suc)
qed

lemma update_sample_window:
  assumes "length (s_values smp) = MAX_SAMPLE_VALS"
  shows "s_values (update_sample smp x) = x # butlast (s_values smp)"
  unfolding update_sample_def Let_def shift_values_6 [OF assms] by (simp add: case_prod_beta Let_def)

lemma update_sample_exact:
  assumes len: "length (s_values smp) = MAX_SAMPLE_VALS"
  shows "sample_exact (update_sample smp x)"
proof -
  define vs where "vs = x # butlast (s_values smp)"
  have l: "length vs = MAX_SAMPLE_VALS" using len by (simp add: vs_def MAX_SAMPLE_VALS_def)
  then have "set vs = insert (vs ! 0) (set (take (MAX_SAMPLE_VALS - 1) (drop 1 vs)))"
    by (cases vs) (simp_all add: MAX_SAMPLE_VALS_def)
  moreover have "1 + (MAX_SAMPLE_VALS - 1) \<le> length vs" using l by (simp add: MAX_SAMPLE_VALS_def)
  ultimately have "min_max_loop vs 1 (MAX_SAMPLE_VALS - 1) (vs ! 0) (vs ! 0) = (Min (set vs), Max (set vs))"
    by (simp add: min_max_loop_correct)
  then show ?thesis using l
    unfolding sample_exact_def update_sample_def Let_def shift_values_6 [OF len] vs_def [symmetric]
    by (simp add: Let_def)
qed

lemma update_sample_length [simp]:
  "length (s_values smp) = MAX_SAMPLE_VALS \<Longrightarrow> length (s_values (update_sample smp x)) = MAX_SAMPLE_VALS"
  using update_sample_exact by (simp add: sample_exact_def)

lemma sample_exact_bounds:
  assumes "sample_exact smp" and "v \<in> set (s_values smp)"
  shows "s_min smp \<le> v" and "v \<le> s_max smp"
  using assms by (auto simp: sample_exact_def)

lemma reset_sample_eq [simp]: "reset_sample smp = sample_0"
proof -
  have "s_values (update_sample (smp\<lparr>s_values := replicate MAX_SAMPLE_VALS 0\<rparr>) 0) = replicate MAX_SAMPLE_VALS 0"
    by (simp add: update_sample_window MAX_SAMPLE_VALS_def numeral_eq_Suc)
  moreover have "sample_exact (update_sample (smp\<lparr>s_values := replicate MAX_SAMPLE_VALS 0\<rparr>) 0)"
    by (rule update_sample_exact) simp
  ultimately show ?thesis
    by (simp add: reset_sample_def sample_exact_def sample_0_def MAX_SAMPLE_VALS_def)
qed

lemma sample_0_exact [simp]: "sample_exact sample_0"
  by (simp add: sample_exact_def sample_0_def MAX_SAMPLE_VALS_def)

section \<open>Rounding\<close>

text \<open>An integral float rounds to itself: the half added in single precision is truncated again.\<close>

lemma fl_half:
  assumes "\<bar>i\<bar> < 2 ^ 22"
  shows "fl (of_int i + 1 / 2) = of_int i + 1 / 2" "fl (of_int i - 1 / 2) = of_int i - 1 / 2"
proof -
  have "\<bar>2 * i + 1\<bar> < 2 ^ 24" "\<bar>2 * i - 1\<bar> < 2 ^ 24" using assms by simp_all
  then show "fl (of_int i + 1 / 2) = of_int i + 1 / 2" "fl (of_int i - 1 / 2) = of_int i - 1 / 2"
    using fl_exact [of "of_int i + 1 / 2" "2 * i + 1" "- 1"] fl_exact [of "of_int i - 1 / 2" "2 * i - 1" "- 1"]
    by (simp_all add: field_simps)
qed

lemma ROUND_of_int: "\<bar>i\<bar> < 2 ^ 22 \<Longrightarrow> ROUND (of_int i) = i"
  using fl_half [of i] by (auto simp: ROUND_def int_of_float_def floor_eq_iff ceiling_eq_iff)

lemma ROUND_mono: "x \<le> y \<Longrightarrow> ROUND x \<le> ROUND y"
  unfolding ROUND_def by (intro int_of_float_mono fl_mono) auto

end
