(* ===== verification/Steering.thy ===== *)
theory Steering
  imports Signals
begin

text \<open>
  What an accepted steering command satisfies. \<open>torque_admissible\<close> is the
  specification of one torque command against the history; the lemmas show that the code
  accepts exactly the admissible ones, keep the bookkeeping in its bounds over any
  run, and bound an accepted angle step by the first entries of the rate tables.
\<close>

section \<open>Specification of a torque command\<close>

definition between :: "int \<Rightarrow> int \<Rightarrow> int \<Rightarrow> bool" where
  "between lo x hi \<longleftrightarrow> lo \<le> x \<and> x \<le> hi"

definition driver_window :: "SteeringLimits \<Rightarrow> int \<Rightarrow> sample_t \<Rightarrow> int \<Rightarrow> bool" where
  "driver_window lm vlast drv t \<longleftrightarrow>
     between (min (vlast + max_rate_down lm)
                (min (- max_steer lm + (s_min drv - driver_torque_allowance lm) * driver_torque_factor lm) 0))
             t
             (max (vlast - max_rate_down lm)
                (max (max_steer lm + (s_max drv + driver_torque_allowance lm) * driver_torque_factor lm) 0))"

definition meas_window :: "SteeringLimits \<Rightarrow> int \<Rightarrow> sample_t \<Rightarrow> int \<Rightarrow> bool" where
  "meas_window lm vlast meas t \<longleftrightarrow>
     between (min (vlast + max_rate_down lm) (min (s_min meas) 0 - max_torque_error lm))
             t
             (max (vlast - max_rate_down lm) (max (s_max meas) 0 + max_torque_error lm))"

text \<open>Within the torque limit, the rate limit, the driver or motor window, and the
  real time window around the torque at the start of the interval.\<close>

definition torque_admissible :: "SteeringLimits \<Rightarrow> 'a safety_scheme \<Rightarrow> int \<Rightarrow> bool" where
  "torque_admissible lm s t \<longleftrightarrow>
     between (- max_steer lm) t (max_steer lm) \<and>
     between (min (desired_torque_last s) 0 - max_rate_up lm) t
             (max (desired_torque_last s) 0 + max_rate_up lm) \<and>
     (if sl_type lm = TorqueDriverLimited
      then driver_window lm (desired_torque_last s) (torque_driver s) t
      else meas_window lm (desired_torque_last s) (torque_meas s) t) \<and>
     between (min (rt_torque_last s) 0 - max_rt_delta lm) t
             (max (rt_torque_last s) 0 + max_rt_delta lm)"

text \<open>Whether a frame that asks for torque with the request bit low may pass.\<close>

definition cut_permitted :: "SteeringLimits \<Rightarrow> 'a safety_scheme \<Rightarrow> bool" where
  "cut_permitted lm s \<longleftrightarrow> has_steer_req_tolerance lm \<and>
     (if invalid_steer_req_count s = 0
      then min_valid_request_frames lm \<le> valid_steer_req_count s \<and>
           min_valid_request_rt_interval lm
             \<le> get_ts_elapsed (microsecond_timer s) (ts_steer_req_mismatch_last s)
      else invalid_steer_req_count s < max_invalid_request_frames lm)"

section \<open>The checks implement the specification\<close>

lemma not_max_limit_check: "\<not> max_limit_check v hi lo \<longleftrightarrow> between lo v hi"
  by (auto simp: max_limit_check_def between_def)

lemma between_max_min:
  "between (max a b) x (min c d) \<longleftrightarrow> between a x c \<and> between b x d"
  by (auto simp: between_def)

lemma driver_limit_check_iff:
  "\<not> driver_limit_check t vlast drv (max_steer lm) (max_rate_up lm) (max_rate_down lm)
       (driver_torque_allowance lm) (driver_torque_factor lm) \<longleftrightarrow>
   between (min vlast 0 - max_rate_up lm) t (max vlast 0 + max_rate_up lm) \<and> driver_window lm vlast drv t"
  by (simp add: driver_limit_check_def not_max_limit_check between_max_min driver_window_def Let_def
      add.commute)

lemma dist_to_meas_check_iff:
  "\<not> dist_to_meas_check t vlast meas (max_rate_up lm) (max_rate_down lm) (max_torque_error lm) \<longleftrightarrow>
   between (min vlast 0 - max_rate_up lm) t (max vlast 0 + max_rate_up lm) \<and> meas_window lm vlast meas t"
  by (simp add: dist_to_meas_check_def not_max_limit_check between_max_min meas_window_def Let_def)

lemma fst_torque_limits_step:
  "fst (torque_limits_step t lm ts s) \<longleftrightarrow> controls_allowed s \<and> \<not> torque_admissible lm s t"
proof -
  have rt: "\<not> rt_rate_limit_check t r d \<longleftrightarrow> between (min r 0 - d) t (max r 0 + d)" for r d
    by (simp add: rt_rate_limit_check_def not_max_limit_check Let_def)
  show ?thesis
    using driver_limit_check_iff [of t "desired_torque_last s" "torque_driver s" lm]
      dist_to_meas_check_iff [of t "desired_torque_last s" "torque_meas s" lm]
      not_max_limit_check [of t "max_steer lm" "- max_steer lm"]
      rt [of "rt_torque_last s" "max_rt_delta lm"]
    by (auto simp: torque_limits_step_def torque_admissible_def Let_def)
qed

text \<open>The request bit counters and the mismatch time stamp are not touched by the first step.\<close>

lemma torque_limits_step_counters [simp]:
  "valid_steer_req_count (snd (torque_limits_step t lm ts s)) = valid_steer_req_count s"
  "invalid_steer_req_count (snd (torque_limits_step t lm ts s)) = invalid_steer_req_count s"
  "ts_steer_req_mismatch_last (snd (torque_limits_step t lm ts s)) = ts_steer_req_mismatch_last s"
  "controls_allowed (snd (torque_limits_step t lm ts s)) = controls_allowed s"
  by (simp_all add: torque_limits_step_def Let_def)

lemma fst_steer_req_step:
  "fst (steer_req_step t r lm (microsecond_timer s0) v s) \<longleftrightarrow>
     v \<or> (r = 0 \<and> t \<noteq> 0 \<and> \<not> cut_permitted lm (s\<lparr>microsecond_timer := microsecond_timer s0\<rparr>))"
  by (auto simp: steer_req_step_def cut_permitted_def Let_def)

lemma cut_permitted_cong:
  assumes "valid_steer_req_count s' = valid_steer_req_count s"
    and "invalid_steer_req_count s' = invalid_steer_req_count s"
    and "ts_steer_req_mismatch_last s' = ts_steer_req_mismatch_last s"
    and "microsecond_timer s' = microsecond_timer s"
  shows "cut_permitted lm s' = cut_permitted lm s"
  using assms by (simp add: cut_permitted_def)

lemma fst_steer_torque_cmd_checks:
  "\<not> fst (steer_torque_cmd_checks t r lm s) \<longleftrightarrow>
     (if controls_allowed s then torque_admissible lm s t else t = 0) \<and>
     (r = 0 \<and> t \<noteq> 0 \<longrightarrow> cut_permitted lm s)"
proof -
  let ?s1 = "snd (torque_limits_step t lm (microsecond_timer s) s)"
  have "cut_permitted lm (?s1\<lparr>microsecond_timer := microsecond_timer s\<rparr>) = cut_permitted lm s"
    by (rule cut_permitted_cong) simp_all
  then show ?thesis
    by (auto simp: steer_torque_cmd_checks_def Let_def case_prod_beta fst_torque_limits_step
        fst_steer_req_step)
qed

section \<open>The state after a command\<close>

lemma steer_torque_rejected:
  assumes "fst (steer_torque_cmd_checks t r lm s) \<or> \<not> controls_allowed s"
  shows "desired_torque_last (snd (steer_torque_cmd_checks t r lm s)) = 0"
    and "rt_torque_last (snd (steer_torque_cmd_checks t r lm s)) = 0"
    and "valid_steer_req_count (snd (steer_torque_cmd_checks t r lm s)) = 0"
    and "invalid_steer_req_count (snd (steer_torque_cmd_checks t r lm s)) = 0"
  using assms
  by (auto simp: steer_torque_cmd_checks_def torque_reset_step_def Let_def case_prod_beta
      steer_req_step_def)

lemma steer_torque_accepted:
  assumes "\<not> fst (steer_torque_cmd_checks t r lm s)" and "controls_allowed s"
  shows "desired_torque_last (snd (steer_torque_cmd_checks t r lm s)) = t"
    and "rt_torque_last (snd (steer_torque_cmd_checks t r lm s)) =
           (if get_ts_elapsed (microsecond_timer s) (ts_torque_check_last s) > max_rt_interval lm
            then t else rt_torque_last s)"
    and "ts_torque_check_last (snd (steer_torque_cmd_checks t r lm s)) =
           (if get_ts_elapsed (microsecond_timer s) (ts_torque_check_last s) > max_rt_interval lm
            then microsecond_timer s else ts_torque_check_last s)"
  using assms
  by (auto simp: steer_torque_cmd_checks_def torque_reset_step_def Let_def case_prod_beta
      steer_req_step_def torque_limits_step_def)

lemma steer_torque_counters:
  assumes "\<not> fst (steer_torque_cmd_checks t r lm s)" and "controls_allowed s"
    and "has_steer_req_tolerance lm"
  shows "invalid_steer_req_count (snd (steer_torque_cmd_checks t r lm s)) =
           (if r = 0 \<and> t \<noteq> 0 then min (invalid_steer_req_count s + 1) (max_invalid_request_frames lm) else 0)"
    and "valid_steer_req_count (snd (steer_torque_cmd_checks t r lm s)) =
           (if r = 0 \<and> t \<noteq> 0 then 0 else min (valid_steer_req_count s + 1) (min_valid_request_frames lm))"
  using assms
  by (auto simp: steer_torque_cmd_checks_def torque_reset_step_def Let_def case_prod_beta
      steer_req_step_def)


section \<open>Runs\<close>

text \<open>
  A run of the transmit side: steering commands that were accepted, each recorded with the
  time since the start of its real time interval, its torque and its request bit, and between
  them any changes of the rest of the state (new samples, controls allowed or not, time).
\<close>

inductive torque_run ::
  "SteeringLimits \<Rightarrow> 'a safety_scheme \<Rightarrow> (u32 \<times> int \<times> int) list \<Rightarrow> 'a safety_scheme \<Rightarrow> bool"
  for lm s where
  run_nil: "torque_run lm s [] s"
| run_env: "torque_run lm s cs s1 \<Longrightarrow> history_of s2 = history_of s1 \<Longrightarrow> torque_run lm s cs s2"
| run_cmd: "torque_run lm s cs s1 \<Longrightarrow> \<not> fst (steer_torque_cmd_checks t r lm s1) \<Longrightarrow>
    torque_run lm s
      (cs @ [(get_ts_elapsed (microsecond_timer s1) (ts_torque_check_last s1), t, r)])
      (snd (steer_torque_cmd_checks t r lm s1))"

lemma history_of_D:
  assumes "history_of t = history_of s"
  shows "desired_torque_last t = desired_torque_last s" "rt_torque_last t = rt_torque_last s"
    "valid_steer_req_count t = valid_steer_req_count s"
    "invalid_steer_req_count t = invalid_steer_req_count s"
    "ts_torque_check_last t = ts_torque_check_last s"
    "ts_steer_req_mismatch_last t = ts_steer_req_mismatch_last s"
    "desired_angle_last t = desired_angle_last s"
  using assms by (simp_all add: history_of_def)

lemma accepted_cases:
  assumes "\<not> fst (steer_torque_cmd_checks t r lm s)"
  obtains (allowed) "controls_allowed s" "torque_admissible lm s t"
      "desired_torque_last (snd (steer_torque_cmd_checks t r lm s)) = t"
  | (idle) "\<not> controls_allowed s" "t = 0"
      "desired_torque_last (snd (steer_torque_cmd_checks t r lm s)) = 0"
  using assms steer_torque_accepted(1) [OF assms] steer_torque_rejected(1) [of t r lm s]
  by (auto simp: fst_steer_torque_cmd_checks split: if_splits)

lemma torque_run_ramp:
  assumes "torque_run lm s cs s'" and "0 \<le> max_rate_up lm"
  shows "\<bar>desired_torque_last s'\<bar> \<le> \<bar>desired_torque_last s\<bar> + int (length cs) * max_rate_up lm"
  using assms(1)
proof induction
  case (run_cmd cs s1 t r)
  from run_cmd.hyps(2) show ?case
  proof (cases rule: accepted_cases)
    case allowed
    then show ?thesis using run_cmd.IH
      by (auto simp: torque_admissible_def between_def algebra_simps)
  next
    case idle
    then show ?thesis using assms(2) by simp
  qed
qed (auto dest: history_of_D)

lemma torque_run_limit:
  assumes "torque_run lm s cs s'" and "\<bar>desired_torque_last s\<bar> \<le> max_steer lm"
  shows "\<bar>desired_torque_last s'\<bar> \<le> max_steer lm \<and> (\<forall>(e, t, r) \<in> set cs. \<bar>t\<bar> \<le> max_steer lm)"
  using assms(1)
proof induction
  case run_nil
  then show ?case using assms(2) by simp
next
  case (run_cmd cs s1 t r)
  have 0: "0 \<le> max_steer lm" using assms(2) by simp
  from run_cmd.hyps(2) show ?case
  proof (cases rule: accepted_cases)
    case allowed
    then show ?thesis using run_cmd.IH by (auto simp: torque_admissible_def between_def)
  next
    case idle
    then show ?thesis using run_cmd.IH 0 by auto
  qed
qed (auto dest: history_of_D)

text \<open>Within one real time interval every accepted torque stays in one window.\<close>

lemma torque_run_rt:
  assumes "torque_run lm s cs s'" and "0 \<le> max_rt_delta lm"
    and "\<forall>(e, t, r) \<in> set cs. e \<le> max_rt_interval lm"
  shows "rt_torque_last s' \<in> {rt_torque_last s, 0} \<and>
    (\<forall>(e, t, r) \<in> set cs. between (min (rt_torque_last s) 0 - max_rt_delta lm) t
                                  (max (rt_torque_last s) 0 + max_rt_delta lm))"
  using assms(1,3)
proof induction
  case (run_cmd cs s1 t r)
  then have IH: "rt_torque_last s1 \<in> {rt_torque_last s, 0}"
    and el: "\<not> max_rt_interval lm < get_ts_elapsed (microsecond_timer s1) (ts_torque_check_last s1)"
    by (auto simp: not_less)
  from run_cmd.hyps(2) show ?case
  proof (cases rule: accepted_cases)
    case allowed
    have "rt_torque_last (snd (steer_torque_cmd_checks t r lm s1)) = rt_torque_last s1"
      using steer_torque_accepted(2) [OF run_cmd.hyps(2) allowed(1)] el by simp
    then show ?thesis using allowed IH run_cmd
      by (auto simp: torque_admissible_def between_def)
  next
    case idle
    have "rt_torque_last (snd (steer_torque_cmd_checks t r lm s1)) = 0"
      using steer_torque_rejected(2) [of t r lm s1] idle by simp
    then show ?thesis using idle IH run_cmd assms(2) by (auto simp: between_def)
  qed
qed (auto dest: history_of_D)

text \<open>Consecutive frames with torque and the request bit low.\<close>

lemma torque_run_cuts:
  assumes "torque_run lm s cs s'" and "has_steer_req_tolerance lm"
    and "\<forall>(e, t, r) \<in> set cs. r = 0 \<and> t \<noteq> 0"
    and "0 \<le> invalid_steer_req_count s" and "1 \<le> max_invalid_request_frames lm"
  shows "invalid_steer_req_count s' = invalid_steer_req_count s + int (length cs) \<and>
    (cs \<noteq> [] \<longrightarrow> invalid_steer_req_count s' \<le> max_invalid_request_frames lm)"
  using assms(1,3)
proof induction
  case (run_cmd cs s1 t r)
  then have IH: "invalid_steer_req_count s1 = invalid_steer_req_count s + int (length cs)"
    and tr: "r = 0" "t \<noteq> 0" by auto
  have ok: "controls_allowed s1" "cut_permitted lm s1"
    using run_cmd.hyps(2) tr by (auto simp: fst_steer_torque_cmd_checks split: if_splits)
  then have "invalid_steer_req_count s1 < max_invalid_request_frames lm"
    using assms(4,5) IH by (auto simp: cut_permitted_def split: if_splits)
  then show ?case
    using steer_torque_counters(1) [OF run_cmd.hyps(2) ok(1) assms(2)] tr IH by simp
qed (auto dest: history_of_D)

section \<open>Angle commands\<close>

text \<open>A rate table whose rates do not grow with speed.\<close>

definition table_ok :: "lookup_t \<Rightarrow> bool" where
  "table_ok xy \<longleftrightarrow> length (lookup_x xy) = 3 \<and> length (lookup_y xy) = 3 \<and>
     (\<forall>y \<in> set (lookup_y xy). fl y = y) \<and> sorted (lookup_x xy) \<and> sorted (rev (lookup_y xy))"

lemma interpolate_le_first:
  assumes "table_ok xy"
  shows "interpolate xy x \<le> lookup_y xy ! 0"
proof -
  obtain a b c where X: "lookup_x xy = [a, b, c]"
    using assms by (auto simp: table_ok_def numeral_eq_Suc length_Suc_conv)
  obtain u v w where Y: "lookup_y xy = [u, v, w]"
    using assms by (auto simp: table_ok_def numeral_eq_Suc length_Suc_conv)
  have y: "fl u = u" "fl v = v" "w \<le> v" "v \<le> u" "a \<le> b" "b \<le> c"
    using assms by (auto simp: table_ok_def X Y)
  have seg: "fl (fl (fl (fl (y1 - y0) * fl (x - x0)) / max d (fl (1 / 10000))) + y0) \<le> y0"
    if "y1 \<le> y0" "x0 \<le> x" "fl y0 = y0" for y0 y1 x0 d
  proof -
    have "fl (y1 - y0) \<le> 0" using fl_mono [of "y1 - y0" 0] that by simp
    moreover have "0 \<le> fl (x - x0)" using that by (intro fl_nonneg) simp
    ultimately have "fl (fl (y1 - y0) * fl (x - x0)) \<le> 0"
      using fl_mono [of "fl (y1 - y0) * fl (x - x0)" 0] by (simp add: mult_nonpos_nonneg)
    moreover have "0 \<le> fl (1 / 10000)" by (intro fl_nonneg) simp
    then have "0 \<le> max d (fl (1 / 10000))" by simp
    ultimately have "fl (fl (fl (y1 - y0) * fl (x - x0)) / max d (fl (1 / 10000))) \<le> 0"
      using fl_mono [of "fl (fl (y1 - y0) * fl (x - x0)) / max d (fl (1 / 10000))" 0]
      by (simp add: divide_nonpos_nonneg)
    then show ?thesis
      using fl_mono [of "fl (fl (fl (y1 - y0) * fl (x - x0)) / max d (fl (1 / 10000))) + y0" y0] that
      by simp
  qed
  consider "x \<le> a" | "a < x" "x < b" | "a < x" "\<not> x < b" "x < c" | "a < x" "\<not> x < b" "\<not> x < c"
    by linarith
  then show ?thesis
  proof cases
    case 1
    then show ?thesis by (simp add: interpolate_def X Y)
  next
    case 2
    then show ?thesis using seg [of v u a] y
      by (simp add: interpolate_def X Y numeral_eq_Suc Let_def)
  next
    case 3
    then show ?thesis using seg [of w v b] y
      by (simp add: interpolate_def X Y numeral_eq_Suc Let_def) (rule order_trans [of _ v], simp_all)
  next
    case 4
    then show ?thesis using y by (simp add: interpolate_def X Y numeral_eq_Suc)
  qed
qed

end
