(* ===== verification/Mode_State.thy ===== *)
theory Mode_State
  imports Steering
begin

text \<open>
  The file-scope variables of the safety modes (\<^verbatim>\<open>board/safety/*.h\<close>), which
  the firmware keeps in one address space with the globals of \<^verbatim>\<open>safety.h\<close>: the
  record \<open>statics\<close> extends \<open>safety\<close>. A variable without an
  initialiser starts at zero. A hook of a mode is a function on any extension of
  \<open>statics\<close>.
\<close>

datatype HondaHw = HONDA_NIDEC | HONDA_BOSCH
datatype GmHardware = GM_ASCM | GM_CAM
datatype ChryslerPlatform = CHRYSLER_RAM_DT | CHRYSLER_RAM_HD | CHRYSLER_PACIFICA

record ChryslerAddrs =
  EPS_2 :: int
  ESP_1 :: int
  ESP_8 :: int
  ECM_5 :: int
  DAS_3 :: int
  DAS_6 :: int
  LKAS_COMMAND :: int
  CRUISE_BUTTONS :: int

text \<open>The table a null pointer selects; \<open>chrysler_init\<close> replaces it before any hook reads it.\<close>

definition ChryslerAddrs_0 :: ChryslerAddrs where
  "ChryslerAddrs_0 = \<lparr>EPS_2 = 0, ESP_1 = 0, ESP_8 = 0, ECM_5 = 0, DAS_3 = 0, DAS_6 = 0,
     LKAS_COMMAND = 0, CRUISE_BUTTONS = 0\<rparr>"

record statics = safety +
  alloutput_passthrough :: bool
  toyota_alt_brake :: bool
  toyota_stock_longitudinal :: bool
  toyota_lta :: bool
  toyota_dbc_eps_torque_factor :: int
  honda_brake :: int
  honda_brake_switch_prev :: bool
  honda_alt_brake_msg :: bool
  honda_fwd_brake :: bool
  honda_bosch_long :: bool
  honda_bosch_radarless :: bool
  honda_hw :: HondaHw
  gm_hw :: GmHardware
  gm_cam_long :: bool
  gm_pcm_cruise :: bool
  gm_long_limits :: LongitudinalLimits
  ford_longitudinal :: bool
  chrysler_platform :: ChryslerPlatform
  chrysler_addrs :: ChryslerAddrs
  hyundai_canfd_crc_lut :: "u16 list"
  hyundai_ev_gas_signal :: bool
  hyundai_hybrid_gas_signal :: bool
  hyundai_longitudinal :: bool
  hyundai_camera_scc :: bool
  hyundai_canfd_hda2 :: bool
  hyundai_alt_limits :: bool
  hyundai_last_button_interaction :: u8
  hyundai_legacy :: bool
  hyundai_canfd_alt_buttons :: bool
  hyundai_canfd_hda2_alt_steering :: bool
  nissan_alt_eps :: bool
  subaru_gen2 :: bool
  subaru_longitudinal :: bool
  subaru_pg_reversed_driver_torque :: bool
  tesla_longitudinal :: bool
  tesla_powertrain :: bool
  tesla_raven :: bool
  tesla_stock_aeb :: bool
  volkswagen_longitudinal :: bool
  volkswagen_set_button_prev :: bool
  volkswagen_resume_button_prev :: bool
  volkswagen_crc8_lut_8h2f :: "u8 list"
  volkswagen_mqb_brake_pedal_switch :: bool
  volkswagen_mqb_brake_pressure_detected :: bool

type_synonym 'a st = "'a statics_scheme"

definition statics_init :: statics where
  "statics_init = safety.extend safety_init
     (statics.fields
       False False False False 100 0 False False False False False HONDA_NIDEC GM_ASCM 
       False False LongitudinalLimits_0 False CHRYSLER_RAM_DT ChryslerAddrs_0 
       (replicate 256 0) False False False False False False 0 False False False False 
       False False False False False False False False False False (replicate 256 0) 
       False False)"

section \<open>Frames\<close>

text \<open>A mode's own variables are in neither frame.\<close>

lemma rx_frame_statics [frame_simps]:
  "rx_frame (s\<lparr>alloutput_passthrough := y_0\<rparr>) = rx_frame s"
  "rx_frame (s\<lparr>toyota_alt_brake := y_1\<rparr>) = rx_frame s"
  "rx_frame (s\<lparr>toyota_stock_longitudinal := y_2\<rparr>) = rx_frame s"
  "rx_frame (s\<lparr>toyota_lta := y_3\<rparr>) = rx_frame s"
  "rx_frame (s\<lparr>toyota_dbc_eps_torque_factor := y_4\<rparr>) = rx_frame s"
  "rx_frame (s\<lparr>honda_brake := y_5\<rparr>) = rx_frame s"
  "rx_frame (s\<lparr>honda_brake_switch_prev := y_6\<rparr>) = rx_frame s"
  "rx_frame (s\<lparr>honda_alt_brake_msg := y_7\<rparr>) = rx_frame s"
  "rx_frame (s\<lparr>honda_fwd_brake := y_8\<rparr>) = rx_frame s"
  "rx_frame (s\<lparr>honda_bosch_long := y_9\<rparr>) = rx_frame s"
  "rx_frame (s\<lparr>honda_bosch_radarless := y_10\<rparr>) = rx_frame s"
  "rx_frame (s\<lparr>honda_hw := y_11\<rparr>) = rx_frame s"
  "rx_frame (s\<lparr>gm_hw := y_12\<rparr>) = rx_frame s"
  "rx_frame (s\<lparr>gm_cam_long := y_13\<rparr>) = rx_frame s"
  "rx_frame (s\<lparr>gm_pcm_cruise := y_14\<rparr>) = rx_frame s"
  "rx_frame (s\<lparr>gm_long_limits := y_15\<rparr>) = rx_frame s"
  "rx_frame (s\<lparr>ford_longitudinal := y_16\<rparr>) = rx_frame s"
  "rx_frame (s\<lparr>chrysler_platform := y_17\<rparr>) = rx_frame s"
  "rx_frame (s\<lparr>chrysler_addrs := y_18\<rparr>) = rx_frame s"
  "rx_frame (s\<lparr>hyundai_canfd_crc_lut := y_19\<rparr>) = rx_frame s"
  "rx_frame (s\<lparr>hyundai_ev_gas_signal := y_20\<rparr>) = rx_frame s"
  "rx_frame (s\<lparr>hyundai_hybrid_gas_signal := y_21\<rparr>) = rx_frame s"
  "rx_frame (s\<lparr>hyundai_longitudinal := y_22\<rparr>) = rx_frame s"
  "rx_frame (s\<lparr>hyundai_camera_scc := y_23\<rparr>) = rx_frame s"
  "rx_frame (s\<lparr>hyundai_canfd_hda2 := y_24\<rparr>) = rx_frame s"
  "rx_frame (s\<lparr>hyundai_alt_limits := y_25\<rparr>) = rx_frame s"
  "rx_frame (s\<lparr>hyundai_last_button_interaction := y_26\<rparr>) = rx_frame s"
  "rx_frame (s\<lparr>hyundai_legacy := y_27\<rparr>) = rx_frame s"
  "rx_frame (s\<lparr>hyundai_canfd_alt_buttons := y_28\<rparr>) = rx_frame s"
  "rx_frame (s\<lparr>hyundai_canfd_hda2_alt_steering := y_29\<rparr>) = rx_frame s"
  "rx_frame (s\<lparr>nissan_alt_eps := y_30\<rparr>) = rx_frame s"
  "rx_frame (s\<lparr>subaru_gen2 := y_31\<rparr>) = rx_frame s"
  "rx_frame (s\<lparr>subaru_longitudinal := y_32\<rparr>) = rx_frame s"
  "rx_frame (s\<lparr>subaru_pg_reversed_driver_torque := y_33\<rparr>) = rx_frame s"
  "rx_frame (s\<lparr>tesla_longitudinal := y_34\<rparr>) = rx_frame s"
  "rx_frame (s\<lparr>tesla_powertrain := y_35\<rparr>) = rx_frame s"
  "rx_frame (s\<lparr>tesla_raven := y_36\<rparr>) = rx_frame s"
  "rx_frame (s\<lparr>tesla_stock_aeb := y_37\<rparr>) = rx_frame s"
  "rx_frame (s\<lparr>volkswagen_longitudinal := y_38\<rparr>) = rx_frame s"
  "rx_frame (s\<lparr>volkswagen_set_button_prev := y_39\<rparr>) = rx_frame s"
  "rx_frame (s\<lparr>volkswagen_resume_button_prev := y_40\<rparr>) = rx_frame s"
  "rx_frame (s\<lparr>volkswagen_crc8_lut_8h2f := y_41\<rparr>) = rx_frame s"
  "rx_frame (s\<lparr>volkswagen_mqb_brake_pedal_switch := y_42\<rparr>) = rx_frame s"
  "rx_frame (s\<lparr>volkswagen_mqb_brake_pressure_detected := y_43\<rparr>) = rx_frame s"
  by (simp_all add: frame_defs)

lemma tx_frame_statics [frame_simps]:
  "tx_frame (s\<lparr>alloutput_passthrough := y_0\<rparr>) = tx_frame s"
  "tx_frame (s\<lparr>toyota_alt_brake := y_1\<rparr>) = tx_frame s"
  "tx_frame (s\<lparr>toyota_stock_longitudinal := y_2\<rparr>) = tx_frame s"
  "tx_frame (s\<lparr>toyota_lta := y_3\<rparr>) = tx_frame s"
  "tx_frame (s\<lparr>toyota_dbc_eps_torque_factor := y_4\<rparr>) = tx_frame s"
  "tx_frame (s\<lparr>honda_brake := y_5\<rparr>) = tx_frame s"
  "tx_frame (s\<lparr>honda_brake_switch_prev := y_6\<rparr>) = tx_frame s"
  "tx_frame (s\<lparr>honda_alt_brake_msg := y_7\<rparr>) = tx_frame s"
  "tx_frame (s\<lparr>honda_fwd_brake := y_8\<rparr>) = tx_frame s"
  "tx_frame (s\<lparr>honda_bosch_long := y_9\<rparr>) = tx_frame s"
  "tx_frame (s\<lparr>honda_bosch_radarless := y_10\<rparr>) = tx_frame s"
  "tx_frame (s\<lparr>honda_hw := y_11\<rparr>) = tx_frame s"
  "tx_frame (s\<lparr>gm_hw := y_12\<rparr>) = tx_frame s"
  "tx_frame (s\<lparr>gm_cam_long := y_13\<rparr>) = tx_frame s"
  "tx_frame (s\<lparr>gm_pcm_cruise := y_14\<rparr>) = tx_frame s"
  "tx_frame (s\<lparr>gm_long_limits := y_15\<rparr>) = tx_frame s"
  "tx_frame (s\<lparr>ford_longitudinal := y_16\<rparr>) = tx_frame s"
  "tx_frame (s\<lparr>chrysler_platform := y_17\<rparr>) = tx_frame s"
  "tx_frame (s\<lparr>chrysler_addrs := y_18\<rparr>) = tx_frame s"
  "tx_frame (s\<lparr>hyundai_canfd_crc_lut := y_19\<rparr>) = tx_frame s"
  "tx_frame (s\<lparr>hyundai_ev_gas_signal := y_20\<rparr>) = tx_frame s"
  "tx_frame (s\<lparr>hyundai_hybrid_gas_signal := y_21\<rparr>) = tx_frame s"
  "tx_frame (s\<lparr>hyundai_longitudinal := y_22\<rparr>) = tx_frame s"
  "tx_frame (s\<lparr>hyundai_camera_scc := y_23\<rparr>) = tx_frame s"
  "tx_frame (s\<lparr>hyundai_canfd_hda2 := y_24\<rparr>) = tx_frame s"
  "tx_frame (s\<lparr>hyundai_alt_limits := y_25\<rparr>) = tx_frame s"
  "tx_frame (s\<lparr>hyundai_last_button_interaction := y_26\<rparr>) = tx_frame s"
  "tx_frame (s\<lparr>hyundai_legacy := y_27\<rparr>) = tx_frame s"
  "tx_frame (s\<lparr>hyundai_canfd_alt_buttons := y_28\<rparr>) = tx_frame s"
  "tx_frame (s\<lparr>hyundai_canfd_hda2_alt_steering := y_29\<rparr>) = tx_frame s"
  "tx_frame (s\<lparr>nissan_alt_eps := y_30\<rparr>) = tx_frame s"
  "tx_frame (s\<lparr>subaru_gen2 := y_31\<rparr>) = tx_frame s"
  "tx_frame (s\<lparr>subaru_longitudinal := y_32\<rparr>) = tx_frame s"
  "tx_frame (s\<lparr>subaru_pg_reversed_driver_torque := y_33\<rparr>) = tx_frame s"
  "tx_frame (s\<lparr>tesla_longitudinal := y_34\<rparr>) = tx_frame s"
  "tx_frame (s\<lparr>tesla_powertrain := y_35\<rparr>) = tx_frame s"
  "tx_frame (s\<lparr>tesla_raven := y_36\<rparr>) = tx_frame s"
  "tx_frame (s\<lparr>tesla_stock_aeb := y_37\<rparr>) = tx_frame s"
  "tx_frame (s\<lparr>volkswagen_longitudinal := y_38\<rparr>) = tx_frame s"
  "tx_frame (s\<lparr>volkswagen_set_button_prev := y_39\<rparr>) = tx_frame s"
  "tx_frame (s\<lparr>volkswagen_resume_button_prev := y_40\<rparr>) = tx_frame s"
  "tx_frame (s\<lparr>volkswagen_crc8_lut_8h2f := y_41\<rparr>) = tx_frame s"
  "tx_frame (s\<lparr>volkswagen_mqb_brake_pedal_switch := y_42\<rparr>) = tx_frame s"
  "tx_frame (s\<lparr>volkswagen_mqb_brake_pressure_detected := y_43\<rparr>) = tx_frame s"
  by (simp_all add: frame_defs)

end
