(* ===== verification/Mode_Contract.thy ===== *)
theory Mode_Contract
  imports Mode_State
begin

text \<open>
  What \<^verbatim>\<open>safety.h\<close> relies on in a safety mode, as a locale. A mode is its
  hook table together with its actuation messages: which frames, in which state, would make the
  car steer, accelerate or brake. The laws are the frames of the hooks, that the relay
  malfunction flag is never cleared, that a frame goes to another bus or nowhere, that no
  actuation passes while controls are not allowed, and that the configuration is well formed.
\<close>

section \<open>Rules for transmit hooks\<close>

text \<open>A transmit hook threads the verdict and the state; its frame is that of the state.\<close>

lemma tx_frame_pairs [frame_simps]:
  "(\<And>x y. tx_frame (snd (f x y)) = tx_frame y) \<Longrightarrow>
     tx_frame (snd (Let t (\<lambda>(x, y). f x y))) = tx_frame (snd t)"
  "(\<And>x y. tx_frame (snd (f x y)) = tx_frame y) \<Longrightarrow>
     tx_frame (snd (case t of (x, y) \<Rightarrow> f x y)) = tx_frame (snd t)"
  "(\<And>x. tx_frame (snd (g x)) = tx_frame x) \<Longrightarrow> tx_frame (snd (Let u g)) = tx_frame u"
  "tx_frame (snd (if c then t else t')) = (if c then tx_frame (snd t) else tx_frame (snd t'))"
  "tx_frame (snd (b, s)) = tx_frame s"
  by (simp_all add: case_prod_beta Let_def)

text \<open>Bindings of floats and of lists are unfolded like the other plain values.\<close>

lemma let_floats [frame_simps]:
  "(let x = (r :: rat) in f x) = f r"
  by (simp add: Let_def)

section \<open>Checks while controls are not allowed\<close>

named_theorems gate_simps "what the checks reject while controls are not allowed"

lemma steer_torque_gate [gate_simps]:
  "\<not> controls_allowed s \<Longrightarrow> fst (steer_torque_cmd_checks t r lm s) \<longleftrightarrow> t \<noteq> 0"
  using fst_steer_torque_cmd_checks [of t r lm s] by auto

lemma steer_angle_gate [gate_simps]:
  "\<not> controls_allowed s \<Longrightarrow> fst (steer_angle_cmd_checks a True lm s)"
  by (simp add: steer_angle_cmd_checks_def Let_def)

lemma longitudinal_gate [gate_simps]:
  assumes "\<not> controls_allowed s"
  shows "longitudinal_accel_checks a L s \<longleftrightarrow> a \<noteq> inactive_accel L"
    and "longitudinal_speed_checks a L s \<longleftrightarrow> a \<noteq> inactive_speed L"
    and "longitudinal_transmission_rpm_checks a L s \<longleftrightarrow> a \<noteq> inactive_transmission_rpm L"
    and "longitudinal_gas_checks a L s \<longleftrightarrow> a \<noteq> inactive_gas L"
    and "longitudinal_brake_checks a L s \<longleftrightarrow> a \<noteq> 0 \<or> a > max_brake L"
  using assms
  by (simp_all add: longitudinal_accel_checks_def longitudinal_speed_checks_def
      longitudinal_transmission_rpm_checks_def longitudinal_gas_checks_def
      longitudinal_brake_checks_def get_longitudinal_allowed_def Let_def)

text \<open>Two bytes joined by shift and or are a number in base 256; its sign extension is zero
  only for zero bytes.\<close>

lemma or_disjoint: "0 \<le> b \<Longrightarrow> b < 2 ^ n \<Longrightarrow> push_bit n a OR b = 2 ^ n * a + (b :: int)"
proof -
  assume b: "0 \<le> b" "b < 2 ^ n"
  have "push_bit n a OR take_bit n b = push_bit n a + take_bit n b"
    by (rule disjunctive_add [symmetric]) (auto simp: bit_simps)
  then show ?thesis using b by (simp add: take_bit_int_eq_self push_bit_eq_mult mult.commute)
qed

lemma two_bytes_bounds: "0 \<le> 256 * BYTE p i + BYTE p j" "256 * BYTE p i + BYTE p j < 65536"
  using BYTE_bounds [of p i] BYTE_bounds [of p j] by linarith+

lemma two_bytes_eq_0: "256 * BYTE p i + BYTE p j = 0 \<longleftrightarrow> BYTE p i = 0 \<and> BYTE p j = 0"
  using BYTE_bounds [of p i] BYTE_bounds [of p j] by presburger

lemma to_signed_eq_0:
  "0 \<le> d \<Longrightarrow> d < 2 ^ Suc n \<Longrightarrow> to_signed d (int (Suc n)) = 0 \<longleftrightarrow> d = 0"
  by (auto simp: to_signed_def nat_add_distrib)

lemma to_signed_16_eq_0:
  "to_signed (256 * BYTE p i + BYTE p j) 16 = 0 \<longleftrightarrow> BYTE p i = 0 \<and> BYTE p j = 0"
  using to_signed_eq_0 [of "256 * BYTE p i + BYTE p j" 15] two_bytes_bounds [of p i j]
    two_bytes_eq_0 [of p i j] by simp

text \<open>Masks and shifts of signals as arithmetic.\<close>

lemma and_exp_mod: "(x :: int) AND (2 ^ n - 1) = x mod 2 ^ n"
  by (simp add: mask_eq_exp_minus_1 [symmetric] take_bit_eq_mask [symmetric] take_bit_eq_mod)

lemma and_mod:
  fixes x :: int
  shows "x AND 3 = x mod 4" "x AND 7 = x mod 8" "x AND 0xF = x mod 16"
    "x AND 0x1F = x mod 32" "x AND 0x3F = x mod 64" "x AND 0x7F = x mod 128" "x AND 0xFF = x mod 256"
    "x AND 0x7FF = x mod 2048" "x AND 0xFFF = x mod 4096" "x AND 0x1FFF = x mod 8192"
    "x AND 0x3FFF = x mod 16384"
proof -
  have e: "(2 :: int) ^ 2 - 1 = 3" "(2 :: int) ^ 3 - 1 = 7" "(2 :: int) ^ 4 - 1 = 0xF"
    "(2 :: int) ^ 5 - 1 = 0x1F" "(2 :: int) ^ 6 - 1 = 0x3F" "(2 :: int) ^ 7 - 1 = 0x7F"
    "(2 :: int) ^ 8 - 1 = 0xFF" "(2 :: int) ^ 11 - 1 = 0x7FF" "(2 :: int) ^ 12 - 1 = 0xFFF"
    "(2 :: int) ^ 13 - 1 = 0x1FFF" "(2 :: int) ^ 14 - 1 = 0x3FFF"
    by simp_all
  show "x AND 3 = x mod 4" "x AND 7 = x mod 8" "x AND 0xF = x mod 16"
    "x AND 0x1F = x mod 32" "x AND 0x3F = x mod 64" "x AND 0x7F = x mod 128" "x AND 0xFF = x mod 256"
    "x AND 0x7FF = x mod 2048" "x AND 0xFFF = x mod 4096" "x AND 0x1FFF = x mod 8192"
    "x AND 0x3FFF = x mod 16384"
    unfolding e [symmetric] and_exp_mod by simp_all
qed

lemma byte_tops:
  "BYTE p i div 64 mod 4 = BYTE p i div 64" "BYTE p i div 32 mod 8 = BYTE p i div 32"
  "BYTE p i div 16 mod 16 = BYTE p i div 16"
  using BYTE_bounds [of p i] by simp_all

lemma byte_joins:
  "BYTE p i * 256 OR BYTE p j = 256 * BYTE p i + BYTE p j"
  "BYTE p i * 4 OR BYTE p j div 64 = 4 * BYTE p i + BYTE p j div 64"
  "BYTE p i * 8 OR BYTE p j div 32 = 8 * BYTE p i + BYTE p j div 32"
  "BYTE p i * 16 OR BYTE p j div 16 = 16 * BYTE p i + BYTE p j div 16"
proof -
  have b: "0 \<le> BYTE p j div 64" "BYTE p j div 64 < 4" "0 \<le> BYTE p j div 32" "BYTE p j div 32 < 8"
    "0 \<le> BYTE p j div 16" "BYTE p j div 16 < 16"
    using BYTE_bounds [of p j] by auto
  show "BYTE p i * 256 OR BYTE p j = 256 * BYTE p i + BYTE p j"
    "BYTE p i * 4 OR BYTE p j div 64 = 4 * BYTE p i + BYTE p j div 64"
    "BYTE p i * 8 OR BYTE p j div 32 = 8 * BYTE p i + BYTE p j div 32"
    "BYTE p i * 16 OR BYTE p j div 16 = 16 * BYTE p i + BYTE p j div 16"
    using or_disjoint [of "BYTE p j" 8 "BYTE p i"] or_disjoint [of "BYTE p j div 64" 2 "BYTE p i"]
      or_disjoint [of "BYTE p j div 32" 3 "BYTE p i"] or_disjoint [of "BYTE p j div 16" 4 "BYTE p i"]
      b BYTE_bounds [of p j] by (simp_all add: push_bit_eq_mult)
qed

lemma to_signed_12_eq_0:
  "to_signed (16 * BYTE p i + BYTE p j div 16) 12 = 0 \<longleftrightarrow> 16 * BYTE p i + BYTE p j div 16 = 0"
  using to_signed_eq_0 [of "16 * BYTE p i + BYTE p j div 16" 11] BYTE_bounds [of p i] BYTE_bounds [of p j]
  by simp

lemmas byte_arith = byte_joins byte_tops and_mod push_bit_eq_mult drop_bit_eq_div

text \<open>An offset subtracted in unsigned arithmetic and read back as signed is an integer subtraction.\<close>

lemma sint_of_int:
  "- (2 ^ 31) \<le> e \<Longrightarrow> e < 2 ^ 31 \<Longrightarrow> sint (word_of_int e :: u32) = e"
  by (simp add: signed_of_int signed_take_bit_int_eq_self)

lemma sint_offset:
  assumes "0 \<le> d" "d < 2 ^ 31" "0 \<le> k" "k < 2 ^ 31"
  shows "sint (word_of_int d - word_of_int k :: u32) = d - k"
  using sint_of_int [of "d - k"] assms unfolding wi_hom_sub by simp

lemma nibble_byte:
  "push_bit 8 (BYTE p i AND 0x0F) OR BYTE p j = 256 * (BYTE p i mod 16) + BYTE p j"
  "0 \<le> 256 * (BYTE p i mod 16) + BYTE p j" "256 * (BYTE p i mod 16) + BYTE p j < 4096"
  using or_disjoint [of "BYTE p j" 8 "BYTE p i AND 0xF"] BYTE_bounds [of p j]
    pos_mod_bound [of 16 "BYTE p i"] pos_mod_sign [of 16 "BYTE p i"]
  by (simp_all add: and_mod)

section \<open>Configurations\<close>

text \<open>Three entries, the first one in use, and every used entry expected at 10 Hz or more.\<close>

definition check_ok :: "RxCheck \<Rightarrow> bool" where
  "check_ok c \<longleftrightarrow> length (rc_msg c) = MAX_ADDR_CHECK_MSGS \<and> c_addr (rc_msg c ! 0) \<noteq> 0 \<and>
     (\<forall>m \<in> set (rc_msg c). c_addr m \<noteq> 0 \<longrightarrow> 10 \<le> frequency m) \<and> rc_status c = RxStatus_0"

definition config_ok :: "safety_config \<Rightarrow> bool" where
  "config_ok cfg \<longleftrightarrow> (\<forall>c \<in> set (rx_checks cfg). check_ok c)"

lemma config_ok_simps [simp]:
  "config_ok empty_cfg"
  "config_ok \<lparr>rx_checks = [], tx_msgs = tx\<rparr>"
  "config_ok \<lparr>rx_checks = c # cs, tx_msgs = tx\<rparr> \<longleftrightarrow> check_ok c \<and> config_ok \<lparr>rx_checks = cs, tx_msgs = tx\<rparr>"
  "config_ok (BUILD_SAFETY_CFG cs tx) \<longleftrightarrow> (\<forall>c \<in> set cs. check_ok c)"
  by (auto simp: config_ok_def empty_cfg_def BUILD_SAFETY_CFG_def)

lemma config_ok_update [simp]:
  "config_ok (cfg\<lparr>rx_checks := cs\<rparr>) \<longleftrightarrow> (\<forall>c \<in> set cs. check_ok c)"
  "config_ok (cfg\<lparr>tx_msgs := ts\<rparr>) = config_ok cfg"
  by (simp_all add: config_ok_def)

lemma check_ok_RX [simp]:
  "check_ok (RX [a]) \<longleftrightarrow> c_addr a \<noteq> 0 \<and> 10 \<le> frequency a"
  "check_ok (RX [a, b]) \<longleftrightarrow> c_addr a \<noteq> 0 \<and> 10 \<le> frequency a \<and> (c_addr b \<noteq> 0 \<longrightarrow> 10 \<le> frequency b)"
  "check_ok (RX [a, b, c]) \<longleftrightarrow> c_addr a \<noteq> 0 \<and> 10 \<le> frequency a \<and> (c_addr b \<noteq> 0 \<longrightarrow> 10 \<le> frequency b) \<and>
     (c_addr c \<noteq> 0 \<longrightarrow> 10 \<le> frequency c)"
  by (auto simp: check_ok_def RX_def MAX_ADDR_CHECK_MSGS_def CHK_0_def numeral_eq_Suc)

lemma CHK_simps [simp]:
  "c_addr (CHK a b l f) = a" "frequency (CHK a b l f) = f"
  by (simp_all add: CHK_def)

section \<open>The contract\<close>

locale safety_mode =
  fixes H :: "'a st safety_hooks"
    and actuates :: "CANPacket_t \<Rightarrow> 'a st \<Rightarrow> bool"
  assumes rx_frame_kept: "rx_frame (h_rx H p s) = rx_frame s"
    and relay_kept: "relay_malfunction s \<Longrightarrow> relay_malfunction (h_rx H p s)"
    and tx_frame_kept: "tx_frame (snd (h_tx H p s)) = tx_frame s"
    and fwd_elsewhere: "0 \<le> b \<Longrightarrow> h_fwd H s b a \<in> {- 1, 0, 1, 2} \<and> h_fwd H s b a \<noteq> b"
    and actuation_gated: "fst (h_tx H p s) \<Longrightarrow> actuates p s \<Longrightarrow> controls_allowed s"
    and init_config: "config_ok (fst (h_init H prm s))"
    and init_frame: "config_of (snd (h_init H prm s)) = config_of s"
begin

lemma rx_keeps:
  "config_of (h_rx H p s) = config_of s" "history_of (h_rx H p s) = history_of s"
  using rx_frame_D [OF rx_frame_kept] by blast+

lemma tx_keeps:
  "config_of (snd (h_tx H p s)) = config_of s"
  "controls_allowed (snd (h_tx H p s)) = controls_allowed s"
  "relay_malfunction (snd (h_tx H p s)) = relay_malfunction s"
  using tx_frame_D [OF tx_frame_kept] by blast+

end

end
