(* ===== verification/Safety_Rx.thy ===== *)
theory Safety_Rx
  imports Mode_Contract
begin

text \<open>
  Message validity, \<^verbatim>\<open>board/safety.h\<close>: which monitored entry a received packet
  belongs to, its checksum, counter and quality flag, the gate in front of the receive hook,
  the transmit white list, and the 1 Hz check for messages that stopped coming. The functions
  take the hook table as the source does; the index \<open>-1\<close> is \<open>None\<close>. An entry of the
  table is visited once, front to back, so the loop over indices is recursion over the list.
\<close>

definition MAX_WRONG_COUNTERS :: int where "MAX_WRONG_COUNTERS = 5"

section \<open>Which entry a packet belongs to\<close>

definition msg_matches :: "CANPacket_t \<Rightarrow> CanMsgCheck \<Rightarrow> bool" where
  "msg_matches p m \<longleftrightarrow> GET_ADDR p = c_addr m \<and> GET_BUS p = c_bus m \<and> int (GET_LEN p) = c_len m"

fun find_msg :: "CANPacket_t \<Rightarrow> nat \<Rightarrow> CanMsgCheck list \<Rightarrow> nat option" where
  "find_msg p j [] = None"
| "find_msg p j (m # ms) =
     (if c_addr m = 0 then None
      else if msg_matches p m then Some j
      else find_msg p (Suc j) ms)"

definition see_msg :: "CANPacket_t \<Rightarrow> RxCheck \<Rightarrow> RxCheck" where
  "see_msg p c =
     (if \<not> msg_seen (rc_status c) then
        (case find_msg p 0 (take MAX_ADDR_CHECK_MSGS (rc_msg c)) of
           Some j \<Rightarrow> c\<lparr>rc_status := (rc_status c)\<lparr>st_index := j, msg_seen := True\<rparr>\<rparr>
         | None \<Rightarrow> c)
      else c)"

fun get_addr_check_index :: "CANPacket_t \<Rightarrow> nat \<Rightarrow> RxCheck list \<Rightarrow> nat option \<times> RxCheck list" where
  "get_addr_check_index p i [] = (None, [])"
| "get_addr_check_index p i (c # cs) =
     (let c = see_msg p c
      in if msg_seen (rc_status c) \<and> msg_matches p (rc_cur c) then (Some i, c # cs)
         else let (r, cs) = get_addr_check_index p (Suc i) cs in (r, c # cs))"

section \<open>Its status\<close>

definition upd_status :: "(RxStatus \<Rightarrow> RxStatus) \<Rightarrow> nat \<Rightarrow> RxCheck list \<Rightarrow> RxCheck list" where
  "upd_status f i cs = cs[i := (cs ! i)\<lparr>rc_status := f (rc_status (cs ! i))\<rparr>]"

definition status_valid :: "RxStatus \<Rightarrow> bool" where
  "status_valid st \<longleftrightarrow> \<not> (\<not> valid_checksum st \<or> \<not> valid_quality_flag st \<or>
     wrong_counters st \<ge> MAX_WRONG_COUNTERS)"

definition is_msg_valid :: "nat option \<Rightarrow> 'a safety_scheme \<Rightarrow> bool \<times> 'a safety_scheme" where
  "is_msg_valid index s =
     (case index of
        None \<Rightarrow> (True, s)
      | Some i \<Rightarrow>
          if \<not> status_valid (rc_status (rx_checks (current_safety_config s) ! i))
          then (False, s\<lparr>controls_allowed := False\<rparr>) else (True, s))"

definition update_addr_timestamp :: "u32 \<Rightarrow> nat \<Rightarrow> RxCheck list \<Rightarrow> RxCheck list" where
  "update_addr_timestamp ts i cs = upd_status (\<lambda>st. st\<lparr>last_timestamp := ts\<rparr>) i cs"

definition next_counter :: "u8 \<Rightarrow> u8 \<Rightarrow> u8" where
  "next_counter max_c last_c = ucast ((ucast last_c + 1 :: u32) mod (ucast max_c + 1))"

definition update_counter :: "nat \<Rightarrow> u8 \<Rightarrow> RxCheck list \<Rightarrow> RxCheck list" where
  "update_counter i counter cs =
     (let expected_counter = next_counter (max_counter (rc_cur (cs ! i))) (last_counter (rc_status (cs ! i)));
          cs = upd_status (\<lambda>st. st\<lparr>wrong_counters :=
                 wrong_counters st + (if expected_counter = counter then - 1 else 1)\<rparr>) i cs;
          cs = upd_status (\<lambda>st. st\<lparr>wrong_counters := CLAMP (wrong_counters st) 0 MAX_WRONG_COUNTERS\<rparr>) i cs
      in upd_status (\<lambda>st. st\<lparr>last_counter := counter\<rparr>) i cs)"

definition check_entry :: "CANPacket_t \<Rightarrow> 'a st safety_hooks \<Rightarrow> 'a st \<Rightarrow> nat \<Rightarrow> RxCheck list \<Rightarrow> RxCheck list" where
  "check_entry to_push H s i cs =
     (let cs = (case (h_get_checksum H, h_compute_checksum H, check_checksum (rc_cur (cs ! i))) of
            (Some get, Some compute, True) \<Rightarrow>
              upd_status (\<lambda>st. st\<lparr>valid_checksum := compute s to_push = get to_push\<rparr>) i cs
          | _ \<Rightarrow> upd_status (\<lambda>st. st\<lparr>valid_checksum := True\<rparr>) i cs);
          cs = (case (h_get_counter H, max_counter (rc_cur (cs ! i)) > 0) of
            (Some get, True) \<Rightarrow> update_counter i (get to_push) cs
          | _ \<Rightarrow> upd_status (\<lambda>st. st\<lparr>wrong_counters := 0\<rparr>) i cs)
      in (case (h_get_quality_flag_valid H, quality_flag (rc_cur (cs ! i))) of
            (Some get, True) \<Rightarrow> upd_status (\<lambda>st. st\<lparr>valid_quality_flag := get to_push\<rparr>) i cs
          | _ \<Rightarrow> upd_status (\<lambda>st. st\<lparr>valid_quality_flag := True\<rparr>) i cs))"

definition set_checks :: "RxCheck list \<Rightarrow> 'a safety_scheme \<Rightarrow> 'a safety_scheme" where
  "set_checks cs s = s\<lparr>current_safety_config := (current_safety_config s)\<lparr>rx_checks := cs\<rparr>\<rparr>"

definition rx_msg_safety_check :: "CANPacket_t \<Rightarrow> 'a st safety_hooks \<Rightarrow> 'a st \<Rightarrow> bool \<times> 'a st" where
  "rx_msg_safety_check to_push H s =
     (let (index, cs) = get_addr_check_index to_push 0 (rx_checks (current_safety_config s));
          cs = (case index of None \<Rightarrow> cs | Some i \<Rightarrow> update_addr_timestamp (microsecond_timer s) i cs);
          cs = (case index of None \<Rightarrow> cs | Some i \<Rightarrow> check_entry to_push H s i cs)
      in is_msg_valid index (set_checks cs s))"

section \<open>The entry points\<close>

definition rx_gate :: "'a st safety_hooks \<Rightarrow> CANPacket_t \<Rightarrow> 'a st \<Rightarrow> bool \<times> 'a st" where
  "rx_gate H to_push s =
     (let controls_allowed_prev = controls_allowed s;
          (valid, s) = rx_msg_safety_check to_push H s;
          s = (if valid then h_rx H to_push s else s);
          s = (if controls_allowed s \<and> \<not> controls_allowed_prev
               then s\<lparr>heartbeat_engaged_mismatches := 0\<rparr> else s)
      in (valid, s))"

fun msg_allowed :: "CANPacket_t \<Rightarrow> CanMsg list \<Rightarrow> bool" where
  "msg_allowed to_send [] = False"
| "msg_allowed to_send (m # ms) =
     (if GET_ADDR to_send = m_addr m \<and> GET_BUS to_send = m_bus m \<and> int (GET_LEN to_send) = m_len m
      then True else msg_allowed to_send ms)"

text \<open>The 1 Hz check. Times are compared as floats, as the source does.\<close>

definition MAX_MISSED_MSGS :: u32 where "MAX_MISSED_MSGS = 10"

definition lag_timestep :: "u32 \<Rightarrow> u32" where
  "lag_timestep freq = word_of_int (int_of_float (fl (1000000 / float_of_int (uint freq))))"

definition lagging_at :: "u32 \<Rightarrow> RxCheck \<Rightarrow> bool" where
  "lagging_at ts c =
     (let elapsed_time = get_ts_elapsed ts (last_timestamp (rc_status c));
          timestep = lag_timestep (frequency (rc_cur c))
      in float_of_int (uint elapsed_time) >
           MAX_m (float_of_int (uint (timestep * MAX_MISSED_MSGS))) 1000000)"

fun tick_loop :: "u32 \<Rightarrow> nat \<Rightarrow> nat \<Rightarrow> bool \<Rightarrow> 'a safety_scheme \<Rightarrow> bool \<times> 'a safety_scheme" where
  "tick_loop ts i 0 rx_checks_invalid s = (rx_checks_invalid, s)"
| "tick_loop ts i (Suc n) rx_checks_invalid s =
     (let cs = rx_checks (current_safety_config s);
          lag = lagging_at ts (cs ! i);
          s = set_checks (upd_status (\<lambda>st. st\<lparr>lagging := lag\<rparr>) i cs) s;
          s = (if lag then s\<lparr>controls_allowed := False\<rparr> else s);
          (valid, s) = (if lag then (True, s) else is_msg_valid (Some i) s);
          rx_checks_invalid = (if lag \<or> \<not> valid then True else rx_checks_invalid)
      in tick_loop ts (Suc i) n rx_checks_invalid s)"

definition safety_tick :: "'a safety_scheme \<Rightarrow> 'a safety_scheme" where
  "safety_tick s =
     (let ts = microsecond_timer s;
          (rx_checks_invalid, s) = tick_loop ts 0 (length (rx_checks (current_safety_config s))) False s
      in s\<lparr>safety_rx_checks_invalid := rx_checks_invalid\<rparr>)"

end
