(* ===== verification/Rx_Validity.thy ===== *)
theory Rx_Validity
  imports Safety_Rx
begin

text \<open>
  What the validity check guarantees: the invariant of the monitored entries, the exact
  condition under which a received packet reaches the receive hook, and the meaning of
  the lag check.
\<close>

section \<open>The invariant of an entry\<close>

text \<open>The selected message is one of the entry's three, in use, expected at 10 Hz or more;
  the count of wrong counters is saturated.\<close>

definition check_inv :: "RxCheck \<Rightarrow> bool" where
  "check_inv c \<longleftrightarrow> length (rc_msg c) = MAX_ADDR_CHECK_MSGS \<and> st_index (rc_status c) < MAX_ADDR_CHECK_MSGS \<and>
     (\<forall>m \<in> set (rc_msg c). c_addr m \<noteq> 0 \<longrightarrow> 10 \<le> frequency m) \<and> c_addr (rc_cur c) \<noteq> 0 \<and>
     0 \<le> wrong_counters (rc_status c) \<and> wrong_counters (rc_status c) \<le> MAX_WRONG_COUNTERS"

definition checks_inv :: "RxCheck list \<Rightarrow> bool" where
  "checks_inv cs \<longleftrightarrow> (\<forall>c \<in> set cs. check_inv c)"

lemma check_inv_init: "check_ok c \<Longrightarrow> check_inv c"
  by (simp add: check_ok_def check_inv_def RxStatus_0_def rc_cur_def MAX_WRONG_COUNTERS_def MAX_ADDR_CHECK_MSGS_def)

lemma checks_inv_init: "config_ok cfg \<Longrightarrow> checks_inv (rx_checks cfg)"
  by (simp add: config_ok_def checks_inv_def check_inv_init)

lemma check_inv_frequency: "check_inv c \<Longrightarrow> 10 \<le> frequency (rc_cur c)"
  by (auto simp: check_inv_def rc_cur_def)

section \<open>Finding the entry\<close>

lemma find_msg_Some:
  assumes "find_msg p j ms = Some k"
  shows "j \<le> k \<and> k < j + length ms \<and> c_addr (ms ! (k - j)) \<noteq> 0 \<and> msg_matches p (ms ! (k - j))"
  using assms
proof (induction p j ms rule: find_msg.induct)
  case (2 p j m ms)
  show ?case
  proof (cases "c_addr m \<noteq> 0 \<and> \<not> msg_matches p m")
    case True
    then have "Suc j \<le> k \<and> k < Suc j + length ms \<and> c_addr (ms ! (k - Suc j)) \<noteq> 0 \<and>
        msg_matches p (ms ! (k - Suc j))"
      using 2 by simp
    moreover from this have "k - j = Suc (k - Suc j)" by linarith
    ultimately show ?thesis by simp
  next
    case False
    then show ?thesis using 2 by (auto split: if_splits)
  qed
qed simp

lemma see_msg_msgs [simp]: "rc_msg (see_msg p c) = rc_msg c"
  by (simp add: see_msg_def split: option.splits)

lemma see_msg_status [simp]:
  "wrong_counters (rc_status (see_msg p c)) = wrong_counters (rc_status c)"
  "last_counter (rc_status (see_msg p c)) = last_counter (rc_status c)"
  by (simp_all add: see_msg_def split: option.splits)

lemma see_msg_inv:
  assumes "check_inv c"
  shows "check_inv (see_msg p c)"
proof (cases "find_msg p 0 (take MAX_ADDR_CHECK_MSGS (rc_msg c))")
  case None
  then show ?thesis using assms by (simp add: see_msg_def)
next
  case (Some j)
  from find_msg_Some [OF this] have "j < length (take MAX_ADDR_CHECK_MSGS (rc_msg c))"
    and a: "c_addr (take MAX_ADDR_CHECK_MSGS (rc_msg c) ! j) \<noteq> 0"
    by (auto simp del: nth_take)
  then have j: "j < MAX_ADDR_CHECK_MSGS" by simp
  moreover have "c_addr (rc_msg c ! j) \<noteq> 0" using a by (simp only: nth_take [OF j] not_False_eq_True)
  ultimately have "j < MAX_ADDR_CHECK_MSGS" "c_addr (rc_msg c ! j) \<noteq> 0" by simp_all
  then show ?thesis using assms Some by (simp add: see_msg_def check_inv_def rc_cur_def)
qed

lemma get_addr_check_index_length [simp]: "length (snd (get_addr_check_index p i cs)) = length cs"
  by (induction p i cs rule: get_addr_check_index.induct) (simp_all add: Let_def case_prod_beta)

lemma get_addr_check_index_inv:
  "checks_inv cs \<Longrightarrow> checks_inv (snd (get_addr_check_index p i cs))"
  by (induction p i cs rule: get_addr_check_index.induct)
    (simp_all add: Let_def case_prod_beta checks_inv_def see_msg_inv)

text \<open>The entry found is in the table, its selected message is the packet's, and it is the
  first such entry.\<close>

lemma get_addr_check_index_Some:
  assumes "fst (get_addr_check_index p i cs) = Some k"
  shows "i \<le> k \<and> k < i + length cs \<and>
    msg_matches p (rc_cur (snd (get_addr_check_index p i cs) ! (k - i))) \<and>
    msg_seen (rc_status (snd (get_addr_check_index p i cs) ! (k - i)))"
  using assms
proof (induction p i cs rule: get_addr_check_index.induct)
  case (2 p i c cs)
  show ?case
  proof (cases "msg_seen (rc_status (see_msg p c)) \<and> msg_matches p (rc_cur (see_msg p c))")
    case True
    then show ?thesis using 2 by (auto simp: Let_def)
  next
    case False
    then have "fst (get_addr_check_index p (Suc i) cs) = Some k"
      using "2.prems" by (simp add: Let_def case_prod_beta split: if_splits)
    moreover have "snd (get_addr_check_index p i (c # cs)) = see_msg p c # snd (get_addr_check_index p (Suc i) cs)"
      using False by (auto simp: Let_def case_prod_beta)
    ultimately show ?thesis
      using "2.IH" [OF refl False] by (auto simp: nth_Cons' Suc_le_eq)
  qed
qed simp

section \<open>The status after a packet\<close>

lemma upd_status_length [simp]: "length (upd_status f i cs) = length cs"
  by (simp add: upd_status_def)

lemma upd_status_nth [simp]:
  "i < length cs \<Longrightarrow> upd_status f i cs ! i = (cs ! i)\<lparr>rc_status := f (rc_status (cs ! i))\<rparr>"
  "i \<noteq> j \<Longrightarrow> upd_status f i cs ! j = cs ! j"
  by (simp_all add: upd_status_def)

lemma upd_status_out: "length cs \<le> i \<Longrightarrow> upd_status f i cs = cs"
  by (simp add: upd_status_def list_update_beyond)

lemma upd_status_inv:
  assumes "checks_inv cs"
    and "\<And>st. st_index (f st) = st_index st"
    and "\<And>st. 0 \<le> wrong_counters st \<Longrightarrow> wrong_counters st \<le> MAX_WRONG_COUNTERS \<Longrightarrow>
      0 \<le> wrong_counters (f st) \<and> wrong_counters (f st) \<le> MAX_WRONG_COUNTERS"
  shows "checks_inv (upd_status f i cs)"
proof (cases "i < length cs")
  case True
  then have "check_inv (cs ! i)" using assms(1) by (simp add: checks_inv_def)
  then have "check_inv ((cs ! i)\<lparr>rc_status := f (rc_status (cs ! i))\<rparr>)"
    using assms(2,3) by (simp add: check_inv_def rc_cur_def)
  then show ?thesis using assms(1) set_update_subset_insert [of cs i]
    by (auto simp: checks_inv_def upd_status_def)
qed (use assms(1) in \<open>simp add: upd_status_out\<close>)

definition checksum_ok :: "'a st safety_hooks \<Rightarrow> 'a st \<Rightarrow> CANPacket_t \<Rightarrow> CanMsgCheck \<Rightarrow> bool" where
  "checksum_ok H s p m \<longleftrightarrow>
     (case (h_get_checksum H, h_compute_checksum H) of
        (Some g, Some c) \<Rightarrow> check_checksum m \<longrightarrow> c s p = g p | _ \<Rightarrow> True)"

definition quality_ok :: "'a st safety_hooks \<Rightarrow> CANPacket_t \<Rightarrow> CanMsgCheck \<Rightarrow> bool" where
  "quality_ok H p m \<longleftrightarrow>
     (case h_get_quality_flag_valid H of Some g \<Rightarrow> quality_flag m \<longrightarrow> g p | None \<Rightarrow> True)"

definition counter_checked :: "'a st safety_hooks \<Rightarrow> CanMsgCheck \<Rightarrow> bool" where
  "counter_checked H m \<longleftrightarrow> h_get_counter H \<noteq> None \<and> 0 < max_counter m"

definition counter_ok :: "'a st safety_hooks \<Rightarrow> CANPacket_t \<Rightarrow> CanMsgCheck \<Rightarrow> RxStatus \<Rightarrow> bool" where
  "counter_ok H p m st \<longleftrightarrow> next_counter (max_counter m) (last_counter st) = the (h_get_counter H) p"

definition wrong_after :: "'a st safety_hooks \<Rightarrow> CANPacket_t \<Rightarrow> CanMsgCheck \<Rightarrow> RxStatus \<Rightarrow> int" where
  "wrong_after H p m st =
     (if counter_checked H m
      then if counter_ok H p m st then max 0 (wrong_counters st - 1)
           else min MAX_WRONG_COUNTERS (wrong_counters st + 1)
      else 0)"

text \<open>The checks done on one entry, as one update of its status.\<close>

lemma check_entry_status:
  assumes "i < length cs" and "check_inv (cs ! i)"
  shows "check_entry p H s i cs ! i =
    (cs ! i)\<lparr>rc_status := (rc_status (cs ! i))
       \<lparr>valid_checksum := checksum_ok H s p (rc_cur (cs ! i)),
        wrong_counters := wrong_after H p (rc_cur (cs ! i)) (rc_status (cs ! i)),
        valid_quality_flag := quality_ok H p (rc_cur (cs ! i)),
        last_counter := (if counter_checked H (rc_cur (cs ! i)) then the (h_get_counter H) p
                         else last_counter (rc_status (cs ! i)))\<rparr>\<rparr>"
proof -
  have w: "0 \<le> wrong_counters (rc_status (cs ! i))" "wrong_counters (rc_status (cs ! i)) \<le> 5"
    using assms(2) by (simp_all add: check_inv_def MAX_WRONG_COUNTERS_def)
  obtain gc where gc: "h_get_checksum H = gc" by blast
  obtain cc where cc: "h_compute_checksum H = cc" by blast
  obtain gn where gn: "h_get_counter H = gn" by blast
  obtain gq where gq: "h_get_quality_flag_valid H = gq" by blast
  show ?thesis using assms(1) w
    by (cases gc; cases cc; cases gn; cases gq)
      (auto simp: check_entry_def checksum_ok_def quality_ok_def wrong_after_def counter_checked_def
        counter_ok_def update_counter_def rc_cur_def gc cc gn gq CLAMP_def MAX_WRONG_COUNTERS_def Let_def
        split: bool.splits)
qed


lemma check_entry_length [simp]: "length (check_entry p H s i cs) = length cs"
  by (simp add: check_entry_def update_counter_def Let_def split: option.splits bool.splits)

lemma update_counter_inv: "checks_inv cs \<Longrightarrow> checks_inv (update_counter i n cs)"
proof -
  assume inv: "checks_inv cs"
  let ?d = "if next_counter (max_counter (rc_cur (cs ! i))) (last_counter (rc_status (cs ! i))) = n then - 1 else 1 :: int"
  have two: "upd_status (\<lambda>st. st\<lparr>wrong_counters := CLAMP (wrong_counters st) 0 MAX_WRONG_COUNTERS\<rparr>) i
      (upd_status (\<lambda>st. st\<lparr>wrong_counters := wrong_counters st + ?d\<rparr>) i cs) =
    upd_status (\<lambda>st. st\<lparr>wrong_counters := CLAMP (wrong_counters st + ?d) 0 MAX_WRONG_COUNTERS\<rparr>) i cs"
    by (cases "i < length cs") (simp_all add: upd_status_def list_update_beyond)
  show ?thesis unfolding update_counter_def Let_def two
    by (intro upd_status_inv inv) (auto simp: CLAMP_def MAX_WRONG_COUNTERS_def)
qed

lemma check_entry_inv: "checks_inv cs \<Longrightarrow> checks_inv (check_entry p H s i cs)"
  unfolding check_entry_def Let_def
  by (auto split: option.splits bool.splits intro!: upd_status_inv update_counter_inv
      simp: MAX_WRONG_COUNTERS_def)

lemma update_addr_timestamp_inv: "checks_inv cs \<Longrightarrow> checks_inv (update_addr_timestamp ts i cs)"
  unfolding update_addr_timestamp_def by (intro upd_status_inv) simp_all

section \<open>The gate in front of the receive hook\<close>

text \<open>The specification: the packet is not monitored, or its checksum and quality flag are good
  and fewer than five wrong counters have been counted.\<close>

definition valid_packet :: "'a st safety_hooks \<Rightarrow> 'a st \<Rightarrow> CANPacket_t \<Rightarrow> bool" where
  "valid_packet H s p \<longleftrightarrow>
     (case get_addr_check_index p 0 (rx_checks (current_safety_config s)) of
        (None, cs) \<Rightarrow> True
      | (Some i, cs) \<Rightarrow> checksum_ok H s p (rc_cur (cs ! i)) \<and> quality_ok H p (rc_cur (cs ! i)) \<and>
          wrong_after H p (rc_cur (cs ! i)) (rc_status (cs ! i)) < MAX_WRONG_COUNTERS)"

text \<open>The table after the check.\<close>

definition checks_after :: "'a st safety_hooks \<Rightarrow> 'a st \<Rightarrow> CANPacket_t \<Rightarrow> RxCheck list" where
  "checks_after H s p =
     (case get_addr_check_index p 0 (rx_checks (current_safety_config s)) of
        (None, cs) \<Rightarrow> cs
      | (Some i, cs) \<Rightarrow> check_entry p H s i (update_addr_timestamp (microsecond_timer s) i cs))"

lemma checks_after_inv:
  "checks_inv (rx_checks (current_safety_config s)) \<Longrightarrow> checks_inv (checks_after H s p)"
  using get_addr_check_index_inv [of "rx_checks (current_safety_config s)" p 0]
  by (auto simp: checks_after_def case_prod_beta split: option.splits
      intro!: check_entry_inv update_addr_timestamp_inv)

lemma set_checks_config [simp]: "rx_checks (current_safety_config (set_checks cs s)) = cs"
  by (simp add: set_checks_def)

lemma rx_msg_safety_check_eq:
  assumes "checks_inv (rx_checks (current_safety_config s))"
  shows "rx_msg_safety_check p H s =
    (if valid_packet H s p then (True, set_checks (checks_after H s p) s)
     else (False, (set_checks (checks_after H s p) s)\<lparr>controls_allowed := False\<rparr>))"
proof -
  let ?cs = "rx_checks (current_safety_config s)"
  obtain cs where cs: "cs = snd (get_addr_check_index p 0 ?cs)" by simp
  have inv: "checks_inv cs" using get_addr_check_index_inv [OF assms] by (simp add: cs)
  show ?thesis
  proof (cases "fst (get_addr_check_index p 0 ?cs)")
    case None
    then show ?thesis
      by (simp add: rx_msg_safety_check_def valid_packet_def checks_after_def case_prod_beta Let_def
          is_msg_valid_def)
  next
    case (Some i)
    then have i: "i < length cs" using get_addr_check_index_Some [OF Some] by (simp add: cs)
    then have c: "check_inv (cs ! i)" using inv by (simp add: checks_inv_def)
    let ?ts = "update_addr_timestamp (microsecond_timer s) i cs"
    have i': "i < length ?ts" using i by (simp add: update_addr_timestamp_def)
    have ts: "?ts ! i = (cs ! i)\<lparr>rc_status := (rc_status (cs ! i))\<lparr>last_timestamp := microsecond_timer s\<rparr>\<rparr>"
      using i by (simp add: update_addr_timestamp_def)
    have c': "check_inv (?ts ! i)" using c by (simp add: ts check_inv_def rc_cur_def)
    have w: "wrong_after H p m (st\<lparr>last_timestamp := t\<rparr>) = wrong_after H p m st" for m st t
      by (simp add: wrong_after_def counter_ok_def)
    have "rc_cur (?ts ! i) = rc_cur (cs ! i)" by (simp add: ts rc_cur_def)
    then have "status_valid (rc_status (check_entry p H s i ?ts ! i)) \<longleftrightarrow>
        checksum_ok H s p (rc_cur (cs ! i)) \<and> quality_ok H p (rc_cur (cs ! i)) \<and>
        wrong_after H p (rc_cur (cs ! i)) (rc_status (cs ! i)) < MAX_WRONG_COUNTERS"
      unfolding check_entry_status [OF i' c'] by (auto simp: status_valid_def w ts)
    then show ?thesis using Some
      by (simp add: rx_msg_safety_check_def valid_packet_def checks_after_def case_prod_beta Let_def
          is_msg_valid_def cs [symmetric])
  qed
qed

lemma rx_gate_valid_iff:
  assumes "checks_inv (rx_checks (current_safety_config s))"
  shows "fst (rx_gate H p s) \<longleftrightarrow> valid_packet H s p"
  by (simp add: rx_gate_def rx_msg_safety_check_eq [OF assms] Let_def)

lemma rx_gate_invalid:
  assumes "checks_inv (rx_checks (current_safety_config s))" and "\<not> valid_packet H s p"
  shows "snd (rx_gate H p s) = (set_checks (checks_after H s p) s)\<lparr>controls_allowed := False\<rparr>"
  using assms(2) by (simp add: rx_gate_def rx_msg_safety_check_eq [OF assms(1)] Let_def)

lemma rx_gate_valid:
  assumes "checks_inv (rx_checks (current_safety_config s))" and "valid_packet H s p"
  shows "snd (rx_gate H p s) =
    (let t = h_rx H p (set_checks (checks_after H s p) s)
     in if controls_allowed t \<and> \<not> controls_allowed s then t\<lparr>heartbeat_engaged_mismatches := 0\<rparr> else t)"
  using assms(2) by (simp add: rx_gate_def rx_msg_safety_check_eq [OF assms(1)] Let_def)

section \<open>Messages that stopped coming\<close>

lemma float_of_int_le: "x \<le> y \<Longrightarrow> \<bar>y\<bar> < 2 ^ 24 \<Longrightarrow> float_of_int x \<le> of_int y"
  using fl_mono [of "of_int x" "of_int y"] fl_of_int [of y] by (simp add: float_of_int_def)

lemma float_of_int_ge: "x \<le> y \<Longrightarrow> \<bar>x\<bar> < 2 ^ 24 \<Longrightarrow> of_int x \<le> float_of_int y"
  using fl_mono [of "of_int x" "of_int y"] fl_of_int [of x] by (simp add: float_of_int_def)

lemma lag_timestep_bound:
  assumes "10 \<le> f"
  shows "uint (lag_timestep f) \<le> 100000"
proof -
  have "10 \<le> uint f" using assms by (simp add: word_le_def)
  then have f10: "10 \<le> float_of_int (uint f)"
    using float_of_int_ge [of 10 "uint f"] by simp
  then have "1000000 / float_of_int (uint f) \<le> 100000" by (simp add: field_simps)
  then have "fl (1000000 / float_of_int (uint f)) \<le> 100000"
    using fl_mono [of "1000000 / float_of_int (uint f)" 100000] fl_of_int [of 100000] by simp
  then have "int_of_float (fl (1000000 / float_of_int (uint f))) \<le> 100000"
    using int_of_float_mono [of _ 100000] int_of_float_of_int [of 100000] by simp
  moreover have "0 \<le> fl (1000000 / float_of_int (uint f))" using f10 by (intro fl_nonneg) simp
  then have "0 \<le> int_of_float (fl (1000000 / float_of_int (uint f)))"
    using int_of_float_mono [of 0] int_of_float_of_int [of 0] by simp
  ultimately show ?thesis by (simp add: lag_timestep_def unsigned_of_int take_bit_int_eq_self)
qed

lemma float_above_million: "float_of_int x > 1000000 \<longleftrightarrow> x > 1000000"
  using float_of_int_le [of x 1000000] float_of_int_ge [of 1000001 x]
  by (cases "x \<le> 1000000") simp_all

text \<open>At 10 Hz or more the threshold is one second, exactly.\<close>

lemma lagging_iff:
  assumes "10 \<le> frequency (rc_cur c)"
  shows "lagging_at ts c \<longleftrightarrow> 1000000 < uint (get_ts_elapsed ts (last_timestamp (rc_status c)))"
proof -
  let ?t = "lag_timestep (frequency (rc_cur c))"
  have t: "uint ?t \<le> 100000" by (rule lag_timestep_bound [OF assms])
  then have "uint (?t * MAX_MISSED_MSGS) \<le> 1000000"
    by (simp add: MAX_MISSED_MSGS_def uint_word_ariths mod_pos_pos_trivial)
  then have "float_of_int (uint (?t * MAX_MISSED_MSGS)) \<le> 1000000"
    using float_of_int_le [of "uint (?t * MAX_MISSED_MSGS)" 1000000] by simp
  then show ?thesis by (simp add: lagging_at_def Let_def max_def float_above_million)
qed

definition entry_bad :: "u32 \<Rightarrow> RxCheck \<Rightarrow> bool" where
  "entry_bad ts c \<longleftrightarrow> lagging_at ts c \<or> \<not> status_valid (rc_status c)"

lemma set_checks_simps [simp]:
  "controls_allowed (set_checks cs s) = controls_allowed s"
  "set_checks cs (set_checks cs' s) = set_checks cs s"
  by (simp_all add: set_checks_def)

lemma tick_loop_spec:
  assumes "i + n \<le> length (rx_checks (current_safety_config s))"
  shows "(fst (tick_loop ts i n iv s) \<longleftrightarrow>
      iv \<or> (\<exists>j\<ge>i. j < i + n \<and> entry_bad ts (rx_checks (current_safety_config s) ! j))) \<and>
    (controls_allowed (snd (tick_loop ts i n iv s)) \<longleftrightarrow> controls_allowed s \<and>
      \<not> (\<exists>j\<ge>i. j < i + n \<and> entry_bad ts (rx_checks (current_safety_config s) ! j)))"
  using assms
proof (induction n arbitrary: i iv s)
  case 0
  show ?case by auto
next
  case (Suc n)
  note len = Suc.prems
  let ?cs = "rx_checks (current_safety_config s)"
  define lag where "lag = lagging_at ts (?cs ! i)"
  define ok where "ok = status_valid (rc_status (?cs ! i))"
  define s1 where "s1 = set_checks (upd_status (\<lambda>st. st\<lparr>lagging := lag\<rparr>) i ?cs) s"
  define s2 where "s2 = (if lag \<or> \<not> ok then s1\<lparr>controls_allowed := False\<rparr> else s1)"
  have split: "(\<exists>j\<ge>i. j < i + Suc n \<and> Q j) \<longleftrightarrow> Q i \<or> (\<exists>j\<ge>Suc i. j < Suc i + n \<and> Q j)" for Q
    by (metis add_Suc_right add_Suc_shift le_eq_less_or_eq less_add_Suc1 Suc_le_eq)
  have cs1: "rx_checks (current_safety_config s1) = upd_status (\<lambda>st. st\<lparr>lagging := lag\<rparr>) i ?cs"
    by (simp add: s1_def)
  have cs2: "rx_checks (current_safety_config s2) = upd_status (\<lambda>st. st\<lparr>lagging := lag\<rparr>) i ?cs"
    by (simp add: s2_def cs1)
  have st: "status_valid (rc_status (upd_status (\<lambda>st. st\<lparr>lagging := b\<rparr>) i ?cs ! i)) = ok" for b
    using len by (simp add: ok_def status_valid_def)
  have step: "tick_loop ts i (Suc n) iv s = tick_loop ts (Suc i) n (iv \<or> lag \<or> \<not> ok) s2"
    by (cases lag; cases ok)
      (simp_all add: is_msg_valid_def Let_def lag_def [symmetric] s1_def s2_def st)
  have same: "entry_bad ts (rx_checks (current_safety_config s2) ! j) = entry_bad ts (?cs ! j)"
    if "j < length ?cs" for j
    unfolding cs2 using that
    by (cases "i = j") (simp_all add: entry_bad_def lagging_at_def status_valid_def rc_cur_def)
  have ex: "(\<exists>j\<ge>Suc i. j < Suc i + n \<and> entry_bad ts (rx_checks (current_safety_config s2) ! j)) \<longleftrightarrow>
      (\<exists>j\<ge>Suc i. j < Suc i + n \<and> entry_bad ts (?cs ! j))"
    using same len by (metis add_Suc_right add_Suc_shift order_less_le_trans)
  have ca: "controls_allowed s2 \<longleftrightarrow> controls_allowed s \<and> \<not> (lag \<or> \<not> ok)"
    by (simp add: s2_def s1_def)
  have bad: "entry_bad ts (?cs ! i) \<longleftrightarrow> lag \<or> \<not> ok" by (simp add: entry_bad_def lag_def ok_def)
  have len2: "Suc i + n \<le> length (rx_checks (current_safety_config s2))" using len by (simp add: cs2)
  show ?case
    using Suc.IH [OF len2, of "iv \<or> lag \<or> \<not> ok"] unfolding step ex split bad ca by blast
qed

lemma safety_tick_spec:
  "safety_rx_checks_invalid (safety_tick s) \<longleftrightarrow>
     (\<exists>c \<in> set (rx_checks (current_safety_config s)). entry_bad (microsecond_timer s) c)"
  "controls_allowed (safety_tick s) \<longleftrightarrow> controls_allowed s \<and> \<not> safety_rx_checks_invalid (safety_tick s)"
proof -
  have ex: "(\<exists>j\<ge>0. j < 0 + length (cs :: RxCheck list) \<and> Q (cs ! j)) \<longleftrightarrow> (\<exists>c \<in> set cs. Q c)" for cs Q
    by (auto simp: in_set_conv_nth Bex_def)
  show "safety_rx_checks_invalid (safety_tick s) \<longleftrightarrow>
      (\<exists>c \<in> set (rx_checks (current_safety_config s)). entry_bad (microsecond_timer s) c)"
    "controls_allowed (safety_tick s) \<longleftrightarrow> controls_allowed s \<and> \<not> safety_rx_checks_invalid (safety_tick s)"
    using tick_loop_spec [of 0 "length (rx_checks (current_safety_config s))" s "microsecond_timer s" False]
    by (auto simp: safety_tick_def Let_def case_prod_beta ex [simplified])
qed

end
