(* ===== verification/Mode_Defaults.thy ===== *)
theory Mode_Defaults
  imports Mode_Contract
begin

text \<open>
  The modes without a car (\<^verbatim>\<open>safety_defaults.h\<close>, \<^verbatim>\<open>safety_elm327.h\<close>) and
  the body (\<^verbatim>\<open>safety_body.h\<close>).
\<close>

section \<open>No output\<close>

definition default_rx_hook :: "CANPacket_t \<Rightarrow> 'a st \<Rightarrow> 'a st" where
  "default_rx_hook to_push s = s"

definition nooutput_init :: "u16 \<Rightarrow> 'a st \<Rightarrow> safety_config \<times> 'a st" where
  "nooutput_init param s = (empty_cfg, s)"

definition nooutput_tx_hook :: "CANPacket_t \<Rightarrow> 'a st \<Rightarrow> bool \<times> 'a st" where
  "nooutput_tx_hook to_send s = (False, s)"

definition default_fwd_hook :: "'a st \<Rightarrow> int \<Rightarrow> int \<Rightarrow> int" where
  "default_fwd_hook s bus_num addr = - 1"

definition nooutput_hooks :: "'a st safety_hooks" where
  "nooutput_hooks = \<lparr>h_init = nooutput_init, h_rx = default_rx_hook, h_tx = nooutput_tx_hook,
     h_fwd = default_fwd_hook, h_get_checksum = None, h_compute_checksum = None,
     h_get_counter = None, h_get_quality_flag_valid = None\<rparr>"

section \<open>All output\<close>

definition alloutput_init :: "u16 \<Rightarrow> 'a st \<Rightarrow> safety_config \<times> 'a st" where
  "alloutput_init param s =
     (let ALLOUTPUT_PARAM_PASSTHROUGH = 1;
          s = s\<lparr>controls_allowed := True\<rparr>;
          s = s\<lparr>alloutput_passthrough := GET_FLAG param ALLOUTPUT_PARAM_PASSTHROUGH\<rparr>
      in (empty_cfg, s))"

definition alloutput_tx_hook :: "CANPacket_t \<Rightarrow> 'a st \<Rightarrow> bool \<times> 'a st" where
  "alloutput_tx_hook to_send s = (True, s)"

definition alloutput_fwd_hook :: "'a st \<Rightarrow> int \<Rightarrow> int \<Rightarrow> int" where
  "alloutput_fwd_hook s bus_num addr =
     (let bus_fwd = - 1
      in if alloutput_passthrough s then
           let bus_fwd = (if bus_num = 0 then 2 else bus_fwd);
               bus_fwd = (if bus_num = 2 then 0 else bus_fwd)
           in bus_fwd
         else bus_fwd)"

definition alloutput_hooks :: "'a st safety_hooks" where
  "alloutput_hooks = \<lparr>h_init = alloutput_init, h_rx = default_rx_hook, h_tx = alloutput_tx_hook,
     h_fwd = alloutput_fwd_hook, h_get_checksum = None, h_compute_checksum = None,
     h_get_counter = None, h_get_quality_flag_valid = None\<rparr>"

section \<open>ELM327\<close>

definition elm327_tx_hook :: "CANPacket_t \<Rightarrow> 'a st \<Rightarrow> bool \<times> 'a st" where
  "elm327_tx_hook to_send s =
     (let GM_CAMERA_DIAG_ADDR = 0x24B;
          tx = True;
          addr = GET_ADDR to_send;
          len = int (GET_LEN to_send);
          tx = (if len \<noteq> 8 then False else tx);
          tx = (if addr \<noteq> 0x18DB33F1 \<and> addr AND 0x1FFF00FF \<noteq> 0x18DA00F1 \<and>
                   addr AND 0x1FFFFF00 \<noteq> 0x600 \<and> addr AND 0x1FFFFF00 \<noteq> 0x700 \<and>
                   addr \<noteq> GM_CAMERA_DIAG_ADDR
                then False else tx);
          tx = (if addr = GM_CAMERA_DIAG_ADDR \<and> len = 8
                then if GET_BYTE to_send 0 AND 0xF0 > 0x30 then False else tx
                else tx)
      in (tx, s))"

definition elm327_hooks :: "'a st safety_hooks" where
  "elm327_hooks = \<lparr>h_init = nooutput_init, h_rx = default_rx_hook, h_tx = elm327_tx_hook,
     h_fwd = default_fwd_hook, h_get_checksum = None, h_compute_checksum = None,
     h_get_counter = None, h_get_quality_flag_valid = None\<rparr>"

section \<open>Body\<close>

definition body_rx_hook :: "CANPacket_t \<Rightarrow> 'a st \<Rightarrow> 'a st" where
  "body_rx_hook to_push s =
     (let s = s\<lparr>vehicle_moving := True\<rparr>
      in if GET_ADDR to_push = 0x201 then s\<lparr>controls_allowed := True\<rparr> else s)"

definition body_tx_hook :: "CANPacket_t \<Rightarrow> 'a st \<Rightarrow> bool \<times> 'a st" where
  "body_tx_hook to_send s =
     (let tx = True;
          addr = GET_ADDR to_send;
          len = int (GET_LEN to_send);
          tx = (if \<not> controls_allowed s \<and> addr \<noteq> 0x1 then False else tx);
          flash_msg = ((addr = 0x250 \<or> addr = 0x350) \<and> len = 8);
          tx = (if \<not> controls_allowed s \<and> GET_BYTES to_send 0 4 = 0xdeadface \<and>
                   GET_BYTES to_send 4 4 = 0x0ab00b1e \<and> flash_msg
                then True else tx)
      in (tx, s))"

definition body_rx_checks :: "RxCheck list" where
  "body_rx_checks = [RX [CHK 0x201 0 8 100]]"

definition BODY_TX_MSGS :: "CanMsg list" where
  "BODY_TX_MSGS = [MSG 0x250 0 8, MSG 0x250 0 6, MSG 0x251 0 5,
     MSG 0x350 0 8, MSG 0x350 0 6, MSG 0x351 0 5, MSG 0x1 0 8]"

definition body_init :: "u16 \<Rightarrow> 'a st \<Rightarrow> safety_config \<times> 'a st" where
  "body_init param s = (BUILD_SAFETY_CFG body_rx_checks BODY_TX_MSGS, s)"

definition body_hooks :: "'a st safety_hooks" where
  "body_hooks = \<lparr>h_init = body_init, h_rx = body_rx_hook, h_tx = body_tx_hook,
     h_fwd = default_fwd_hook, h_get_checksum = None, h_compute_checksum = None,
     h_get_counter = None, h_get_quality_flag_valid = None\<rparr>"

section \<open>The contract\<close>

text \<open>With no output every frame is held back; with all output none is. The scan tool mode sends
  eight byte frames only. The body takes commands at every address but the flasher's.\<close>

definition elm327_foreign :: "CANPacket_t \<Rightarrow> 'a st \<Rightarrow> bool" where
  "elm327_foreign p s \<longleftrightarrow> GET_LEN p \<noteq> 8"

definition body_actuates :: "CANPacket_t \<Rightarrow> 'a st \<Rightarrow> bool" where
  "body_actuates p s \<longleftrightarrow> GET_ADDR p \<noteq> 1 \<and>
     \<not> (GET_BYTES p 0 4 = 0xdeadface \<and> GET_BYTES p 4 4 = 0x0ab00b1e)"

interpretation nooutput: safety_mode nooutput_hooks "\<lambda>p s. True"
  by unfold_locales
    (simp_all add: nooutput_hooks_def default_rx_hook_def nooutput_tx_hook_def default_fwd_hook_def
      nooutput_init_def)

interpretation alloutput: safety_mode alloutput_hooks "\<lambda>p s. False"
  by unfold_locales
    (simp_all add: alloutput_hooks_def default_rx_hook_def alloutput_tx_hook_def
      alloutput_fwd_hook_def alloutput_init_def Let_def config_of_def)

interpretation elm327: safety_mode elm327_hooks elm327_foreign
  by unfold_locales
    (auto simp: elm327_hooks_def default_rx_hook_def elm327_tx_hook_def default_fwd_hook_def
      nooutput_init_def elm327_foreign_def Let_def split: if_splits)

interpretation body: safety_mode body_hooks body_actuates
  by unfold_locales
    (auto simp: body_hooks_def body_rx_hook_def body_tx_hook_def default_fwd_hook_def
      body_init_def body_actuates_def body_rx_checks_def Let_def frame_simps split: if_splits)

end
