(* ===== verification/Mode_Toyota.thy ===== *)
theory Mode_Toyota
  imports Mode_Contract
begin

text \<open>The Toyota mode, \<^verbatim>\<open>board/safety/safety_toyota.h\<close>.\<close>

section \<open>Configuration\<close>

definition TOYOTA_COMMON_TX_MSGS :: "CanMsg list" where
  "TOYOTA_COMMON_TX_MSGS =
     [MSG 0x2E4 0 5, MSG 0x191 0 8, MSG 0x412 0 8, MSG 0x343 0 8, MSG 0x1D2 0 8]"

definition TOYOTA_COMMON_LONG_TX_MSGS :: "CanMsg list" where
  "TOYOTA_COMMON_LONG_TX_MSGS = TOYOTA_COMMON_TX_MSGS @
     [MSG 0x283 0 7, MSG 0x2E6 0 8, MSG 0x2E7 0 8, MSG 0x33E 0 7, MSG 0x344 0 8, MSG 0x365 0 7,
      MSG 0x366 0 7, MSG 0x4CB 0 8,
      MSG 0x128 1 6, MSG 0x141 1 4, MSG 0x160 1 8, MSG 0x161 1 7, MSG 0x470 1 4,
      MSG 0x411 0 8, MSG 0x750 0 8]"

definition TOYOTA_COMMON_RX_CHECKS :: "bool \<Rightarrow> RxCheck list" where
  "TOYOTA_COMMON_RX_CHECKS lta =
     [RX [CHK 0xaa 0 8 83],
      RX [(CHK 0x260 0 8 50)\<lparr>check_checksum := True, quality_flag := lta\<rparr>],
      RX [(CHK 0x1D2 0 8 33)\<lparr>check_checksum := True\<rparr>],
      RX [CHK 0x224 0 8 40, CHK 0x226 0 8 40]]"

section \<open>Checksum and quality flag\<close>

fun toyota_checksum_loop :: "CANPacket_t \<Rightarrow> nat \<Rightarrow> nat \<Rightarrow> u8 \<Rightarrow> u8" where
  "toyota_checksum_loop p i 0 checksum = checksum"
| "toyota_checksum_loop p i (Suc n) checksum =
     toyota_checksum_loop p (Suc i) n (checksum + GET_BYTE p i)"

definition toyota_compute_checksum :: "'a st \<Rightarrow> CANPacket_t \<Rightarrow> u32" where
  "toyota_compute_checksum s to_push =
     (let addr = GET_ADDR to_push;
          len = GET_LEN to_push;
          checksum = word_of_int addr + word_of_int (drop_bit 8 addr) + word_of_nat len;
          checksum = toyota_checksum_loop to_push 0 (len - 1) checksum
      in ucast checksum)"

definition toyota_get_checksum :: "CANPacket_t \<Rightarrow> u32" where
  "toyota_get_checksum to_push =
     (let checksum_byte = GET_LEN to_push - 1
      in ucast (GET_BYTE to_push checksum_byte))"

definition toyota_get_quality_flag_valid :: "CANPacket_t \<Rightarrow> bool" where
  "toyota_get_quality_flag_valid to_push =
     (let addr = GET_ADDR to_push;
          valid = False
      in if addr = 0x260 then \<not> GET_BIT to_push 3 else valid)"

section \<open>Reception\<close>

fun toyota_wheel_loop :: "CANPacket_t \<Rightarrow> nat \<Rightarrow> nat \<Rightarrow> int \<Rightarrow> int" where
  "toyota_wheel_loop p i 0 speed = speed"
| "toyota_wheel_loop p i (Suc n) speed =
     (let wheel_speed = push_bit 8 (BYTE p i) OR BYTE p (i + 1)
      in toyota_wheel_loop p (i + 2) n (speed + (wheel_speed - 6767)))"

definition toyota_rx_hook :: "CANPacket_t \<Rightarrow> 'a st \<Rightarrow> 'a st" where
  "toyota_rx_hook to_push s =
     (let TOYOTA_LTA_MAX_ANGLE = 1657
      in if GET_BUS to_push = 0 then
        let addr = GET_ADDR to_push;
            s = (if addr = 0x260 then
                   let torque_meas_new = push_bit 8 (BYTE to_push 5) OR BYTE to_push 6;
                       torque_meas_new = to_signed torque_meas_new 16;
                       torque_meas_new = c_div (torque_meas_new * toyota_dbc_eps_torque_factor s) 100;
                       s = s\<lparr>torque_meas := update_sample (torque_meas s) torque_meas_new\<rparr>;
                       s = s\<lparr>torque_meas := (torque_meas s)\<lparr>s_min := s_min (torque_meas s) - 1\<rparr>\<rparr>;
                       s = s\<lparr>torque_meas := (torque_meas s)\<lparr>s_max := s_max (torque_meas s) + 1\<rparr>\<rparr>;
                       torque_driver_new = push_bit 8 (BYTE to_push 1) OR BYTE to_push 2;
                       torque_driver_new = to_signed torque_driver_new 16;
                       s = s\<lparr>torque_driver := update_sample (torque_driver s) torque_driver_new\<rparr>;
                       steer_angle_initializing = GET_BIT to_push 3
                   in if \<not> steer_angle_initializing then
                        let angle_meas_new = push_bit 8 (BYTE to_push 3) OR BYTE to_push 4;
                            angle_meas_new = CLAMP (to_signed angle_meas_new 16)
                              (- TOYOTA_LTA_MAX_ANGLE) TOYOTA_LTA_MAX_ANGLE
                        in s\<lparr>angle_meas := update_sample (angle_meas s) angle_meas_new\<rparr>
                      else s
                 else s);
            s = (if addr = 0x1D2 then
                   let cruise_engaged = GET_BIT to_push 5;
                       s = pcm_cruise_check cruise_engaged s
                   in s\<lparr>gas_pressed := \<not> GET_BIT to_push 4\<rparr>
                 else s);
            s = (if addr = 0xaa then
                   let speed = toyota_wheel_loop to_push 0 4 0;
                       s = s\<lparr>vehicle_moving := speed \<noteq> 0\<rparr>
                   in UPDATE_VEHICLE_SPEED
                        (fl (fl (fl (float_of_int speed / 4) * fl (1 / 100)) / fl (36 / 10))) s
                 else s);
            s = (if (addr = 0x224 \<and> toyota_alt_brake s) \<or> (addr = 0x226 \<and> \<not> toyota_alt_brake s) then
                   let bit_n = (if addr = 0x224 then 5 else 37)
                   in s\<lparr>brake_pressed := GET_BIT to_push bit_n\<rparr>
                 else s);
            stock_ecu_detected = (addr = 0x2E4);
            stock_ecu_detected =
              (if \<not> toyota_stock_longitudinal s \<and> addr = 0x343 then True else stock_ecu_detected)
        in generic_rx_checks stock_ecu_detected s
      else s)"

section \<open>Transmission\<close>

definition TOYOTA_STEERING_LIMITS :: SteeringLimits where
  "TOYOTA_STEERING_LIMITS = SteeringLimits_0
     \<lparr>max_steer := 1500, max_rate_up := 15, max_rate_down := 25, max_torque_error := 350,
      max_rt_delta := 450, max_rt_interval := 250000, sl_type := TorqueMotorLimited,
      min_valid_request_frames := 18, max_invalid_request_frames := 1,
      min_valid_request_rt_interval := 170000, has_steer_req_tolerance := True,
      angle_deg_to_can := fl (17452007 / 1000000),
      angle_rate_up_lookup := LOOKUP [5, 25, 25] [3 / 10, 15 / 100, 15 / 100],
      angle_rate_down_lookup := LOOKUP [5, 25, 25] [36 / 100, 26 / 100, 26 / 100]\<rparr>"

definition TOYOTA_LONG_LIMITS :: LongitudinalLimits where
  "TOYOTA_LONG_LIMITS = LongitudinalLimits_0\<lparr>max_accel := 2000, min_accel := - 3500\<rparr>"

definition TOYOTA_LTA_MAX_MEAS_TORQUE :: int where "TOYOTA_LTA_MAX_MEAS_TORQUE = 1500"
definition TOYOTA_LTA_MAX_DRIVER_TORQUE :: int where "TOYOTA_LTA_MAX_DRIVER_TORQUE = 150"

text \<open>The four messages the transmit hook looks into on bus 0, in its order.\<close>

definition toyota_tx_accel :: "CANPacket_t \<Rightarrow> bool \<Rightarrow> 'a st \<Rightarrow> bool" where
  "toyota_tx_accel to_send tx s =
     (let desired_accel = push_bit 8 (BYTE to_send 0) OR BYTE to_send 1;
          desired_accel = to_signed desired_accel 16;
          violation = False;
          violation = (violation \<or> longitudinal_accel_checks desired_accel TOYOTA_LONG_LIMITS s);
          violation =
            (if toyota_stock_longitudinal s then
               let cancel_req = GET_BIT to_send 24;
                   violation = (if \<not> cancel_req then True else violation);
                   violation = (if desired_accel \<noteq> inactive_accel TOYOTA_LONG_LIMITS
                                then True else violation)
               in violation
             else violation)
      in if violation then False else tx)"

definition toyota_tx_aeb :: "CANPacket_t \<Rightarrow> bool \<Rightarrow> bool" where
  "toyota_tx_aeb to_send tx =
     (let block = (GET_BYTES to_send 0 4 \<noteq> 0 \<or> GET_BYTE to_send 4 \<noteq> 0 \<or> GET_BYTE to_send 5 \<noteq> 0)
      in if block then False else tx)"

definition toyota_tx_lta :: "CANPacket_t \<Rightarrow> bool \<Rightarrow> 'a st \<Rightarrow> bool \<times> 'a st" where
  "toyota_tx_lta to_send tx s =
     (let lta_request = GET_BIT to_send 0;
          lta_request2 = GET_BIT to_send 25;
          torque_wind_down = BYTE to_send 5;
          lta_angle = push_bit 8 (BYTE to_send 1) OR BYTE to_send 2;
          lta_angle = to_signed lta_angle 16;
          steer_control_enabled = (lta_request \<or> lta_request2)
      in if \<not> toyota_lta s
         then (if steer_control_enabled \<or> lta_angle \<noteq> 0 \<or> torque_wind_down \<noteq> 0 then False else tx, s)
         else
           let (violation, s) = steer_angle_cmd_checks lta_angle steer_control_enabled
                                  TOYOTA_STEERING_LIMITS s;
               tx = (if violation then False else tx);
               tx = (if lta_request \<noteq> lta_request2 then False else tx);
               tx = (if \<not> steer_control_enabled \<and> torque_wind_down \<noteq> 0 then False else tx);
               tx = (if torque_wind_down \<noteq> 0 \<and> torque_wind_down \<noteq> 100 then False else tx);
               driver_torque = MIN_m (ABS (s_min (torque_driver s))) (ABS (s_max (torque_driver s)));
               tx = (if driver_torque > TOYOTA_LTA_MAX_DRIVER_TORQUE \<and> torque_wind_down \<noteq> 0
                     then False else tx);
               eps_torque = MIN_m (ABS (s_min (torque_meas s))) (ABS (s_max (torque_meas s)));
               tx = (if eps_torque > TOYOTA_LTA_MAX_MEAS_TORQUE \<and> torque_wind_down \<noteq> 0
                     then False else tx)
           in (tx, s))"

definition toyota_tx_lka :: "CANPacket_t \<Rightarrow> bool \<Rightarrow> 'a st \<Rightarrow> bool \<times> 'a st" where
  "toyota_tx_lka to_send tx s =
     (let desired_torque = push_bit 8 (BYTE to_send 1) OR BYTE to_send 2;
          desired_torque = to_signed desired_torque 16;
          steer_req = GET_BIT to_send 0
      in if \<not> toyota_lta s
         then let (violation, s) = steer_torque_cmd_checks desired_torque (int_of_bool steer_req)
                                     TOYOTA_STEERING_LIMITS s
              in (if violation then False else tx, s)
         else (if desired_torque \<noteq> 0 \<or> steer_req then False else tx, s))"

definition toyota_tx_hook :: "CANPacket_t \<Rightarrow> 'a st \<Rightarrow> bool \<times> 'a st" where
  "toyota_tx_hook to_send s =
     (let tx = True;
          addr = GET_ADDR to_send;
          bus = GET_BUS to_send;
          (tx, s) =
            (if bus = 0 then
               let tx = (if addr = 0x343 then toyota_tx_accel to_send tx s else tx);
                   tx = (if addr = 0x283 then toyota_tx_aeb to_send tx else tx);
                   (tx, s) = (if addr = 0x191 then toyota_tx_lta to_send tx s else (tx, s));
                   (tx, s) = (if addr = 0x2E4 then toyota_tx_lka to_send tx s else (tx, s))
               in (tx, s)
             else (tx, s));
          tx = (if addr = 0x750 then
                  let invalid_uds_msg = (GET_BYTES to_send 0 4 \<noteq> 0x003E020F \<or> GET_BYTES to_send 4 4 \<noteq> 0)
                  in if invalid_uds_msg then False else tx
                else tx)
      in (tx, s))"

section \<open>Initialisation and forwarding\<close>

definition toyota_init :: "u16 \<Rightarrow> 'a st \<Rightarrow> safety_config \<times> 'a st" where
  "toyota_init param s =
     (let TOYOTA_PARAM_OFFSET = 8;
          TOYOTA_EPS_FACTOR = push_bit TOYOTA_PARAM_OFFSET 1 - 1;
          TOYOTA_PARAM_ALT_BRAKE = push_bit TOYOTA_PARAM_OFFSET 1;
          TOYOTA_PARAM_STOCK_LONGITUDINAL = push_bit TOYOTA_PARAM_OFFSET 2;
          TOYOTA_PARAM_LTA = push_bit TOYOTA_PARAM_OFFSET 4;
          s = s\<lparr>toyota_alt_brake := GET_FLAG (ucast param :: u32) TOYOTA_PARAM_ALT_BRAKE\<rparr>;
          s = s\<lparr>toyota_stock_longitudinal :=
                  GET_FLAG (ucast param :: u32) TOYOTA_PARAM_STOCK_LONGITUDINAL\<rparr>;
          s = s\<lparr>toyota_lta := GET_FLAG (ucast param :: u32) TOYOTA_PARAM_LTA\<rparr>;
          s = s\<lparr>toyota_dbc_eps_torque_factor := uint ((ucast param :: u32) AND TOYOTA_EPS_FACTOR)\<rparr>;
          ret = empty_cfg;
          ret = (if toyota_stock_longitudinal s then ret\<lparr>tx_msgs := TOYOTA_COMMON_TX_MSGS\<rparr>
                 else ret\<lparr>tx_msgs := TOYOTA_COMMON_LONG_TX_MSGS\<rparr>);
          ret = (if toyota_lta s then ret\<lparr>rx_checks := TOYOTA_COMMON_RX_CHECKS True\<rparr>
                 else ret\<lparr>rx_checks := TOYOTA_COMMON_RX_CHECKS False\<rparr>)
      in (ret, s))"

definition toyota_fwd_hook :: "'a st \<Rightarrow> int \<Rightarrow> int \<Rightarrow> int" where
  "toyota_fwd_hook s bus_num addr =
     (let bus_fwd = - 1;
          bus_fwd = (if bus_num = 0 then 2 else bus_fwd)
      in if bus_num = 2 then
           let is_lkas_msg = (addr = 0x2E4 \<or> addr = 0x412 \<or> addr = 0x191);
               is_acc_msg = (addr = 0x343);
               block_msg = (is_lkas_msg \<or> is_acc_msg \<and> \<not> toyota_stock_longitudinal s)
           in if \<not> block_msg then 0 else bus_fwd
         else bus_fwd)"

definition toyota_hooks :: "'a st safety_hooks" where
  "toyota_hooks = \<lparr>h_init = toyota_init, h_rx = toyota_rx_hook, h_tx = toyota_tx_hook,
     h_fwd = toyota_fwd_hook, h_get_checksum = Some toyota_get_checksum,
     h_compute_checksum = Some toyota_compute_checksum, h_get_counter = None,
     h_get_quality_flag_valid = Some toyota_get_quality_flag_valid\<rparr>"

section \<open>The contract\<close>

text \<open>A torque or an angle request, or an acceleration other than the inactive one.\<close>

definition toyota_actuates :: "CANPacket_t \<Rightarrow> 'a st \<Rightarrow> bool" where
  "toyota_actuates p s \<longleftrightarrow> GET_BUS p = 0 \<and>
     (GET_ADDR p = 0x2E4 \<and> (BYTE p 1 \<noteq> 0 \<or> BYTE p 2 \<noteq> 0) \<or>
      GET_ADDR p = 0x191 \<and> (GET_BIT p 0 \<or> GET_BIT p 25) \<or>
      GET_ADDR p = 0x343 \<and> (BYTE p 0 \<noteq> 0 \<or> BYTE p 1 \<noteq> 0))"

lemma toyota_rx_frame: "rx_frame (toyota_rx_hook p s) = rx_frame s"
  by (simp only: toyota_rx_hook_def frame_simps let_values if_cancel)

lemma toyota_rx_relay: "relay_malfunction s \<Longrightarrow> relay_malfunction (toyota_rx_hook p s)"
  unfolding toyota_rx_hook_def let_values by (intro relay_intros) simp_all

lemma toyota_tx_frame: "tx_frame (snd (toyota_tx_hook p s)) = tx_frame s"
  by (simp only: toyota_tx_hook_def toyota_tx_lta_def toyota_tx_lka_def frame_simps let_values if_cancel)

lemma toyota_fwd: "0 \<le> b \<Longrightarrow> toyota_fwd_hook s b a \<in> {- 1, 0, 1, 2} \<and> toyota_fwd_hook s b a \<noteq> b"
  by (auto simp: toyota_fwd_hook_def Let_def)

lemma toyota_gated:
  assumes "fst (toyota_tx_hook p s)" and "toyota_actuates p s"
  shows "controls_allowed s"
proof (rule ccontr)
  assume n: "\<not> controls_allowed s"
  from assms(2) consider "GET_ADDR p = 0x2E4" | "GET_ADDR p = 0x191" | "GET_ADDR p = 0x343"
    by (auto simp: toyota_actuates_def)
  then show False using assms n
    by cases (auto simp: toyota_tx_hook_def toyota_actuates_def toyota_tx_accel_def toyota_tx_lta_def
        toyota_tx_lka_def Let_def case_prod_beta byte_arith to_signed_16_eq_0 gate_simps
        TOYOTA_LONG_LIMITS_def LongitudinalLimits_0_def split: if_splits)
qed

lemma toyota_init_ok:
  "config_ok (fst (toyota_init prm s))" "config_of (snd (toyota_init prm s)) = config_of s"
  by (simp_all add: toyota_init_def Let_def TOYOTA_COMMON_RX_CHECKS_def config_of_def)

interpretation toyota: safety_mode toyota_hooks toyota_actuates
  by unfold_locales
    (simp_all add: toyota_hooks_def toyota_rx_frame toyota_rx_relay toyota_tx_frame toyota_fwd
      toyota_gated toyota_init_ok del: insert_iff)

end
