(* ===== verification/Mode_Honda.thy ===== *)
theory Mode_Honda
  imports Mode_Contract
begin

text \<open>The Honda modes, Nidec and Bosch, \<^verbatim>\<open>board/safety/safety_honda.h\<close>.\<close>

section \<open>Configuration\<close>

definition HONDA_CHK :: "int \<Rightarrow> int \<Rightarrow> int \<Rightarrow> u32 \<Rightarrow> CanMsgCheck" where
  "HONDA_CHK a b l f = (CHK a b l f)\<lparr>check_checksum := True, max_counter := 3\<rparr>"

definition HONDA_COMMON_NO_SCM_FEEDBACK_RX_CHECKS :: "int \<Rightarrow> RxCheck list" where
  "HONDA_COMMON_NO_SCM_FEEDBACK_RX_CHECKS pt_bus =
     [RX [HONDA_CHK 0x1A6 pt_bus 8 25, HONDA_CHK 0x296 pt_bus 4 25],
      RX [HONDA_CHK 0x158 pt_bus 8 100],
      RX [HONDA_CHK 0x17C pt_bus 8 100]]"

definition HONDA_COMMON_RX_CHECKS :: "int \<Rightarrow> RxCheck list" where
  "HONDA_COMMON_RX_CHECKS pt_bus = HONDA_COMMON_NO_SCM_FEEDBACK_RX_CHECKS pt_bus @
     [RX [HONDA_CHK 0x326 pt_bus 8 10]]"

definition HONDA_ALT_BRAKE_ADDR_CHECK :: "int \<Rightarrow> RxCheck list" where
  "HONDA_ALT_BRAKE_ADDR_CHECK pt_bus = [RX [HONDA_CHK 0x1BE pt_bus 3 50]]"

definition HONDA_N_TX_MSGS :: "CanMsg list" where
  "HONDA_N_TX_MSGS = [MSG 0xE4 0 5, MSG 0x194 0 4, MSG 0x1FA 0 8, MSG 0x30C 0 8, MSG 0x33D 0 5]"

definition HONDA_BOSCH_TX_MSGS :: "CanMsg list" where
  "HONDA_BOSCH_TX_MSGS = [MSG 0xE4 0 5, MSG 0xE5 0 8, MSG 0x296 1 4, MSG 0x33D 0 5,
     MSG 0x33DA 0 5, MSG 0x33DB 0 8]"

definition HONDA_BOSCH_LONG_TX_MSGS :: "CanMsg list" where
  "HONDA_BOSCH_LONG_TX_MSGS = [MSG 0xE4 1 5, MSG 0x1DF 1 8, MSG 0x1EF 1 8, MSG 0x1FA 1 8,
     MSG 0x30C 1 8, MSG 0x33D 1 5, MSG 0x33DA 1 5, MSG 0x33DB 1 8, MSG 0x39F 1 8,
     MSG 0x18DAB0F1 1 8]"

definition HONDA_RADARLESS_TX_MSGS :: "CanMsg list" where
  "HONDA_RADARLESS_TX_MSGS = [MSG 0xE4 0 5, MSG 0x296 2 4, MSG 0x33D 0 8]"

definition HONDA_RADARLESS_LONG_TX_MSGS :: "CanMsg list" where
  "HONDA_RADARLESS_LONG_TX_MSGS = [MSG 0xE4 0 5, MSG 0x33D 0 8, MSG 0x1C8 0 8, MSG 0x30C 0 8]"

abbreviation (input) HONDA_BTN_MAIN :: int where "HONDA_BTN_MAIN \<equiv> 1"
abbreviation (input) HONDA_BTN_CANCEL :: int where "HONDA_BTN_CANCEL \<equiv> 2"
abbreviation (input) HONDA_BTN_SET :: int where "HONDA_BTN_SET \<equiv> 3"
abbreviation (input) HONDA_BTN_RESUME :: int where "HONDA_BTN_RESUME \<equiv> 4"

definition honda_get_pt_bus :: "'a st \<Rightarrow> int" where
  "honda_get_pt_bus s = (if honda_hw s = HONDA_BOSCH \<and> \<not> honda_bosch_radarless s then 1 else 0)"

section \<open>Checksum and counter\<close>

definition honda_get_checksum :: "CANPacket_t \<Rightarrow> u32" where
  "honda_get_checksum to_push =
     (let checksum_byte = GET_LEN to_push - 1
      in ucast (GET_BYTE to_push checksum_byte) AND 0xF)"

function honda_addr_loop :: "nat \<Rightarrow> u8 \<Rightarrow> u8" where
  "honda_addr_loop addr checksum =
     (if addr > 0 then honda_addr_loop (drop_bit 4 addr) (checksum + word_of_nat (addr AND 0xF))
      else checksum)"
  by auto
termination
  by (relation "measure fst") (auto simp: drop_bit_eq_div)

declare honda_addr_loop.simps [simp del]

fun honda_data_loop :: "CANPacket_t \<Rightarrow> nat \<Rightarrow> nat \<Rightarrow> nat \<Rightarrow> u8 \<Rightarrow> u8" where
  "honda_data_loop p len j 0 checksum = checksum"
| "honda_data_loop p len j (Suc n) checksum =
     (let byte = GET_BYTE p j;
          checksum = checksum + ((byte AND 0xF) + drop_bit 4 byte);
          checksum = (if j = len - 1 then checksum - (byte AND 0xF) else checksum)
      in honda_data_loop p len (Suc j) n checksum)"

definition honda_compute_checksum :: "'a st \<Rightarrow> CANPacket_t \<Rightarrow> u32" where
  "honda_compute_checksum s to_push =
     (let len = GET_LEN to_push;
          checksum = 0;
          addr = nat (GET_ADDR to_push);
          checksum = honda_addr_loop addr checksum;
          checksum = honda_data_loop to_push len 0 len checksum
      in ucast ((8 - checksum) AND 0xF))"

definition honda_get_counter :: "CANPacket_t \<Rightarrow> u8" where
  "honda_get_counter to_push =
     (let counter_byte = GET_LEN to_push - 1
      in drop_bit 4 (GET_BYTE to_push counter_byte) AND 0x3)"

section \<open>Reception\<close>

definition honda_rx_hook :: "CANPacket_t \<Rightarrow> 'a st \<Rightarrow> 'a st" where
  "honda_rx_hook to_push s =
     (let pcm_cruise = ((honda_hw s = HONDA_BOSCH \<and> \<not> honda_bosch_long s) \<or> honda_hw s = HONDA_NIDEC);
          pt_bus = honda_get_pt_bus s;
          addr = GET_ADDR to_push;
          bus = GET_BUS to_push;
          s = (if addr = 0x158
               then s\<lparr>vehicle_moving := BYTE to_push 0 OR BYTE to_push 1 \<noteq> 0\<rparr> else s);
          s = (if addr = 0x326 \<or> addr = 0x1A6 then
                 let s = s\<lparr>acc_main_on := GET_BIT to_push (if addr = 0x326 then 28 else 47)\<rparr>
                 in if \<not> acc_main_on s then s\<lparr>controls_allowed := False\<rparr> else s
               else s);
          s = (if pcm_cruise \<and> addr = 0x17C then
                 let cruise_engaged = GET_BIT to_push 38;
                     s = (if cruise_engaged \<and> \<not> cruise_engaged_prev s
                          then s\<lparr>controls_allowed := True\<rparr> else s);
                     s = (if \<not> cruise_engaged \<and> honda_hw s \<noteq> HONDA_NIDEC
                          then s\<lparr>controls_allowed := False\<rparr> else s)
                 in s\<lparr>cruise_engaged_prev := cruise_engaged\<rparr>
               else s);
          s = (if (addr = 0x1A6 \<or> addr = 0x296) \<and> bus = pt_bus then
                 let button = drop_bit 5 (BYTE to_push 0 AND 0xE0);
                     set_b = (button \<noteq> HONDA_BTN_SET \<and> cruise_button_prev s = HONDA_BTN_SET);
                     res = (button \<noteq> HONDA_BTN_RESUME \<and> cruise_button_prev s = HONDA_BTN_RESUME);
                     s = (if acc_main_on s \<and> \<not> pcm_cruise \<and> (set_b \<or> res)
                          then s\<lparr>controls_allowed := True\<rparr> else s);
                     s = (if button = HONDA_BTN_MAIN \<or> button = HONDA_BTN_CANCEL
                          then s\<lparr>controls_allowed := False\<rparr> else s)
                 in s\<lparr>cruise_button_prev := button\<rparr>
               else s);
          s = (if honda_alt_brake_msg s
               then if addr = 0x1BE then s\<lparr>brake_pressed := GET_BIT to_push 4\<rparr> else s
               else if addr = 0x17C then
                 let brake_switch = GET_BIT to_push 32;
                     s = s\<lparr>brake_pressed := GET_BIT to_push 53 \<or> brake_switch \<and> honda_brake_switch_prev s\<rparr>
                 in s\<lparr>honda_brake_switch_prev := brake_switch\<rparr>
               else s);
          s = (if addr = 0x17C then s\<lparr>gas_pressed := GET_BYTE to_push 0 \<noteq> 0\<rparr> else s);
          s = (if \<not> (alternative_experience s AND ALT_EXP_DISABLE_STOCK_AEB \<noteq> 0) then
                 if bus = 2 \<and> addr = 0x1FA then
                   let honda_stock_aeb = GET_BIT to_push 29;
                       honda_stock_brake = push_bit 2 (BYTE to_push 0) OR drop_bit 6 (BYTE to_push 1)
                   in if \<not> honda_stock_aeb then s\<lparr>honda_fwd_brake := False\<rparr>
                      else if honda_stock_brake \<ge> honda_brake s then s\<lparr>honda_fwd_brake := True\<rparr>
                      else s
                 else s
               else s);
          bus_rdr_car = (if honda_hw s = HONDA_BOSCH then 0 else 2);
          stock_ecu_detected = False;
          stock_ecu_detected =
            (if addr = 0xE4 \<or> addr = 0x194
             then if (honda_hw s \<noteq> HONDA_NIDEC \<and> bus = bus_rdr_car) \<or> (honda_hw s = HONDA_NIDEC \<and> bus = 0)
                  then True else stock_ecu_detected
             else stock_ecu_detected);
          stock_ecu_detected =
            (if honda_bosch_long s \<and> \<not> honda_bosch_radarless s \<and> bus = pt_bus \<and> addr = 0x1DF
             then True else stock_ecu_detected)
      in generic_rx_checks stock_ecu_detected s)"

section \<open>Transmission\<close>

definition HONDA_BOSCH_LONG_LIMITS :: LongitudinalLimits where
  "HONDA_BOSCH_LONG_LIMITS = LongitudinalLimits_0
     \<lparr>max_accel := 200, min_accel := - 350, max_gas := 2000, inactive_gas := - 30000\<rparr>"

definition HONDA_NIDEC_LONG_LIMITS :: LongitudinalLimits where
  "HONDA_NIDEC_LONG_LIMITS = LongitudinalLimits_0
     \<lparr>max_gas := 198, max_brake := 255, inactive_speed := 0\<rparr>"

definition honda_tx_hook :: "CANPacket_t \<Rightarrow> 'a st \<Rightarrow> bool \<times> 'a st" where
  "honda_tx_hook to_send s =
     (let tx = True;
          addr = GET_ADDR to_send;
          bus = GET_BUS to_send;
          bus_pt = honda_get_pt_bus s;
          bus_buttons = (if honda_bosch_radarless s then 2 else bus_pt);
          tx = (if addr = 0x30C \<and> bus = bus_pt then
                  let pcm_speed = push_bit 8 (BYTE to_send 0) OR BYTE to_send 1;
                      pcm_gas = BYTE to_send 2;
                      violation = False;
                      violation = (violation \<or> longitudinal_speed_checks pcm_speed HONDA_NIDEC_LONG_LIMITS s);
                      violation = (violation \<or> longitudinal_gas_checks pcm_gas HONDA_NIDEC_LONG_LIMITS s)
                  in if violation then False else tx
                else tx);
          (tx, s) = (if addr = 0x1FA \<and> bus = bus_pt then
                  let s = s\<lparr>honda_brake := push_bit 2 (BYTE to_send 0) + (drop_bit 6 (BYTE to_send 1) AND 0x3)\<rparr>;
                      tx = (if longitudinal_brake_checks (honda_brake s) HONDA_NIDEC_LONG_LIMITS s
                            then False else tx);
                      tx = (if honda_fwd_brake s then False else tx)
                  in (tx, s)
                else (tx, s));
          tx = (if addr = 0x1DF \<and> bus = bus_pt then
                  let accel = push_bit 3 (BYTE to_send 3) OR (drop_bit 5 (BYTE to_send 4) AND 0x7);
                      accel = to_signed accel 11;
                      gas = push_bit 8 (BYTE to_send 0) OR BYTE to_send 1;
                      gas = to_signed gas 16;
                      violation = False;
                      violation = (violation \<or> longitudinal_accel_checks accel HONDA_BOSCH_LONG_LIMITS s);
                      violation = (violation \<or> longitudinal_gas_checks gas HONDA_BOSCH_LONG_LIMITS s)
                  in if violation then False else tx
                else tx);
          tx = (if addr = 0x1C8 \<and> bus = bus_pt then
                  let accel = push_bit 4 (BYTE to_send 0) OR drop_bit 4 (BYTE to_send 1);
                      accel = to_signed accel 12;
                      violation = False;
                      violation = (violation \<or> longitudinal_accel_checks accel HONDA_BOSCH_LONG_LIMITS s)
                  in if violation then False else tx
                else tx);
          tx = (if addr = 0xE4 \<or> addr = 0x194 then
                  if \<not> controls_allowed s then
                    let steer_applied = (BYTE to_send 0 OR BYTE to_send 1 \<noteq> 0)
                    in if steer_applied then False else tx
                  else tx
                else tx);
          tx = (if addr = 0xE5 then
                  if GET_BYTES to_send 0 4 \<noteq> 0x10800004 \<or> GET_BYTES to_send 4 4 AND 0x00FFFFFF \<noteq> 0
                  then False else tx
                else tx);
          tx = (if addr = 0x296 \<and> \<not> controls_allowed s \<and> bus = bus_buttons then
                  if drop_bit 5 (GET_BYTE to_send 0) AND 0x7 \<noteq> 2 then False else tx
                else tx);
          tx = (if addr = 0x18DAB0F1 then
                  if GET_BYTES to_send 0 4 \<noteq> 0x00803E02 \<or> GET_BYTES to_send 4 4 \<noteq> 0 then False else tx
                else tx)
      in (tx, s))"

section \<open>Initialisation\<close>

definition honda_nidec_init :: "u16 \<Rightarrow> 'a st \<Rightarrow> safety_config \<times> 'a st" where
  "honda_nidec_init param s =
     (let HONDA_PARAM_NIDEC_ALT = 4;
          s = s\<lparr>honda_hw := HONDA_NIDEC\<rparr>;
          s = s\<lparr>honda_brake := 0\<rparr>;
          s = s\<lparr>honda_brake_switch_prev := False\<rparr>;
          s = s\<lparr>honda_fwd_brake := False\<rparr>;
          s = s\<lparr>honda_alt_brake_msg := False\<rparr>;
          s = s\<lparr>honda_bosch_long := False\<rparr>;
          s = s\<lparr>honda_bosch_radarless := False\<rparr>;
          ret = empty_cfg;
          enable_nidec_alt = GET_FLAG param HONDA_PARAM_NIDEC_ALT;
          ret = (if enable_nidec_alt then ret\<lparr>rx_checks := HONDA_COMMON_NO_SCM_FEEDBACK_RX_CHECKS 0\<rparr>
                 else ret\<lparr>rx_checks := HONDA_COMMON_RX_CHECKS 0\<rparr>);
          ret = ret\<lparr>tx_msgs := HONDA_N_TX_MSGS\<rparr>
      in (ret, s))"

definition honda_bosch_init :: "build_flags \<Rightarrow> u16 \<Rightarrow> 'a st \<Rightarrow> safety_config \<times> 'a st" where
  "honda_bosch_init build param s =
     (let HONDA_PARAM_ALT_BRAKE = 1;
          HONDA_PARAM_RADARLESS = 8;
          s = s\<lparr>honda_hw := HONDA_BOSCH\<rparr>;
          s = s\<lparr>honda_brake_switch_prev := False\<rparr>;
          s = s\<lparr>honda_bosch_radarless := GET_FLAG param HONDA_PARAM_RADARLESS\<rparr>;
          s = s\<lparr>honda_alt_brake_msg := GET_FLAG param HONDA_PARAM_ALT_BRAKE\<rparr>;
          s = (if ALLOW_DEBUG build then
                 let HONDA_PARAM_BOSCH_LONG = 2
                 in s\<lparr>honda_bosch_long := GET_FLAG param HONDA_PARAM_BOSCH_LONG\<rparr>
               else s);
          ret = empty_cfg;
          ret = (if honda_bosch_radarless s \<and> honda_alt_brake_msg s
                 then ret\<lparr>rx_checks := HONDA_COMMON_RX_CHECKS 0 @ HONDA_ALT_BRAKE_ADDR_CHECK 0\<rparr>
                 else if honda_bosch_radarless s then ret\<lparr>rx_checks := HONDA_COMMON_RX_CHECKS 0\<rparr>
                 else if honda_alt_brake_msg s
                 then ret\<lparr>rx_checks := HONDA_COMMON_RX_CHECKS 1 @ HONDA_ALT_BRAKE_ADDR_CHECK 1\<rparr>
                 else ret\<lparr>rx_checks := HONDA_COMMON_RX_CHECKS 1\<rparr>);
          ret = (if honda_bosch_radarless s
                 then if honda_bosch_long s then ret\<lparr>tx_msgs := HONDA_RADARLESS_LONG_TX_MSGS\<rparr>
                      else ret\<lparr>tx_msgs := HONDA_RADARLESS_TX_MSGS\<rparr>
                 else if honda_bosch_long s then ret\<lparr>tx_msgs := HONDA_BOSCH_LONG_TX_MSGS\<rparr>
                      else ret\<lparr>tx_msgs := HONDA_BOSCH_TX_MSGS\<rparr>)
      in (ret, s))"

section \<open>Forwarding\<close>

definition honda_nidec_fwd_hook :: "'a st \<Rightarrow> int \<Rightarrow> int \<Rightarrow> int" where
  "honda_nidec_fwd_hook s bus_num addr =
     (let bus_fwd = - 1;
          bus_fwd = (if bus_num = 0 then 2 else bus_fwd)
      in if bus_num = 2 then
           let is_lkas_msg = (addr = 0xE4 \<or> addr = 0x194 \<or> addr = 0x33D);
               is_acc_hud_msg = (addr = 0x30C);
               is_brake_msg = (addr = 0x1FA);
               block_fwd = (is_lkas_msg \<or> is_acc_hud_msg \<or> is_brake_msg \<and> \<not> honda_fwd_brake s)
           in if \<not> block_fwd then 0 else bus_fwd
         else bus_fwd)"

definition honda_bosch_fwd_hook :: "'a st \<Rightarrow> int \<Rightarrow> int \<Rightarrow> int" where
  "honda_bosch_fwd_hook s bus_num addr =
     (let bus_fwd = - 1;
          bus_fwd = (if bus_num = 0 then 2 else bus_fwd)
      in if bus_num = 2 then
           let is_lkas_msg = (addr = 0xE4 \<or> addr = 0xE5 \<or> addr = 0x33D \<or> addr = 0x33DA \<or> addr = 0x33DB);
               is_acc_msg = ((addr = 0x1C8 \<or> addr = 0x30C) \<and> honda_bosch_radarless s \<and> honda_bosch_long s);
               block_msg = (is_lkas_msg \<or> is_acc_msg)
           in if \<not> block_msg then 0 else bus_fwd
         else bus_fwd)"

definition honda_nidec_hooks :: "'a st safety_hooks" where
  "honda_nidec_hooks = \<lparr>h_init = honda_nidec_init, h_rx = honda_rx_hook, h_tx = honda_tx_hook,
     h_fwd = honda_nidec_fwd_hook, h_get_checksum = Some honda_get_checksum,
     h_compute_checksum = Some honda_compute_checksum, h_get_counter = Some honda_get_counter,
     h_get_quality_flag_valid = None\<rparr>"

definition honda_bosch_hooks :: "build_flags \<Rightarrow> 'a st safety_hooks" where
  "honda_bosch_hooks build = \<lparr>h_init = honda_bosch_init build, h_rx = honda_rx_hook,
     h_tx = honda_tx_hook, h_fwd = honda_bosch_fwd_hook, h_get_checksum = Some honda_get_checksum,
     h_compute_checksum = Some honda_compute_checksum, h_get_counter = Some honda_get_counter,
     h_get_quality_flag_valid = None\<rparr>"

section \<open>The contract\<close>

text \<open>Steering on any bus; speed, gas, brake and acceleration requests on the powertrain bus.\<close>

definition honda_actuates :: "CANPacket_t \<Rightarrow> 'a st \<Rightarrow> bool" where
  "honda_actuates p s \<longleftrightarrow>
     (GET_ADDR p = 0xE4 \<or> GET_ADDR p = 0x194) \<and> (BYTE p 0 \<noteq> 0 \<or> BYTE p 1 \<noteq> 0) \<or>
     GET_BUS p = honda_get_pt_bus s \<and>
       (GET_ADDR p = 0x30C \<and> (BYTE p 0 \<noteq> 0 \<or> BYTE p 1 \<noteq> 0 \<or> BYTE p 2 \<noteq> 0) \<or>
        GET_ADDR p = 0x1FA \<and> 4 * BYTE p 0 + BYTE p 1 div 64 \<noteq> 0 \<or>
        GET_ADDR p = 0x1C8 \<and> 16 * BYTE p 0 + BYTE p 1 div 16 \<noteq> 0 \<or>
        GET_ADDR p = 0x1DF \<and> to_signed (256 * BYTE p 0 + BYTE p 1) 16 \<noteq> - 30000)"

lemma honda_rx_frame: "rx_frame (honda_rx_hook p s) = rx_frame s"
  by (simp only: honda_rx_hook_def frame_simps let_values if_cancel)

lemma honda_rx_relay: "relay_malfunction s \<Longrightarrow> relay_malfunction (honda_rx_hook p s)"
  unfolding honda_rx_hook_def let_values by (intro relay_intros) simp_all

lemma honda_tx_frame: "tx_frame (snd (honda_tx_hook p s)) = tx_frame s"
  by (simp only: honda_tx_hook_def frame_simps let_values if_cancel)

lemma honda_fwd:
  "0 \<le> b \<Longrightarrow> honda_nidec_fwd_hook s b a \<in> {- 1, 0, 1, 2} \<and> honda_nidec_fwd_hook s b a \<noteq> b"
  "0 \<le> b \<Longrightarrow> honda_bosch_fwd_hook s b a \<in> {- 1, 0, 1, 2} \<and> honda_bosch_fwd_hook s b a \<noteq> b"
  by (auto simp: honda_nidec_fwd_hook_def honda_bosch_fwd_hook_def Let_def)

lemma honda_init_ok:
  "config_ok (fst (honda_nidec_init prm s))" "config_of (snd (honda_nidec_init prm s)) = config_of s"
  "config_ok (fst (honda_bosch_init b prm s))" "config_of (snd (honda_bosch_init b prm s)) = config_of s"
  by (simp_all add: honda_nidec_init_def honda_bosch_init_def Let_def HONDA_COMMON_RX_CHECKS_def
      HONDA_COMMON_NO_SCM_FEEDBACK_RX_CHECKS_def HONDA_ALT_BRAKE_ADDR_CHECK_def HONDA_CHK_def config_of_def)

lemma honda_gated:
  assumes "fst (honda_tx_hook p s)" and "honda_actuates p s"
  shows "controls_allowed s"
proof (rule ccontr)
  assume n: "\<not> controls_allowed s"
  from assms(2) consider "GET_ADDR p = 0xE4" | "GET_ADDR p = 0x194" | "GET_ADDR p = 0x30C"
    | "GET_ADDR p = 0x1FA" | "GET_ADDR p = 0x1C8" | "GET_ADDR p = 0x1DF"
    by (auto simp: honda_actuates_def)
  then show False
    using assms n
    by cases (auto simp: honda_tx_hook_def honda_actuates_def honda_get_pt_bus_def Let_def
        byte_arith two_bytes_eq_0 gate_simps HONDA_NIDEC_LONG_LIMITS_def HONDA_BOSCH_LONG_LIMITS_def
        LongitudinalLimits_0_def to_signed_12_eq_0 or_eq_0_iff split: if_splits)
qed

interpretation honda_nidec: safety_mode honda_nidec_hooks honda_actuates
  by unfold_locales
    (simp_all add: honda_nidec_hooks_def honda_rx_frame honda_rx_relay honda_tx_frame honda_fwd
      honda_gated honda_init_ok del: insert_iff)

interpretation honda_bosch: safety_mode "honda_bosch_hooks b" honda_actuates
  by unfold_locales
    (simp_all add: honda_bosch_hooks_def honda_rx_frame honda_rx_relay honda_tx_frame honda_fwd
      honda_gated honda_init_ok del: insert_iff)

end
