(* ===== verification/Mode_Gm.thy ===== *)
theory Mode_Gm
  imports Mode_Contract
begin

text \<open>The GM mode, \<^verbatim>\<open>board/safety/safety_gm.h\<close>.\<close>

abbreviation (input) GM_BTN_RESUME :: int where "GM_BTN_RESUME \<equiv> 2"
abbreviation (input) GM_BTN_SET :: int where "GM_BTN_SET \<equiv> 3"
abbreviation (input) GM_BTN_CANCEL :: int where "GM_BTN_CANCEL \<equiv> 6"

section \<open>Reception\<close>

definition gm_rx_hook :: "CANPacket_t \<Rightarrow> 'a st \<Rightarrow> 'a st" where
  "gm_rx_hook to_push s =
     (let GM_STANDSTILL_THRSLD = 10
      in if GET_BUS to_push = 0 then
        let addr = GET_ADDR to_push;
            s = (if addr = 0x184 then
                   let torque_driver_new = push_bit 8 (BYTE to_push 6 AND 0x7) OR BYTE to_push 7;
                       torque_driver_new = to_signed torque_driver_new 11
                   in s\<lparr>torque_driver := update_sample (torque_driver s) torque_driver_new\<rparr>
                 else s);
            s = (if addr = 0x34A then
                   let left_rear_speed = push_bit 8 (BYTE to_push 0) OR BYTE to_push 1;
                       right_rear_speed = push_bit 8 (BYTE to_push 2) OR BYTE to_push 3
                   in s\<lparr>vehicle_moving := left_rear_speed > GM_STANDSTILL_THRSLD \<or>
                                         right_rear_speed > GM_STANDSTILL_THRSLD\<rparr>
                 else s);
            s = (if addr = 0x1E1 \<and> \<not> gm_pcm_cruise s then
                   let button = drop_bit 4 (BYTE to_push 5 AND 0x70);
                       set_b = (button \<noteq> GM_BTN_SET \<and> cruise_button_prev s = GM_BTN_SET);
                       res = (button = GM_BTN_RESUME \<and> cruise_button_prev s \<noteq> GM_BTN_RESUME);
                       s = (if set_b \<or> res then s\<lparr>controls_allowed := True\<rparr> else s);
                       s = (if button = GM_BTN_CANCEL then s\<lparr>controls_allowed := False\<rparr> else s)
                   in s\<lparr>cruise_button_prev := button\<rparr>
                 else s);
            s = (if addr = 0xBE \<and> gm_hw s = GM_ASCM
                 then s\<lparr>brake_pressed := GET_BYTE to_push 1 \<ge> 8\<rparr> else s);
            s = (if addr = 0xC9 \<and> gm_hw s = GM_CAM
                 then s\<lparr>brake_pressed := GET_BIT to_push 40\<rparr> else s);
            s = (if addr = 0x1C4 then
                   let s = s\<lparr>gas_pressed := GET_BYTE to_push 5 \<noteq> 0\<rparr>
                   in if gm_pcm_cruise s then
                        let cruise_engaged = (drop_bit 5 (GET_BYTE to_push 1) \<noteq> 0)
                        in pcm_cruise_check cruise_engaged s
                      else s
                 else s);
            s = (if addr = 0xBD
                 then s\<lparr>regen_braking := drop_bit 4 (GET_BYTE to_push 0) \<noteq> 0\<rparr> else s);
            stock_ecu_detected = (addr = 0x180);
            stock_ecu_detected =
              (if \<not> gm_pcm_cruise s \<and> addr = 0x2CB then True else stock_ecu_detected)
        in generic_rx_checks stock_ecu_detected s
      else s)"

section \<open>Transmission\<close>

definition GM_STEERING_LIMITS :: SteeringLimits where
  "GM_STEERING_LIMITS = SteeringLimits_0
     \<lparr>max_steer := 300, max_rate_up := 10, max_rate_down := 15, driver_torque_allowance := 65,
      driver_torque_factor := 4, max_rt_delta := 128, max_rt_interval := 250000,
      sl_type := TorqueDriverLimited\<rparr>"

definition gm_tx_hook :: "CANPacket_t \<Rightarrow> 'a st \<Rightarrow> bool \<times> 'a st" where
  "gm_tx_hook to_send s =
     (let tx = True;
          addr = GET_ADDR to_send;
          tx = (if addr = 0x315 then
                  let brake = push_bit 8 (BYTE to_send 0 AND 0xF) + BYTE to_send 1;
                      brake = (0x1000 - brake) AND 0xFFF
                  in if longitudinal_brake_checks brake (gm_long_limits s) s then False else tx
                else tx);
          (tx, s) = (if addr = 0x180 then
                  let desired_torque = push_bit 8 (BYTE to_send 0 AND 0x7) + BYTE to_send 1;
                      desired_torque = to_signed desired_torque 11;
                      steer_req = GET_BIT to_send 3;
                      (violation, s) = steer_torque_cmd_checks desired_torque (int_of_bool steer_req)
                                         GM_STEERING_LIMITS s
                  in (if violation then False else tx, s)
                else (tx, s));
          tx = (if addr = 0x2CB then
                  let apply = GET_BIT to_send 0;
                      gas_regen = push_bit 5 (BYTE to_send 2 AND 0x7F) +
                                  drop_bit 3 (BYTE to_send 3 AND 0xF8);
                      violation = False;
                      violation = (violation \<or> \<not> controls_allowed s \<and> apply);
                      violation = (violation \<or> longitudinal_gas_checks gas_regen (gm_long_limits s) s)
                  in if violation then False else tx
                else tx);
          tx = (if addr = 0x1E1 \<and> gm_pcm_cruise s then
                  let button = drop_bit 4 (BYTE to_send 5) AND 0x7;
                      allowed_cancel = (button = 6 \<and> cruise_engaged_prev s)
                  in if \<not> allowed_cancel then False else tx
                else tx)
      in (tx, s))"

section \<open>Forwarding and initialisation\<close>

definition gm_fwd_hook :: "'a st \<Rightarrow> int \<Rightarrow> int \<Rightarrow> int" where
  "gm_fwd_hook s bus_num addr =
     (let bus_fwd = - 1
      in if gm_hw s = GM_CAM then
           let bus_fwd = (if bus_num = 0 then
                 let is_pscm_msg = (addr = 0x184) in if \<not> is_pscm_msg then 2 else bus_fwd
               else bus_fwd)
           in if bus_num = 2 then
                let is_lkas_msg = (addr = 0x180);
                    is_acc_msg = (addr = 0x315 \<or> addr = 0x2CB \<or> addr = 0x370);
                    block_msg = (is_lkas_msg \<or> is_acc_msg \<and> gm_cam_long s)
                in if \<not> block_msg then 0 else bus_fwd
              else bus_fwd
         else bus_fwd)"

definition GM_ASCM_LONG_LIMITS :: LongitudinalLimits where
  "GM_ASCM_LONG_LIMITS = LongitudinalLimits_0
     \<lparr>max_gas := 3072, min_gas := 1404, inactive_gas := 1404, max_brake := 400\<rparr>"

definition GM_CAM_LONG_LIMITS :: LongitudinalLimits where
  "GM_CAM_LONG_LIMITS = LongitudinalLimits_0
     \<lparr>max_gas := 3400, min_gas := 1514, inactive_gas := 1554, max_brake := 400\<rparr>"

definition GM_ASCM_TX_MSGS :: "CanMsg list" where
  "GM_ASCM_TX_MSGS = [MSG 0x180 0 4, MSG 0x409 0 7, MSG 0x40A 0 7, MSG 0x2CB 0 8, MSG 0x370 0 6,
     MSG 0xA1 1 7, MSG 0x306 1 8, MSG 0x308 1 7, MSG 0x310 1 2, MSG 0x315 2 5]"

definition GM_CAM_LONG_TX_MSGS :: "CanMsg list" where
  "GM_CAM_LONG_TX_MSGS = [MSG 0x180 0 4, MSG 0x315 0 5, MSG 0x2CB 0 8, MSG 0x370 0 6, MSG 0x184 2 8]"

definition GM_CAM_TX_MSGS :: "CanMsg list" where
  "GM_CAM_TX_MSGS = [MSG 0x180 0 4, MSG 0x1E1 2 7, MSG 0x184 2 8]"

definition gm_rx_checks :: "RxCheck list" where
  "gm_rx_checks =
     [RX [CHK 0x184 0 8 10], RX [CHK 0x34A 0 5 10], RX [CHK 0x1E1 0 7 10],
      RX [CHK 0xBE 0 6 10, CHK 0xBE 0 7 10, CHK 0xBE 0 8 10],
      RX [CHK 0x1C4 0 8 10], RX [CHK 0xC9 0 8 10]]"

definition gm_init :: "build_flags \<Rightarrow> u16 \<Rightarrow> 'a st \<Rightarrow> safety_config \<times> 'a st" where
  "gm_init build param s =
     (let GM_PARAM_HW_CAM = 1;
          s = s\<lparr>gm_hw := (if GET_FLAG param GM_PARAM_HW_CAM then GM_CAM else GM_ASCM)\<rparr>;
          s = (if gm_hw s = GM_ASCM then s\<lparr>gm_long_limits := GM_ASCM_LONG_LIMITS\<rparr>
               else if gm_hw s = GM_CAM then s\<lparr>gm_long_limits := GM_CAM_LONG_LIMITS\<rparr>
               else s);
          s = (if ALLOW_DEBUG build then
                 let GM_PARAM_HW_CAM_LONG = 2
                 in s\<lparr>gm_cam_long := GET_FLAG param GM_PARAM_HW_CAM_LONG\<rparr>
               else s);
          s = s\<lparr>gm_pcm_cruise := gm_hw s = GM_CAM \<and> \<not> gm_cam_long s\<rparr>;
          ret = BUILD_SAFETY_CFG gm_rx_checks GM_ASCM_TX_MSGS;
          ret = (if gm_hw s = GM_CAM
                 then if gm_cam_long s then BUILD_SAFETY_CFG gm_rx_checks GM_CAM_LONG_TX_MSGS
                      else BUILD_SAFETY_CFG gm_rx_checks GM_CAM_TX_MSGS
                 else ret)
      in (ret, s))"

definition gm_hooks :: "build_flags \<Rightarrow> 'a st safety_hooks" where
  "gm_hooks build = \<lparr>h_init = gm_init build, h_rx = gm_rx_hook, h_tx = gm_tx_hook,
     h_fwd = gm_fwd_hook, h_get_checksum = None, h_compute_checksum = None,
     h_get_counter = None, h_get_quality_flag_valid = None\<rparr>"

section \<open>The contract\<close>

text \<open>A torque, a brake request, or the apply bit of a gas request.\<close>

definition gm_actuates :: "CANPacket_t \<Rightarrow> 'a st \<Rightarrow> bool" where
  "gm_actuates p s \<longleftrightarrow>
     GET_ADDR p = 0x180 \<and> 256 * (BYTE p 0 mod 8) + BYTE p 1 \<noteq> 0 \<or>
     GET_ADDR p = 0x315 \<and> 256 * (BYTE p 0 mod 16) + BYTE p 1 \<noteq> 0 \<or>
     GET_ADDR p = 0x2CB \<and> GET_BIT p 0"

lemma gm_rx_frame: "rx_frame (gm_rx_hook p s) = rx_frame s"
  by (simp only: gm_rx_hook_def frame_simps let_values if_cancel)

lemma gm_rx_relay: "relay_malfunction s \<Longrightarrow> relay_malfunction (gm_rx_hook p s)"
  unfolding gm_rx_hook_def let_values by (intro relay_intros) simp_all

lemma gm_tx_frame: "tx_frame (snd (gm_tx_hook p s)) = tx_frame s"
  by (simp only: gm_tx_hook_def frame_simps let_values if_cancel)

lemma gm_fwd: "0 \<le> b \<Longrightarrow> gm_fwd_hook s b a \<in> {- 1, 0, 1, 2} \<and> gm_fwd_hook s b a \<noteq> b"
  by (auto simp: gm_fwd_hook_def Let_def)

lemma gm_brake_complement:
  "(4096 - (256 * (BYTE p i mod 16) + BYTE p j)) mod 4096 = 0 \<longleftrightarrow> 256 * (BYTE p i mod 16) + BYTE p j = 0"
proof -
  define m where "m = 256 * (BYTE p i mod 16) + BYTE p j"
  have "0 \<le> BYTE p i mod 16" "BYTE p i mod 16 < 16" by simp_all
  then have "0 \<le> m" "m < 4096" using BYTE_bounds [of p j] by (simp_all add: m_def)
  then have "(4096 - m) mod 4096 = 0 \<longleftrightarrow> m = 0" 
    using mod_pos_pos_trivial [of "4096 - m" 4096] by (cases "m = 0") (simp_all del: minus_mod_self1)
  then show ?thesis by (simp add: m_def)
qed

lemma gm_gated:
  assumes "fst (gm_tx_hook p s)" and "gm_actuates p s"
  shows "controls_allowed s"
proof (rule ccontr)
  assume n: "\<not> controls_allowed s"
  have z: "to_signed (256 * (BYTE p 0 mod 8) + BYTE p 1) 11 = 0 \<longleftrightarrow> 256 * (BYTE p 0 mod 8) + BYTE p 1 = 0"
    using to_signed_eq_0 [of "256 * (BYTE p 0 mod 8) + BYTE p 1" 10] BYTE_bounds [of p 0]
      BYTE_bounds [of p 1] pos_mod_bound [of 8 "BYTE p 0"] pos_mod_sign [of 8 "BYTE p 0"] by simp
  from assms(2) consider "GET_ADDR p = 0x180" | "GET_ADDR p = 0x315" | "GET_ADDR p = 0x2CB"
    by (auto simp: gm_actuates_def)
  then show False
  proof cases
    case 1
    then show False using assms n z
      by (simp add: gm_tx_hook_def gm_actuates_def Let_def case_prod_beta byte_arith gate_simps mult.commute
          split: if_splits)
  next
    case 2
    then show False using assms n gm_brake_complement [of p 0 1]
      by (simp add: gm_tx_hook_def gm_actuates_def Let_def byte_arith gate_simps mult.commute
          split: if_splits)
  next
    case 3
    then show False using assms n by (simp add: gm_tx_hook_def gm_actuates_def Let_def)
  qed
qed

lemma gm_init_ok:
  "config_ok (fst (gm_init b prm s))" "config_of (snd (gm_init b prm s)) = config_of s"
  by (simp_all add: gm_init_def Let_def gm_rx_checks_def config_of_def)

interpretation gm: safety_mode "gm_hooks b" gm_actuates
  by unfold_locales
    (simp_all add: gm_hooks_def gm_rx_frame gm_rx_relay gm_tx_frame gm_fwd gm_gated gm_init_ok
      del: insert_iff)

end
