(* ===== verification/Mode_Ford.thy ===== *)
theory Mode_Ford
  imports Mode_Contract
begin

text \<open>The Ford mode, \<^verbatim>\<open>board/safety/safety_ford.h\<close>.\<close>

abbreviation (input) FORD_EngBrakeData :: int where "FORD_EngBrakeData \<equiv> 0x165"
abbreviation (input) FORD_EngVehicleSpThrottle :: int where "FORD_EngVehicleSpThrottle \<equiv> 0x204"
abbreviation (input) FORD_DesiredTorqBrk :: int where "FORD_DesiredTorqBrk \<equiv> 0x213"
abbreviation (input) FORD_BrakeSysFeatures :: int where "FORD_BrakeSysFeatures \<equiv> 0x415"
abbreviation (input) FORD_EngVehicleSpThrottle2 :: int where "FORD_EngVehicleSpThrottle2 \<equiv> 0x202"
abbreviation (input) FORD_Yaw_Data_FD1 :: int where "FORD_Yaw_Data_FD1 \<equiv> 0x91"
abbreviation (input) FORD_Steering_Data_FD1 :: int where "FORD_Steering_Data_FD1 \<equiv> 0x083"
abbreviation (input) FORD_ACCDATA :: int where "FORD_ACCDATA \<equiv> 0x186"
abbreviation (input) FORD_ACCDATA_3 :: int where "FORD_ACCDATA_3 \<equiv> 0x18A"
abbreviation (input) FORD_Lane_Assist_Data1 :: int where "FORD_Lane_Assist_Data1 \<equiv> 0x3CA"
abbreviation (input) FORD_LateralMotionControl :: int where "FORD_LateralMotionControl \<equiv> 0x3D3"
abbreviation (input) FORD_LateralMotionControl2 :: int where "FORD_LateralMotionControl2 \<equiv> 0x3D6"
abbreviation (input) FORD_IPMA_Data :: int where "FORD_IPMA_Data \<equiv> 0x3D8"
abbreviation (input) FORD_MAIN_BUS :: int where "FORD_MAIN_BUS \<equiv> 0"
abbreviation (input) FORD_CAM_BUS :: int where "FORD_CAM_BUS \<equiv> 2"

section \<open>Counter, checksum and quality flag\<close>

definition ford_get_counter :: "CANPacket_t \<Rightarrow> u8" where
  "ford_get_counter to_push =
     (let addr = GET_ADDR to_push;
          cnt = 0
      in if addr = FORD_BrakeSysFeatures then drop_bit 2 (GET_BYTE to_push 2) AND 0xF
         else if addr = FORD_Yaw_Data_FD1 then GET_BYTE to_push 5
         else cnt)"

definition ford_get_checksum :: "CANPacket_t \<Rightarrow> u32" where
  "ford_get_checksum to_push =
     (let addr = GET_ADDR to_push;
          chksum = 0
      in ucast (if addr = FORD_BrakeSysFeatures then GET_BYTE to_push 3
         else if addr = FORD_Yaw_Data_FD1 then GET_BYTE to_push 4
         else chksum))"

definition ford_compute_checksum :: "'a st \<Rightarrow> CANPacket_t \<Rightarrow> u32" where
  "ford_compute_checksum s to_push =
     (let addr = GET_ADDR to_push;
          chksum = 0
      in ucast
        (if addr = FORD_BrakeSysFeatures then
           let chksum = chksum + (GET_BYTE to_push 0 + GET_BYTE to_push 1);
               chksum = chksum + drop_bit 6 (GET_BYTE to_push 2);
               chksum = chksum + (drop_bit 2 (GET_BYTE to_push 2) AND 0xF)
           in 0xFF - chksum
         else if addr = FORD_Yaw_Data_FD1 then
           let chksum = chksum + (GET_BYTE to_push 0 + GET_BYTE to_push 1);
               chksum = chksum + (GET_BYTE to_push 2 + GET_BYTE to_push 3);
               chksum = chksum + GET_BYTE to_push 5;
               chksum = chksum + drop_bit 6 (GET_BYTE to_push 6);
               chksum = chksum + (drop_bit 4 (GET_BYTE to_push 6) AND 0x3)
           in 0xFF - chksum
         else chksum))"

definition ford_get_quality_flag_valid :: "CANPacket_t \<Rightarrow> bool" where
  "ford_get_quality_flag_valid to_push =
     (let addr = GET_ADDR to_push;
          valid = False
      in if addr = FORD_BrakeSysFeatures then drop_bit 6 (GET_BYTE to_push 2) = 0x3
         else if addr = FORD_EngVehicleSpThrottle2 then drop_bit 5 (GET_BYTE to_push 4) AND 0x3 = 0x3
         else if addr = FORD_Yaw_Data_FD1 then drop_bit 4 (GET_BYTE to_push 6) AND 0x3 = 0x3
         else valid)"

section \<open>Limits\<close>

definition FORD_INACTIVE_CURVATURE :: u32 where "FORD_INACTIVE_CURVATURE = 1000"
definition FORD_INACTIVE_CURVATURE_RATE :: int where "FORD_INACTIVE_CURVATURE_RATE = 4096"
definition FORD_INACTIVE_PATH_OFFSET :: int where "FORD_INACTIVE_PATH_OFFSET = 512"
definition FORD_INACTIVE_PATH_ANGLE :: int where "FORD_INACTIVE_PATH_ANGLE = 1000"
definition FORD_CANFD_INACTIVE_CURVATURE_RATE :: int where "FORD_CANFD_INACTIVE_CURVATURE_RATE = 1024"
definition FORD_MAX_SPEED_DELTA :: rat where "FORD_MAX_SPEED_DELTA = 2"

definition ford_lkas_msg_check :: "int \<Rightarrow> bool" where
  "ford_lkas_msg_check addr \<longleftrightarrow>
     addr = FORD_ACCDATA_3 \<or> addr = FORD_Lane_Assist_Data1 \<or> addr = FORD_LateralMotionControl \<or>
     addr = FORD_LateralMotionControl2 \<or> addr = FORD_IPMA_Data"

definition FORD_STEERING_LIMITS :: SteeringLimits where
  "FORD_STEERING_LIMITS = SteeringLimits_0
     \<lparr>max_steer := 1000, angle_deg_to_can := 50000, max_angle_error := 100,
      angle_rate_up_lookup := LOOKUP [5, 25, 25] [2 / 10000, 1 / 10000, 1 / 10000],
      angle_rate_down_lookup := LOOKUP [5, 25, 25] [225 / 1000000, 15 / 100000, 15 / 100000],
      angle_error_min_speed := 10, enforce_angle_error := True, inactive_angle_is_zero := True\<rparr>"

section \<open>Reception\<close>

definition ford_rx_hook :: "CANPacket_t \<Rightarrow> 'a st \<Rightarrow> 'a st" where
  "ford_rx_hook to_push s =
     (if GET_BUS to_push = FORD_MAIN_BUS then
        let addr = GET_ADDR to_push;
            s = (if addr = FORD_DesiredTorqBrk
                 then s\<lparr>vehicle_moving := drop_bit 3 (GET_BYTE to_push 3) AND 0x3 \<noteq> 1\<rparr> else s);
            s = (if addr = FORD_BrakeSysFeatures
                 then UPDATE_VEHICLE_SPEED
                   (fl (fl (float_of_int (push_bit 8 (BYTE to_push 0) OR BYTE to_push 1) * fl (1 / 100))
                        / fl (36 / 10))) s
                 else s);
            s = (if addr = FORD_EngVehicleSpThrottle2 then
                   let filtered_pcm_speed =
                         fl (fl (float_of_int (push_bit 8 (BYTE to_push 6) OR BYTE to_push 7) * fl (1 / 100))
                             / fl (36 / 10));
                       is_invalid_speed =
                         (ABS (fl (filtered_pcm_speed -
                                   fl (float_of_int (s_values (vehicle_speed s) ! 0) / VEHICLE_SPEED_FACTOR)))
                          > FORD_MAX_SPEED_DELTA)
                   in if is_invalid_speed then s\<lparr>controls_allowed := False\<rparr> else s
                 else s);
            s = (if addr = FORD_Yaw_Data_FD1 then
                   let ford_yaw_rate =
                         fl (fl (float_of_int (push_bit 8 (BYTE to_push 2) OR BYTE to_push 3) * fl (2 / 10000))
                             - 65 / 10);
                       current_curvature =
                         fl (ford_yaw_rate /
                             MAX_m (fl (float_of_int (s_values (vehicle_speed s) ! 0) / VEHICLE_SPEED_FACTOR))
                                   (fl (1 / 10)))
                   in s\<lparr>angle_meas := update_sample (angle_meas s)
                          (ROUND (fl (current_curvature * angle_deg_to_can FORD_STEERING_LIMITS)))\<rparr>
                 else s);
            s = (if addr = FORD_EngVehicleSpThrottle
                 then s\<lparr>gas_pressed := push_bit 8 (BYTE to_push 0 AND 0x03) OR BYTE to_push 1 > 0\<rparr>
                 else s);
            s = (if addr = FORD_EngBrakeData then
                   let s = s\<lparr>brake_pressed := drop_bit 4 (GET_BYTE to_push 0) AND 0x3 = 2\<rparr>;
                       cruise_state = GET_BYTE to_push 1 AND 0x07;
                       cruise_engaged = (cruise_state = 4 \<or> cruise_state = 5)
                   in pcm_cruise_check cruise_engaged s
                 else s);
            stock_ecu_detected = ford_lkas_msg_check addr;
            stock_ecu_detected =
              (if ford_longitudinal s then stock_ecu_detected \<or> addr = FORD_ACCDATA
               else stock_ecu_detected)
        in generic_rx_checks stock_ecu_detected s
      else s)"

section \<open>Transmission\<close>

definition FORD_LONG_LIMITS :: LongitudinalLimits where
  "FORD_LONG_LIMITS = LongitudinalLimits_0
     \<lparr>max_accel := 5641, min_accel := 4231, inactive_accel := 5128,
      max_gas := 700, min_gas := 450, inactive_gas := 0\<rparr>"

text \<open>The two lateral control messages differ in the position of their signals.\<close>

definition ford_tx_lateral :: "CANPacket_t \<Rightarrow> bool \<Rightarrow> 'a st \<Rightarrow> bool \<times> 'a st" where
  "ford_tx_lateral to_send tx s =
     (let steer_control_enabled = (drop_bit 2 (BYTE to_send 4) AND 0x7 \<noteq> 0);
          raw_curvature = push_bit 3 (BYTE to_send 0) OR drop_bit 5 (BYTE to_send 1);
          raw_curvature_rate = push_bit 8 (BYTE to_send 1 AND 0x1F) OR BYTE to_send 2;
          raw_path_angle = push_bit 3 (BYTE to_send 3) OR drop_bit 5 (BYTE to_send 4);
          raw_path_offset = push_bit 2 (BYTE to_send 5) OR drop_bit 6 (BYTE to_send 6);
          violation = (raw_curvature_rate \<noteq> FORD_INACTIVE_CURVATURE_RATE \<or>
                       raw_path_angle \<noteq> FORD_INACTIVE_PATH_ANGLE \<or>
                       raw_path_offset \<noteq> FORD_INACTIVE_PATH_OFFSET);
          desired_curvature = sint (word_of_int raw_curvature - FORD_INACTIVE_CURVATURE);
          (v, s) = steer_angle_cmd_checks desired_curvature steer_control_enabled FORD_STEERING_LIMITS s;
          violation = (violation \<or> v)
      in (if violation then False else tx, s))"

definition ford_tx_lateral2 :: "CANPacket_t \<Rightarrow> bool \<Rightarrow> 'a st \<Rightarrow> bool \<times> 'a st" where
  "ford_tx_lateral2 to_send tx s =
     (let steer_control_enabled = (drop_bit 4 (BYTE to_send 0) AND 0x7 \<noteq> 0);
          raw_curvature = push_bit 3 (BYTE to_send 2) OR drop_bit 5 (BYTE to_send 3);
          raw_curvature_rate = push_bit 3 (BYTE to_send 6) OR drop_bit 5 (BYTE to_send 7);
          raw_path_angle = push_bit 6 (BYTE to_send 3 AND 0x1F) OR drop_bit 2 (BYTE to_send 4);
          raw_path_offset = push_bit 8 (BYTE to_send 4 AND 0x3) OR BYTE to_send 5;
          violation = (raw_curvature_rate \<noteq> FORD_CANFD_INACTIVE_CURVATURE_RATE \<or>
                       raw_path_angle \<noteq> FORD_INACTIVE_PATH_ANGLE \<or>
                       raw_path_offset \<noteq> FORD_INACTIVE_PATH_OFFSET);
          desired_curvature = sint (word_of_int raw_curvature - FORD_INACTIVE_CURVATURE);
          (v, s) = steer_angle_cmd_checks desired_curvature steer_control_enabled FORD_STEERING_LIMITS s;
          violation = (violation \<or> v)
      in (if violation then False else tx, s))"

definition ford_tx_hook :: "CANPacket_t \<Rightarrow> 'a st \<Rightarrow> bool \<times> 'a st" where
  "ford_tx_hook to_send s =
     (let tx = True;
          addr = GET_ADDR to_send;
          tx = (if addr = FORD_ACCDATA then
                  let gas = push_bit 8 (BYTE to_send 6 AND 0x3) OR BYTE to_send 7;
                      gas_pred = push_bit 8 (BYTE to_send 2 AND 0x3) OR BYTE to_send 3;
                      accel = push_bit 8 (BYTE to_send 0 AND 0x1F) OR BYTE to_send 1;
                      cmbb_deny = GET_BIT to_send 37;
                      violation = False;
                      violation = (violation \<or> longitudinal_accel_checks accel FORD_LONG_LIMITS s);
                      violation = (violation \<or> longitudinal_gas_checks gas FORD_LONG_LIMITS s);
                      violation = (violation \<or> longitudinal_gas_checks gas_pred FORD_LONG_LIMITS s);
                      violation = (violation \<or> cmbb_deny)
                  in if violation then False else tx
                else tx);
          tx = (if addr = FORD_Steering_Data_FD1 then
                  let violation = False;
                      violation = (violation \<or> GET_BIT to_send 8 \<and> \<not> cruise_engaged_prev s);
                      violation = (violation \<or> GET_BIT to_send 25 \<and> \<not> controls_allowed s)
                  in if violation then False else tx
                else tx);
          tx = (if addr = FORD_Lane_Assist_Data1 then
                  let action = drop_bit 5 (GET_BYTE to_send 0)
                  in if action \<noteq> 0 then False else tx
                else tx);
          (tx, s) = (if addr = FORD_LateralMotionControl then ford_tx_lateral to_send tx s else (tx, s));
          (tx, s) = (if addr = FORD_LateralMotionControl2 then ford_tx_lateral2 to_send tx s else (tx, s))
      in (tx, s))"

section \<open>Forwarding and initialisation\<close>

definition ford_fwd_hook :: "'a st \<Rightarrow> int \<Rightarrow> int \<Rightarrow> int" where
  "ford_fwd_hook s bus_num addr =
     (if bus_num = FORD_MAIN_BUS then FORD_CAM_BUS
      else if bus_num = FORD_CAM_BUS then
        if ford_lkas_msg_check addr then - 1
        else if ford_longitudinal s \<and> addr = FORD_ACCDATA then - 1
        else FORD_MAIN_BUS
      else - 1)"

definition ford_rx_checks :: "RxCheck list" where
  "ford_rx_checks =
     [RX [(CHK FORD_BrakeSysFeatures 0 8 50)\<lparr>check_checksum := True, max_counter := 15, quality_flag := True\<rparr>],
      RX [(CHK FORD_EngVehicleSpThrottle2 0 8 50)\<lparr>quality_flag := True\<rparr>],
      RX [(CHK FORD_Yaw_Data_FD1 0 8 100)\<lparr>check_checksum := True, max_counter := 255, quality_flag := True\<rparr>],
      RX [CHK FORD_EngBrakeData 0 8 10],
      RX [CHK FORD_EngVehicleSpThrottle 0 8 100],
      RX [CHK FORD_DesiredTorqBrk 0 8 50]]"

definition FORD_CANFD_LONG_TX_MSGS :: "CanMsg list" where
  "FORD_CANFD_LONG_TX_MSGS = [MSG FORD_Steering_Data_FD1 0 8, MSG FORD_Steering_Data_FD1 2 8,
     MSG FORD_ACCDATA 0 8, MSG FORD_ACCDATA_3 0 8, MSG FORD_Lane_Assist_Data1 0 8,
     MSG FORD_LateralMotionControl2 0 8, MSG FORD_IPMA_Data 0 8]"

definition FORD_CANFD_STOCK_TX_MSGS :: "CanMsg list" where
  "FORD_CANFD_STOCK_TX_MSGS = [MSG FORD_Steering_Data_FD1 0 8, MSG FORD_Steering_Data_FD1 2 8,
     MSG FORD_ACCDATA_3 0 8, MSG FORD_Lane_Assist_Data1 0 8,
     MSG FORD_LateralMotionControl2 0 8, MSG FORD_IPMA_Data 0 8]"

definition FORD_STOCK_TX_MSGS :: "CanMsg list" where
  "FORD_STOCK_TX_MSGS = [MSG FORD_Steering_Data_FD1 0 8, MSG FORD_Steering_Data_FD1 2 8,
     MSG FORD_ACCDATA_3 0 8, MSG FORD_Lane_Assist_Data1 0 8,
     MSG FORD_LateralMotionControl 0 8, MSG FORD_IPMA_Data 0 8]"

definition FORD_LONG_TX_MSGS :: "CanMsg list" where
  "FORD_LONG_TX_MSGS = [MSG FORD_Steering_Data_FD1 0 8, MSG FORD_Steering_Data_FD1 2 8,
     MSG FORD_ACCDATA 0 8, MSG FORD_ACCDATA_3 0 8, MSG FORD_Lane_Assist_Data1 0 8,
     MSG FORD_LateralMotionControl 0 8, MSG FORD_IPMA_Data 0 8]"

definition ford_init :: "build_flags \<Rightarrow> u16 \<Rightarrow> 'a st \<Rightarrow> safety_config \<times> 'a st" where
  "ford_init build param s =
     (let ford_canfd = False;
          FORD_PARAM_LONGITUDINAL = 1;
          FORD_PARAM_CANFD = 2;
          s = (if ALLOW_DEBUG build then s\<lparr>ford_longitudinal := GET_FLAG param FORD_PARAM_LONGITUDINAL\<rparr>
               else s);
          ford_canfd = (if ALLOW_DEBUG build then GET_FLAG param FORD_PARAM_CANFD else ford_canfd);
          ret = (if ford_canfd
                 then if ford_longitudinal s then BUILD_SAFETY_CFG ford_rx_checks FORD_CANFD_LONG_TX_MSGS
                      else BUILD_SAFETY_CFG ford_rx_checks FORD_CANFD_STOCK_TX_MSGS
                 else if ford_longitudinal s then BUILD_SAFETY_CFG ford_rx_checks FORD_LONG_TX_MSGS
                      else BUILD_SAFETY_CFG ford_rx_checks FORD_STOCK_TX_MSGS)
      in (ret, s))"

definition ford_hooks :: "build_flags \<Rightarrow> 'a st safety_hooks" where
  "ford_hooks build = \<lparr>h_init = ford_init build, h_rx = ford_rx_hook, h_tx = ford_tx_hook,
     h_fwd = ford_fwd_hook, h_get_checksum = Some ford_get_checksum,
     h_compute_checksum = Some ford_compute_checksum, h_get_counter = Some ford_get_counter,
     h_get_quality_flag_valid = Some ford_get_quality_flag_valid\<rparr>"

section \<open>The contract\<close>

text \<open>A lateral control request, a lane assist action, an acceleration or gas request, and the
  resume button.\<close>

definition ford_actuates :: "CANPacket_t \<Rightarrow> 'a st \<Rightarrow> bool" where
  "ford_actuates p s \<longleftrightarrow>
     GET_ADDR p = FORD_LateralMotionControl \<and> drop_bit 2 (BYTE p 4) AND 0x7 \<noteq> 0 \<or>
     GET_ADDR p = FORD_LateralMotionControl2 \<and> drop_bit 4 (BYTE p 0) AND 0x7 \<noteq> 0 \<or>
     GET_ADDR p = FORD_Lane_Assist_Data1 \<and> drop_bit 5 (GET_BYTE p 0) \<noteq> 0 \<or>
     GET_ADDR p = FORD_ACCDATA \<and> push_bit 8 (BYTE p 0 AND 0x1F) OR BYTE p 1 \<noteq> 5128 \<or>
     GET_ADDR p = FORD_ACCDATA \<and> push_bit 8 (BYTE p 6 AND 0x3) OR BYTE p 7 \<noteq> 0 \<or>
     GET_ADDR p = FORD_Steering_Data_FD1 \<and> GET_BIT p 25"

lemma ford_rx_frame: "rx_frame (ford_rx_hook p s) = rx_frame s"
  by (simp only: ford_rx_hook_def frame_simps let_values if_cancel)

lemma ford_rx_relay: "relay_malfunction s \<Longrightarrow> relay_malfunction (ford_rx_hook p s)"
  unfolding ford_rx_hook_def let_values by (intro relay_intros) simp_all

lemma ford_tx_frame: "tx_frame (snd (ford_tx_hook p s)) = tx_frame s"
  by (simp only: ford_tx_hook_def ford_tx_lateral_def ford_tx_lateral2_def frame_simps let_values if_cancel)

lemma ford_fwd: "0 \<le> b \<Longrightarrow> ford_fwd_hook s b a \<in> {- 1, 0, 1, 2} \<and> ford_fwd_hook s b a \<noteq> b"
  by (auto simp: ford_fwd_hook_def)

lemma ford_gated:
  assumes "fst (ford_tx_hook p s)" and "ford_actuates p s"
  shows "controls_allowed s"
proof (rule ccontr)
  assume n: "\<not> controls_allowed s"
  from assms(2) consider "GET_ADDR p = FORD_LateralMotionControl"
    | "GET_ADDR p = FORD_LateralMotionControl2" | "GET_ADDR p = FORD_Lane_Assist_Data1"
    | "GET_ADDR p = FORD_ACCDATA" | "GET_ADDR p = FORD_Steering_Data_FD1"
    by (auto simp: ford_actuates_def)
  then show False using assms n
    by cases (auto simp: ford_tx_hook_def ford_tx_lateral_def ford_tx_lateral2_def ford_actuates_def
        Let_def case_prod_beta gate_simps FORD_LONG_LIMITS_def split: if_splits)
qed

lemma ford_init_ok:
  "config_ok (fst (ford_init b prm s))" "config_of (snd (ford_init b prm s)) = config_of s"
  by (simp_all add: ford_init_def Let_def ford_rx_checks_def config_of_def)

interpretation ford: safety_mode "ford_hooks b" ford_actuates
  by unfold_locales
    (simp_all add: ford_hooks_def ford_rx_frame ford_rx_relay ford_tx_frame ford_fwd ford_gated
      ford_init_ok del: insert_iff)

end
