(* ===== verification/Mode_Chrysler.thy ===== *)
theory Mode_Chrysler
  imports Mode_Contract
begin

text \<open>The Chrysler mode, \<^verbatim>\<open>board/safety/safety_chrysler.h\<close>.\<close>

section \<open>Checksum and counter\<close>

definition chrysler_get_checksum :: "CANPacket_t \<Rightarrow> u32" where
  "chrysler_get_checksum to_push =
     (let checksum_byte = GET_LEN to_push - 1
      in ucast (GET_BYTE to_push checksum_byte))"

definition chrysler_checksum_bit :: "u8 \<Rightarrow> u8 \<Rightarrow> u8 \<Rightarrow> u8" where
  "chrysler_checksum_bit cur shift checksum =
     (let bit_sum = cur AND shift;
          temp_chk = checksum AND 0x80
      in if bit_sum \<noteq> 0 then
           let bit_sum = 0x1C;
               bit_sum = (if temp_chk \<noteq> 0 then 1 else bit_sum);
               checksum = push_bit 1 checksum;
               temp_chk = checksum OR 1
           in bit_sum XOR temp_chk
         else
           let bit_sum = (if temp_chk \<noteq> 0 then 0x1D else bit_sum);
               checksum = push_bit 1 checksum
           in bit_sum XOR checksum)"

fun chrysler_checksum_bits :: "u8 \<Rightarrow> nat \<Rightarrow> u8 \<Rightarrow> u8 \<Rightarrow> u8" where
  "chrysler_checksum_bits cur 0 shift checksum = checksum"
| "chrysler_checksum_bits cur (Suc n) shift checksum =
     chrysler_checksum_bits cur n (drop_bit 1 shift) (chrysler_checksum_bit cur shift checksum)"

fun chrysler_checksum_loop :: "CANPacket_t \<Rightarrow> nat \<Rightarrow> nat \<Rightarrow> u8 \<Rightarrow> u8" where
  "chrysler_checksum_loop p j 0 checksum = checksum"
| "chrysler_checksum_loop p j (Suc n) checksum =
     chrysler_checksum_loop p (Suc j) n (chrysler_checksum_bits (GET_BYTE p j) 8 0x80 checksum)"

definition chrysler_compute_checksum :: "'a st \<Rightarrow> CANPacket_t \<Rightarrow> u32" where
  "chrysler_compute_checksum s to_push =
     (let checksum = 0xFF;
          len = GET_LEN to_push;
          checksum = chrysler_checksum_loop to_push 0 (len - 1) checksum
      in ucast (NOT checksum))"

definition chrysler_get_counter :: "CANPacket_t \<Rightarrow> u8" where
  "chrysler_get_counter to_push = drop_bit 4 (GET_BYTE to_push 6)"

section \<open>Reception\<close>

definition chrysler_rx_hook :: "CANPacket_t \<Rightarrow> 'a st \<Rightarrow> 'a st" where
  "chrysler_rx_hook to_push s =
     (let bus = GET_BUS to_push;
          addr = GET_ADDR to_push;
          s = (if bus = 0 \<and> addr = EPS_2 (chrysler_addrs s) then
                 let torque_meas_new = sint (word_of_int
                       (push_bit 8 (BYTE to_push 4 AND 0x7) + BYTE to_push 5) - 1024 :: u32)
                 in s\<lparr>torque_meas := update_sample (torque_meas s) torque_meas_new\<rparr>
               else s);
          das_3_bus = (if chrysler_platform s = CHRYSLER_PACIFICA then 0 else 2);
          s = (if bus = das_3_bus \<and> addr = DAS_3 (chrysler_addrs s) then
                 let cruise_engaged = GET_BIT to_push 21
                 in pcm_cruise_check cruise_engaged s
               else s);
          s = (if chrysler_platform s \<noteq> CHRYSLER_PACIFICA \<and> bus = 0 \<and> addr = ESP_8 (chrysler_addrs s)
               then s\<lparr>vehicle_moving := push_bit 8 (BYTE to_push 4) + BYTE to_push 5 \<noteq> 0\<rparr> else s);
          s = (if chrysler_platform s = CHRYSLER_PACIFICA \<and> bus = 0 \<and> addr = 514 then
                 let speed_l = push_bit 4 (BYTE to_push 0) + drop_bit 4 (BYTE to_push 1);
                     speed_r = push_bit 4 (BYTE to_push 2) + drop_bit 4 (BYTE to_push 3)
                 in s\<lparr>vehicle_moving := speed_l \<noteq> 0 \<or> speed_r \<noteq> 0\<rparr>
               else s);
          s = (if bus = 0 \<and> addr = ECM_5 (chrysler_addrs s)
               then s\<lparr>gas_pressed := GET_BYTE to_push 0 \<noteq> 0\<rparr> else s);
          s = (if bus = 0 \<and> addr = ESP_1 (chrysler_addrs s)
               then s\<lparr>brake_pressed := drop_bit 2 (GET_BYTE to_push 0 AND 0xF) = 1\<rparr> else s)
      in generic_rx_checks (bus = 0 \<and> addr = LKAS_COMMAND (chrysler_addrs s)) s)"

section \<open>Transmission\<close>

definition CHRYSLER_STEERING_LIMITS :: SteeringLimits where
  "CHRYSLER_STEERING_LIMITS = SteeringLimits_0
     \<lparr>max_steer := 261, max_rt_delta := 112, max_rt_interval := 250000, max_rate_up := 3,
      max_rate_down := 3, max_torque_error := 80, sl_type := TorqueMotorLimited\<rparr>"

definition CHRYSLER_RAM_DT_STEERING_LIMITS :: SteeringLimits where
  "CHRYSLER_RAM_DT_STEERING_LIMITS = SteeringLimits_0
     \<lparr>max_steer := 350, max_rt_delta := 112, max_rt_interval := 250000, max_rate_up := 6,
      max_rate_down := 6, max_torque_error := 80, sl_type := TorqueMotorLimited\<rparr>"

definition CHRYSLER_RAM_HD_STEERING_LIMITS :: SteeringLimits where
  "CHRYSLER_RAM_HD_STEERING_LIMITS = SteeringLimits_0
     \<lparr>max_steer := 361, max_rt_delta := 182, max_rt_interval := 250000, max_rate_up := 14,
      max_rate_down := 14, max_torque_error := 80, sl_type := TorqueMotorLimited\<rparr>"

definition chrysler_limits :: "'a st \<Rightarrow> SteeringLimits" where
  "chrysler_limits s =
     (if chrysler_platform s = CHRYSLER_PACIFICA then CHRYSLER_STEERING_LIMITS
      else if chrysler_platform s = CHRYSLER_RAM_DT then CHRYSLER_RAM_DT_STEERING_LIMITS
      else CHRYSLER_RAM_HD_STEERING_LIMITS)"

definition chrysler_tx_hook :: "CANPacket_t \<Rightarrow> 'a st \<Rightarrow> bool \<times> 'a st" where
  "chrysler_tx_hook to_send s =
     (let tx = True;
          addr = GET_ADDR to_send;
          (tx, s) = (if addr = LKAS_COMMAND (chrysler_addrs s) then
                  let start_byte = (if chrysler_platform s = CHRYSLER_PACIFICA then 0 else 1);
                      desired_torque = push_bit 8 (BYTE to_send start_byte AND 0x7) OR
                                       BYTE to_send (start_byte + 1);
                      desired_torque = desired_torque - 1024;
                      steer_req = (if chrysler_platform s = CHRYSLER_PACIFICA then GET_BIT to_send 4
                                   else GET_BYTE to_send 3 AND 0x7 = 2);
                      (violation, s) = steer_torque_cmd_checks desired_torque (int_of_bool steer_req)
                                         (chrysler_limits s) s
                  in (if violation then False else tx, s)
                else (tx, s));
          tx = (if addr = CRUISE_BUTTONS (chrysler_addrs s) then
                  let is_cancel = (GET_BYTE to_send 0 = 1);
                      is_resume = (GET_BYTE to_send 0 = 0x10);
                      allowed = (is_cancel \<or> is_resume \<and> controls_allowed s)
                  in if \<not> allowed then False else tx
                else tx)
      in (tx, s))"

section \<open>Forwarding and initialisation\<close>

definition chrysler_fwd_hook :: "'a st \<Rightarrow> int \<Rightarrow> int \<Rightarrow> int" where
  "chrysler_fwd_hook s bus_num addr =
     (let bus_fwd = - 1;
          bus_fwd = (if bus_num = 0 then 2 else bus_fwd);
          is_lkas = (addr = LKAS_COMMAND (chrysler_addrs s) \<or> addr = DAS_6 (chrysler_addrs s))
      in if bus_num = 2 \<and> \<not> is_lkas then 0 else bus_fwd)"

definition CHRYSLER_ADDRS :: ChryslerAddrs where
  "CHRYSLER_ADDRS = \<lparr>EPS_2 = 0x220, ESP_1 = 0x140, ESP_8 = 0x11C, ECM_5 = 0x22F, DAS_3 = 0x1F4,
     DAS_6 = 0x2A6, LKAS_COMMAND = 0x292, CRUISE_BUTTONS = 0x23B\<rparr>"

definition CHRYSLER_RAM_DT_ADDRS :: ChryslerAddrs where
  "CHRYSLER_RAM_DT_ADDRS = \<lparr>EPS_2 = 0x31, ESP_1 = 0x83, ESP_8 = 0x79, ECM_5 = 0x9D, DAS_3 = 0x99,
     DAS_6 = 0xFA, LKAS_COMMAND = 0xA6, CRUISE_BUTTONS = 0xB1\<rparr>"

definition CHRYSLER_RAM_HD_ADDRS :: ChryslerAddrs where
  "CHRYSLER_RAM_HD_ADDRS = \<lparr>EPS_2 = 0x220, ESP_1 = 0x140, ESP_8 = 0x11C, ECM_5 = 0x22F,
     DAS_3 = 0x1F4, DAS_6 = 0x275, LKAS_COMMAND = 0x276, CRUISE_BUTTONS = 0x23A\<rparr>"

definition CHRYSLER_CHK :: "int \<Rightarrow> int \<Rightarrow> u32 \<Rightarrow> RxCheck" where
  "CHRYSLER_CHK a b f = RX [(CHK a b 8 f)\<lparr>check_checksum := True, max_counter := 15\<rparr>]"

definition chrysler_ram_dt_rx_checks :: "RxCheck list" where
  "chrysler_ram_dt_rx_checks =
     [CHRYSLER_CHK (EPS_2 CHRYSLER_RAM_DT_ADDRS) 0 100, CHRYSLER_CHK (ESP_1 CHRYSLER_RAM_DT_ADDRS) 0 50,
      CHRYSLER_CHK (ESP_8 CHRYSLER_RAM_DT_ADDRS) 0 50, CHRYSLER_CHK (ECM_5 CHRYSLER_RAM_DT_ADDRS) 0 50,
      CHRYSLER_CHK (DAS_3 CHRYSLER_RAM_DT_ADDRS) 2 50]"

definition chrysler_rx_checks :: "RxCheck list" where
  "chrysler_rx_checks =
     [CHRYSLER_CHK (EPS_2 CHRYSLER_ADDRS) 0 100, CHRYSLER_CHK (ESP_1 CHRYSLER_ADDRS) 0 50,
      RX [CHK 514 0 8 100], CHRYSLER_CHK (ECM_5 CHRYSLER_ADDRS) 0 50,
      CHRYSLER_CHK (DAS_3 CHRYSLER_ADDRS) 0 50]"

definition chrysler_ram_hd_rx_checks :: "RxCheck list" where
  "chrysler_ram_hd_rx_checks =
     [CHRYSLER_CHK (EPS_2 CHRYSLER_RAM_HD_ADDRS) 0 100, CHRYSLER_CHK (ESP_1 CHRYSLER_RAM_HD_ADDRS) 0 50,
      CHRYSLER_CHK (ESP_8 CHRYSLER_RAM_HD_ADDRS) 0 50, CHRYSLER_CHK (ECM_5 CHRYSLER_RAM_HD_ADDRS) 0 50,
      CHRYSLER_CHK (DAS_3 CHRYSLER_RAM_HD_ADDRS) 2 50]"

definition CHRYSLER_TX_MSGS :: "CanMsg list" where
  "CHRYSLER_TX_MSGS = [MSG (CRUISE_BUTTONS CHRYSLER_ADDRS) 0 3, MSG (LKAS_COMMAND CHRYSLER_ADDRS) 0 6,
     MSG (DAS_6 CHRYSLER_ADDRS) 0 8]"

definition CHRYSLER_RAM_DT_TX_MSGS :: "CanMsg list" where
  "CHRYSLER_RAM_DT_TX_MSGS = [MSG (CRUISE_BUTTONS CHRYSLER_RAM_DT_ADDRS) 2 3,
     MSG (LKAS_COMMAND CHRYSLER_RAM_DT_ADDRS) 0 8, MSG (DAS_6 CHRYSLER_RAM_DT_ADDRS) 0 8]"

definition CHRYSLER_RAM_HD_TX_MSGS :: "CanMsg list" where
  "CHRYSLER_RAM_HD_TX_MSGS = [MSG (CRUISE_BUTTONS CHRYSLER_RAM_HD_ADDRS) 2 3,
     MSG (LKAS_COMMAND CHRYSLER_RAM_HD_ADDRS) 0 8, MSG (DAS_6 CHRYSLER_RAM_HD_ADDRS) 0 8]"

definition chrysler_init :: "build_flags \<Rightarrow> u16 \<Rightarrow> 'a st \<Rightarrow> safety_config \<times> 'a st" where
  "chrysler_init build param s =
     (let CHRYSLER_PARAM_RAM_DT = 1;
          CHRYSLER_PARAM_RAM_HD = 2;
          enable_ram_dt = GET_FLAG (ucast param :: u32) CHRYSLER_PARAM_RAM_DT;
          enable_ram_hd = (ALLOW_DEBUG build \<and> GET_FLAG (ucast param :: u32) CHRYSLER_PARAM_RAM_HD)
      in if enable_ram_dt
         then (BUILD_SAFETY_CFG chrysler_ram_dt_rx_checks CHRYSLER_RAM_DT_TX_MSGS,
               s\<lparr>chrysler_platform := CHRYSLER_RAM_DT, chrysler_addrs := CHRYSLER_RAM_DT_ADDRS\<rparr>)
         else if enable_ram_hd
         then (BUILD_SAFETY_CFG chrysler_ram_hd_rx_checks CHRYSLER_RAM_HD_TX_MSGS,
               s\<lparr>chrysler_platform := CHRYSLER_RAM_HD, chrysler_addrs := CHRYSLER_RAM_HD_ADDRS\<rparr>)
         else (BUILD_SAFETY_CFG chrysler_rx_checks CHRYSLER_TX_MSGS,
               s\<lparr>chrysler_platform := CHRYSLER_PACIFICA, chrysler_addrs := CHRYSLER_ADDRS\<rparr>))"

definition chrysler_hooks :: "build_flags \<Rightarrow> 'a st safety_hooks" where
  "chrysler_hooks build = \<lparr>h_init = chrysler_init build, h_rx = chrysler_rx_hook,
     h_tx = chrysler_tx_hook, h_fwd = chrysler_fwd_hook, h_get_checksum = Some chrysler_get_checksum,
     h_compute_checksum = Some chrysler_compute_checksum, h_get_counter = Some chrysler_get_counter,
     h_get_quality_flag_valid = None\<rparr>"

section \<open>The contract\<close>

text \<open>A torque other than zero, whose raw value is 1024, and the resume button.\<close>

definition chrysler_actuates :: "CANPacket_t \<Rightarrow> 'a st \<Rightarrow> bool" where
  "chrysler_actuates p s \<longleftrightarrow>
     GET_ADDR p = LKAS_COMMAND (chrysler_addrs s) \<and>
       (let b = (if chrysler_platform s = CHRYSLER_PACIFICA then 0 else 1)
        in push_bit 8 (BYTE p b AND 0x7) OR BYTE p (b + 1) \<noteq> 1024) \<or>
     GET_ADDR p = CRUISE_BUTTONS (chrysler_addrs s) \<and> GET_BYTE p 0 = 0x10"

lemma chrysler_rx_frame: "rx_frame (chrysler_rx_hook p s) = rx_frame s"
  by (simp only: chrysler_rx_hook_def frame_simps let_values if_cancel)

lemma chrysler_rx_relay: "relay_malfunction s \<Longrightarrow> relay_malfunction (chrysler_rx_hook p s)"
  unfolding chrysler_rx_hook_def let_values by (intro relay_intros) simp_all

lemma chrysler_tx_frame: "tx_frame (snd (chrysler_tx_hook p s)) = tx_frame s"
  by (simp only: chrysler_tx_hook_def frame_simps let_values if_cancel)

lemma chrysler_fwd: "0 \<le> b \<Longrightarrow> chrysler_fwd_hook s b a \<in> {- 1, 0, 1, 2} \<and> chrysler_fwd_hook s b a \<noteq> b"
  by (auto simp: chrysler_fwd_hook_def Let_def)

lemma torque_steps_addrs:
  "chrysler_addrs (snd (torque_limits_step t lm ts s)) = chrysler_addrs s"
  "chrysler_addrs (snd (steer_req_step t r lm ts v s)) = chrysler_addrs s"
  "chrysler_addrs (torque_reset_step ts v s) = chrysler_addrs s"
  by (simp_all add: torque_limits_step_def steer_req_step_def torque_reset_step_def Let_def)

lemma steer_torque_addrs:
  "chrysler_addrs (snd (steer_torque_cmd_checks t r lm s)) = chrysler_addrs s"
  by (simp add: steer_torque_cmd_checks_def Let_def case_prod_beta torque_steps_addrs)

lemma chrysler_gated:
  assumes "fst (chrysler_tx_hook p s)" and "chrysler_actuates p s"
  shows "controls_allowed s"
proof (rule ccontr)
  assume n: "\<not> controls_allowed s"
  have ca: "controls_allowed (snd (steer_torque_cmd_checks t r lm s)) = controls_allowed s" for t r lm
    using tx_frame_D [OF tx_frame_steer_torque_cmd_checks] by blast
  define b where "b = (if chrysler_platform s = CHRYSLER_PACIFICA then 0 else 1 :: nat)"
  have start: "(if chrysler_platform s = CHRYSLER_PACIFICA then 0 else 1) = b" by (simp add: b_def)
  have r: "GET_BYTE p 0 = 0x10 \<Longrightarrow> GET_BYTE p 0 \<noteq> 1" by simp
  from assms(2) consider
      "GET_ADDR p = LKAS_COMMAND (chrysler_addrs s)" "push_bit 8 (BYTE p b AND 0x7) OR BYTE p (b + 1) \<noteq> 1024"
    | "GET_ADDR p = CRUISE_BUTTONS (chrysler_addrs s)" "GET_BYTE p 0 = 0x10"
    unfolding chrysler_actuates_def start Let_def by blast
  then show False
  proof cases
    case 1
    then show False using assms(1) n
      by (simp add: chrysler_tx_hook_def Let_def b_def case_prod_beta gate_simps ca steer_torque_addrs
          split: if_splits)
  next
    case 2
    then have "GET_ADDR p = CRUISE_BUTTONS (chrysler_addrs s)" and "GET_BYTE p 0 \<noteq> 1" using r by blast+
    then show False using assms(1) n
      by (cases "GET_ADDR p = LKAS_COMMAND (chrysler_addrs s)")
        (simp_all only: chrysler_tx_hook_def Let_def case_prod_beta ca steer_torque_addrs if_True if_False
          fst_conv snd_conv simp_thms)
  qed
qed

lemma chrysler_init_ok:
  "config_ok (fst (chrysler_init b prm s))" "config_of (snd (chrysler_init b prm s)) = config_of s"
  by (simp_all add: chrysler_init_def Let_def chrysler_ram_dt_rx_checks_def chrysler_rx_checks_def
      chrysler_ram_hd_rx_checks_def CHRYSLER_CHK_def CHRYSLER_ADDRS_def CHRYSLER_RAM_DT_ADDRS_def
      CHRYSLER_RAM_HD_ADDRS_def config_of_def)

interpretation chrysler: safety_mode "chrysler_hooks b" chrysler_actuates
  by unfold_locales
    (simp_all add: chrysler_hooks_def chrysler_rx_frame chrysler_rx_relay chrysler_tx_frame
      chrysler_fwd chrysler_gated chrysler_init_ok del: insert_iff)

end
