(* ===== verification/Mode_Nissan.thy ===== *)
theory Mode_Nissan
  imports Mode_Contract
begin

text \<open>The Nissan mode, \<^verbatim>\<open>board/safety/safety_nissan.h\<close>.\<close>

section \<open>Reception\<close>

definition nissan_rx_hook :: "CANPacket_t \<Rightarrow> 'a st \<Rightarrow> 'a st" where
  "nissan_rx_hook to_push s =
     (let bus = GET_BUS to_push;
          addr = GET_ADDR to_push;
          s = (if bus = (if nissan_alt_eps s then 1 else 0) then
             let s = (if addr = 0x2 then
                   let angle_meas_new = uint (GET_BYTES to_push 0 4 AND 0xFFFF);
                       angle_meas_new = to_signed angle_meas_new 16 * - 10
                   in s\<lparr>angle_meas := update_sample (angle_meas s) angle_meas_new\<rparr>
                 else s);
                 s = (if addr = 0x285 then
                   let right_rear = push_bit 8 (BYTE to_push 0) OR BYTE to_push 1;
                       left_rear = push_bit 8 (BYTE to_push 2) OR BYTE to_push 3;
                       s = s\<lparr>vehicle_moving := right_rear OR left_rear \<noteq> 0\<rparr>
                   in UPDATE_VEHICLE_SPEED
                        (fl (fl (fl (float_of_int (right_rear + left_rear) / 2) * fl (5 / 1000))
                             / fl (36 / 10))) s
                 else s);
                 s = (if addr = 0x15c \<or> addr = 0x239 then
                   if addr = 0x15c
                   then s\<lparr>gas_pressed := push_bit 2 (BYTE to_push 5) OR
                                          (drop_bit 6 (BYTE to_push 6) AND 0x3) > 3\<rparr>
                   else s\<lparr>gas_pressed := BYTE to_push 0 > 3\<rparr>
                 else s);
                 s = (if addr = 0x454 \<or> addr = 0x239 then
                   if addr = 0x454
                   then s\<lparr>brake_pressed := GET_BYTE to_push 2 AND 0x80 \<noteq> 0\<rparr>
                   else s\<lparr>brake_pressed := drop_bit 5 (GET_BYTE to_push 4) AND 1 \<noteq> 0\<rparr>
                 else s)
             in s
           else s);
          s = (if addr = 0x30f \<and> bus = (if nissan_alt_eps s then 1 else 2) then
                 let cruise_engaged = (drop_bit 3 (GET_BYTE to_push 0) AND 1 \<noteq> 0)
                 in pcm_cruise_check cruise_engaged s
               else s)
      in generic_rx_checks (addr = 0x169 \<and> bus = 0) s)"

section \<open>Transmission\<close>

definition NISSAN_STEERING_LIMITS :: SteeringLimits where
  "NISSAN_STEERING_LIMITS = SteeringLimits_0
     \<lparr>angle_deg_to_can := 100,
      angle_rate_up_lookup := LOOKUP [0, 5, 15] [5, 8 / 10, 15 / 100],
      angle_rate_down_lookup := LOOKUP [0, 5, 15] [5, 35 / 10, 4 / 10]\<rparr>"

definition nissan_tx_hook :: "CANPacket_t \<Rightarrow> 'a st \<Rightarrow> bool \<times> 'a st" where
  "nissan_tx_hook to_send s =
     (let tx = True;
          addr = GET_ADDR to_send;
          violation = False;
          (violation, s) = (if addr = 0x169 then
                  let desired_angle = push_bit 10 (BYTE to_send 0) OR push_bit 2 (BYTE to_send 1) OR
                                      (drop_bit 6 (BYTE to_send 2) AND 0x3);
                      lka_active = (drop_bit 4 (GET_BYTE to_send 6) AND 1 \<noteq> 0);
                      desired_angle = int_of_float (fl (float_of_int (- desired_angle) +
                        fl (1310 * angle_deg_to_can NISSAN_STEERING_LIMITS)));
                      (v, s) = steer_angle_cmd_checks desired_angle lka_active NISSAN_STEERING_LIMITS s
                  in (if v then True else violation, s)
                else (violation, s));
          violation = (if addr = 0x20b
                       then violation \<or> GET_BYTE to_send 1 AND 0x3d > 0 else violation);
          tx = (if violation then False else tx)
      in (tx, s))"

section \<open>Forwarding and initialisation\<close>

definition nissan_fwd_hook :: "'a st \<Rightarrow> int \<Rightarrow> int \<Rightarrow> int" where
  "nissan_fwd_hook s bus_num addr =
     (let bus_fwd = - 1;
          bus_fwd = (if bus_num = 0 then
                 let block_msg = (addr = 0x280) in if \<not> block_msg then 2 else bus_fwd
               else bus_fwd)
      in if bus_num = 2 then
           let block_msg = (addr = 0x169 \<or> addr = 0x2b1 \<or> addr = 0x4cc)
           in if \<not> block_msg then 0 else bus_fwd
         else bus_fwd)"

definition NISSAN_TX_MSGS :: "CanMsg list" where
  "NISSAN_TX_MSGS = [MSG 0x169 0 8, MSG 0x2b1 0 8, MSG 0x4cc 0 8, MSG 0x20b 2 6, MSG 0x20b 1 6,
     MSG 0x280 2 8]"

definition nissan_rx_checks :: "RxCheck list" where
  "nissan_rx_checks =
     [RX [CHK 0x2 0 5 100, CHK 0x2 1 5 100],
      RX [CHK 0x285 0 8 50, CHK 0x285 1 8 50],
      RX [CHK 0x30f 2 3 10, CHK 0x30f 1 3 10],
      RX [CHK 0x15c 0 8 50, CHK 0x15c 1 8 50, CHK 0x239 0 8 50],
      RX [CHK 0x454 0 8 10, CHK 0x454 1 8 10, CHK 0x1cc 0 4 100]]"

definition nissan_init :: "u16 \<Rightarrow> 'a st \<Rightarrow> safety_config \<times> 'a st" where
  "nissan_init param s =
     (let NISSAN_PARAM_ALT_EPS_BUS = 1;
          s = s\<lparr>nissan_alt_eps := GET_FLAG (ucast param :: u32) NISSAN_PARAM_ALT_EPS_BUS\<rparr>
      in (BUILD_SAFETY_CFG nissan_rx_checks NISSAN_TX_MSGS, s))"

definition nissan_hooks :: "'a st safety_hooks" where
  "nissan_hooks = \<lparr>h_init = nissan_init, h_rx = nissan_rx_hook, h_tx = nissan_tx_hook,
     h_fwd = nissan_fwd_hook, h_get_checksum = None, h_compute_checksum = None,
     h_get_counter = None, h_get_quality_flag_valid = None\<rparr>"

section \<open>The contract\<close>

definition nissan_actuates :: "CANPacket_t \<Rightarrow> 'a st \<Rightarrow> bool" where
  "nissan_actuates p s \<longleftrightarrow> GET_ADDR p = 0x169 \<and> drop_bit 4 (GET_BYTE p 6) AND 1 \<noteq> 0"

lemma nissan_rx_frame: "rx_frame (nissan_rx_hook p s) = rx_frame s"
  by (simp only: nissan_rx_hook_def frame_simps let_values if_cancel)

lemma nissan_rx_relay: "relay_malfunction s \<Longrightarrow> relay_malfunction (nissan_rx_hook p s)"
  unfolding nissan_rx_hook_def let_values by (intro relay_intros) simp_all

lemma nissan_tx_frame: "tx_frame (snd (nissan_tx_hook p s)) = tx_frame s"
  by (simp only: nissan_tx_hook_def frame_simps let_values if_cancel)

lemma nissan_fwd: "0 \<le> b \<Longrightarrow> nissan_fwd_hook s b a \<in> {- 1, 0, 1, 2} \<and> nissan_fwd_hook s b a \<noteq> b"
  by (auto simp: nissan_fwd_hook_def Let_def)

lemma nissan_gated:
  assumes "fst (nissan_tx_hook p s)" and "nissan_actuates p s"
  shows "controls_allowed s"
proof (rule ccontr)
  assume "\<not> controls_allowed s"
  then show False using assms
    by (simp add: nissan_tx_hook_def nissan_actuates_def Let_def case_prod_beta gate_simps)
qed

lemma nissan_init_ok:
  "config_ok (fst (nissan_init prm s))" "config_of (snd (nissan_init prm s)) = config_of s"
  by (simp_all add: nissan_init_def Let_def nissan_rx_checks_def config_of_def)

interpretation nissan: safety_mode nissan_hooks nissan_actuates
  by unfold_locales
    (simp_all add: nissan_hooks_def nissan_rx_frame nissan_rx_relay nissan_tx_frame nissan_fwd
      nissan_gated nissan_init_ok del: insert_iff)

end
