(* ===== verification/Mode_Tesla.thy ===== *)
theory Mode_Tesla
  imports Mode_Contract
begin

text \<open>The Tesla mode, \<^verbatim>\<open>board/safety/safety_tesla.h\<close>.\<close>

section \<open>Reception\<close>

definition tesla_rx_hook :: "CANPacket_t \<Rightarrow> 'a st \<Rightarrow> 'a st" where
  "tesla_rx_hook to_push s =
     (let bus = GET_BUS to_push;
          addr = GET_ADDR to_push;
          s = (if \<not> tesla_powertrain s then
                 if (\<not> tesla_raven s \<and> addr = 0x370 \<and> bus = 0) \<or> (tesla_raven s \<and> addr = 0x131 \<and> bus = 2)
                 then let angle_meas_new = sint (word_of_int
                        (push_bit 8 (BYTE to_push 4 AND 0x3F) OR BYTE to_push 5) - 8192 :: u32)
                      in s\<lparr>angle_meas := update_sample (angle_meas s) angle_meas_new\<rparr>
                 else s
               else s);
          s = (if bus = 0 then
             let s = (if addr = (if tesla_powertrain s then 0x116 else 0x118) then
                   let speed = fl (fl (fl (float_of_int
                         (push_bit 8 (BYTE to_push 3 AND 0x0F) OR BYTE to_push 2) * fl (5 / 100)) - 25)
                         * fl (447 / 1000));
                       s = s\<lparr>vehicle_moving := ABS speed > fl (1 / 10)\<rparr>
                   in UPDATE_VEHICLE_SPEED speed s
                 else s);
                 s = (if addr = (if tesla_powertrain s then 0x106 else 0x108)
                   then s\<lparr>gas_pressed := GET_BYTE to_push 6 \<noteq> 0\<rparr> else s);
                 s = (if addr = (if tesla_powertrain s then 0x1f8 else 0x20a)
                   then s\<lparr>brake_pressed := drop_bit 2 (GET_BYTE to_push 0 AND 0x0C) \<noteq> 1\<rparr> else s);
                 s = (if addr = (if tesla_powertrain s then 0x256 else 0x368) then
                   let cruise_state = drop_bit 4 (BYTE to_push 1);
                       cruise_engaged = (cruise_state = 2 \<or> cruise_state = 3 \<or> cruise_state = 4 \<or>
                                         cruise_state = 6 \<or> cruise_state = 7)
                   in pcm_cruise_check cruise_engaged s
                 else s)
             in s
           else s);
          s = (if bus = 2 then
                 let das_control_addr = (if tesla_powertrain s then 0x2bf else 0x2b9)
                 in if tesla_longitudinal s \<and> addr = das_control_addr
                    then s\<lparr>tesla_stock_aeb := GET_BYTE to_push 2 AND 0x03 = 1\<rparr> else s
               else s)
      in if tesla_powertrain s then generic_rx_checks (addr = 0x2bf \<and> bus = 0) s
         else generic_rx_checks (addr = 0x488 \<and> bus = 0) s)"

section \<open>Transmission\<close>

definition TESLA_STEERING_LIMITS :: SteeringLimits where
  "TESLA_STEERING_LIMITS = SteeringLimits_0
     \<lparr>angle_deg_to_can := 10,
      angle_rate_up_lookup := LOOKUP [0, 5, 15] [10, 16 / 10, 3 / 10],
      angle_rate_down_lookup := LOOKUP [0, 5, 15] [10, 7, 8 / 10]\<rparr>"

definition TESLA_LONG_LIMITS :: LongitudinalLimits where
  "TESLA_LONG_LIMITS = LongitudinalLimits_0
     \<lparr>max_accel := 425, min_accel := 287, inactive_accel := 375\<rparr>"

definition tesla_tx_hook :: "CANPacket_t \<Rightarrow> 'a st \<Rightarrow> bool \<times> 'a st" where
  "tesla_tx_hook to_send s =
     (let tx = True;
          addr = GET_ADDR to_send;
          violation = False;
          (violation, s) = (if \<not> tesla_powertrain s \<and> addr = 0x488 then
                  let raw_angle_can = push_bit 8 (BYTE to_send 0 AND 0x7F) OR BYTE to_send 1;
                      desired_angle = raw_angle_can - 16384;
                      steer_control_type = drop_bit 6 (BYTE to_send 2);
                      steer_control_enabled = (steer_control_type \<noteq> 0 \<and> steer_control_type \<noteq> 3);
                      (v, s) = steer_angle_cmd_checks desired_angle steer_control_enabled
                                 TESLA_STEERING_LIMITS s
                  in (if v then True else violation, s)
                else (violation, s));
          violation = (if \<not> tesla_powertrain s \<and> addr = 0x45 then
                  let control_lever_status = BYTE to_send 0 AND 0x3F
                  in if control_lever_status \<noteq> 1 then True else violation
                else violation);
          violation = (if addr = (if tesla_powertrain s then 0x2bf else 0x2b9) then
                  if tesla_longitudinal s then
                    let aeb_event = BYTE to_send 2 AND 0x03;
                        violation = (if aeb_event \<noteq> 0 then True else violation);
                        violation = (if tesla_stock_aeb s then True else violation);
                        raw_accel_max = push_bit 4 (BYTE to_send 6 AND 0x1F) OR drop_bit 4 (BYTE to_send 5);
                        raw_accel_min = push_bit 5 (BYTE to_send 5 AND 0x0F) OR drop_bit 3 (BYTE to_send 4);
                        violation = (violation \<or> longitudinal_accel_checks raw_accel_max TESLA_LONG_LIMITS s);
                        violation = (violation \<or> longitudinal_accel_checks raw_accel_min TESLA_LONG_LIMITS s)
                    in violation
                  else True
                else violation);
          tx = (if violation then False else tx)
      in (tx, s))"

section \<open>Forwarding and initialisation\<close>

definition tesla_fwd_hook :: "'a st \<Rightarrow> int \<Rightarrow> int \<Rightarrow> int" where
  "tesla_fwd_hook s bus_num addr =
     (let bus_fwd = - 1;
          bus_fwd = (if bus_num = 0 then 2 else bus_fwd)
      in if bus_num = 2 then
           let das_control_addr = (if tesla_powertrain s then 0x2bf else 0x2b9);
               block_msg = False;
               block_msg = (if \<not> tesla_powertrain s \<and> addr = 0x488 then True else block_msg);
               block_msg = (if tesla_longitudinal s \<and> addr = das_control_addr \<and> \<not> tesla_stock_aeb s
                            then True else block_msg)
           in if \<not> block_msg then 0 else bus_fwd
         else bus_fwd)"

definition TESLA_TX_MSGS :: "CanMsg list" where
  "TESLA_TX_MSGS = [MSG 0x488 0 4, MSG 0x45 0 8, MSG 0x45 2 8, MSG 0x2b9 0 8]"

definition TESLA_PT_TX_MSGS :: "CanMsg list" where
  "TESLA_PT_TX_MSGS = [MSG 0x2bf 0 8]"

definition tesla_pt_rx_checks :: "RxCheck list" where
  "tesla_pt_rx_checks =
     [RX [CHK 0x106 0 8 100], RX [CHK 0x116 0 6 100], RX [CHK 0x1f8 0 8 50], RX [CHK 0x2bf 2 8 25],
      RX [CHK 0x256 0 8 10]]"

definition tesla_raven_rx_checks :: "RxCheck list" where
  "tesla_raven_rx_checks =
     [RX [CHK 0x2b9 2 8 25], RX [CHK 0x131 2 8 100], RX [CHK 0x108 0 8 100], RX [CHK 0x118 0 6 100],
      RX [CHK 0x20a 0 8 50], RX [CHK 0x368 0 8 10], RX [CHK 0x318 0 8 10]]"

definition tesla_rx_checks :: "RxCheck list" where
  "tesla_rx_checks =
     [RX [CHK 0x2b9 2 8 25], RX [CHK 0x370 0 8 25], RX [CHK 0x108 0 8 100], RX [CHK 0x118 0 6 100],
      RX [CHK 0x20a 0 8 50], RX [CHK 0x368 0 8 10], RX [CHK 0x318 0 8 10]]"

definition tesla_init :: "u16 \<Rightarrow> 'a st \<Rightarrow> safety_config \<times> 'a st" where
  "tesla_init param s =
     (let TESLA_FLAG_POWERTRAIN = 1;
          TESLA_FLAG_LONGITUDINAL_CONTROL = 2;
          TESLA_FLAG_RAVEN = 4;
          s = s\<lparr>tesla_powertrain := GET_FLAG (ucast param :: u32) TESLA_FLAG_POWERTRAIN\<rparr>;
          s = s\<lparr>tesla_longitudinal := GET_FLAG (ucast param :: u32) TESLA_FLAG_LONGITUDINAL_CONTROL\<rparr>;
          s = s\<lparr>tesla_raven := GET_FLAG (ucast param :: u32) TESLA_FLAG_RAVEN\<rparr>;
          s = s\<lparr>tesla_stock_aeb := False\<rparr>;
          ret = (if tesla_powertrain s then BUILD_SAFETY_CFG tesla_pt_rx_checks TESLA_PT_TX_MSGS
                 else if tesla_raven s then BUILD_SAFETY_CFG tesla_raven_rx_checks TESLA_TX_MSGS
                 else BUILD_SAFETY_CFG tesla_rx_checks TESLA_TX_MSGS)
      in (ret, s))"

definition tesla_hooks :: "'a st safety_hooks" where
  "tesla_hooks = \<lparr>h_init = tesla_init, h_rx = tesla_rx_hook, h_tx = tesla_tx_hook,
     h_fwd = tesla_fwd_hook, h_get_checksum = None, h_compute_checksum = None,
     h_get_counter = None, h_get_quality_flag_valid = None\<rparr>"

section \<open>The contract\<close>

text \<open>An angle request, an acceleration limit other than the inactive one, an emergency braking event.\<close>

definition tesla_actuates :: "CANPacket_t \<Rightarrow> 'a st \<Rightarrow> bool" where
  "tesla_actuates p s \<longleftrightarrow>
     \<not> tesla_powertrain s \<and> GET_ADDR p = 0x488 \<and>
       drop_bit 6 (BYTE p 2) \<noteq> 0 \<and> drop_bit 6 (BYTE p 2) \<noteq> 3 \<or>
     GET_ADDR p = (if tesla_powertrain s then 0x2bf else 0x2b9) \<and>
       (push_bit 4 (BYTE p 6 AND 0x1F) OR drop_bit 4 (BYTE p 5) \<noteq> 375 \<or>
        push_bit 5 (BYTE p 5 AND 0x0F) OR drop_bit 3 (BYTE p 4) \<noteq> 375 \<or> BYTE p 2 AND 0x03 \<noteq> 0)"

lemma tesla_rx_frame: "rx_frame (tesla_rx_hook p s) = rx_frame s"
  by (simp only: tesla_rx_hook_def frame_simps let_values if_cancel)

lemma tesla_rx_relay: "relay_malfunction s \<Longrightarrow> relay_malfunction (tesla_rx_hook p s)"
  unfolding tesla_rx_hook_def let_values let_floats by (intro relay_intros) simp_all

lemma tesla_tx_frame: "tx_frame (snd (tesla_tx_hook p s)) = tx_frame s"
  by (simp only: tesla_tx_hook_def frame_simps let_values if_cancel)

lemma tesla_fwd: "0 \<le> b \<Longrightarrow> tesla_fwd_hook s b a \<in> {- 1, 0, 1, 2} \<and> tesla_fwd_hook s b a \<noteq> b"
  by (auto simp: tesla_fwd_hook_def Let_def)

lemma tesla_gated:
  assumes "fst (tesla_tx_hook p s)" and "tesla_actuates p s"
  shows "controls_allowed s"
proof (rule ccontr)
  assume n: "\<not> controls_allowed s"
  from assms(2) consider "\<not> tesla_powertrain s" "GET_ADDR p = 0x488"
    | "tesla_powertrain s" "GET_ADDR p = 0x2bf" | "\<not> tesla_powertrain s" "GET_ADDR p = 0x2b9"
    by (auto simp: tesla_actuates_def split: if_splits)
  then show False using assms n
    by cases (simp_all add: tesla_tx_hook_def tesla_actuates_def Let_def case_prod_beta gate_simps
        TESLA_LONG_LIMITS_def split: if_splits)
qed

lemma tesla_init_ok:
  "config_ok (fst (tesla_init prm s))" "config_of (snd (tesla_init prm s)) = config_of s"
  by (simp_all add: tesla_init_def Let_def tesla_pt_rx_checks_def tesla_raven_rx_checks_def
      tesla_rx_checks_def config_of_def)

interpretation tesla: safety_mode tesla_hooks tesla_actuates
  by unfold_locales
    (simp_all add: tesla_hooks_def tesla_rx_frame tesla_rx_relay tesla_tx_frame tesla_fwd
      tesla_gated tesla_init_ok del: insert_iff)

end
