(* ===== verification/Mode_Subaru.thy ===== *)
theory Mode_Subaru
  imports Mode_Contract
begin

text \<open>The Subaru modes: the global platform, \<^verbatim>\<open>board/safety/safety_subaru.h\<close>, and the
  one before it, \<^verbatim>\<open>board/safety/safety_subaru_preglobal.h\<close>.\<close>

section \<open>Global platform: configuration\<close>

definition SUBARU_STEERING_LIMITS_GENERATOR :: "int \<Rightarrow> int \<Rightarrow> int \<Rightarrow> SteeringLimits" where
  "SUBARU_STEERING_LIMITS_GENERATOR steer_max rate_up rate_down = SteeringLimits_0
     \<lparr>max_steer := steer_max, max_rt_delta := 940, max_rt_interval := 250000,
      max_rate_up := rate_up, max_rate_down := rate_down, driver_torque_factor := 50,
      driver_torque_allowance := 60, sl_type := TorqueDriverLimited,
      min_valid_request_frames := 7, max_invalid_request_frames := 1,
      min_valid_request_rt_interval := 144000, has_steer_req_tolerance := True\<rparr>"

abbreviation (input) MSG_SUBARU_Brake_Status :: int where "MSG_SUBARU_Brake_Status \<equiv> 0x13c"
abbreviation (input) MSG_SUBARU_CruiseControl :: int where "MSG_SUBARU_CruiseControl \<equiv> 0x240"
abbreviation (input) MSG_SUBARU_Throttle :: int where "MSG_SUBARU_Throttle \<equiv> 0x40"
abbreviation (input) MSG_SUBARU_Steering_Torque :: int where "MSG_SUBARU_Steering_Torque \<equiv> 0x119"
abbreviation (input) MSG_SUBARU_Wheel_Speeds :: int where "MSG_SUBARU_Wheel_Speeds \<equiv> 0x13a"
abbreviation (input) MSG_SUBARU_ES_LKAS :: int where "MSG_SUBARU_ES_LKAS \<equiv> 0x122"
abbreviation (input) MSG_SUBARU_ES_Brake :: int where "MSG_SUBARU_ES_Brake \<equiv> 0x220"
abbreviation (input) MSG_SUBARU_ES_Distance :: int where "MSG_SUBARU_ES_Distance \<equiv> 0x221"
abbreviation (input) MSG_SUBARU_ES_Status :: int where "MSG_SUBARU_ES_Status \<equiv> 0x222"
abbreviation (input) MSG_SUBARU_ES_DashStatus :: int where "MSG_SUBARU_ES_DashStatus \<equiv> 0x321"
abbreviation (input) MSG_SUBARU_ES_LKAS_State :: int where "MSG_SUBARU_ES_LKAS_State \<equiv> 0x322"
abbreviation (input) MSG_SUBARU_ES_Infotainment :: int where "MSG_SUBARU_ES_Infotainment \<equiv> 0x323"
abbreviation (input) MSG_SUBARU_ES_UDS_Request :: int where "MSG_SUBARU_ES_UDS_Request \<equiv> 0x787"
abbreviation (input) MSG_SUBARU_ES_HighBeamAssist :: int where "MSG_SUBARU_ES_HighBeamAssist \<equiv> 0x121"
abbreviation (input) MSG_SUBARU_ES_STATIC_1 :: int where "MSG_SUBARU_ES_STATIC_1 \<equiv> 0x22a"
abbreviation (input) MSG_SUBARU_ES_STATIC_2 :: int where "MSG_SUBARU_ES_STATIC_2 \<equiv> 0x325"
abbreviation (input) SUBARU_MAIN_BUS :: int where "SUBARU_MAIN_BUS \<equiv> 0"
abbreviation (input) SUBARU_ALT_BUS :: int where "SUBARU_ALT_BUS \<equiv> 1"
abbreviation (input) SUBARU_CAM_BUS :: int where "SUBARU_CAM_BUS \<equiv> 2"

definition SUBARU_COMMON_TX_MSGS :: "int \<Rightarrow> int \<Rightarrow> CanMsg list" where
  "SUBARU_COMMON_TX_MSGS alt_bus lkas_msg =
     [MSG lkas_msg SUBARU_MAIN_BUS 8, MSG MSG_SUBARU_ES_Distance alt_bus 8,
      MSG MSG_SUBARU_ES_DashStatus SUBARU_MAIN_BUS 8, MSG MSG_SUBARU_ES_LKAS_State SUBARU_MAIN_BUS 8,
      MSG MSG_SUBARU_ES_Infotainment SUBARU_MAIN_BUS 8]"

definition SUBARU_COMMON_LONG_TX_MSGS :: "int \<Rightarrow> CanMsg list" where
  "SUBARU_COMMON_LONG_TX_MSGS alt_bus =
     [MSG MSG_SUBARU_ES_Brake alt_bus 8, MSG MSG_SUBARU_ES_Status alt_bus 8]"

definition SUBARU_GEN2_LONG_ADDITIONAL_TX_MSGS :: "CanMsg list" where
  "SUBARU_GEN2_LONG_ADDITIONAL_TX_MSGS =
     [MSG MSG_SUBARU_ES_UDS_Request SUBARU_CAM_BUS 8, MSG MSG_SUBARU_ES_HighBeamAssist SUBARU_MAIN_BUS 8,
      MSG MSG_SUBARU_ES_STATIC_1 SUBARU_MAIN_BUS 8, MSG MSG_SUBARU_ES_STATIC_2 SUBARU_MAIN_BUS 8]"

definition SUBARU_CHK :: "int \<Rightarrow> int \<Rightarrow> u32 \<Rightarrow> RxCheck" where
  "SUBARU_CHK a b f = RX [(CHK a b 8 f)\<lparr>check_checksum := True, max_counter := 15\<rparr>]"

definition SUBARU_COMMON_RX_CHECKS :: "int \<Rightarrow> RxCheck list" where
  "SUBARU_COMMON_RX_CHECKS alt_bus =
     [SUBARU_CHK MSG_SUBARU_Throttle SUBARU_MAIN_BUS 100,
      SUBARU_CHK MSG_SUBARU_Steering_Torque SUBARU_MAIN_BUS 50,
      SUBARU_CHK MSG_SUBARU_Wheel_Speeds alt_bus 50,
      SUBARU_CHK MSG_SUBARU_Brake_Status alt_bus 50,
      SUBARU_CHK MSG_SUBARU_CruiseControl alt_bus 20]"

section \<open>Global platform: checksum and counter\<close>

definition subaru_get_checksum :: "CANPacket_t \<Rightarrow> u32" where
  "subaru_get_checksum to_push = ucast (GET_BYTE to_push 0)"

definition subaru_get_counter :: "CANPacket_t \<Rightarrow> u8" where
  "subaru_get_counter to_push = GET_BYTE to_push 1 AND 0xF"

fun subaru_checksum_loop :: "CANPacket_t \<Rightarrow> nat \<Rightarrow> nat \<Rightarrow> u8 \<Rightarrow> u8" where
  "subaru_checksum_loop p i 0 checksum = checksum"
| "subaru_checksum_loop p i (Suc n) checksum =
     subaru_checksum_loop p (Suc i) n (checksum + GET_BYTE p i)"

definition subaru_compute_checksum :: "'a st \<Rightarrow> CANPacket_t \<Rightarrow> u32" where
  "subaru_compute_checksum s to_push =
     (let addr = GET_ADDR to_push;
          len = GET_LEN to_push;
          checksum = word_of_int addr + word_of_int (drop_bit 8 addr);
          checksum = subaru_checksum_loop to_push 1 (len - 1) checksum
      in ucast checksum)"

section \<open>Global platform: hooks\<close>

definition subaru_rx_hook :: "CANPacket_t \<Rightarrow> 'a st \<Rightarrow> 'a st" where
  "subaru_rx_hook to_push s =
     (let bus = GET_BUS to_push;
          alt_main_bus = (if subaru_gen2 s then SUBARU_ALT_BUS else SUBARU_MAIN_BUS);
          addr = GET_ADDR to_push;
          s = (if addr = MSG_SUBARU_Steering_Torque \<and> bus = SUBARU_MAIN_BUS then
                 let torque_driver_new = uint (drop_bit 16 (GET_BYTES to_push 0 4) AND 0x7FF);
                     torque_driver_new = - 1 * to_signed torque_driver_new 11;
                     s = s\<lparr>torque_driver := update_sample (torque_driver s) torque_driver_new\<rparr>;
                     angle_meas_new = uint (GET_BYTES to_push 4 2 AND 0xFFFF);
                     angle_meas_new = ROUND (fl (float_of_int (to_signed angle_meas_new 16) * fl (- 217 / 100)))
                 in s\<lparr>angle_meas := update_sample (angle_meas s) angle_meas_new\<rparr>
               else s);
          s = (if addr = MSG_SUBARU_CruiseControl \<and> bus = alt_main_bus then
                 let cruise_engaged = GET_BIT to_push 41
                 in pcm_cruise_check cruise_engaged s
               else s);
          s = (if addr = MSG_SUBARU_Wheel_Speeds \<and> bus = alt_main_bus then
                 let fr_w = drop_bit 4 (GET_BYTES to_push 1 3) AND 0x1FFF;
                     rr_w = drop_bit 1 (GET_BYTES to_push 3 3) AND 0x1FFF;
                     rl_w = drop_bit 6 (GET_BYTES to_push 4 3) AND 0x1FFF;
                     fl_w = drop_bit 3 (GET_BYTES to_push 6 2) AND 0x1FFF;
                     s = s\<lparr>vehicle_moving := fr_w > 0 \<or> rr_w > 0 \<or> rl_w > 0 \<or> fl_w > 0\<rparr>
                 in UPDATE_VEHICLE_SPEED
                      (fl (float_of_int (uint ((fr_w + rr_w + rl_w + fl_w) div 4)) * fl (57 / 1000))) s
               else s);
          s = (if addr = MSG_SUBARU_Brake_Status \<and> bus = alt_main_bus
               then s\<lparr>brake_pressed := GET_BIT to_push 62\<rparr> else s);
          s = (if addr = MSG_SUBARU_Throttle \<and> bus = SUBARU_MAIN_BUS
               then s\<lparr>gas_pressed := GET_BYTE to_push 4 \<noteq> 0\<rparr> else s)
      in generic_rx_checks (addr = MSG_SUBARU_ES_LKAS \<and> bus = SUBARU_MAIN_BUS) s)"

definition SUBARU_STEERING_LIMITS :: SteeringLimits where
  "SUBARU_STEERING_LIMITS = SUBARU_STEERING_LIMITS_GENERATOR 2047 50 70"

definition SUBARU_GEN2_STEERING_LIMITS :: SteeringLimits where
  "SUBARU_GEN2_STEERING_LIMITS = SUBARU_STEERING_LIMITS_GENERATOR 1000 40 40"

definition SUBARU_LONG_LIMITS :: LongitudinalLimits where
  "SUBARU_LONG_LIMITS = LongitudinalLimits_0
     \<lparr>min_gas := 808, max_gas := 3400, inactive_gas := 1818, max_brake := 600,
      min_transmission_rpm := 0, max_transmission_rpm := 3600\<rparr>"

definition subaru_tx_hook :: "CANPacket_t \<Rightarrow> 'a st \<Rightarrow> bool \<times> 'a st" where
  "subaru_tx_hook to_send s =
     (let tx = True;
          addr = GET_ADDR to_send;
          violation = False;
          (violation, s) = (if addr = MSG_SUBARU_ES_LKAS then
                  let desired_torque = uint (drop_bit 16 (GET_BYTES to_send 0 4) AND 0x1FFF);
                      desired_torque = - 1 * to_signed desired_torque 13;
                      steer_req = GET_BIT to_send 29;
                      (v, s) = steer_torque_cmd_checks desired_torque (int_of_bool steer_req)
                        (if subaru_gen2 s then SUBARU_GEN2_STEERING_LIMITS else SUBARU_STEERING_LIMITS) s
                  in (violation \<or> v, s)
                else (violation, s));
          violation = (if addr = MSG_SUBARU_ES_Brake then
                  let es_brake_pressure = uint (GET_BYTES to_send 2 2)
                  in violation \<or> longitudinal_brake_checks es_brake_pressure SUBARU_LONG_LIMITS s
                else violation);
          violation = (if addr = MSG_SUBARU_ES_Distance then
                  let cruise_throttle = uint (GET_BYTES to_send 2 2 AND 0x1FFF);
                      cruise_cancel = GET_BIT to_send 56
                  in if subaru_longitudinal s
                     then violation \<or> longitudinal_gas_checks cruise_throttle SUBARU_LONG_LIMITS s
                     else violation \<or> cruise_throttle \<noteq> inactive_gas SUBARU_LONG_LIMITS \<or> \<not> cruise_cancel
                else violation);
          violation = (if addr = MSG_SUBARU_ES_Status then
                  let transmission_rpm = uint (GET_BYTES to_send 2 2 AND 0x1FFF)
                  in violation \<or> longitudinal_transmission_rpm_checks transmission_rpm SUBARU_LONG_LIMITS s
                else violation);
          violation = (if addr = MSG_SUBARU_ES_UDS_Request then
                  let is_tester_present = (GET_BYTES to_send 0 4 = 0x00803E02 \<and> GET_BYTES to_send 4 4 = 0);
                      is_button_rdbi = (GET_BYTES to_send 0 4 = 0x30112203 \<and> GET_BYTES to_send 4 4 = 0)
                  in violation \<or> \<not> (is_tester_present \<or> is_button_rdbi)
                else violation);
          tx = (if violation then False else tx)
      in (tx, s))"

definition subaru_fwd_hook :: "'a st \<Rightarrow> int \<Rightarrow> int \<Rightarrow> int" where
  "subaru_fwd_hook s bus_num addr =
     (let bus_fwd = - 1;
          bus_fwd = (if bus_num = SUBARU_MAIN_BUS then SUBARU_CAM_BUS else bus_fwd)
      in if bus_num = SUBARU_CAM_BUS then
           let block_lkas = (addr = MSG_SUBARU_ES_LKAS \<or> addr = MSG_SUBARU_ES_DashStatus \<or>
                             addr = MSG_SUBARU_ES_LKAS_State \<or> addr = MSG_SUBARU_ES_Infotainment);
               block_long = (addr = MSG_SUBARU_ES_Brake \<or> addr = MSG_SUBARU_ES_Distance \<or>
                             addr = MSG_SUBARU_ES_Status);
               block_msg = (block_lkas \<or> subaru_longitudinal s \<and> block_long)
           in if \<not> block_msg then SUBARU_MAIN_BUS else bus_fwd
         else bus_fwd)"

definition SUBARU_TX_MSGS :: "CanMsg list" where
  "SUBARU_TX_MSGS = SUBARU_COMMON_TX_MSGS SUBARU_MAIN_BUS MSG_SUBARU_ES_LKAS"

definition SUBARU_LONG_TX_MSGS :: "CanMsg list" where
  "SUBARU_LONG_TX_MSGS = SUBARU_COMMON_TX_MSGS SUBARU_MAIN_BUS MSG_SUBARU_ES_LKAS @
     SUBARU_COMMON_LONG_TX_MSGS SUBARU_MAIN_BUS"

definition SUBARU_GEN2_TX_MSGS :: "CanMsg list" where
  "SUBARU_GEN2_TX_MSGS = SUBARU_COMMON_TX_MSGS SUBARU_ALT_BUS MSG_SUBARU_ES_LKAS"

definition SUBARU_GEN2_LONG_TX_MSGS :: "CanMsg list" where
  "SUBARU_GEN2_LONG_TX_MSGS = SUBARU_COMMON_TX_MSGS SUBARU_ALT_BUS MSG_SUBARU_ES_LKAS @
     SUBARU_COMMON_LONG_TX_MSGS SUBARU_ALT_BUS @ SUBARU_GEN2_LONG_ADDITIONAL_TX_MSGS"

definition subaru_init :: "build_flags \<Rightarrow> u16 \<Rightarrow> 'a st \<Rightarrow> safety_config \<times> 'a st" where
  "subaru_init build param s =
     (let SUBARU_PARAM_GEN2 = 1;
          s = s\<lparr>subaru_gen2 := GET_FLAG param SUBARU_PARAM_GEN2\<rparr>;
          SUBARU_PARAM_LONGITUDINAL = 2;
          s = (if ALLOW_DEBUG build
               then s\<lparr>subaru_longitudinal := GET_FLAG param SUBARU_PARAM_LONGITUDINAL\<rparr> else s);
          ret = (if subaru_gen2 s
                 then if subaru_longitudinal s
                      then BUILD_SAFETY_CFG (SUBARU_COMMON_RX_CHECKS SUBARU_ALT_BUS) SUBARU_GEN2_LONG_TX_MSGS
                      else BUILD_SAFETY_CFG (SUBARU_COMMON_RX_CHECKS SUBARU_ALT_BUS) SUBARU_GEN2_TX_MSGS
                 else if subaru_longitudinal s
                      then BUILD_SAFETY_CFG (SUBARU_COMMON_RX_CHECKS SUBARU_MAIN_BUS) SUBARU_LONG_TX_MSGS
                      else BUILD_SAFETY_CFG (SUBARU_COMMON_RX_CHECKS SUBARU_MAIN_BUS) SUBARU_TX_MSGS)
      in (ret, s))"

definition subaru_hooks :: "build_flags \<Rightarrow> 'a st safety_hooks" where
  "subaru_hooks build = \<lparr>h_init = subaru_init build, h_rx = subaru_rx_hook, h_tx = subaru_tx_hook,
     h_fwd = subaru_fwd_hook, h_get_checksum = Some subaru_get_checksum,
     h_compute_checksum = Some subaru_compute_checksum, h_get_counter = Some subaru_get_counter,
     h_get_quality_flag_valid = None\<rparr>"

section \<open>Preglobal platform\<close>

abbreviation (input) MSG_SUBARU_PG_CruiseControl :: int where "MSG_SUBARU_PG_CruiseControl \<equiv> 0x144"
abbreviation (input) MSG_SUBARU_PG_Throttle :: int where "MSG_SUBARU_PG_Throttle \<equiv> 0x140"
abbreviation (input) MSG_SUBARU_PG_Wheel_Speeds :: int where "MSG_SUBARU_PG_Wheel_Speeds \<equiv> 0xD4"
abbreviation (input) MSG_SUBARU_PG_Brake_Pedal :: int where "MSG_SUBARU_PG_Brake_Pedal \<equiv> 0xD1"
abbreviation (input) MSG_SUBARU_PG_ES_LKAS :: int where "MSG_SUBARU_PG_ES_LKAS \<equiv> 0x164"
abbreviation (input) MSG_SUBARU_PG_ES_Distance :: int where "MSG_SUBARU_PG_ES_Distance \<equiv> 0x161"
abbreviation (input) MSG_SUBARU_PG_Steering_Torque :: int where "MSG_SUBARU_PG_Steering_Torque \<equiv> 0x371"
abbreviation (input) SUBARU_PG_MAIN_BUS :: int where "SUBARU_PG_MAIN_BUS \<equiv> 0"
abbreviation (input) SUBARU_PG_CAM_BUS :: int where "SUBARU_PG_CAM_BUS \<equiv> 2"

definition subaru_preglobal_rx_hook :: "CANPacket_t \<Rightarrow> 'a st \<Rightarrow> 'a st" where
  "subaru_preglobal_rx_hook to_push s =
     (let bus = GET_BUS to_push
      in if bus = SUBARU_PG_MAIN_BUS then
        let addr = GET_ADDR to_push;
            s = (if addr = MSG_SUBARU_PG_Steering_Torque then
                   let torque_driver_new = drop_bit 5 (BYTE to_push 3) + push_bit 3 (BYTE to_push 4);
                       torque_driver_new = to_signed torque_driver_new 11;
                       torque_driver_new = (if subaru_pg_reversed_driver_torque s
                                            then - torque_driver_new else torque_driver_new)
                   in s\<lparr>torque_driver := update_sample (torque_driver s) torque_driver_new\<rparr>
                 else s);
            s = (if addr = MSG_SUBARU_PG_CruiseControl then
                   let cruise_engaged = GET_BIT to_push 49
                   in pcm_cruise_check cruise_engaged s
                 else s);
            s = (if addr = MSG_SUBARU_PG_Wheel_Speeds
                 then s\<lparr>vehicle_moving := drop_bit 12 (GET_BYTES to_push 0 4) \<noteq> 0 \<or> GET_BYTES to_push 4 4 \<noteq> 0\<rparr>
                 else s);
            s = (if addr = MSG_SUBARU_PG_Brake_Pedal
                 then s\<lparr>brake_pressed := drop_bit 16 (GET_BYTES to_push 0 4) AND 0xFF > 0\<rparr> else s);
            s = (if addr = MSG_SUBARU_PG_Throttle
                 then s\<lparr>gas_pressed := GET_BYTE to_push 0 \<noteq> 0\<rparr> else s)
        in generic_rx_checks (addr = MSG_SUBARU_PG_ES_LKAS) s
      else s)"

definition SUBARU_PG_STEERING_LIMITS :: SteeringLimits where
  "SUBARU_PG_STEERING_LIMITS = SteeringLimits_0
     \<lparr>max_steer := 2047, max_rt_delta := 940, max_rt_interval := 250000, max_rate_up := 50,
      max_rate_down := 70, driver_torque_factor := 10, driver_torque_allowance := 75,
      sl_type := TorqueDriverLimited\<rparr>"

definition subaru_preglobal_tx_hook :: "CANPacket_t \<Rightarrow> 'a st \<Rightarrow> bool \<times> 'a st" where
  "subaru_preglobal_tx_hook to_send s =
     (let tx = True;
          addr = GET_ADDR to_send;
          (tx, s) = (if addr = MSG_SUBARU_PG_ES_LKAS then
                  let desired_torque = uint (drop_bit 8 (GET_BYTES to_send 0 4) AND 0x1FFF);
                      desired_torque = - 1 * to_signed desired_torque 13;
                      steer_req = GET_BIT to_send 24;
                      (violation, s) = steer_torque_cmd_checks desired_torque (int_of_bool steer_req)
                                         SUBARU_PG_STEERING_LIMITS s
                  in (if violation then False else tx, s)
                else (tx, s))
      in (tx, s))"

definition subaru_preglobal_fwd_hook :: "'a st \<Rightarrow> int \<Rightarrow> int \<Rightarrow> int" where
  "subaru_preglobal_fwd_hook s bus_num addr =
     (let bus_fwd = - 1;
          bus_fwd = (if bus_num = SUBARU_PG_MAIN_BUS then SUBARU_PG_CAM_BUS else bus_fwd)
      in if bus_num = SUBARU_PG_CAM_BUS then
           let block_msg = (addr = MSG_SUBARU_PG_ES_Distance \<or> addr = MSG_SUBARU_PG_ES_LKAS)
           in if \<not> block_msg then SUBARU_PG_MAIN_BUS else bus_fwd
         else bus_fwd)"

definition SUBARU_PG_TX_MSGS :: "CanMsg list" where
  "SUBARU_PG_TX_MSGS = [MSG MSG_SUBARU_PG_ES_Distance SUBARU_PG_MAIN_BUS 8,
     MSG MSG_SUBARU_PG_ES_LKAS SUBARU_PG_MAIN_BUS 8]"

definition subaru_preglobal_rx_checks :: "RxCheck list" where
  "subaru_preglobal_rx_checks =
     [RX [CHK MSG_SUBARU_PG_Throttle SUBARU_PG_MAIN_BUS 8 100],
      RX [CHK MSG_SUBARU_PG_Steering_Torque SUBARU_PG_MAIN_BUS 8 50],
      RX [CHK MSG_SUBARU_PG_CruiseControl SUBARU_PG_MAIN_BUS 8 20]]"

definition subaru_preglobal_init :: "u16 \<Rightarrow> 'a st \<Rightarrow> safety_config \<times> 'a st" where
  "subaru_preglobal_init param s =
     (let SUBARU_PG_PARAM_REVERSED_DRIVER_TORQUE = 1;
          s = s\<lparr>subaru_pg_reversed_driver_torque :=
                  GET_FLAG (ucast param :: u32) SUBARU_PG_PARAM_REVERSED_DRIVER_TORQUE\<rparr>
      in (BUILD_SAFETY_CFG subaru_preglobal_rx_checks SUBARU_PG_TX_MSGS, s))"

definition subaru_preglobal_hooks :: "'a st safety_hooks" where
  "subaru_preglobal_hooks = \<lparr>h_init = subaru_preglobal_init, h_rx = subaru_preglobal_rx_hook,
     h_tx = subaru_preglobal_tx_hook, h_fwd = subaru_preglobal_fwd_hook, h_get_checksum = None,
     h_compute_checksum = None, h_get_counter = None, h_get_quality_flag_valid = None\<rparr>"

section \<open>The contract\<close>

text \<open>A torque, a brake pressure, a throttle other than the inactive one, a transmission speed.\<close>

definition subaru_actuates :: "CANPacket_t \<Rightarrow> 'a st \<Rightarrow> bool" where
  "subaru_actuates p s \<longleftrightarrow>
     GET_ADDR p = MSG_SUBARU_ES_LKAS \<and> drop_bit 16 (GET_BYTES p 0 4) AND 0x1FFF \<noteq> 0 \<or>
     GET_ADDR p = MSG_SUBARU_ES_Brake \<and> GET_BYTES p 2 2 \<noteq> 0 \<or>
     GET_ADDR p = MSG_SUBARU_ES_Distance \<and> uint (GET_BYTES p 2 2 AND 0x1FFF) \<noteq> 1818 \<or>
     GET_ADDR p = MSG_SUBARU_ES_Status \<and> uint (GET_BYTES p 2 2 AND 0x1FFF) \<noteq> 0"

definition subaru_preglobal_actuates :: "CANPacket_t \<Rightarrow> 'a st \<Rightarrow> bool" where
  "subaru_preglobal_actuates p s \<longleftrightarrow>
     GET_ADDR p = MSG_SUBARU_PG_ES_LKAS \<and> drop_bit 8 (GET_BYTES p 0 4) AND 0x1FFF \<noteq> 0"

lemma subaru_rx_frame: "rx_frame (subaru_rx_hook p s) = rx_frame s"
  by (simp only: subaru_rx_hook_def frame_simps let_values if_cancel)

lemma subaru_preglobal_rx_frame: "rx_frame (subaru_preglobal_rx_hook p s) = rx_frame s"
  by (simp only: subaru_preglobal_rx_hook_def frame_simps let_values if_cancel)

lemma subaru_rx_relay: "relay_malfunction s \<Longrightarrow> relay_malfunction (subaru_rx_hook p s)"
  unfolding subaru_rx_hook_def let_values by (intro relay_intros) simp_all

lemma subaru_preglobal_rx_relay:
  "relay_malfunction s \<Longrightarrow> relay_malfunction (subaru_preglobal_rx_hook p s)"
  unfolding subaru_preglobal_rx_hook_def let_values by (intro relay_intros) simp_all

lemma subaru_tx_frame:
  "tx_frame (snd (subaru_tx_hook p s)) = tx_frame s"
  "tx_frame (snd (subaru_preglobal_tx_hook p s)) = tx_frame s"
  by (simp_all only: subaru_tx_hook_def subaru_preglobal_tx_hook_def frame_simps let_values if_cancel)

lemma subaru_fwd:
  "0 \<le> b \<Longrightarrow> subaru_fwd_hook s b a \<in> {- 1, 0, 1, 2} \<and> subaru_fwd_hook s b a \<noteq> b"
  "0 \<le> b \<Longrightarrow> subaru_preglobal_fwd_hook s b a \<in> {- 1, 0, 1, 2} \<and> subaru_preglobal_fwd_hook s b a \<noteq> b"
  by (auto simp: subaru_fwd_hook_def subaru_preglobal_fwd_hook_def Let_def)

lemma to_signed_13_eq_0: "to_signed (uint (w AND 0x1FFF :: u32)) 13 = 0 \<longleftrightarrow> w AND 0x1FFF = 0"
proof -
  have "uint (w AND 0x1FFF) = uint w mod 8192" by (simp add: uint_and and_mod)
  then have "uint (w AND 0x1FFF) < 2 ^ Suc 12" by simp
  then show ?thesis using to_signed_eq_0 [of "uint (w AND 0x1FFF)" 12] by (simp add: uint_0_iff)
qed

lemma subaru_gated:
  assumes "fst (subaru_tx_hook p s)" and "subaru_actuates p s"
  shows "controls_allowed s"
proof (rule ccontr)
  assume n: "\<not> controls_allowed s"
  from assms(2) consider "GET_ADDR p = MSG_SUBARU_ES_LKAS" | "GET_ADDR p = MSG_SUBARU_ES_Brake"
    | "GET_ADDR p = MSG_SUBARU_ES_Distance" | "GET_ADDR p = MSG_SUBARU_ES_Status"
    by (auto simp: subaru_actuates_def)
  then show False using assms n
    by cases (simp_all add: subaru_tx_hook_def subaru_actuates_def Let_def case_prod_beta gate_simps
        to_signed_13_eq_0 uint_0_iff SUBARU_LONG_LIMITS_def LongitudinalLimits_0_def split: if_splits)
qed

lemma subaru_preglobal_gated:
  assumes "fst (subaru_preglobal_tx_hook p s)" and "subaru_preglobal_actuates p s"
  shows "controls_allowed s"
proof (rule ccontr)
  assume n: "\<not> controls_allowed s"
  then show False using assms
    by (simp add: subaru_preglobal_tx_hook_def subaru_preglobal_actuates_def Let_def case_prod_beta
        gate_simps to_signed_13_eq_0)
qed

lemma subaru_init_ok:
  "config_ok (fst (subaru_init b prm s))" "config_of (snd (subaru_init b prm s)) = config_of s"
  "config_ok (fst (subaru_preglobal_init prm s))"
  "config_of (snd (subaru_preglobal_init prm s)) = config_of s"
  by (simp_all add: subaru_init_def subaru_preglobal_init_def Let_def SUBARU_COMMON_RX_CHECKS_def
      SUBARU_CHK_def subaru_preglobal_rx_checks_def config_of_def)

interpretation subaru: safety_mode "subaru_hooks b" subaru_actuates
  by unfold_locales
    (simp_all add: subaru_hooks_def subaru_rx_frame subaru_rx_relay subaru_tx_frame subaru_fwd
      subaru_gated subaru_init_ok del: insert_iff)

interpretation subaru_preglobal: safety_mode subaru_preglobal_hooks subaru_preglobal_actuates
  by unfold_locales
    (simp_all add: subaru_preglobal_hooks_def subaru_preglobal_rx_frame subaru_preglobal_rx_relay
      subaru_tx_frame subaru_fwd subaru_preglobal_gated subaru_init_ok del: insert_iff)

end
