(* ===== verification/Mode_Mazda.thy ===== *)
theory Mode_Mazda
  imports Mode_Contract
begin

text \<open>The Mazda mode, \<^verbatim>\<open>board/safety/safety_mazda.h\<close>.\<close>

abbreviation (input) MAZDA_LKAS :: int where "MAZDA_LKAS \<equiv> 0x243"
abbreviation (input) MAZDA_LKAS_HUD :: int where "MAZDA_LKAS_HUD \<equiv> 0x440"
abbreviation (input) MAZDA_CRZ_CTRL :: int where "MAZDA_CRZ_CTRL \<equiv> 0x21c"
abbreviation (input) MAZDA_CRZ_BTNS :: int where "MAZDA_CRZ_BTNS \<equiv> 0x09d"
abbreviation (input) MAZDA_STEER_TORQUE :: int where "MAZDA_STEER_TORQUE \<equiv> 0x240"
abbreviation (input) MAZDA_ENGINE_DATA :: int where "MAZDA_ENGINE_DATA \<equiv> 0x202"
abbreviation (input) MAZDA_PEDALS :: int where "MAZDA_PEDALS \<equiv> 0x165"
abbreviation (input) MAZDA_MAIN :: int where "MAZDA_MAIN \<equiv> 0"
abbreviation (input) MAZDA_CAM :: int where "MAZDA_CAM \<equiv> 2"

definition mazda_rx_hook :: "CANPacket_t \<Rightarrow> 'a st \<Rightarrow> 'a st" where
  "mazda_rx_hook to_push s =
     (if GET_BUS to_push = MAZDA_MAIN then
        let addr = GET_ADDR to_push;
            s = (if addr = MAZDA_ENGINE_DATA then
                   let speed = push_bit 8 (BYTE to_push 2) OR BYTE to_push 3
                   in s\<lparr>vehicle_moving := speed > 10\<rparr>
                 else s);
            s = (if addr = MAZDA_STEER_TORQUE then
                   let torque_driver_new = sint (word_of_int (BYTE to_push 0) - 127 :: u32)
                   in s\<lparr>torque_driver := update_sample (torque_driver s) torque_driver_new\<rparr>
                 else s);
            s = (if addr = MAZDA_CRZ_CTRL then
                   let cruise_engaged = (GET_BYTE to_push 0 AND 0x8 \<noteq> 0)
                   in pcm_cruise_check cruise_engaged s
                 else s);
            s = (if addr = MAZDA_ENGINE_DATA
                 then s\<lparr>gas_pressed := GET_BYTE to_push 4 \<noteq> 0 \<or> GET_BYTE to_push 5 AND 0xF0 \<noteq> 0\<rparr> else s);
            s = (if addr = MAZDA_PEDALS
                 then s\<lparr>brake_pressed := GET_BYTE to_push 0 AND 0x10 \<noteq> 0\<rparr> else s)
        in generic_rx_checks (addr = MAZDA_LKAS) s
      else s)"

definition MAZDA_STEERING_LIMITS :: SteeringLimits where
  "MAZDA_STEERING_LIMITS = SteeringLimits_0
     \<lparr>max_steer := 800, max_rate_up := 10, max_rate_down := 25, max_rt_delta := 300,
      max_rt_interval := 250000, driver_torque_factor := 1, driver_torque_allowance := 15,
      sl_type := TorqueDriverLimited\<rparr>"

definition mazda_tx_hook :: "CANPacket_t \<Rightarrow> 'a st \<Rightarrow> bool \<times> 'a st" where
  "mazda_tx_hook to_send s =
     (let tx = True;
          bus = GET_BUS to_send
      in if bus = MAZDA_MAIN then
        let addr = GET_ADDR to_send;
            (tx, s) = (if addr = MAZDA_LKAS then
                  let desired_torque = sint (word_of_int
                        (push_bit 8 (BYTE to_send 0 AND 0x0F) OR BYTE to_send 1) - 2048 :: u32);
                      (violation, s) = steer_torque_cmd_checks desired_torque (- 1) MAZDA_STEERING_LIMITS s
                  in (if violation then False else tx, s)
                else (tx, s));
            tx = (if addr = MAZDA_CRZ_BTNS then
                  let cancel_cmd = (GET_BYTE to_send 0 = 0x1)
                  in if \<not> controls_allowed s \<and> \<not> cancel_cmd then False else tx
                else tx)
        in (tx, s)
      else (tx, s))"

definition mazda_fwd_hook :: "'a st \<Rightarrow> int \<Rightarrow> int \<Rightarrow> int" where
  "mazda_fwd_hook s bus addr =
     (let bus_fwd = - 1
      in if bus = MAZDA_MAIN then MAZDA_CAM
         else if bus = MAZDA_CAM then
           let block = (addr = MAZDA_LKAS \<or> addr = MAZDA_LKAS_HUD)
           in if \<not> block then MAZDA_MAIN else bus_fwd
         else bus_fwd)"

definition MAZDA_TX_MSGS :: "CanMsg list" where
  "MAZDA_TX_MSGS = [MSG MAZDA_LKAS 0 8, MSG MAZDA_CRZ_BTNS 0 8, MSG MAZDA_LKAS_HUD 0 8]"

definition mazda_rx_checks :: "RxCheck list" where
  "mazda_rx_checks =
     [RX [CHK MAZDA_CRZ_CTRL 0 8 50], RX [CHK MAZDA_CRZ_BTNS 0 8 10], RX [CHK MAZDA_STEER_TORQUE 0 8 83],
      RX [CHK MAZDA_ENGINE_DATA 0 8 100], RX [CHK MAZDA_PEDALS 0 8 50]]"

definition mazda_init :: "u16 \<Rightarrow> 'a st \<Rightarrow> safety_config \<times> 'a st" where
  "mazda_init param s = (BUILD_SAFETY_CFG mazda_rx_checks MAZDA_TX_MSGS, s)"

definition mazda_hooks :: "'a st safety_hooks" where
  "mazda_hooks = \<lparr>h_init = mazda_init, h_rx = mazda_rx_hook, h_tx = mazda_tx_hook,
     h_fwd = mazda_fwd_hook, h_get_checksum = None, h_compute_checksum = None,
     h_get_counter = None, h_get_quality_flag_valid = None\<rparr>"

section \<open>The contract\<close>

text \<open>A torque other than zero, whose raw value is 2048, and any button but cancel.\<close>

definition mazda_actuates :: "CANPacket_t \<Rightarrow> 'a st \<Rightarrow> bool" where
  "mazda_actuates p s \<longleftrightarrow> GET_BUS p = MAZDA_MAIN \<and>
     (GET_ADDR p = MAZDA_LKAS \<and> 256 * (BYTE p 0 mod 16) + BYTE p 1 \<noteq> 2048 \<or>
      GET_ADDR p = MAZDA_CRZ_BTNS \<and> GET_BYTE p 0 \<noteq> 1)"

lemma mazda_rx_frame: "rx_frame (mazda_rx_hook p s) = rx_frame s"
  by (simp only: mazda_rx_hook_def frame_simps let_values if_cancel)

lemma mazda_rx_relay: "relay_malfunction s \<Longrightarrow> relay_malfunction (mazda_rx_hook p s)"
  unfolding mazda_rx_hook_def let_values by (intro relay_intros) simp_all

lemma mazda_tx_frame: "tx_frame (snd (mazda_tx_hook p s)) = tx_frame s"
  by (simp only: mazda_tx_hook_def frame_simps let_values if_cancel)

lemma mazda_fwd: "0 \<le> b \<Longrightarrow> mazda_fwd_hook s b a \<in> {- 1, 0, 1, 2} \<and> mazda_fwd_hook s b a \<noteq> b"
  by (auto simp: mazda_fwd_hook_def Let_def)

lemma mazda_gated:
  assumes "fst (mazda_tx_hook p s)" and "mazda_actuates p s"
  shows "controls_allowed s"
proof (rule ccontr)
  assume n: "\<not> controls_allowed s"
  have t: "sint (word_of_int (push_bit 8 (BYTE p 0 AND 0x0F) OR BYTE p 1) - 2048 :: u32)
      = 256 * (BYTE p 0 mod 16) + BYTE p 1 - 2048"
    unfolding nibble_byte(1)
    using sint_offset [of "256 * (BYTE p 0 mod 16) + BYTE p 1" 2048] nibble_byte(2,3) [of p 0 1] by simp
  from assms(2) consider "GET_ADDR p = MAZDA_LKAS" | "GET_ADDR p = MAZDA_CRZ_BTNS"
    by (auto simp: mazda_actuates_def)
  then show False
  proof cases
    case 1
    then show False using assms n
      by (simp only: mazda_tx_hook_def mazda_actuates_def Let_def case_prod_beta t steer_torque_gate
          if_True if_False simp_thms fst_conv) simp
  next
    case 2
    then show False using assms n by (simp add: mazda_tx_hook_def mazda_actuates_def Let_def)
  qed
qed

lemma mazda_init_ok:
  "config_ok (fst (mazda_init prm s))" "config_of (snd (mazda_init prm s)) = config_of s"
  by (simp_all add: mazda_init_def mazda_rx_checks_def)

interpretation mazda: safety_mode mazda_hooks mazda_actuates
  by unfold_locales
    (simp_all add: mazda_hooks_def mazda_rx_frame mazda_rx_relay mazda_tx_frame mazda_fwd
      mazda_gated mazda_init_ok del: insert_iff)

end
