(* ===== verification/Mode_Volkswagen.thy ===== *)
theory Mode_Volkswagen
  imports Mode_Contract
begin

text \<open>The Volkswagen modes, MQB (\<^verbatim>\<open>board/safety/safety_volkswagen_mqb.h\<close>) and PQ
  (\<^verbatim>\<open>board/safety/safety_volkswagen_pq.h\<close>), which share the variables of
  \<^verbatim>\<open>safety_volkswagen_common.h\<close>.\<close>

definition FLAG_VOLKSWAGEN_LONG_CONTROL :: u16 where "FLAG_VOLKSWAGEN_LONG_CONTROL = 1"

section \<open>MQB: checksum and counter\<close>

abbreviation (input) MSG_ESP_19 :: int where "MSG_ESP_19 \<equiv> 0x0B2"
abbreviation (input) MSG_LH_EPS_03 :: int where "MSG_LH_EPS_03 \<equiv> 0x09F"
abbreviation (input) MSG_ESP_05 :: int where "MSG_ESP_05 \<equiv> 0x106"
abbreviation (input) MSG_TSK_06 :: int where "MSG_TSK_06 \<equiv> 0x120"
abbreviation (input) MSG_MOTOR_20 :: int where "MSG_MOTOR_20 \<equiv> 0x121"
abbreviation (input) MSG_ACC_06 :: int where "MSG_ACC_06 \<equiv> 0x122"
abbreviation (input) MSG_HCA_01 :: int where "MSG_HCA_01 \<equiv> 0x126"
abbreviation (input) MSG_GRA_ACC_01 :: int where "MSG_GRA_ACC_01 \<equiv> 0x12B"
abbreviation (input) MSG_ACC_07 :: int where "MSG_ACC_07 \<equiv> 0x12E"
abbreviation (input) MSG_ACC_02 :: int where "MSG_ACC_02 \<equiv> 0x30C"
abbreviation (input) MSG_MOTOR_14 :: int where "MSG_MOTOR_14 \<equiv> 0x3BE"
abbreviation (input) MSG_LDW_02 :: int where "MSG_LDW_02 \<equiv> 0x397"

definition volkswagen_mqb_get_checksum :: "CANPacket_t \<Rightarrow> u32" where
  "volkswagen_mqb_get_checksum to_push = ucast (GET_BYTE to_push 0)"

definition volkswagen_mqb_get_counter :: "CANPacket_t \<Rightarrow> u8" where
  "volkswagen_mqb_get_counter to_push = GET_BYTE to_push 1 AND 0xF"

fun volkswagen_crc_loop :: "u8 list \<Rightarrow> CANPacket_t \<Rightarrow> nat \<Rightarrow> nat \<Rightarrow> u8 \<Rightarrow> u8" where
  "volkswagen_crc_loop lut p i 0 crc = crc"
| "volkswagen_crc_loop lut p i (Suc n) crc =
     (let crc = crc XOR GET_BYTE p i;
          crc = lut ! unat crc
      in volkswagen_crc_loop lut p (Suc i) n crc)"

text \<open>The byte the counter selects for an address.\<close>

definition volkswagen_magic :: "int \<Rightarrow> u8 list option" where
  "volkswagen_magic addr =
     (if addr = MSG_LH_EPS_03 then Some (replicate 16 0xF5)
      else if addr = MSG_ESP_05 then Some (replicate 16 0x07)
      else if addr = MSG_TSK_06 then
        Some [0xC4,0xE2,0x4F,0xE4,0xF8,0x2F,0x56,0x81,0x9F,0xE5,0x83,0x44,0x05,0x3F,0x97,0xDF]
      else if addr = MSG_MOTOR_20 then
        Some [0xE9,0x65,0xAE,0x6B,0x7B,0x35,0xE5,0x5F,0x4E,0xC7,0x86,0xA2,0xBB,0xDD,0xEB,0xB4]
      else if addr = MSG_GRA_ACC_01 then
        Some [0x6A,0x38,0xB4,0x27,0x22,0xEF,0xE1,0xBB,0xF8,0x80,0x84,0x49,0xC7,0x9E,0x1E,0x2B]
      else None)"

definition volkswagen_mqb_compute_crc :: "'a st \<Rightarrow> CANPacket_t \<Rightarrow> u32" where
  "volkswagen_mqb_compute_crc s to_push =
     (let addr = GET_ADDR to_push;
          len = GET_LEN to_push;
          crc = 0xFF;
          crc = volkswagen_crc_loop (volkswagen_crc8_lut_8h2f s) to_push 1 (len - 1) crc;
          counter = volkswagen_mqb_get_counter to_push;
          crc = (case volkswagen_magic addr of Some tab \<Rightarrow> crc XOR tab ! unat counter | None \<Rightarrow> crc);
          crc = volkswagen_crc8_lut_8h2f s ! unat crc
      in ucast (crc XOR 0xFF))"

section \<open>MQB: hooks\<close>

definition VOLKSWAGEN_MQB_STOCK_TX_MSGS :: "CanMsg list" where
  "VOLKSWAGEN_MQB_STOCK_TX_MSGS = [MSG MSG_HCA_01 0 8, MSG MSG_GRA_ACC_01 0 8, MSG MSG_GRA_ACC_01 2 8,
     MSG MSG_LDW_02 0 8, MSG MSG_LH_EPS_03 2 8]"

definition VOLKSWAGEN_MQB_LONG_TX_MSGS :: "CanMsg list" where
  "VOLKSWAGEN_MQB_LONG_TX_MSGS = [MSG MSG_HCA_01 0 8, MSG MSG_LDW_02 0 8, MSG MSG_LH_EPS_03 2 8,
     MSG MSG_ACC_02 0 8, MSG MSG_ACC_06 0 8, MSG MSG_ACC_07 0 8]"

definition volkswagen_mqb_rx_checks :: "RxCheck list" where
  "volkswagen_mqb_rx_checks =
     [RX [CHK MSG_ESP_19 0 8 100],
      RX [(CHK MSG_LH_EPS_03 0 8 100)\<lparr>check_checksum := True, max_counter := 15\<rparr>],
      RX [(CHK MSG_ESP_05 0 8 50)\<lparr>check_checksum := True, max_counter := 15\<rparr>],
      RX [(CHK MSG_TSK_06 0 8 50)\<lparr>check_checksum := True, max_counter := 15\<rparr>],
      RX [(CHK MSG_MOTOR_20 0 8 50)\<lparr>check_checksum := True, max_counter := 15\<rparr>],
      RX [CHK MSG_MOTOR_14 0 8 10],
      RX [(CHK MSG_GRA_ACC_01 0 8 33)\<lparr>check_checksum := True, max_counter := 15\<rparr>]]"

definition volkswagen_mqb_init :: "build_flags \<Rightarrow> u16 \<Rightarrow> 'a st \<Rightarrow> safety_config \<times> 'a st" where
  "volkswagen_mqb_init build param s =
     (let s = s\<lparr>volkswagen_set_button_prev := False\<rparr>;
          s = s\<lparr>volkswagen_resume_button_prev := False\<rparr>;
          s = s\<lparr>volkswagen_mqb_brake_pedal_switch := False\<rparr>;
          s = s\<lparr>volkswagen_mqb_brake_pressure_detected := False\<rparr>;
          s = (if ALLOW_DEBUG build
               then s\<lparr>volkswagen_longitudinal := GET_FLAG param FLAG_VOLKSWAGEN_LONG_CONTROL\<rparr> else s);
          s = s\<lparr>volkswagen_crc8_lut_8h2f := gen_crc_lookup_table_8 0x2F\<rparr>;
          ret = (if volkswagen_longitudinal s
                 then BUILD_SAFETY_CFG volkswagen_mqb_rx_checks VOLKSWAGEN_MQB_LONG_TX_MSGS
                 else BUILD_SAFETY_CFG volkswagen_mqb_rx_checks VOLKSWAGEN_MQB_STOCK_TX_MSGS)
      in (ret, s))"

fun volkswagen_wheel_loop :: "CANPacket_t \<Rightarrow> nat \<Rightarrow> nat \<Rightarrow> int \<Rightarrow> int" where
  "volkswagen_wheel_loop p i 0 speed = speed"
| "volkswagen_wheel_loop p i (Suc n) speed =
     (let wheel_speed = BYTE p i OR push_bit 8 (BYTE p (i + 1))
      in volkswagen_wheel_loop p (i + 2) n (speed + wheel_speed))"

definition volkswagen_mqb_rx_hook :: "CANPacket_t \<Rightarrow> 'a st \<Rightarrow> 'a st" where
  "volkswagen_mqb_rx_hook to_push s =
     (if GET_BUS to_push = 0 then
        let addr = GET_ADDR to_push;
            s = (if addr = MSG_ESP_19 then
                   let speed = volkswagen_wheel_loop to_push 0 4 0
                   in s\<lparr>vehicle_moving := speed > 0\<rparr>
                 else s);
            s = (if addr = MSG_LH_EPS_03 then
                   let torque_driver_new = BYTE to_push 5 OR push_bit 8 (BYTE to_push 6 AND 0x1F);
                       sign = drop_bit 7 (BYTE to_push 6 AND 0x80);
                       torque_driver_new = (if sign = 1 then torque_driver_new * - 1 else torque_driver_new)
                   in s\<lparr>torque_driver := update_sample (torque_driver s) torque_driver_new\<rparr>
                 else s);
            s = (if addr = MSG_TSK_06 then
                   let acc_status = BYTE to_push 3 AND 0x7;
                       cruise_engaged = (acc_status = 3 \<or> acc_status = 4 \<or> acc_status = 5);
                       s = s\<lparr>acc_main_on := cruise_engaged \<or> acc_status = 2\<rparr>;
                       s = (if \<not> volkswagen_longitudinal s then pcm_cruise_check cruise_engaged s else s)
                   in if \<not> acc_main_on s then s\<lparr>controls_allowed := False\<rparr> else s
                 else s);
            s = (if addr = MSG_GRA_ACC_01 then
                   let s = (if volkswagen_longitudinal s then
                          let set_button = GET_BIT to_push 16;
                              resume_button = GET_BIT to_push 19;
                              s = (if (volkswagen_set_button_prev s \<and> \<not> set_button) \<or>
                                      (volkswagen_resume_button_prev s \<and> \<not> resume_button)
                                   then s\<lparr>controls_allowed := acc_main_on s\<rparr> else s);
                              s = s\<lparr>volkswagen_set_button_prev := set_button\<rparr>
                          in s\<lparr>volkswagen_resume_button_prev := resume_button\<rparr>
                        else s)
                   in if GET_BIT to_push 13 then s\<lparr>controls_allowed := False\<rparr> else s
                 else s);
            s = (if addr = MSG_MOTOR_20
                 then s\<lparr>gas_pressed := drop_bit 12 (GET_BYTES to_push 0 4) AND 0xFF \<noteq> 0\<rparr> else s);
            s = (if addr = MSG_MOTOR_14
                 then s\<lparr>volkswagen_mqb_brake_pedal_switch := drop_bit 4 (GET_BYTE to_push 3 AND 0x10) \<noteq> 0\<rparr>
                 else s);
            s = (if addr = MSG_ESP_05
                 then s\<lparr>volkswagen_mqb_brake_pressure_detected := drop_bit 2 (GET_BYTE to_push 3 AND 0x4) \<noteq> 0\<rparr>
                 else s);
            s = s\<lparr>brake_pressed := volkswagen_mqb_brake_pedal_switch s \<or>
                                   volkswagen_mqb_brake_pressure_detected s\<rparr>
        in generic_rx_checks (addr = MSG_HCA_01) s
      else s)"

definition VOLKSWAGEN_MQB_STEERING_LIMITS :: SteeringLimits where
  "VOLKSWAGEN_MQB_STEERING_LIMITS = SteeringLimits_0
     \<lparr>max_steer := 300, max_rt_delta := 75, max_rt_interval := 250000, max_rate_up := 4,
      max_rate_down := 10, driver_torque_allowance := 80, driver_torque_factor := 3,
      sl_type := TorqueDriverLimited\<rparr>"

definition VOLKSWAGEN_MQB_LONG_LIMITS :: LongitudinalLimits where
  "VOLKSWAGEN_MQB_LONG_LIMITS = LongitudinalLimits_0
     \<lparr>max_accel := 2000, min_accel := - 3500, inactive_accel := 3010\<rparr>"

definition volkswagen_mqb_tx_hook :: "CANPacket_t \<Rightarrow> 'a st \<Rightarrow> bool \<times> 'a st" where
  "volkswagen_mqb_tx_hook to_send s =
     (let addr = GET_ADDR to_send;
          tx = True;
          (tx, s) = (if addr = MSG_HCA_01 then
                  let desired_torque = BYTE to_send 2 OR push_bit 8 (BYTE to_send 3 AND 0x1);
                      sign = GET_BIT to_send 31;
                      desired_torque = (if sign then desired_torque * - 1 else desired_torque);
                      steer_req = GET_BIT to_send 30;
                      (violation, s) = steer_torque_cmd_checks desired_torque (int_of_bool steer_req)
                                         VOLKSWAGEN_MQB_STEERING_LIMITS s
                  in (if violation then False else tx, s)
                else (tx, s));
          tx = (if addr = MSG_ACC_06 \<or> addr = MSG_ACC_07 then
                  let violation = False;
                      secondary_accel = sint (word_of_int (BYTE to_send 4 * 30) - 4600 :: u32);
                      violation = (if addr = MSG_ACC_06 then violation
                                   else violation \<or> secondary_accel \<noteq> 3020);
                      desired_accel =
                        (if addr = MSG_ACC_06
                         then sint (word_of_int ((push_bit 8 (BYTE to_send 4 AND 0x7) OR BYTE to_send 3) * 5)
                                    - 7220 :: u32)
                         else sint (word_of_int ((push_bit 3 (BYTE to_send 7) OR
                                                  drop_bit 5 (BYTE to_send 6 AND 0xE0)) * 5) - 7220 :: u32));
                      violation = (violation \<or>
                        longitudinal_accel_checks desired_accel VOLKSWAGEN_MQB_LONG_LIMITS s)
                  in if violation then False else tx
                else tx);
          tx = (if addr = MSG_GRA_ACC_01 \<and> \<not> controls_allowed s then
                  if GET_BYTE to_send 2 AND 0x9 \<noteq> 0 then False else tx
                else tx)
      in (tx, s))"

definition volkswagen_mqb_fwd_hook :: "'a st \<Rightarrow> int \<Rightarrow> int \<Rightarrow> int" where
  "volkswagen_mqb_fwd_hook s bus_num addr =
     (if bus_num = 0 then
        if addr = MSG_LH_EPS_03 then - 1 else 2
      else if bus_num = 2 then
        if addr = MSG_HCA_01 \<or> addr = MSG_LDW_02 then - 1
        else if volkswagen_longitudinal s \<and> (addr = MSG_ACC_02 \<or> addr = MSG_ACC_06 \<or> addr = MSG_ACC_07)
        then - 1
        else 0
      else - 1)"

definition volkswagen_mqb_hooks :: "build_flags \<Rightarrow> 'a st safety_hooks" where
  "volkswagen_mqb_hooks build = \<lparr>h_init = volkswagen_mqb_init build, h_rx = volkswagen_mqb_rx_hook,
     h_tx = volkswagen_mqb_tx_hook, h_fwd = volkswagen_mqb_fwd_hook,
     h_get_checksum = Some volkswagen_mqb_get_checksum,
     h_compute_checksum = Some volkswagen_mqb_compute_crc,
     h_get_counter = Some volkswagen_mqb_get_counter, h_get_quality_flag_valid = None\<rparr>"

section \<open>PQ: checksum and counter\<close>

abbreviation (input) MSG_LENKHILFE_3 :: int where "MSG_LENKHILFE_3 \<equiv> 0x0D0"
abbreviation (input) MSG_HCA_1 :: int where "MSG_HCA_1 \<equiv> 0x0D2"
abbreviation (input) MSG_BREMSE_1 :: int where "MSG_BREMSE_1 \<equiv> 0x1A0"
abbreviation (input) MSG_MOTOR_2 :: int where "MSG_MOTOR_2 \<equiv> 0x288"
abbreviation (input) MSG_ACC_SYSTEM :: int where "MSG_ACC_SYSTEM \<equiv> 0x368"
abbreviation (input) MSG_MOTOR_3 :: int where "MSG_MOTOR_3 \<equiv> 0x380"
abbreviation (input) MSG_GRA_NEU :: int where "MSG_GRA_NEU \<equiv> 0x38A"
abbreviation (input) MSG_MOTOR_5 :: int where "MSG_MOTOR_5 \<equiv> 0x480"
abbreviation (input) MSG_ACC_GRA_ANZEIGE :: int where "MSG_ACC_GRA_ANZEIGE \<equiv> 0x56A"
abbreviation (input) MSG_LDW_1 :: int where "MSG_LDW_1 \<equiv> 0x5BE"

definition volkswagen_pq_get_checksum :: "CANPacket_t \<Rightarrow> u32" where
  "volkswagen_pq_get_checksum to_push =
     (let addr = GET_ADDR to_push
      in ucast (GET_BYTE to_push (if addr = MSG_MOTOR_5 then 7 else 0)))"

definition volkswagen_pq_get_counter :: "CANPacket_t \<Rightarrow> u8" where
  "volkswagen_pq_get_counter to_push =
     (let addr = GET_ADDR to_push;
          counter = 0
      in if addr = MSG_LENKHILFE_3 then drop_bit 4 (GET_BYTE to_push 1 AND 0xF0)
         else if addr = MSG_GRA_NEU then drop_bit 4 (GET_BYTE to_push 2 AND 0xF0)
         else counter)"

fun volkswagen_pq_checksum_loop :: "CANPacket_t \<Rightarrow> nat \<Rightarrow> nat \<Rightarrow> nat \<Rightarrow> u8 \<Rightarrow> u8" where
  "volkswagen_pq_checksum_loop p checksum_byte i 0 checksum = checksum"
| "volkswagen_pq_checksum_loop p checksum_byte i (Suc n) checksum =
     volkswagen_pq_checksum_loop p checksum_byte (Suc i) n
       (if i \<noteq> checksum_byte then checksum XOR GET_BYTE p i else checksum)"

definition volkswagen_pq_compute_checksum :: "'a st \<Rightarrow> CANPacket_t \<Rightarrow> u32" where
  "volkswagen_pq_compute_checksum s to_push =
     (let addr = GET_ADDR to_push;
          len = GET_LEN to_push;
          checksum = 0;
          checksum_byte = (if addr = MSG_MOTOR_5 then 7 else 0);
          checksum = volkswagen_pq_checksum_loop to_push checksum_byte 0 len checksum
      in ucast checksum)"

section \<open>PQ: hooks\<close>

definition VOLKSWAGEN_PQ_STOCK_TX_MSGS :: "CanMsg list" where
  "VOLKSWAGEN_PQ_STOCK_TX_MSGS = [MSG MSG_HCA_1 0 5, MSG MSG_LDW_1 0 8, MSG MSG_GRA_NEU 0 4,
     MSG MSG_GRA_NEU 2 4]"

definition VOLKSWAGEN_PQ_LONG_TX_MSGS :: "CanMsg list" where
  "VOLKSWAGEN_PQ_LONG_TX_MSGS = [MSG MSG_HCA_1 0 5, MSG MSG_LDW_1 0 8, MSG MSG_ACC_SYSTEM 0 8,
     MSG MSG_ACC_GRA_ANZEIGE 0 8]"

definition volkswagen_pq_rx_checks :: "RxCheck list" where
  "volkswagen_pq_rx_checks =
     [RX [(CHK MSG_LENKHILFE_3 0 6 100)\<lparr>check_checksum := True, max_counter := 15\<rparr>],
      RX [CHK MSG_BREMSE_1 0 8 100],
      RX [CHK MSG_MOTOR_2 0 8 50],
      RX [CHK MSG_MOTOR_3 0 8 100],
      RX [(CHK MSG_MOTOR_5 0 8 50)\<lparr>check_checksum := True\<rparr>],
      RX [(CHK MSG_GRA_NEU 0 4 30)\<lparr>check_checksum := True, max_counter := 15\<rparr>]]"

definition volkswagen_pq_init :: "build_flags \<Rightarrow> u16 \<Rightarrow> 'a st \<Rightarrow> safety_config \<times> 'a st" where
  "volkswagen_pq_init build param s =
     (let s = s\<lparr>volkswagen_set_button_prev := False\<rparr>;
          s = s\<lparr>volkswagen_resume_button_prev := False\<rparr>;
          s = (if ALLOW_DEBUG build
               then s\<lparr>volkswagen_longitudinal := GET_FLAG param FLAG_VOLKSWAGEN_LONG_CONTROL\<rparr> else s);
          ret = (if volkswagen_longitudinal s
                 then BUILD_SAFETY_CFG volkswagen_pq_rx_checks VOLKSWAGEN_PQ_LONG_TX_MSGS
                 else BUILD_SAFETY_CFG volkswagen_pq_rx_checks VOLKSWAGEN_PQ_STOCK_TX_MSGS)
      in (ret, s))"

definition volkswagen_pq_rx_hook :: "CANPacket_t \<Rightarrow> 'a st \<Rightarrow> 'a st" where
  "volkswagen_pq_rx_hook to_push s =
     (if GET_BUS to_push = 0 then
        let addr = GET_ADDR to_push;
            s = (if addr = MSG_BREMSE_1 then
                   let speed = drop_bit 1 (BYTE to_push 2 AND 0xFE) OR push_bit 7 (BYTE to_push 3)
                   in s\<lparr>vehicle_moving := speed > 0\<rparr>
                 else s);
            s = (if addr = MSG_LENKHILFE_3 then
                   let torque_driver_new = BYTE to_push 2 OR push_bit 8 (BYTE to_push 3 AND 0x3);
                       sign = drop_bit 2 (BYTE to_push 3 AND 0x4);
                       torque_driver_new = (if sign = 1 then torque_driver_new * - 1 else torque_driver_new)
                   in s\<lparr>torque_driver := update_sample (torque_driver s) torque_driver_new\<rparr>
                 else s);
            s = (if volkswagen_longitudinal s then
                   let s = (if addr = MSG_MOTOR_5 then
                          let s = s\<lparr>acc_main_on := GET_BIT to_push 50\<rparr>
                          in if \<not> acc_main_on s then s\<lparr>controls_allowed := False\<rparr> else s
                        else s)
                   in if addr = MSG_GRA_NEU then
                        let set_button = GET_BIT to_push 16;
                            resume_button = GET_BIT to_push 17;
                            s = (if (volkswagen_set_button_prev s \<and> \<not> set_button) \<or>
                                    (volkswagen_resume_button_prev s \<and> \<not> resume_button)
                                 then s\<lparr>controls_allowed := acc_main_on s\<rparr> else s);
                            s = s\<lparr>volkswagen_set_button_prev := set_button\<rparr>;
                            s = s\<lparr>volkswagen_resume_button_prev := resume_button\<rparr>
                        in if GET_BIT to_push 9 then s\<lparr>controls_allowed := False\<rparr> else s
                      else s
                 else if addr = MSG_MOTOR_2 then
                   let acc_status = drop_bit 6 (BYTE to_push 2 AND 0xC0);
                       cruise_engaged = (acc_status = 1 \<or> acc_status = 2)
                   in pcm_cruise_check cruise_engaged s
                 else s);
            s = (if addr = MSG_MOTOR_3 then s\<lparr>gas_pressed := GET_BYTE to_push 2 \<noteq> 0\<rparr> else s);
            s = (if addr = MSG_MOTOR_2
                 then s\<lparr>brake_pressed := GET_BYTE to_push 2 AND 0x1 \<noteq> 0\<rparr> else s)
        in generic_rx_checks (addr = MSG_HCA_1) s
      else s)"

definition VOLKSWAGEN_PQ_STEERING_LIMITS :: SteeringLimits where
  "VOLKSWAGEN_PQ_STEERING_LIMITS = SteeringLimits_0
     \<lparr>max_steer := 300, max_rt_delta := 113, max_rt_interval := 250000, max_rate_up := 6,
      max_rate_down := 10, driver_torque_factor := 3, driver_torque_allowance := 80,
      sl_type := TorqueDriverLimited\<rparr>"

definition VOLKSWAGEN_PQ_LONG_LIMITS :: LongitudinalLimits where
  "VOLKSWAGEN_PQ_LONG_LIMITS = LongitudinalLimits_0
     \<lparr>max_accel := 2000, min_accel := - 3500, inactive_accel := 3010\<rparr>"

definition volkswagen_pq_tx_hook :: "CANPacket_t \<Rightarrow> 'a st \<Rightarrow> bool \<times> 'a st" where
  "volkswagen_pq_tx_hook to_send s =
     (let addr = GET_ADDR to_send;
          tx = True;
          (tx, s) = (if addr = MSG_HCA_1 then
                  let desired_torque = BYTE to_send 2 OR push_bit 8 (BYTE to_send 3 AND 0x7F);
                      desired_torque = c_div desired_torque 32;
                      sign = drop_bit 7 (BYTE to_send 3 AND 0x80);
                      desired_torque = (if sign = 1 then desired_torque * - 1 else desired_torque);
                      hca_status = drop_bit 4 (GET_BYTE to_send 1) AND 0xF;
                      steer_req = (hca_status = 5 \<or> hca_status = 7);
                      (violation, s) = steer_torque_cmd_checks desired_torque (int_of_bool steer_req)
                                         VOLKSWAGEN_PQ_STEERING_LIMITS s
                  in (if violation then False else tx, s)
                else (tx, s));
          tx = (if addr = MSG_ACC_SYSTEM then
                  let desired_accel = sint (word_of_int ((push_bit 8 (BYTE to_send 4 AND 0x7) OR
                                                          BYTE to_send 3) * 5) - 7220 :: u32)
                  in if longitudinal_accel_checks desired_accel VOLKSWAGEN_PQ_LONG_LIMITS s
                     then False else tx
                else tx);
          tx = (if addr = MSG_GRA_NEU \<and> \<not> controls_allowed s then
                  if GET_BIT to_send 16 \<or> GET_BIT to_send 17 then False else tx
                else tx)
      in (tx, s))"

definition volkswagen_pq_fwd_hook :: "'a st \<Rightarrow> int \<Rightarrow> int \<Rightarrow> int" where
  "volkswagen_pq_fwd_hook s bus_num addr =
     (if bus_num = 0 then 2
      else if bus_num = 2 then
        if addr = MSG_HCA_1 \<or> addr = MSG_LDW_1 then - 1
        else if volkswagen_longitudinal s \<and> (addr = MSG_ACC_SYSTEM \<or> addr = MSG_ACC_GRA_ANZEIGE) then - 1
        else 0
      else - 1)"

definition volkswagen_pq_hooks :: "build_flags \<Rightarrow> 'a st safety_hooks" where
  "volkswagen_pq_hooks build = \<lparr>h_init = volkswagen_pq_init build, h_rx = volkswagen_pq_rx_hook,
     h_tx = volkswagen_pq_tx_hook, h_fwd = volkswagen_pq_fwd_hook,
     h_get_checksum = Some volkswagen_pq_get_checksum,
     h_compute_checksum = Some volkswagen_pq_compute_checksum,
     h_get_counter = Some volkswagen_pq_get_counter, h_get_quality_flag_valid = None\<rparr>"

section \<open>The contract\<close>

text \<open>A torque, an acceleration other than the inactive one, the set and resume buttons.\<close>

definition volkswagen_mqb_actuates :: "CANPacket_t \<Rightarrow> 'a st \<Rightarrow> bool" where
  "volkswagen_mqb_actuates p s \<longleftrightarrow>
     GET_ADDR p = MSG_HCA_01 \<and> BYTE p 2 OR push_bit 8 (BYTE p 3 AND 0x1) \<noteq> 0 \<or>
     GET_ADDR p = MSG_ACC_06 \<and>
       sint (word_of_int ((push_bit 8 (BYTE p 4 AND 0x7) OR BYTE p 3) * 5) - 7220 :: u32) \<noteq> 3010 \<or>
     GET_ADDR p = MSG_ACC_07 \<and>
       (sint (word_of_int ((push_bit 3 (BYTE p 7) OR drop_bit 5 (BYTE p 6 AND 0xE0)) * 5) - 7220 :: u32) \<noteq> 3010 \<or>
        sint (word_of_int (BYTE p 4 * 30) - 4600 :: u32) \<noteq> 3020) \<or>
     GET_ADDR p = MSG_GRA_ACC_01 \<and> GET_BYTE p 2 AND 0x9 \<noteq> 0"

definition volkswagen_pq_actuates :: "CANPacket_t \<Rightarrow> 'a st \<Rightarrow> bool" where
  "volkswagen_pq_actuates p s \<longleftrightarrow>
     GET_ADDR p = MSG_HCA_1 \<and> c_div (BYTE p 2 OR push_bit 8 (BYTE p 3 AND 0x7F)) 32 \<noteq> 0 \<or>
     GET_ADDR p = MSG_ACC_SYSTEM \<and>
       sint (word_of_int ((push_bit 8 (BYTE p 4 AND 0x7) OR BYTE p 3) * 5) - 7220 :: u32) \<noteq> 3010 \<or>
     GET_ADDR p = MSG_GRA_NEU \<and> (GET_BIT p 16 \<or> GET_BIT p 17)"

lemma volkswagen_mqb_rx_frame: "rx_frame (volkswagen_mqb_rx_hook p s) = rx_frame s"
  by (simp only: volkswagen_mqb_rx_hook_def frame_simps let_values if_cancel)

lemma volkswagen_pq_rx_frame: "rx_frame (volkswagen_pq_rx_hook p s) = rx_frame s"
  by (simp only: volkswagen_pq_rx_hook_def frame_simps let_values if_cancel)

lemma volkswagen_mqb_rx_relay:
  "relay_malfunction s \<Longrightarrow> relay_malfunction (volkswagen_mqb_rx_hook p s)"
  unfolding volkswagen_mqb_rx_hook_def let_values by (intro relay_intros) simp_all

lemma volkswagen_pq_rx_relay:
  "relay_malfunction s \<Longrightarrow> relay_malfunction (volkswagen_pq_rx_hook p s)"
  unfolding volkswagen_pq_rx_hook_def let_values by (intro relay_intros) simp_all

lemma volkswagen_tx_frame:
  "tx_frame (snd (volkswagen_mqb_tx_hook p s)) = tx_frame s"
  "tx_frame (snd (volkswagen_pq_tx_hook p s)) = tx_frame s"
  by (simp_all only: volkswagen_mqb_tx_hook_def volkswagen_pq_tx_hook_def frame_simps let_values if_cancel)

lemma volkswagen_fwd:
  "0 \<le> b \<Longrightarrow> volkswagen_mqb_fwd_hook s b a \<in> {- 1, 0, 1, 2} \<and> volkswagen_mqb_fwd_hook s b a \<noteq> b"
  "0 \<le> b \<Longrightarrow> volkswagen_pq_fwd_hook s b a \<in> {- 1, 0, 1, 2} \<and> volkswagen_pq_fwd_hook s b a \<noteq> b"
  by (simp_all add: volkswagen_mqb_fwd_hook_def volkswagen_pq_fwd_hook_def)

lemma volkswagen_mqb_gated:
  assumes "fst (volkswagen_mqb_tx_hook p s)" and "volkswagen_mqb_actuates p s"
  shows "controls_allowed s"
proof (rule ccontr)
  assume n: "\<not> controls_allowed s"
  have i: "inactive_accel VOLKSWAGEN_MQB_LONG_LIMITS = 3010" by (simp add: VOLKSWAGEN_MQB_LONG_LIMITS_def)
  have neg: "(if b then x * - 1 else x) = 0 \<longleftrightarrow> x = 0" for b and x :: int by simp
  from assms(2) consider "GET_ADDR p = MSG_HCA_01" | "GET_ADDR p = MSG_ACC_06"
    | "GET_ADDR p = MSG_ACC_07" | "GET_ADDR p = MSG_GRA_ACC_01"
    by (auto simp: volkswagen_mqb_actuates_def)
  then show False using assms n
    by cases (simp_all only: volkswagen_mqb_tx_hook_def volkswagen_mqb_actuates_def Let_def
        case_prod_beta gate_simps i neg fst_conv snd_conv if_True if_False simp_thms if_cancel,
        simp_all add: gate_simps i split: if_splits)
qed

lemma volkswagen_pq_gated:
  assumes "fst (volkswagen_pq_tx_hook p s)" and "volkswagen_pq_actuates p s"
  shows "controls_allowed s"
proof (rule ccontr)
  assume n: "\<not> controls_allowed s"
  have i: "inactive_accel VOLKSWAGEN_PQ_LONG_LIMITS = 3010" by (simp add: VOLKSWAGEN_PQ_LONG_LIMITS_def)
  have neg: "(if b then x * - 1 else x) = 0 \<longleftrightarrow> x = 0" for b and x :: int by simp
  from assms(2) consider "GET_ADDR p = MSG_HCA_1" | "GET_ADDR p = MSG_ACC_SYSTEM" | "GET_ADDR p = MSG_GRA_NEU"
    by (auto simp: volkswagen_pq_actuates_def)
  then show False using assms n
    by cases (simp_all only: volkswagen_pq_tx_hook_def volkswagen_pq_actuates_def Let_def
        case_prod_beta gate_simps i neg fst_conv snd_conv if_True if_False simp_thms if_cancel,
        simp_all add: gate_simps i split: if_splits)
qed

lemma volkswagen_init_ok:
  "config_ok (fst (volkswagen_mqb_init b prm s))" "config_of (snd (volkswagen_mqb_init b prm s)) = config_of s"
  "config_ok (fst (volkswagen_pq_init b prm s))" "config_of (snd (volkswagen_pq_init b prm s)) = config_of s"
  by (simp_all add: volkswagen_mqb_init_def volkswagen_pq_init_def Let_def volkswagen_mqb_rx_checks_def
      volkswagen_pq_rx_checks_def config_of_def)

interpretation volkswagen_mqb: safety_mode "volkswagen_mqb_hooks b" volkswagen_mqb_actuates
  by unfold_locales
    (simp_all add: volkswagen_mqb_hooks_def volkswagen_mqb_rx_frame volkswagen_mqb_rx_relay
      volkswagen_tx_frame volkswagen_fwd volkswagen_mqb_gated volkswagen_init_ok del: insert_iff)

interpretation volkswagen_pq: safety_mode "volkswagen_pq_hooks b" volkswagen_pq_actuates
  by unfold_locales
    (simp_all add: volkswagen_pq_hooks_def volkswagen_pq_rx_frame volkswagen_pq_rx_relay
      volkswagen_tx_frame volkswagen_fwd volkswagen_pq_gated volkswagen_init_ok del: insert_iff)

end
