(* ===== verification/Mode_Hyundai.thy ===== *)
theory Mode_Hyundai
  imports Mode_Contract
begin

text \<open>The Hyundai modes: what they share (\<^verbatim>\<open>board/safety/safety_hyundai_common.h\<close>), the
  CAN cars and the legacy ones (\<^verbatim>\<open>safety_hyundai.h\<close>), and the CAN FD cars
  (\<^verbatim>\<open>safety_hyundai_canfd.h\<close>).\<close>

section \<open>Common\<close>

definition HYUNDAI_PREV_BUTTON_SAMPLES :: u8 where "HYUNDAI_PREV_BUTTON_SAMPLES = 8"
definition HYUNDAI_STANDSTILL_THRSLD :: u32 where "HYUNDAI_STANDSTILL_THRSLD = 12"

abbreviation (input) HYUNDAI_BTN_RESUME :: int where "HYUNDAI_BTN_RESUME \<equiv> 1"
abbreviation (input) HYUNDAI_BTN_SET :: int where "HYUNDAI_BTN_SET \<equiv> 2"
abbreviation (input) HYUNDAI_BTN_CANCEL :: int where "HYUNDAI_BTN_CANCEL \<equiv> 4"

definition hyundai_common_init :: "build_flags \<Rightarrow> u16 \<Rightarrow> 'a st \<Rightarrow> 'a st" where
  "hyundai_common_init build param s =
     (let HYUNDAI_PARAM_EV_GAS = 1;
          HYUNDAI_PARAM_HYBRID_GAS = 2;
          HYUNDAI_PARAM_CAMERA_SCC = 8;
          HYUNDAI_PARAM_CANFD_HDA2 = 16;
          HYUNDAI_PARAM_ALT_LIMITS = 64;
          s = s\<lparr>hyundai_ev_gas_signal := GET_FLAG (ucast param :: u32) HYUNDAI_PARAM_EV_GAS\<rparr>;
          s = s\<lparr>hyundai_hybrid_gas_signal := \<not> hyundai_ev_gas_signal s \<and>
                  GET_FLAG (ucast param :: u32) HYUNDAI_PARAM_HYBRID_GAS\<rparr>;
          s = s\<lparr>hyundai_camera_scc := GET_FLAG (ucast param :: u32) HYUNDAI_PARAM_CAMERA_SCC\<rparr>;
          s = s\<lparr>hyundai_canfd_hda2 := GET_FLAG (ucast param :: u32) HYUNDAI_PARAM_CANFD_HDA2\<rparr>;
          s = s\<lparr>hyundai_alt_limits := GET_FLAG (ucast param :: u32) HYUNDAI_PARAM_ALT_LIMITS\<rparr>;
          s = s\<lparr>hyundai_last_button_interaction := HYUNDAI_PREV_BUTTON_SAMPLES\<rparr>
      in if ALLOW_DEBUG build then
           let HYUNDAI_PARAM_LONGITUDINAL = 4
           in s\<lparr>hyundai_longitudinal := GET_FLAG (ucast param :: u32) HYUNDAI_PARAM_LONGITUDINAL\<rparr>
         else s\<lparr>hyundai_longitudinal := False\<rparr>)"

definition hyundai_common_cruise_state_check :: "bool \<Rightarrow> 'a st \<Rightarrow> 'a st" where
  "hyundai_common_cruise_state_check cruise_engaged s =
     (if \<not> hyundai_longitudinal s then
        let s = (if cruise_engaged \<and> \<not> cruise_engaged_prev s \<and>
                    hyundai_last_button_interaction s < HYUNDAI_PREV_BUTTON_SAMPLES
                 then s\<lparr>controls_allowed := True\<rparr> else s);
            s = (if \<not> cruise_engaged then s\<lparr>controls_allowed := False\<rparr> else s)
        in s\<lparr>cruise_engaged_prev := cruise_engaged\<rparr>
      else s)"

definition hyundai_common_cruise_buttons_check :: "int \<Rightarrow> bool \<Rightarrow> 'a st \<Rightarrow> 'a st" where
  "hyundai_common_cruise_buttons_check cruise_button main_button s =
     (let s = (if cruise_button = HYUNDAI_BTN_RESUME \<or> cruise_button = HYUNDAI_BTN_SET \<or>
                  cruise_button = HYUNDAI_BTN_CANCEL \<or> main_button
               then s\<lparr>hyundai_last_button_interaction := 0\<rparr>
               else s\<lparr>hyundai_last_button_interaction :=
                        ucast (MIN_m (ucast (hyundai_last_button_interaction s) + 1 :: u32)
                                     (ucast HYUNDAI_PREV_BUTTON_SAMPLES))\<rparr>)
      in if hyundai_longitudinal s then
           let set_b = (cruise_button \<noteq> HYUNDAI_BTN_SET \<and> cruise_button_prev s = HYUNDAI_BTN_SET);
               res = (cruise_button \<noteq> HYUNDAI_BTN_RESUME \<and> cruise_button_prev s = HYUNDAI_BTN_RESUME);
               s = (if set_b \<or> res then s\<lparr>controls_allowed := True\<rparr> else s);
               s = (if cruise_button = HYUNDAI_BTN_CANCEL then s\<lparr>controls_allowed := False\<rparr> else s)
           in s\<lparr>cruise_button_prev := cruise_button\<rparr>
         else s)"

definition hyundai_crc_step :: "u16 list \<Rightarrow> u8 \<Rightarrow> u16 \<Rightarrow> u16" where
  "hyundai_crc_step lut b crc = push_bit 8 crc XOR lut ! unat (drop_bit 8 crc XOR ucast b)"

fun hyundai_crc_loop :: "u16 list \<Rightarrow> CANPacket_t \<Rightarrow> nat \<Rightarrow> nat \<Rightarrow> u16 \<Rightarrow> u16" where
  "hyundai_crc_loop lut p i 0 crc = crc"
| "hyundai_crc_loop lut p i (Suc n) crc =
     hyundai_crc_loop lut p (Suc i) n (hyundai_crc_step lut (GET_BYTE p i) crc)"

definition hyundai_common_canfd_compute_checksum :: "'a st \<Rightarrow> CANPacket_t \<Rightarrow> u32" where
  "hyundai_common_canfd_compute_checksum s to_push =
     (let len = GET_LEN to_push;
          address = word_of_int (GET_ADDR to_push) :: u32;
          lut = hyundai_canfd_crc_lut s;
          crc = 0;
          crc = hyundai_crc_loop lut to_push 2 (len - 2) crc;
          crc = hyundai_crc_step lut (ucast (drop_bit 0 address AND 0xFF)) crc;
          crc = hyundai_crc_step lut (ucast (drop_bit 8 address AND 0xFF)) crc;
          crc = (if len = 24 then crc XOR 0x819d
                 else if len = 32 then crc XOR 0x9f5b
                 else crc)
      in ucast crc)"

section \<open>CAN cars: configuration\<close>

definition HYUNDAI_LIMITS :: "int \<Rightarrow> int \<Rightarrow> int \<Rightarrow> SteeringLimits" where
  "HYUNDAI_LIMITS steer rate_up rate_down = SteeringLimits_0
     \<lparr>max_steer := steer, max_rate_up := rate_up, max_rate_down := rate_down, max_rt_delta := 112,
      max_rt_interval := 250000, driver_torque_allowance := 50, driver_torque_factor := 2,
      sl_type := TorqueDriverLimited, min_valid_request_frames := 89,
      max_invalid_request_frames := 2, min_valid_request_rt_interval := 810000,
      has_steer_req_tolerance := True\<rparr>"

definition HYUNDAI_LONG_LIMITS :: LongitudinalLimits where
  "HYUNDAI_LONG_LIMITS = LongitudinalLimits_0\<lparr>max_accel := 200, min_accel := - 350\<rparr>"

definition HYUNDAI_TX_MSGS :: "CanMsg list" where
  "HYUNDAI_TX_MSGS = [MSG 0x340 0 8, MSG 0x4F1 0 4, MSG 0x485 0 4]"

definition HYUNDAI_COMMON_RX_CHECKS :: "bool \<Rightarrow> RxCheck list" where
  "HYUNDAI_COMMON_RX_CHECKS legacy =
     [RX [(CHK 0x260 0 8 100)\<lparr>check_checksum := True, max_counter := 3\<rparr>, CHK 0x371 0 8 100],
      RX [(CHK 0x386 0 8 100)\<lparr>check_checksum := \<not> legacy, max_counter := (if legacy then 0 else 15)\<rparr>],
      RX [(CHK 0x394 0 8 100)\<lparr>check_checksum := \<not> legacy, max_counter := (if legacy then 0 else 7)\<rparr>]]"

definition HYUNDAI_SCC12_ADDR_CHECK :: "int \<Rightarrow> RxCheck list" where
  "HYUNDAI_SCC12_ADDR_CHECK scc_bus =
     [RX [(CHK 0x421 scc_bus 8 50)\<lparr>check_checksum := True, max_counter := 15\<rparr>]]"

section \<open>CAN cars: checksum and counter\<close>

definition hyundai_get_counter :: "CANPacket_t \<Rightarrow> u8" where
  "hyundai_get_counter to_push =
     (let addr = GET_ADDR to_push;
          cnt = 0
      in if addr = 0x260 then drop_bit 4 (GET_BYTE to_push 7) AND 0x3
         else if addr = 0x386 then push_bit 2 (drop_bit 6 (GET_BYTE to_push 3)) OR drop_bit 6 (GET_BYTE to_push 1)
         else if addr = 0x394 then drop_bit 5 (GET_BYTE to_push 1) AND 0x7
         else if addr = 0x421 then GET_BYTE to_push 7 AND 0xF
         else if addr = 0x4F1 then drop_bit 4 (GET_BYTE to_push 3) AND 0xF
         else cnt)"

definition hyundai_get_checksum :: "CANPacket_t \<Rightarrow> u32" where
  "hyundai_get_checksum to_push =
     (let addr = GET_ADDR to_push;
          chksum = 0
      in ucast (if addr = 0x260 then GET_BYTE to_push 7 AND 0xF
         else if addr = 0x386 then push_bit 2 (drop_bit 6 (GET_BYTE to_push 7)) OR drop_bit 6 (GET_BYTE to_push 5)
         else if addr = 0x394 then GET_BYTE to_push 6 AND 0xF
         else if addr = 0x421 then drop_bit 4 (GET_BYTE to_push 7)
         else chksum))"

fun hyundai_bits_loop :: "u8 \<Rightarrow> nat \<Rightarrow> nat \<Rightarrow> nat \<Rightarrow> u8 \<Rightarrow> u8" where
  "hyundai_bits_loop b i j 0 chksum = chksum"
| "hyundai_bits_loop b i j (Suc n) chksum =
     (let bit_v = (if (i \<noteq> 1 \<or> j < 6) \<and> (i \<noteq> 3 \<or> j < 6) \<and> (i \<noteq> 5 \<or> j < 6) \<and> (i \<noteq> 7 \<or> j < 6)
                   then drop_bit j b AND 1 else 0)
      in hyundai_bits_loop b i (Suc j) n (chksum + bit_v))"

fun hyundai_count_loop :: "CANPacket_t \<Rightarrow> nat \<Rightarrow> nat \<Rightarrow> u8 \<Rightarrow> u8" where
  "hyundai_count_loop p i 0 chksum = chksum"
| "hyundai_count_loop p i (Suc n) chksum =
     hyundai_count_loop p (Suc i) n (hyundai_bits_loop (GET_BYTE p i) i 0 8 chksum)"

definition hyundai_nibble :: "CANPacket_t \<Rightarrow> int \<Rightarrow> nat \<Rightarrow> u8 \<Rightarrow> u8" where
  "hyundai_nibble p addr i chksum =
     (if addr = 0x394 \<and> i = 7 then chksum
      else
        let b = GET_BYTE p i;
            b = (if (addr = 0x260 \<and> i = 7) \<or> (addr = 0x394 \<and> i = 6) \<or> (addr = 0x421 \<and> i = 7)
                 then b AND (if addr = 0x421 then 0x0F else 0xF0) else b)
        in chksum + (b mod 16 + b div 16))"

fun hyundai_nibble_loop :: "CANPacket_t \<Rightarrow> int \<Rightarrow> nat \<Rightarrow> nat \<Rightarrow> u8 \<Rightarrow> u8" where
  "hyundai_nibble_loop p addr i 0 chksum = chksum"
| "hyundai_nibble_loop p addr i (Suc n) chksum =
     hyundai_nibble_loop p addr (Suc i) n (hyundai_nibble p addr i chksum)"

definition hyundai_compute_checksum :: "'a st \<Rightarrow> CANPacket_t \<Rightarrow> u32" where
  "hyundai_compute_checksum s to_push =
     (let addr = GET_ADDR to_push;
          chksum = 0
      in ucast
        (if addr = 0x386 then
           let chksum = hyundai_count_loop to_push 0 8 chksum
           in (chksum XOR 9) AND 15
         else
           let chksum = hyundai_nibble_loop to_push addr 0 8 chksum
           in (16 - chksum mod 16) mod 16))"

section \<open>CAN cars: hooks\<close>

definition hyundai_rx_hook :: "CANPacket_t \<Rightarrow> 'a st \<Rightarrow> 'a st" where
  "hyundai_rx_hook to_push s =
     (let bus = GET_BUS to_push;
          addr = GET_ADDR to_push;
          s = (if addr = 0x421 \<and> ((bus = 0 \<and> \<not> hyundai_camera_scc s) \<or> (bus = 2 \<and> hyundai_camera_scc s)) then
                 let cruise_engaged = uint (drop_bit 13 (GET_BYTES to_push 0 4) AND 0x3)
                 in hyundai_common_cruise_state_check (cruise_engaged \<noteq> 0) s
               else s)
      in if bus = 0 then
        let s = (if addr = 0x251 then
                   let torque_driver_new = sint ((GET_BYTES to_push 0 2 AND 0x7ff) - 1024)
                   in s\<lparr>torque_driver := update_sample (torque_driver s) torque_driver_new\<rparr>
                 else s);
            s = (if addr = 0x4F1 then
                   let cruise_button = BYTE to_push 0 AND 0x7;
                       main_button = GET_BIT to_push 3
                   in hyundai_common_cruise_buttons_check cruise_button main_button s
                 else s);
            s = (if addr = 0x371 \<and> hyundai_ev_gas_signal s
                 then s\<lparr>gas_pressed := push_bit 1 (BYTE to_push 4 AND 0x7F) OR drop_bit 7 (BYTE to_push 3) \<noteq> 0\<rparr>
                 else if addr = 0x371 \<and> hyundai_hybrid_gas_signal s
                 then s\<lparr>gas_pressed := GET_BYTE to_push 7 \<noteq> 0\<rparr>
                 else if addr = 0x260 \<and> \<not> hyundai_ev_gas_signal s \<and> \<not> hyundai_hybrid_gas_signal s
                 then s\<lparr>gas_pressed := drop_bit 6 (GET_BYTE to_push 7) \<noteq> 0\<rparr>
                 else s);
            s = (if addr = 0x386 then
                   let front_left_speed = GET_BYTES to_push 0 2 AND 0x3FFF;
                       rear_right_speed = GET_BYTES to_push 6 2 AND 0x3FFF
                   in s\<lparr>vehicle_moving := front_left_speed > HYUNDAI_STANDSTILL_THRSLD \<or>
                                         rear_right_speed > HYUNDAI_STANDSTILL_THRSLD\<rparr>
                 else s);
            s = (if addr = 0x394
                 then s\<lparr>brake_pressed := drop_bit 5 (GET_BYTE to_push 5) AND 0x3 = 0x2\<rparr> else s);
            stock_ecu_detected = (addr = 0x340);
            stock_ecu_detected =
              (if hyundai_longitudinal s \<and> addr = 0x421 then True else stock_ecu_detected)
        in generic_rx_checks stock_ecu_detected s
      else s)"

definition HYUNDAI_STEERING_LIMITS :: SteeringLimits where
  "HYUNDAI_STEERING_LIMITS = HYUNDAI_LIMITS 384 3 7"

definition HYUNDAI_STEERING_LIMITS_ALT :: SteeringLimits where
  "HYUNDAI_STEERING_LIMITS_ALT = HYUNDAI_LIMITS 270 2 3"

definition hyundai_tx_hook :: "CANPacket_t \<Rightarrow> 'a st \<Rightarrow> bool \<times> 'a st" where
  "hyundai_tx_hook to_send s =
     (let tx = True;
          addr = GET_ADDR to_send;
          tx = (if addr = 0x38D then
                  let CR_VSM_DecCmd = BYTE to_send 1;
                      FCA_CmdAct = GET_BIT to_send 20;
                      CF_VSM_DecCmdAct = GET_BIT to_send 31
                  in if CR_VSM_DecCmd \<noteq> 0 \<or> FCA_CmdAct \<or> CF_VSM_DecCmdAct then False else tx
                else tx);
          tx = (if addr = 0x421 then
                  let desired_accel_raw = sint (word_of_int
                        (push_bit 8 (BYTE to_send 4 AND 0x7) OR BYTE to_send 3) - 1023 :: u32);
                      desired_accel_val = sint (word_of_int
                        (push_bit 3 (BYTE to_send 5) OR drop_bit 5 (BYTE to_send 4)) - 1023 :: u32);
                      aeb_decel_cmd = BYTE to_send 2;
                      aeb_req = GET_BIT to_send 54;
                      violation = False;
                      violation = (violation \<or> longitudinal_accel_checks desired_accel_raw HYUNDAI_LONG_LIMITS s);
                      violation = (violation \<or> longitudinal_accel_checks desired_accel_val HYUNDAI_LONG_LIMITS s);
                      violation = (violation \<or> aeb_decel_cmd \<noteq> 0);
                      violation = (violation \<or> aeb_req)
                  in if violation then False else tx
                else tx);
          (tx, s) = (if addr = 0x340 then
                  let desired_torque = sint ((drop_bit 16 (GET_BYTES to_send 0 4) AND 0x7ff) - 1024);
                      steer_req = GET_BIT to_send 27;
                      (violation, s) = steer_torque_cmd_checks desired_torque (int_of_bool steer_req)
                        (if hyundai_alt_limits s then HYUNDAI_STEERING_LIMITS_ALT else HYUNDAI_STEERING_LIMITS) s
                  in (if violation then False else tx, s)
                else (tx, s));
          tx = (if addr = 0x7D0 then
                  if GET_BYTES to_send 0 4 \<noteq> 0x00803E02 \<or> GET_BYTES to_send 4 4 \<noteq> 0 then False else tx
                else tx);
          tx = (if addr = 0x4F1 \<and> \<not> hyundai_longitudinal s then
                  let button = BYTE to_send 0 AND 0x7;
                      allowed_resume = (button = 1 \<and> controls_allowed s);
                      allowed_cancel = (button = 4 \<and> cruise_engaged_prev s)
                  in if \<not> (allowed_resume \<or> allowed_cancel) then False else tx
                else tx)
      in (tx, s))"

definition hyundai_fwd_hook :: "'a st \<Rightarrow> int \<Rightarrow> int \<Rightarrow> int" where
  "hyundai_fwd_hook s bus_num addr =
     (let bus_fwd = - 1;
          bus_fwd = (if bus_num = 0 then 2 else bus_fwd)
      in if bus_num = 2 \<and> addr \<noteq> 0x340 \<and> addr \<noteq> 0x485 then 0 else bus_fwd)"

definition HYUNDAI_LONG_TX_MSGS :: "CanMsg list" where
  "HYUNDAI_LONG_TX_MSGS = [MSG 0x340 0 8, MSG 0x4F1 0 4, MSG 0x485 0 4, MSG 0x420 0 8, MSG 0x421 0 8,
     MSG 0x50A 0 8, MSG 0x389 0 8, MSG 0x4A2 0 2, MSG 0x38D 0 8, MSG 0x483 0 8, MSG 0x7D0 0 8]"

definition HYUNDAI_CAMERA_SCC_TX_MSGS :: "CanMsg list" where
  "HYUNDAI_CAMERA_SCC_TX_MSGS = [MSG 0x340 0 8, MSG 0x4F1 2 4, MSG 0x485 0 4]"

definition hyundai_init :: "build_flags \<Rightarrow> u16 \<Rightarrow> 'a st \<Rightarrow> safety_config \<times> 'a st" where
  "hyundai_init build param s =
     (let s = hyundai_common_init build param s;
          s = s\<lparr>hyundai_legacy := False\<rparr>;
          s = (if hyundai_camera_scc s then s\<lparr>hyundai_longitudinal := False\<rparr> else s);
          ret = (if hyundai_longitudinal s
                 then BUILD_SAFETY_CFG
                   (HYUNDAI_COMMON_RX_CHECKS False @ [RX [(CHK 0x4F1 0 4 50)\<lparr>max_counter := 15\<rparr>]])
                   HYUNDAI_LONG_TX_MSGS
                 else if hyundai_camera_scc s
                 then BUILD_SAFETY_CFG (HYUNDAI_COMMON_RX_CHECKS False @ HYUNDAI_SCC12_ADDR_CHECK 2)
                   HYUNDAI_CAMERA_SCC_TX_MSGS
                 else BUILD_SAFETY_CFG (HYUNDAI_COMMON_RX_CHECKS False @ HYUNDAI_SCC12_ADDR_CHECK 0)
                   HYUNDAI_TX_MSGS)
      in (ret, s))"

definition hyundai_legacy_init :: "build_flags \<Rightarrow> u16 \<Rightarrow> 'a st \<Rightarrow> safety_config \<times> 'a st" where
  "hyundai_legacy_init build param s =
     (let s = hyundai_common_init build param s;
          s = s\<lparr>hyundai_legacy := True\<rparr>;
          s = s\<lparr>hyundai_longitudinal := False\<rparr>;
          s = s\<lparr>hyundai_camera_scc := False\<rparr>
      in (BUILD_SAFETY_CFG (HYUNDAI_COMMON_RX_CHECKS True @ HYUNDAI_SCC12_ADDR_CHECK 0) HYUNDAI_TX_MSGS, s))"

definition hyundai_hooks :: "build_flags \<Rightarrow> 'a st safety_hooks" where
  "hyundai_hooks build = \<lparr>h_init = hyundai_init build, h_rx = hyundai_rx_hook, h_tx = hyundai_tx_hook,
     h_fwd = hyundai_fwd_hook, h_get_checksum = Some hyundai_get_checksum,
     h_compute_checksum = Some hyundai_compute_checksum, h_get_counter = Some hyundai_get_counter,
     h_get_quality_flag_valid = None\<rparr>"

definition hyundai_legacy_hooks :: "build_flags \<Rightarrow> 'a st safety_hooks" where
  "hyundai_legacy_hooks build = (hyundai_hooks build)\<lparr>h_init := hyundai_legacy_init build\<rparr>"

section \<open>The contract of the CAN cars\<close>

text \<open>A torque other than zero, an acceleration, an emergency braking command.\<close>

definition hyundai_actuates :: "CANPacket_t \<Rightarrow> 'a st \<Rightarrow> bool" where
  "hyundai_actuates p s \<longleftrightarrow>
     GET_ADDR p = 0x340 \<and> sint ((drop_bit 16 (GET_BYTES p 0 4) AND 0x7ff) - 1024) \<noteq> 0 \<or>
     GET_ADDR p = 0x421 \<and>
       (sint (word_of_int (push_bit 8 (BYTE p 4 AND 0x7) OR BYTE p 3) - 1023 :: u32) \<noteq> 0 \<or>
        sint (word_of_int (push_bit 3 (BYTE p 5) OR drop_bit 5 (BYTE p 4)) - 1023 :: u32) \<noteq> 0 \<or>
        BYTE p 2 \<noteq> 0) \<or>
     GET_ADDR p = 0x38D \<and> BYTE p 1 \<noteq> 0"

lemma rx_frame_hyundai_common [frame_simps]:
  "rx_frame (hyundai_common_cruise_state_check e s) = rx_frame s"
  "rx_frame (hyundai_common_cruise_buttons_check c m s) = rx_frame s"
  by (simp_all only: hyundai_common_cruise_state_check_def hyundai_common_cruise_buttons_check_def
      frame_simps let_values if_cancel)

lemma relay_hyundai_common [simp]:
  "relay_malfunction (hyundai_common_cruise_state_check e s) = relay_malfunction s"
  "relay_malfunction (hyundai_common_cruise_buttons_check c m s) = relay_malfunction s"
  by (simp_all add: hyundai_common_cruise_state_check_def hyundai_common_cruise_buttons_check_def Let_def)

lemma hyundai_rx_frame: "rx_frame (hyundai_rx_hook p s) = rx_frame s"
  by (simp only: hyundai_rx_hook_def frame_simps let_values if_cancel)

lemma hyundai_rx_relay: "relay_malfunction s \<Longrightarrow> relay_malfunction (hyundai_rx_hook p s)"
  unfolding hyundai_rx_hook_def let_values by (intro relay_intros) simp_all

lemma hyundai_tx_frame: "tx_frame (snd (hyundai_tx_hook p s)) = tx_frame s"
  by (simp only: hyundai_tx_hook_def frame_simps let_values if_cancel)

lemma hyundai_fwd: "0 \<le> b \<Longrightarrow> hyundai_fwd_hook s b a \<in> {- 1, 0, 1, 2} \<and> hyundai_fwd_hook s b a \<noteq> b"
  by (simp add: hyundai_fwd_hook_def Let_def)

lemma hyundai_gated:
  assumes "fst (hyundai_tx_hook p s)" and "hyundai_actuates p s"
  shows "controls_allowed s"
proof (rule ccontr)
  assume n: "\<not> controls_allowed s"
  have i: "inactive_accel HYUNDAI_LONG_LIMITS = 0"
    by (simp add: HYUNDAI_LONG_LIMITS_def LongitudinalLimits_0_def)
  from assms(2) consider "GET_ADDR p = 0x340" | "GET_ADDR p = 0x421" | "GET_ADDR p = 0x38D"
    by (auto simp: hyundai_actuates_def)
  then show False using assms n
    by cases (simp_all only: hyundai_tx_hook_def hyundai_actuates_def Let_def
        case_prod_beta gate_simps i fst_conv snd_conv if_True if_False simp_thms if_cancel,
        simp_all add: gate_simps i split: if_splits)
qed

lemma hyundai_common_init_config: "config_of (hyundai_common_init b prm s) = config_of s"
  by (simp add: hyundai_common_init_def Let_def config_of_def)

lemma hyundai_init_ok:
  "config_ok (fst (hyundai_init b prm s))" "config_ok (fst (hyundai_legacy_init b prm s))"
  by (simp_all add: hyundai_init_def hyundai_legacy_init_def Let_def HYUNDAI_COMMON_RX_CHECKS_def
      HYUNDAI_SCC12_ADDR_CHECK_def)

lemma hyundai_init_frame:
  "config_of (snd (hyundai_init b prm s)) = config_of s"
  "config_of (snd (hyundai_legacy_init b prm s)) = config_of s"
  using hyundai_common_init_config [of b prm s]
  by (simp_all add: hyundai_init_def hyundai_legacy_init_def Let_def config_of_def)

interpretation hyundai: safety_mode "hyundai_hooks b" hyundai_actuates
  by unfold_locales
    (simp_all add: hyundai_hooks_def hyundai_rx_frame hyundai_rx_relay hyundai_tx_frame hyundai_fwd
      hyundai_gated hyundai_init_ok hyundai_init_frame del: insert_iff)

interpretation hyundai_legacy: safety_mode "hyundai_legacy_hooks b" hyundai_actuates
  by unfold_locales
    (simp_all add: hyundai_legacy_hooks_def hyundai_hooks_def hyundai_rx_frame hyundai_rx_relay
      hyundai_tx_frame hyundai_fwd hyundai_gated hyundai_init_ok hyundai_init_frame del: insert_iff)

end
