(* ===== verification/Mode_Hyundai_Canfd.thy ===== *)
theory Mode_Hyundai_Canfd
  imports Mode_Hyundai
begin

text \<open>The Hyundai CAN FD mode, \<^verbatim>\<open>board/safety/safety_hyundai_canfd.h\<close>.\<close>

section \<open>Configuration\<close>

definition CANFD_CHK :: "int \<Rightarrow> int \<Rightarrow> int \<Rightarrow> u32 \<Rightarrow> CanMsgCheck" where
  "CANFD_CHK a b l f = (CHK a b l f)\<lparr>check_checksum := True, max_counter := 0xff\<rparr>"

definition HYUNDAI_CANFD_COMMON_RX_CHECKS :: "int \<Rightarrow> RxCheck list" where
  "HYUNDAI_CANFD_COMMON_RX_CHECKS pt_bus =
     [RX [CANFD_CHK 0x35 pt_bus 32 100, CANFD_CHK 0x100 pt_bus 32 100, CANFD_CHK 0x105 pt_bus 32 100],
      RX [CANFD_CHK 0x175 pt_bus 24 50],
      RX [CANFD_CHK 0xa0 pt_bus 24 100],
      RX [CANFD_CHK 0xea pt_bus 24 100]]"

definition HYUNDAI_CANFD_BUTTONS_ADDR_CHECK :: "int \<Rightarrow> RxCheck list" where
  "HYUNDAI_CANFD_BUTTONS_ADDR_CHECK pt_bus = [RX [(CHK 0x1cf pt_bus 8 50)\<lparr>max_counter := 0xf\<rparr>]]"

definition HYUNDAI_CANFD_ALT_BUTTONS_ADDR_CHECK :: "int \<Rightarrow> RxCheck list" where
  "HYUNDAI_CANFD_ALT_BUTTONS_ADDR_CHECK pt_bus = [RX [(CHK 0x1aa pt_bus 16 50)\<lparr>max_counter := 0xff\<rparr>]]"

definition HYUNDAI_CANFD_SCC_ADDR_CHECK :: "int \<Rightarrow> RxCheck list" where
  "HYUNDAI_CANFD_SCC_ADDR_CHECK scc_bus = [RX [CANFD_CHK 0x1a0 scc_bus 32 50]]"

definition hyundai_canfd_hda2_get_lkas_addr :: "'a st \<Rightarrow> int" where
  "hyundai_canfd_hda2_get_lkas_addr s = (if hyundai_canfd_hda2_alt_steering s then 0x110 else 0x50)"

section \<open>Checksum and counter\<close>

definition hyundai_canfd_get_counter :: "CANPacket_t \<Rightarrow> u8" where
  "hyundai_canfd_get_counter to_push =
     (if GET_LEN to_push = 8 then drop_bit 4 (GET_BYTE to_push 1) else GET_BYTE to_push 2)"

definition hyundai_canfd_get_checksum :: "CANPacket_t \<Rightarrow> u32" where
  "hyundai_canfd_get_checksum to_push =
     ucast (GET_BYTE to_push 0) OR push_bit 8 (ucast (GET_BYTE to_push 1))"

section \<open>Hooks\<close>

definition hyundai_canfd_rx_hook :: "CANPacket_t \<Rightarrow> 'a st \<Rightarrow> 'a st" where
  "hyundai_canfd_rx_hook to_push s =
     (let bus = GET_BUS to_push;
          addr = GET_ADDR to_push;
          pt_bus = (if hyundai_canfd_hda2 s then 1 else 0);
          scc_bus = (if hyundai_camera_scc s then 2 else pt_bus);
          s = (if bus = pt_bus then
             let s = (if addr = 0xea then
                   let torque_driver_new = push_bit 8 (BYTE to_push 11 AND 0x1f) OR BYTE to_push 10;
                       torque_driver_new = torque_driver_new - 4095
                   in s\<lparr>torque_driver := update_sample (torque_driver s) torque_driver_new\<rparr>
                 else s);
                 button_addr = (if hyundai_canfd_alt_buttons s then 0x1aa else 0x1cf);
                 s = (if addr = button_addr then
                   let main_button = (if addr = 0x1cf then GET_BIT to_push 19 else GET_BIT to_push 34);
                       cruise_button = (if addr = 0x1cf then BYTE to_push 2 AND 0x7
                                        else drop_bit 4 (BYTE to_push 4) AND 0x7)
                   in hyundai_common_cruise_buttons_check cruise_button main_button s
                 else s);
                 s = (if addr = 0x35 \<and> hyundai_ev_gas_signal s
                   then s\<lparr>gas_pressed := GET_BYTE to_push 5 \<noteq> 0\<rparr>
                   else if addr = 0x105 \<and> hyundai_hybrid_gas_signal s
                   then s\<lparr>gas_pressed := GET_BIT to_push 103 \<or> GET_BYTE to_push 13 \<noteq> 0 \<or> GET_BIT to_push 112\<rparr>
                   else if addr = 0x100 \<and> \<not> hyundai_ev_gas_signal s \<and> \<not> hyundai_hybrid_gas_signal s
                   then s\<lparr>gas_pressed := GET_BIT to_push 176\<rparr>
                   else s);
                 s = (if addr = 0x175 then s\<lparr>brake_pressed := GET_BIT to_push 81\<rparr> else s);
                 s = (if addr = 0xa0 then
                   let front_left_speed = GET_BYTES to_push 8 2;
                       rear_right_speed = GET_BYTES to_push 14 2
                   in s\<lparr>vehicle_moving := front_left_speed > HYUNDAI_STANDSTILL_THRSLD \<or>
                                         rear_right_speed > HYUNDAI_STANDSTILL_THRSLD\<rparr>
                 else s)
             in s
           else s);
          s = (if bus = scc_bus then
                 if addr = 0x1a0 \<and> \<not> hyundai_longitudinal s then
                   let cruise_status = drop_bit 4 (BYTE to_push 8) AND 0x7;
                       cruise_engaged = (cruise_status = 1 \<or> cruise_status = 2)
                   in hyundai_common_cruise_state_check cruise_engaged s
                 else s
               else s);
          steer_addr = (if hyundai_canfd_hda2 s then hyundai_canfd_hda2_get_lkas_addr s else 0x12a);
          stock_ecu_detected = (addr = steer_addr \<and> bus = 0);
          stock_scc_bus = (if hyundai_canfd_hda2 s then 1 else 0);
          stock_ecu_detected =
            (if hyundai_longitudinal s
             then stock_ecu_detected \<or> (addr = 0x1a0 \<and> bus = stock_scc_bus)
             else stock_ecu_detected)
      in generic_rx_checks stock_ecu_detected s)"

definition HYUNDAI_CANFD_STEERING_LIMITS :: SteeringLimits where
  "HYUNDAI_CANFD_STEERING_LIMITS = SteeringLimits_0
     \<lparr>max_steer := 270, max_rt_delta := 112, max_rt_interval := 250000, max_rate_up := 2,
      max_rate_down := 3, driver_torque_allowance := 250, driver_torque_factor := 2,
      sl_type := TorqueDriverLimited, min_valid_request_frames := 89,
      max_invalid_request_frames := 2, min_valid_request_rt_interval := 810000,
      has_steer_req_tolerance := True\<rparr>"

definition canfd_steer_addr :: "'a st \<Rightarrow> int" where
  "canfd_steer_addr s = (if hyundai_canfd_hda2 s \<and> \<not> hyundai_longitudinal s
     then hyundai_canfd_hda2_get_lkas_addr s else 0x12a)"

definition hyundai_canfd_tx_hook :: "CANPacket_t \<Rightarrow> 'a st \<Rightarrow> bool \<times> 'a st" where
  "hyundai_canfd_tx_hook to_send s =
     (let tx = True;
          addr = GET_ADDR to_send;
          steer_addr = canfd_steer_addr s;
          (tx, s) = (if addr = steer_addr then
                  let desired_torque = sint (word_of_int
                        (push_bit 7 (BYTE to_send 6 AND 0xF) OR drop_bit 1 (BYTE to_send 5)) - 1024 :: u32);
                      steer_req = GET_BIT to_send 52;
                      (violation, s) = steer_torque_cmd_checks desired_torque (int_of_bool steer_req)
                                         HYUNDAI_CANFD_STEERING_LIMITS s
                  in (if violation then False else tx, s)
                else (tx, s));
          tx = (if addr = 0x1cf then
                  let button = BYTE to_send 2 AND 0x7;
                      is_cancel = (button = HYUNDAI_BTN_CANCEL);
                      is_resume = (button = HYUNDAI_BTN_RESUME);
                      allowed = (is_cancel \<and> cruise_engaged_prev s \<or> is_resume \<and> controls_allowed s)
                  in if \<not> allowed then False else tx
                else tx);
          tx = (if addr = 0x730 \<and> hyundai_canfd_hda2 s then
                  if GET_BYTES to_send 0 4 \<noteq> 0x00803E02 \<or> GET_BYTES to_send 4 4 \<noteq> 0 then False else tx
                else tx);
          tx = (if addr = 0x1a0 then
                  let desired_accel_raw = sint (word_of_int
                        (push_bit 8 (BYTE to_send 17 AND 0x7) OR BYTE to_send 16) - 1023 :: u32);
                      desired_accel_val = sint (word_of_int
                        (push_bit 4 (BYTE to_send 18) OR drop_bit 4 (BYTE to_send 17)) - 1023 :: u32);
                      violation = False;
                      violation =
                        (if hyundai_longitudinal s
                         then violation \<or> longitudinal_accel_checks desired_accel_raw HYUNDAI_LONG_LIMITS s \<or>
                              longitudinal_accel_checks desired_accel_val HYUNDAI_LONG_LIMITS s
                         else if desired_accel_raw \<noteq> 0 \<or> desired_accel_val \<noteq> 0 then True
                         else violation)
                  in if violation then False else tx
                else tx)
      in (tx, s))"

definition hyundai_canfd_fwd_hook :: "'a st \<Rightarrow> int \<Rightarrow> int \<Rightarrow> int" where
  "hyundai_canfd_fwd_hook s bus_num addr =
     (let bus_fwd = - 1;
          bus_fwd = (if bus_num = 0 then 2 else bus_fwd)
      in if bus_num = 2 then
           let hda2_lfa_block_addr = (if hyundai_canfd_hda2_alt_steering s then 0x362 else 0x2a4);
               is_lkas_msg = ((addr = hyundai_canfd_hda2_get_lkas_addr s \<or> addr = hda2_lfa_block_addr) \<and>
                              hyundai_canfd_hda2 s);
               is_lfa_msg = (addr = 0x12a \<and> \<not> hyundai_canfd_hda2 s);
               is_lfahda_msg = (addr = 0x1e0 \<and> \<not> hyundai_canfd_hda2 s);
               is_scc_msg = (addr = 0x1a0 \<and> hyundai_longitudinal s \<and> \<not> hyundai_canfd_hda2 s);
               block_msg = (is_lkas_msg \<or> is_lfa_msg \<or> is_lfahda_msg \<or> is_scc_msg)
           in if \<not> block_msg then 0 else bus_fwd
         else bus_fwd)"

definition HYUNDAI_CANFD_HDA2_TX_MSGS :: "CanMsg list" where
  "HYUNDAI_CANFD_HDA2_TX_MSGS = [MSG 0x50 0 16, MSG 0x1CF 1 8, MSG 0x2A4 0 24]"

definition HYUNDAI_CANFD_HDA2_ALT_STEERING_TX_MSGS :: "CanMsg list" where
  "HYUNDAI_CANFD_HDA2_ALT_STEERING_TX_MSGS = [MSG 0x110 0 32, MSG 0x1CF 1 8, MSG 0x362 0 32]"

definition HYUNDAI_CANFD_HDA2_LONG_TX_MSGS :: "CanMsg list" where
  "HYUNDAI_CANFD_HDA2_LONG_TX_MSGS =
     [MSG 0x50 0 16, MSG 0x1CF 1 8, MSG 0x2A4 0 24, MSG 0x51 0 32, MSG 0x730 1 8, MSG 0x12A 1 16,
      MSG 0x160 1 16, MSG 0x1E0 1 16, MSG 0x1A0 1 32, MSG 0x1EA 1 32, MSG 0x200 1 8, MSG 0x345 1 8,
      MSG 0x1DA 1 32]"

definition HYUNDAI_CANFD_HDA1_TX_MSGS :: "CanMsg list" where
  "HYUNDAI_CANFD_HDA1_TX_MSGS = [MSG 0x12A 0 16, MSG 0x1A0 0 32, MSG 0x1CF 2 8, MSG 0x1E0 0 16]"

definition hyundai_canfd_init :: "build_flags \<Rightarrow> u16 \<Rightarrow> 'a st \<Rightarrow> safety_config \<times> 'a st" where
  "hyundai_canfd_init build param s =
     (let HYUNDAI_PARAM_CANFD_HDA2_ALT_STEERING = 128;
          HYUNDAI_PARAM_CANFD_ALT_BUTTONS = 32;
          s = hyundai_common_init build param s;
          s = s\<lparr>hyundai_canfd_crc_lut := gen_crc_lookup_table_16 0x1021\<rparr>;
          s = s\<lparr>hyundai_canfd_alt_buttons := GET_FLAG (ucast param :: u32) HYUNDAI_PARAM_CANFD_ALT_BUTTONS\<rparr>;
          s = s\<lparr>hyundai_canfd_hda2_alt_steering :=
                  GET_FLAG (ucast param :: u32) HYUNDAI_PARAM_CANFD_HDA2_ALT_STEERING\<rparr>;
          s = (if \<not> hyundai_canfd_hda2 s \<and> \<not> hyundai_camera_scc s
               then s\<lparr>hyundai_longitudinal := False\<rparr> else s);
          ret = (if hyundai_longitudinal s then
                   if hyundai_canfd_hda2 s
                   then BUILD_SAFETY_CFG (HYUNDAI_CANFD_COMMON_RX_CHECKS 1 @ HYUNDAI_CANFD_BUTTONS_ADDR_CHECK 1)
                     HYUNDAI_CANFD_HDA2_LONG_TX_MSGS
                   else if hyundai_canfd_alt_buttons s
                   then BUILD_SAFETY_CFG (HYUNDAI_CANFD_COMMON_RX_CHECKS 0 @ HYUNDAI_CANFD_ALT_BUTTONS_ADDR_CHECK 0)
                     HYUNDAI_CANFD_HDA1_TX_MSGS
                   else BUILD_SAFETY_CFG (HYUNDAI_CANFD_COMMON_RX_CHECKS 0 @ HYUNDAI_CANFD_BUTTONS_ADDR_CHECK 0)
                     HYUNDAI_CANFD_HDA1_TX_MSGS
                 else if hyundai_canfd_hda2 s then
                   BUILD_SAFETY_CFG (HYUNDAI_CANFD_COMMON_RX_CHECKS 1 @ HYUNDAI_CANFD_BUTTONS_ADDR_CHECK 1 @
                                     HYUNDAI_CANFD_SCC_ADDR_CHECK 1)
                     (if hyundai_canfd_hda2_alt_steering s then HYUNDAI_CANFD_HDA2_ALT_STEERING_TX_MSGS
                      else HYUNDAI_CANFD_HDA2_TX_MSGS)
                 else if \<not> hyundai_camera_scc s then
                   BUILD_SAFETY_CFG (HYUNDAI_CANFD_COMMON_RX_CHECKS 0 @
                     (if hyundai_canfd_alt_buttons s then HYUNDAI_CANFD_ALT_BUTTONS_ADDR_CHECK 0
                      else HYUNDAI_CANFD_BUTTONS_ADDR_CHECK 0) @ HYUNDAI_CANFD_SCC_ADDR_CHECK 0)
                     HYUNDAI_CANFD_HDA1_TX_MSGS
                 else
                   BUILD_SAFETY_CFG (HYUNDAI_CANFD_COMMON_RX_CHECKS 0 @
                     (if hyundai_canfd_alt_buttons s then HYUNDAI_CANFD_ALT_BUTTONS_ADDR_CHECK 0
                      else HYUNDAI_CANFD_BUTTONS_ADDR_CHECK 0) @ HYUNDAI_CANFD_SCC_ADDR_CHECK 2)
                     HYUNDAI_CANFD_HDA1_TX_MSGS)
      in (ret, s))"

definition hyundai_canfd_hooks :: "build_flags \<Rightarrow> 'a st safety_hooks" where
  "hyundai_canfd_hooks build = \<lparr>h_init = hyundai_canfd_init build, h_rx = hyundai_canfd_rx_hook,
     h_tx = hyundai_canfd_tx_hook, h_fwd = hyundai_canfd_fwd_hook,
     h_get_checksum = Some hyundai_canfd_get_checksum,
     h_compute_checksum = Some hyundai_common_canfd_compute_checksum,
     h_get_counter = Some hyundai_canfd_get_counter, h_get_quality_flag_valid = None\<rparr>"

section \<open>The contract\<close>

text \<open>A torque in the steering message of the configuration, an acceleration, the resume button.
  With longitudinal control on HDA2 the hook takes 0x12A for the steering message, and the message 0x50 (or
  0x110), which the white list also lets through, is not looked into: it is no actuation here, and
  \<open>hyundai_canfd_lkas_unchecked\<close> says that it passes whatever it commands.\<close>

definition hyundai_canfd_actuates :: "CANPacket_t \<Rightarrow> 'a st \<Rightarrow> bool" where
  "hyundai_canfd_actuates p s \<longleftrightarrow>
     GET_ADDR p = canfd_steer_addr s \<and>
       sint (word_of_int (push_bit 7 (BYTE p 6 AND 0xF) OR drop_bit 1 (BYTE p 5)) - 1024 :: u32) \<noteq> 0 \<or>
     GET_ADDR p = 0x1a0 \<and>
       (sint (word_of_int (push_bit 8 (BYTE p 17 AND 0x7) OR BYTE p 16) - 1023 :: u32) \<noteq> 0 \<or>
        sint (word_of_int (push_bit 4 (BYTE p 18) OR drop_bit 4 (BYTE p 17)) - 1023 :: u32) \<noteq> 0) \<or>
     GET_ADDR p = 0x1cf \<and> BYTE p 2 AND 0x7 = HYUNDAI_BTN_RESUME"

lemma hyundai_canfd_rx_frame: "rx_frame (hyundai_canfd_rx_hook p s) = rx_frame s"
  by (simp only: hyundai_canfd_rx_hook_def frame_simps let_values if_cancel)

lemma hyundai_canfd_rx_relay: "relay_malfunction s \<Longrightarrow> relay_malfunction (hyundai_canfd_rx_hook p s)"
  unfolding hyundai_canfd_rx_hook_def let_values by (intro relay_intros) simp_all

lemma hyundai_canfd_tx_frame: "tx_frame (snd (hyundai_canfd_tx_hook p s)) = tx_frame s"
  by (simp only: hyundai_canfd_tx_hook_def frame_simps let_values if_cancel)

lemma hyundai_canfd_fwd:
  "0 \<le> b \<Longrightarrow> hyundai_canfd_fwd_hook s b a \<in> {- 1, 0, 1, 2} \<and> hyundai_canfd_fwd_hook s b a \<noteq> b"
  by (auto simp: hyundai_canfd_fwd_hook_def Let_def)

lemma torque_steps_longitudinal:
  "hyundai_longitudinal (snd (torque_limits_step t lm ts s)) = hyundai_longitudinal s"
  "hyundai_longitudinal (snd (steer_req_step t r lm ts v s)) = hyundai_longitudinal s"
  "hyundai_longitudinal (torque_reset_step ts v s) = hyundai_longitudinal s"
  by (simp_all add: torque_limits_step_def steer_req_step_def torque_reset_step_def Let_def)

lemma steer_torque_longitudinal:
  "hyundai_longitudinal (snd (steer_torque_cmd_checks t r lm s)) = hyundai_longitudinal s"
  by (simp add: steer_torque_cmd_checks_def Let_def case_prod_beta torque_steps_longitudinal)

lemma hyundai_canfd_gated:
  assumes "fst (hyundai_canfd_tx_hook p s)" and "hyundai_canfd_actuates p s"
  shows "controls_allowed s"
proof (rule ccontr)
  assume n: "\<not> controls_allowed s"
  have i: "inactive_accel HYUNDAI_LONG_LIMITS = 0"
    by (simp add: HYUNDAI_LONG_LIMITS_def LongitudinalLimits_0_def)
  have a: "canfd_steer_addr s \<noteq> 0x1a0" "canfd_steer_addr s \<noteq> 0x1cf"
    by (simp_all add: canfd_steer_addr_def hyundai_canfd_hda2_get_lkas_addr_def)
  have c: "controls_allowed (snd (steer_torque_cmd_checks t r lm s)) = controls_allowed s" for t r lm
    using tx_frame_D [OF tx_frame_steer_torque_cmd_checks] by blast
  from assms(2) consider "GET_ADDR p = canfd_steer_addr s"
      "sint (word_of_int (push_bit 7 (BYTE p 6 AND 0xF) OR drop_bit 1 (BYTE p 5)) - 1024 :: u32) \<noteq> 0"
    | "GET_ADDR p = 0x1a0" "GET_ADDR p \<noteq> canfd_steer_addr s"
      "sint (word_of_int (push_bit 8 (BYTE p 17 AND 0x7) OR BYTE p 16) - 1023 :: u32) \<noteq> 0 \<or>
       sint (word_of_int (push_bit 4 (BYTE p 18) OR drop_bit 4 (BYTE p 17)) - 1023 :: u32) \<noteq> 0"
    | "GET_ADDR p = 0x1cf" "GET_ADDR p \<noteq> canfd_steer_addr s" "BYTE p 2 AND 0x7 = HYUNDAI_BTN_RESUME"
    unfolding hyundai_canfd_actuates_def using a by metis
  then show False
  proof cases
    case 1
    let ?V = "fst (steer_torque_cmd_checks (sint (word_of_int (push_bit 7 (BYTE p 6 AND 0xF) OR
      drop_bit 1 (BYTE p 5)) - 1024 :: u32)) (int_of_bool (GET_BIT p 52)) HYUNDAI_CANFD_STEERING_LIMITS s)"
    have "?V" by (rule iffD2 [OF steer_torque_gate [OF n] 1(2)])
    moreover have "\<not> ?V"
      using assms(1) unfolding hyundai_canfd_tx_hook_def Let_def case_prod_beta if_P [OF 1(1)]
      by (metis (no_types, lifting) fst_conv)
    ultimately show False by blast
  next
    case 2
    show False
      using assms(1) 2(3) n
      unfolding hyundai_canfd_tx_hook_def Let_def case_prod_beta if_not_P [OF 2(2)] fst_conv snd_conv
        if_P [OF 2(1)]
      by (cases "hyundai_longitudinal s") (auto simp: gate_simps i split: if_splits)
  next
    case 3
    show False
      using assms(1) 3(1,3) n
      unfolding hyundai_canfd_tx_hook_def Let_def case_prod_beta if_not_P [OF 3(2)] fst_conv snd_conv
      by simp
  qed
qed

lemma hyundai_canfd_lkas_unchecked:
  assumes "hyundai_canfd_hda2 s" "hyundai_longitudinal s" "GET_ADDR p \<in> {0x50, 0x110}"
  shows "hyundai_canfd_tx_hook p s = (True, s)"
  using assms by (auto simp: hyundai_canfd_tx_hook_def canfd_steer_addr_def Let_def)

lemma hyundai_canfd_init_ok:
  "config_ok (fst (hyundai_canfd_init b prm s))"
  by (simp add: hyundai_canfd_init_def Let_def HYUNDAI_CANFD_COMMON_RX_CHECKS_def CANFD_CHK_def
      HYUNDAI_CANFD_BUTTONS_ADDR_CHECK_def HYUNDAI_CANFD_ALT_BUTTONS_ADDR_CHECK_def
      HYUNDAI_CANFD_SCC_ADDR_CHECK_def)

lemma hyundai_canfd_init_frame: "config_of (snd (hyundai_canfd_init b prm s)) = config_of s"
  using hyundai_common_init_config [of b prm s]
  by (simp add: hyundai_canfd_init_def Let_def config_of_def)

interpretation hyundai_canfd: safety_mode "hyundai_canfd_hooks b" hyundai_canfd_actuates
  by unfold_locales
    (simp_all add: hyundai_canfd_hooks_def hyundai_canfd_rx_frame hyundai_canfd_rx_relay
      hyundai_canfd_tx_frame hyundai_canfd_fwd hyundai_canfd_gated hyundai_canfd_init_ok
      hyundai_canfd_init_frame del: insert_iff)

end
