(* ===== verification/Safety_Hooks.thy ===== *)
theory Safety_Hooks
  imports Rx_Validity Mode_Defaults Mode_Toyota Mode_Honda Mode_Gm Mode_Ford Mode_Chrysler Mode_Nissan
    Mode_Tesla Mode_Subaru Mode_Mazda Mode_Volkswagen Mode_Hyundai_Canfd
begin

text \<open>
  The dispatcher of \<^verbatim>\<open>board/safety.h\<close>: the mode numbers, the registry, the switch
  of mode, and the four entry points the rest of the firmware calls. The contract of a mode
  is discharged for every table a hook pointer can select.
\<close>

section \<open>The mode numbers\<close>

definition SAFETY_SILENT :: u16 where "SAFETY_SILENT = 0"
definition SAFETY_HONDA_NIDEC :: u16 where "SAFETY_HONDA_NIDEC = 1"
definition SAFETY_TOYOTA :: u16 where "SAFETY_TOYOTA = 2"
definition SAFETY_ELM327 :: u16 where "SAFETY_ELM327 = 3"
definition SAFETY_GM :: u16 where "SAFETY_GM = 4"
definition SAFETY_FORD :: u16 where "SAFETY_FORD = 6"
definition SAFETY_HYUNDAI :: u16 where "SAFETY_HYUNDAI = 8"
definition SAFETY_CHRYSLER :: u16 where "SAFETY_CHRYSLER = 9"
definition SAFETY_TESLA :: u16 where "SAFETY_TESLA = 10"
definition SAFETY_SUBARU :: u16 where "SAFETY_SUBARU = 11"
definition SAFETY_MAZDA :: u16 where "SAFETY_MAZDA = 13"
definition SAFETY_NISSAN :: u16 where "SAFETY_NISSAN = 14"
definition SAFETY_VOLKSWAGEN_MQB :: u16 where "SAFETY_VOLKSWAGEN_MQB = 15"
definition SAFETY_ALLOUTPUT :: u16 where "SAFETY_ALLOUTPUT = 17"
definition SAFETY_NOOUTPUT :: u16 where "SAFETY_NOOUTPUT = 19"
definition SAFETY_HONDA_BOSCH :: u16 where "SAFETY_HONDA_BOSCH = 20"
definition SAFETY_VOLKSWAGEN_PQ :: u16 where "SAFETY_VOLKSWAGEN_PQ = 21"
definition SAFETY_SUBARU_PREGLOBAL :: u16 where "SAFETY_SUBARU_PREGLOBAL = 22"
definition SAFETY_HYUNDAI_LEGACY :: u16 where "SAFETY_HYUNDAI_LEGACY = 23"
definition SAFETY_BODY :: u16 where "SAFETY_BODY = 27"
definition SAFETY_HYUNDAI_CANFD :: u16 where "SAFETY_HYUNDAI_CANFD = 28"

lemmas safety_mode_ids =
  SAFETY_SILENT_def SAFETY_HONDA_NIDEC_def SAFETY_TOYOTA_def SAFETY_ELM327_def SAFETY_GM_def
  SAFETY_FORD_def SAFETY_HYUNDAI_def SAFETY_CHRYSLER_def SAFETY_TESLA_def SAFETY_SUBARU_def
  SAFETY_MAZDA_def SAFETY_NISSAN_def SAFETY_VOLKSWAGEN_MQB_def SAFETY_ALLOUTPUT_def
  SAFETY_NOOUTPUT_def SAFETY_HONDA_BOSCH_def SAFETY_VOLKSWAGEN_PQ_def SAFETY_SUBARU_PREGLOBAL_def
  SAFETY_HYUNDAI_LEGACY_def SAFETY_BODY_def SAFETY_HYUNDAI_CANFD_def

section \<open>The registry\<close>

text \<open>What a hook pointer points to.\<close>

fun hooks_of :: "build_flags \<Rightarrow> hooks_ref \<Rightarrow> 'a st safety_hooks" where
  "hooks_of b Nooutput_hooks = nooutput_hooks"
| "hooks_of b Alloutput_hooks = alloutput_hooks"
| "hooks_of b Elm327_hooks = elm327_hooks"
| "hooks_of b Body_hooks = body_hooks"
| "hooks_of b Toyota_hooks = toyota_hooks"
| "hooks_of b Honda_nidec_hooks = honda_nidec_hooks"
| "hooks_of b Honda_bosch_hooks = honda_bosch_hooks b"
| "hooks_of b Gm_hooks = gm_hooks b"
| "hooks_of b Ford_hooks = ford_hooks b"
| "hooks_of b Hyundai_hooks = hyundai_hooks b"
| "hooks_of b Hyundai_legacy_hooks = hyundai_legacy_hooks b"
| "hooks_of b Hyundai_canfd_hooks = hyundai_canfd_hooks b"
| "hooks_of b Chrysler_hooks = chrysler_hooks b"
| "hooks_of b Tesla_hooks = tesla_hooks"
| "hooks_of b Subaru_hooks = subaru_hooks b"
| "hooks_of b Subaru_preglobal_hooks = subaru_preglobal_hooks"
| "hooks_of b Mazda_hooks = mazda_hooks"
| "hooks_of b Nissan_hooks = nissan_hooks"
| "hooks_of b Volkswagen_mqb_hooks = volkswagen_mqb_hooks b"
| "hooks_of b Volkswagen_pq_hooks = volkswagen_pq_hooks b"

text \<open>The frames of each mode that command an actuator.\<close>

fun actuates_of :: "hooks_ref \<Rightarrow> CANPacket_t \<Rightarrow> 'a st \<Rightarrow> bool" where
  "actuates_of Nooutput_hooks = (\<lambda>p s. True)"
| "actuates_of Alloutput_hooks = (\<lambda>p s. False)"
| "actuates_of Elm327_hooks = elm327_foreign"
| "actuates_of Body_hooks = body_actuates"
| "actuates_of Toyota_hooks = toyota_actuates"
| "actuates_of Honda_nidec_hooks = honda_actuates"
| "actuates_of Honda_bosch_hooks = honda_actuates"
| "actuates_of Gm_hooks = gm_actuates"
| "actuates_of Ford_hooks = ford_actuates"
| "actuates_of Hyundai_hooks = hyundai_actuates"
| "actuates_of Hyundai_legacy_hooks = hyundai_actuates"
| "actuates_of Hyundai_canfd_hooks = hyundai_canfd_actuates"
| "actuates_of Chrysler_hooks = chrysler_actuates"
| "actuates_of Tesla_hooks = tesla_actuates"
| "actuates_of Subaru_hooks = subaru_actuates"
| "actuates_of Subaru_preglobal_hooks = subaru_preglobal_actuates"
| "actuates_of Mazda_hooks = mazda_actuates"
| "actuates_of Nissan_hooks = nissan_actuates"
| "actuates_of Volkswagen_mqb_hooks = volkswagen_mqb_actuates"
| "actuates_of Volkswagen_pq_hooks = volkswagen_pq_actuates"

definition safety_hook_registry :: "build_flags \<Rightarrow> (u16 \<times> hooks_ref) list" where
  "safety_hook_registry b =
     [(SAFETY_SILENT, Nooutput_hooks), (SAFETY_HONDA_NIDEC, Honda_nidec_hooks),
      (SAFETY_TOYOTA, Toyota_hooks), (SAFETY_ELM327, Elm327_hooks), (SAFETY_GM, Gm_hooks),
      (SAFETY_HONDA_BOSCH, Honda_bosch_hooks), (SAFETY_HYUNDAI, Hyundai_hooks),
      (SAFETY_CHRYSLER, Chrysler_hooks), (SAFETY_SUBARU, Subaru_hooks),
      (SAFETY_VOLKSWAGEN_MQB, Volkswagen_mqb_hooks), (SAFETY_NISSAN, Nissan_hooks),
      (SAFETY_NOOUTPUT, Nooutput_hooks), (SAFETY_HYUNDAI_LEGACY, Hyundai_legacy_hooks),
      (SAFETY_MAZDA, Mazda_hooks), (SAFETY_BODY, Body_hooks), (SAFETY_FORD, Ford_hooks)] @
     (if CANFD b then [(SAFETY_HYUNDAI_CANFD, Hyundai_canfd_hooks)] else []) @
     (if ALLOW_DEBUG b
      then [(SAFETY_TESLA, Tesla_hooks), (SAFETY_SUBARU_PREGLOBAL, Subaru_preglobal_hooks),
            (SAFETY_VOLKSWAGEN_PQ, Volkswagen_pq_hooks), (SAFETY_ALLOUTPUT, Alloutput_hooks)]
      else [])"

section \<open>The switch of mode\<close>

text \<open>The loop does not stop at the first match.\<close>

fun select_hooks :: "(u16 \<times> hooks_ref) list \<Rightarrow> u16 \<Rightarrow> u16 \<Rightarrow> int \<Rightarrow> 'a safety_scheme \<Rightarrow> int \<times> 'a safety_scheme" where
  "select_hooks [] mode param set_status s = (set_status, s)"
| "select_hooks ((i, h) # reg) mode param set_status s =
     (if i = mode
      then select_hooks reg mode param 0
             (s\<lparr>current_hooks := h, current_safety_mode := mode, current_safety_param := param\<rparr>)
      else select_hooks reg mode param set_status s)"

definition reset_mode_state :: "'a safety_scheme \<Rightarrow> 'a safety_scheme" where
  "reset_mode_state s =
     (let s = s\<lparr>safety_mode_cnt := 0, relay_malfunction := False, gas_pressed := False,
            gas_pressed_prev := False, brake_pressed := False, brake_pressed_prev := False,
            regen_braking := False, regen_braking_prev := False, cruise_engaged_prev := False,
            vehicle_moving := False, acc_main_on := False, cruise_button_prev := 0,
            desired_torque_last := 0, rt_torque_last := 0, ts_angle_last := 0,
            desired_angle_last := 0, ts_torque_check_last := 0, ts_steer_req_mismatch_last := 0,
            valid_steer_req_count := 0, invalid_steer_req_count := 0\<rparr>;
          s = s\<lparr>vehicle_speed := reset_sample (vehicle_speed s), torque_meas := reset_sample (torque_meas s),
            torque_driver := reset_sample (torque_driver s), angle_meas := reset_sample (angle_meas s)\<rparr>;
          s = relay_malfunction_reset (s\<lparr>controls_allowed := False\<rparr>)
      in s\<lparr>safety_rx_checks_invalid := False,
            current_safety_config := \<lparr>rx_checks = [], tx_msgs = []\<rparr>\<rparr>)"

definition set_safety_hooks :: "build_flags \<Rightarrow> u16 \<Rightarrow> u16 \<Rightarrow> 'a st \<Rightarrow> int \<times> 'a st" where
  "set_safety_hooks b mode param s =
     (let s = reset_mode_state s;
          (set_status, s) = select_hooks (safety_hook_registry b) mode param (- 1) s
      in if set_status = 0
         then let (cfg, s) = h_init (hooks_of b (current_hooks s)) param s
              in (set_status,
                  s\<lparr>current_safety_config :=
                      cfg\<lparr>rx_checks := map (\<lambda>c. c\<lparr>rc_status := RxStatus_0\<rparr>) (rx_checks cfg)\<rparr>\<rparr>)
         else (set_status, s))"

section \<open>The entry points\<close>

definition safety_rx_hook :: "build_flags \<Rightarrow> CANPacket_t \<Rightarrow> 'a st \<Rightarrow> bool \<times> 'a st" where
  "safety_rx_hook b to_push s = rx_gate (hooks_of b (current_hooks s)) to_push s"

definition safety_tx_hook :: "build_flags \<Rightarrow> CANPacket_t \<Rightarrow> 'a st \<Rightarrow> bool \<times> 'a st" where
  "safety_tx_hook b to_send s =
     (let whitelisted = msg_allowed to_send (tx_msgs (current_safety_config s));
          whitelisted = (if current_safety_mode s = SAFETY_ALLOUTPUT \<or> current_safety_mode s = SAFETY_ELM327
                         then True else whitelisted);
          (safety_allowed, s) = h_tx (hooks_of b (current_hooks s)) to_send s
      in (\<not> relay_malfunction s \<and> whitelisted \<and> safety_allowed, s))"

definition safety_fwd_hook :: "build_flags \<Rightarrow> int \<Rightarrow> int \<Rightarrow> 'a st \<Rightarrow> int" where
  "safety_fwd_hook b bus_num addr s =
     (if relay_malfunction s then - 1 else h_fwd (hooks_of b (current_hooks s)) s bus_num addr)"

section \<open>The contract of the selected mode\<close>

interpretation selected: safety_mode "hooks_of b r" "actuates_of r"
  by (cases r)
    (simp_all add: nooutput.safety_mode_axioms alloutput.safety_mode_axioms elm327.safety_mode_axioms
      body.safety_mode_axioms toyota.safety_mode_axioms honda_nidec.safety_mode_axioms
      honda_bosch.safety_mode_axioms gm.safety_mode_axioms ford.safety_mode_axioms
      hyundai.safety_mode_axioms hyundai_legacy.safety_mode_axioms hyundai_canfd.safety_mode_axioms
      chrysler.safety_mode_axioms tesla.safety_mode_axioms subaru.safety_mode_axioms
      subaru_preglobal.safety_mode_axioms mazda.safety_mode_axioms nissan.safety_mode_axioms
      volkswagen_mqb.safety_mode_axioms volkswagen_pq.safety_mode_axioms)

end
