(* ===== verification/Can_Layer.thy ===== *)
theory Can_Layer
  imports Can_Ring Can_Checksum Llfdcan Safety_Hooks
begin

text \<open>
  The state of the CAN layer, \<^verbatim>\<open>drivers/can_common.h\<close> and \<^verbatim>\<open>can_comms.h\<close>, which holds the
  variables of the safety layer as one field, with what the layer above the controllers does: the slots left for
  the host, the ignition seen on the bus, the orientation of the harness. Console output and the blue
  lamp are left out.
\<close>

section \<open>Data\<close>

record bus_config_t =
  bus_lookup :: u8
  can_num_lookup :: u8
  forwarding_bus :: "8 word"
  can_speed :: u32
  can_data_speed :: u32
  canfd_enabled :: bool
  brs_enabled :: bool
  canfd_non_iso :: bool

record can_health_t =
  bus_off :: u8
  bus_off_cnt :: u32
  error_warning :: u8
  error_passive :: u8
  last_error :: u8
  last_stored_error :: u8
  last_data_error :: u8
  last_data_stored_error :: u8
  receive_error_cnt :: u8
  transmit_error_cnt :: u8
  total_error_cnt :: u32
  total_tx_lost_cnt :: u32
  total_rx_lost_cnt :: u32
  total_tx_cnt :: u32
  total_rx_cnt :: u32
  total_fwd_cnt :: u32
  total_tx_checksum_error_cnt :: u32
  h_can_speed :: u16
  h_can_data_speed :: u16
  h_canfd_enabled :: bool
  h_brs_enabled :: bool
  h_canfd_non_iso :: bool
  irq0_call_rate :: u32
  irq1_call_rate :: u32
  irq2_call_rate :: u32
  can_core_reset_cnt :: u32

definition can_health_0 :: can_health_t where
  "can_health_0 =
     \<lparr>bus_off = 0, bus_off_cnt = 0, error_warning = 0, error_passive = 0, last_error = 0,
      last_stored_error = 0, last_data_error = 0, last_data_stored_error = 0, receive_error_cnt = 0,
      transmit_error_cnt = 0, total_error_cnt = 0, total_tx_lost_cnt = 0, total_rx_lost_cnt = 0,
      total_tx_cnt = 0, total_rx_cnt = 0, total_fwd_cnt = 0, total_tx_checksum_error_cnt = 0,
      h_can_speed = 0, h_can_data_speed = 0, h_canfd_enabled = False, h_brs_enabled = False,
      h_canfd_non_iso = False, irq0_call_rate = 0, irq1_call_rate = 0, irq2_call_rate = 0,
      can_core_reset_cnt = 0\<rparr>"

text \<open>The two indices stay below the size of the buffer and are numbers.\<close>

record asm_buffer =
  ab_ptr :: nat
  tail_size :: nat
  ab_data :: "u8 list"

definition asm_buffer_0 :: asm_buffer where
  "asm_buffer_0 = \<lparr>ab_ptr = 0, tail_size = 0, ab_data = replicate 72 0\<rparr>"

section \<open>The state\<close>

text \<open>
  \<open>tx_requests\<close> are the elements handed to the cores by a write of TXBAR, each with its core and the
  value written, the oldest first. \<open>stack_packet\<close> is what an uninitialised local packet happens to hold.
  \<open>hung\<close> is set when the program enters a wait that never ends; what the definitions do to the state
  after that is not run, and the entry points of the program return no state then.
\<close>

record can_layer =
  safety_vars :: statics
  safety_tx_blocked :: u32
  safety_rx_invalid :: u32
  tx_buffer_overflow :: u32
  rx_buffer_overflow :: u32
  can_health :: "can_health_t list"
  ignition_can :: bool
  ignition_can_cnt :: u32
  can_live :: int
  pending_can_live :: int
  can_silent :: int
  can_loopback :: bool
  can_rx_q :: "CANPacket_t can_ring"
  can_queues :: "CANPacket_t can_ring list"
  bus_config :: "bus_config_t list"
  can_read_buffer :: asm_buffer
  can_write_buffer :: asm_buffer
  outep3_processing :: bool
  DOEPCTL3 :: u32
  DOEPTSIZ3 :: u32
  spi_can_tx_ready :: bool
  cans :: "fdcan list"
  tx_requests :: "(u8 \<times> u32 \<times> canfd_fifo) list"
  irq_call_rates :: "(u32 \<times> u32) list"
  stack_packet :: CANPacket_t
  hung :: bool

type_synonym 'a cst = "'a can_layer_scheme"

definition CAN_RX_BUFFER_SIZE :: u32 where "CAN_RX_BUFFER_SIZE = 4096"
definition CAN_TX_BUFFER_SIZE :: u32 where "CAN_TX_BUFFER_SIZE = 416"

definition ALL_CAN_SILENT :: int where "ALL_CAN_SILENT = 0xFF"
definition ALL_CAN_LIVE :: int where "ALL_CAN_LIVE = 0"

definition PANDA_BUS_CNT :: u8 where "PANDA_BUS_CNT = 3"
definition PANDA_CAN_CNT :: u8 where "PANDA_CAN_CNT = 3"

definition can_packet_0 :: CANPacket_t where
  "can_packet_0 = bytes_packet []"

definition bus_config_init :: "bus_config_t list" where
  "bus_config_init =
     map (\<lambda>i. \<lparr>bus_lookup = i, can_num_lookup = i, forwarding_bus = - 1, can_speed = 5000,
            can_data_speed = 20000, canfd_enabled = False, brs_enabled = False, canfd_non_iso = False\<rparr>) [0, 1, 2] @
     [\<lparr>bus_lookup = 0xFF, can_num_lookup = 0xFF, forwarding_bus = - 1, can_speed = 333,
       can_data_speed = 333, canfd_enabled = False, brs_enabled = False, canfd_non_iso = False\<rparr>]"

definition can_layer_init :: "fdcan list \<Rightarrow> CANPacket_t \<Rightarrow> can_layer" where
  "can_layer_init cores stack =
     can_layer.make statics_init 0 0 0 0 (replicate 3 can_health_0) False 0 0 0 ALL_CAN_SILENT False
          (can_buffer can_packet_0 CAN_RX_BUFFER_SIZE)
          (replicate 3 (can_buffer can_packet_0 CAN_TX_BUFFER_SIZE))
          bus_config_init asm_buffer_0 asm_buffer_0 False 0 0 False cores [] (replicate 3 (0, 0)) stack False"

section \<open>Updates of one entry\<close>

definition upd_health :: "u8 \<Rightarrow> (can_health_t \<Rightarrow> can_health_t) \<Rightarrow> 'a cst \<Rightarrow> 'a cst" where
  "upd_health n f s = s\<lparr>can_health := (can_health s)[unat n := f (can_health s ! unat n)]\<rparr>"

definition upd_can :: "u8 \<Rightarrow> (fdcan \<Rightarrow> fdcan) \<Rightarrow> 'a cst \<Rightarrow> 'a cst" where
  "upd_can n f s = s\<lparr>cans := (cans s)[unat n := f (cans s ! unat n)]\<rparr>"

text \<open>A command to a core, which may never return.\<close>

definition on_core :: "u8 \<Rightarrow> (fdcan \<Rightarrow> (bool \<times> fdcan) option) \<Rightarrow> 'a cst \<Rightarrow> bool \<times> 'a cst" where
  "on_core n f s =
     (case f (cans s ! unat n) of
        None \<Rightarrow> (False, s\<lparr>hung := True\<rparr>)
      | Some (ret, c) \<Rightarrow> (ret, upd_can n (\<lambda>_. c) s))"

definition upd_bus :: "u8 \<Rightarrow> (bus_config_t \<Rightarrow> bus_config_t) \<Rightarrow> 'a cst \<Rightarrow> 'a cst" where
  "upd_bus n f s = s\<lparr>bus_config := (bus_config s)[unat n := f (bus_config s ! unat n)]\<rparr>"

definition BUS_NUM_FROM_CAN_NUM :: "'a cst \<Rightarrow> u8 \<Rightarrow> u8" where
  "BUS_NUM_FROM_CAN_NUM s num = bus_lookup (bus_config s ! unat num)"

definition CAN_NUM_FROM_BUS_NUM :: "'a cst \<Rightarrow> u8 \<Rightarrow> u8" where
  "CAN_NUM_FROM_BUS_NUM s num = can_num_lookup (bus_config s ! unat num)"

text \<open>Pushing to the host's queue and to a bus's queue, with the count of what did not fit.\<close>

definition push_rx :: "CANPacket_t \<Rightarrow> 'a cst \<Rightarrow> 'a cst" where
  "push_rx p s =
     (let (ok, q) = can_push (can_rx_q s) p
      in s\<lparr>can_rx_q := q, rx_buffer_overflow := rx_buffer_overflow s + (if ok then 0 else 1)\<rparr>)"

definition push_tx :: "u8 \<Rightarrow> CANPacket_t \<Rightarrow> 'a cst \<Rightarrow> 'a cst" where
  "push_tx bus_number p s =
     (let (ok, q) = can_push (can_queues s ! unat bus_number) p
      in s\<lparr>can_queues := (can_queues s)[unat bus_number := q],
           tx_buffer_overflow := tx_buffer_overflow s + (if ok then 0 else 1)\<rparr>)"

section \<open>Room for the host\<close>

definition MAX_CAN_MSGS_PER_USB_BULK_TRANSFER :: u32 where "MAX_CAN_MSGS_PER_USB_BULK_TRANSFER = 51"
definition MAX_CAN_MSGS_PER_SPI_BULK_TRANSFER :: u32 where "MAX_CAN_MSGS_PER_SPI_BULK_TRANSFER = 170"

definition can_tx_check_min_slots_free :: "u32 \<Rightarrow> 'a cst \<Rightarrow> bool" where
  "can_tx_check_min_slots_free min_v s \<longleftrightarrow>
     can_slots_empty (can_queues s ! 0) \<ge> min_v \<and>
     can_slots_empty (can_queues s ! 1) \<ge> min_v \<and>
     can_slots_empty (can_queues s ! 2) \<ge> min_v"

definition USB_OTG_DOEPCTL_NAKSTS :: u32 where "USB_OTG_DOEPCTL_NAKSTS = push_bit 17 1"
definition USB_OTG_DOEPCTL_CNAK :: u32 where "USB_OTG_DOEPCTL_CNAK = push_bit 26 1"
definition USB_OTG_DOEPCTL_EPENA :: u32 where "USB_OTG_DOEPCTL_EPENA = push_bit 31 1"

definition can_tx_comms_resume_usb :: "'a cst \<Rightarrow> 'a cst" where
  "can_tx_comms_resume_usb s =
     (if \<not> outep3_processing s \<and> DOEPCTL3 s AND USB_OTG_DOEPCTL_NAKSTS \<noteq> 0
      then s\<lparr>DOEPTSIZ3 := push_bit 19 32 OR 0x800,
             DOEPCTL3 := DOEPCTL3 s OR (USB_OTG_DOEPCTL_EPENA OR USB_OTG_DOEPCTL_CNAK)\<rparr>
      else s)"

definition can_tx_comms_resume_spi :: "'a cst \<Rightarrow> 'a cst" where
  "can_tx_comms_resume_spi s = s\<lparr>spi_can_tx_ready := True\<rparr>"

definition refresh_can_tx_slots_available :: "'a cst \<Rightarrow> 'a cst" where
  "refresh_can_tx_slots_available s =
     (let s = (if can_tx_check_min_slots_free MAX_CAN_MSGS_PER_USB_BULK_TRANSFER s
               then can_tx_comms_resume_usb s else s)
      in if can_tx_check_min_slots_free MAX_CAN_MSGS_PER_SPI_BULK_TRANSFER s
         then can_tx_comms_resume_spi s else s)"

text \<open>\<open>can_clear\<close> on the host's queue and on the queue of a bus.\<close>

definition can_clear_rx :: "'a cst \<Rightarrow> 'a cst" where
  "can_clear_rx s = refresh_can_tx_slots_available (s\<lparr>can_rx_q := clear_ptrs (can_rx_q s)\<rparr>)"

definition can_clear_tx :: "u8 \<Rightarrow> 'a cst \<Rightarrow> 'a cst" where
  "can_clear_tx n s = refresh_can_tx_slots_available
     (s\<lparr>can_queues := (can_queues s)[unat n := clear_ptrs (can_queues s ! unat n)]\<rparr>)"

section \<open>Orientation, ignition, speeds\<close>

definition can_set_orientation :: "bool \<Rightarrow> 'a cst \<Rightarrow> 'a cst" where
  "can_set_orientation flipped s =
     (let s = upd_bus 0 (\<lambda>c. c\<lparr>bus_lookup := if flipped then 2 else 0\<rparr>) s;
          s = upd_bus 0 (\<lambda>c. c\<lparr>can_num_lookup := if flipped then 2 else 0\<rparr>) s;
          s = upd_bus 2 (\<lambda>c. c\<lparr>bus_lookup := if flipped then 0 else 2\<rparr>) s
      in upd_bus 2 (\<lambda>c. c\<lparr>can_num_lookup := if flipped then 0 else 2\<rparr>) s)"

definition ignition_can_hook :: "CANPacket_t \<Rightarrow> 'a cst \<Rightarrow> 'a cst" where
  "ignition_can_hook to_push s =
     (let bus = GET_BUS to_push
      in if bus = 0
         then let addr = GET_ADDR to_push;
                  len = GET_LEN to_push;
                  s = (if addr = 0x1F1 \<and> len = 8
                       then s\<lparr>ignition_can := (GET_BYTE to_push 0 AND 0x2) \<noteq> 0, ignition_can_cnt := 0\<rparr> else s);
                  s = (if addr = 0x348 \<and> len = 8
                       then s\<lparr>ignition_can := (GET_BYTE to_push 0 AND 0x1) \<noteq> 0, ignition_can_cnt := 0\<rparr> else s)
              in if addr = 0x9E \<and> len = 8
                 then s\<lparr>ignition_can := drop_bit 5 (GET_BYTE to_push 0) = 0x6, ignition_can_cnt := 0\<rparr> else s
         else s)"

fun is_speed_valid_loop :: "u32 \<Rightarrow> u32 list \<Rightarrow> bool \<Rightarrow> bool" where
  "is_speed_valid_loop speed [] ret = ret"
| "is_speed_valid_loop speed (x # xs) ret = is_speed_valid_loop speed xs (if x = speed then True else ret)"

definition is_speed_valid :: "u32 \<Rightarrow> u32 list \<Rightarrow> bool" where
  "is_speed_valid speed all_speeds = is_speed_valid_loop speed all_speeds False"

lemma is_speed_valid_iff [simp]: "is_speed_valid speed xs \<longleftrightarrow> speed \<in> set xs"
proof -
  have "is_speed_valid_loop speed xs r \<longleftrightarrow> r \<or> speed \<in> set xs" for r
    by (induction xs arbitrary: r) auto
  then show ?thesis by (simp add: is_speed_valid_def)
qed

end
