(* ===== verification/Fdcan.thy ===== *)
theory Fdcan
  imports Can_Layer
begin

text \<open>
  \<^verbatim>\<open>drivers/fdcan.h\<close> with \<open>can_send\<close> of \<^verbatim>\<open>can_common.h\<close>, which calls into it: the
  transmit interrupt, the receive interrupt, the error statistics, the setup of a bus.
\<close>

definition FDCAN_PSR_LEC :: u32 where "FDCAN_PSR_LEC = push_bit 0 7"
definition FDCAN_PSR_EP :: u32 where "FDCAN_PSR_EP = push_bit 5 1"
definition FDCAN_PSR_EW :: u32 where "FDCAN_PSR_EW = push_bit 6 1"
definition FDCAN_PSR_BO :: u32 where "FDCAN_PSR_BO = push_bit 7 1"
definition FDCAN_PSR_DLEC :: u32 where "FDCAN_PSR_DLEC = push_bit 8 7"
definition FDCAN_ECR_TEC :: u32 where "FDCAN_ECR_TEC = push_bit 0 0xFF"
definition FDCAN_ECR_REC :: u32 where "FDCAN_ECR_REC = push_bit 8 0x7F"
definition FDCAN_IR_RF0N :: u32 where "FDCAN_IR_RF0N = push_bit 0 1"
definition FDCAN_IR_RF0L :: u32 where "FDCAN_IR_RF0L = push_bit 3 1"
definition FDCAN_IR_TFE :: u32 where "FDCAN_IR_TFE = push_bit 11 1"
definition FDCAN_IR_EP :: u32 where "FDCAN_IR_EP = push_bit 23 1"
definition FDCAN_IR_BO :: u32 where "FDCAN_IR_BO = push_bit 25 1"
definition FDCAN_IR_PEA :: u32 where "FDCAN_IR_PEA = push_bit 27 1"
definition FDCAN_IR_PED :: u32 where "FDCAN_IR_PED = push_bit 28 1"
definition FDCAN_RXF0S_F0FL :: u32 where "FDCAN_RXF0S_F0FL = push_bit 0 0x7F"
definition FDCAN_RXF0S_F0F :: u32 where "FDCAN_RXF0S_F0F = push_bit 24 1"
definition FDCAN_TXFQS_TFFL :: u32 where "FDCAN_TXFQS_TFFL = push_bit 0 0x3F"
definition FDCAN_TXFQS_TFQF :: u32 where "FDCAN_TXFQS_TFQF = push_bit 21 1"
definition CAN_ACK_ERROR :: u8 where "CAN_ACK_ERROR = 3"

definition error_flags :: u32 where
  "error_flags = FDCAN_IR_PED OR FDCAN_IR_PEA OR FDCAN_IR_EP OR FDCAN_IR_BO OR FDCAN_IR_RF0L"

section \<open>Elements of the message memory\<close>

definition WORD_TO_BYTE_ARRAY :: "u32 \<Rightarrow> u8 list" where
  "WORD_TO_BYTE_ARRAY w = word_bytes w"

definition BYTE_ARRAY_TO_WORD :: "CANPacket_t \<Rightarrow> nat \<Rightarrow> u32" where
  "BYTE_ARRAY_TO_WORD p i = bytes_word (GET_BYTE p i) (GET_BYTE p (i + 1)) (GET_BYTE p (i + 2)) (GET_BYTE p (i + 3))"

definition data_len_w :: "nat \<Rightarrow> nat" where
  "data_len_w len = len div 4 + (if len mod 4 > 0 then 1 else 0)"

definition element_of :: "bool \<Rightarrow> bool \<Rightarrow> CANPacket_t \<Rightarrow> canfd_fifo" where
  "element_of fd brs to_send =
     \<lparr>header0 = push_bit 30 (of_bool (p_extended to_send)) OR
        (if p_extended to_send then ucast (p_addr to_send) else push_bit 18 (ucast (p_addr to_send))),
      header1 = push_bit 16 (ucast (p_data_len_code to_send)) OR (if fd then push_bit 21 1 else 0) OR
        (if brs then push_bit 20 1 else 0),
      data_word = map (\<lambda>i. BYTE_ARRAY_TO_WORD to_send (i * 4)) [0..<data_len_w (GET_LEN to_send)]\<rparr>"

text \<open>Only the words the length covers are written over what the local variable held.\<close>

definition packet_of :: "CANPacket_t \<Rightarrow> u8 \<Rightarrow> canfd_fifo \<Rightarrow> CANPacket_t" where
  "packet_of stack bus_number fifo =
     (let p = stack\<lparr>p_returned := False, p_rejected := False, p_extended := bit (header0 fifo) 30\<rparr>;
          p = p\<lparr>p_addr := if p_extended p then ucast (header0 fifo AND 0x1FFFFFFF)
                else ucast (drop_bit 18 (header0 fifo) AND 0x7FF)\<rparr>;
          p = p\<lparr>p_bus := ucast bus_number, p_data_len_code := ucast (drop_bit 16 (header1 fifo) AND 0xF)\<rparr>;
          n = data_len_w (GET_LEN p)
      in can_set_checksum (p\<lparr>p_data := concat (map (\<lambda>i. WORD_TO_BYTE_ARRAY (nth_default 0 (data_word fifo) i)) [0..<n])
            @ drop (4 * n) (p_data p)\<rparr>))"

definition copy_packet :: "CANPacket_t \<Rightarrow> bool \<Rightarrow> 3 word \<Rightarrow> CANPacket_t \<Rightarrow> CANPacket_t" where
  "copy_packet stack returned bus src =
     can_set_checksum (stack\<lparr>p_returned := returned, p_rejected := False, p_extended := p_extended src,
       p_addr := p_addr src, p_bus := bus, p_data_len_code := p_data_len_code src,
       p_data := take (GET_LEN src) (p_data src) @ drop (GET_LEN src) (p_data stack)\<rparr>)"

section \<open>Transmission\<close>

definition send_element :: "core_behaviour \<Rightarrow> u8 \<Rightarrow> CANPacket_t \<Rightarrow> 'a cst \<Rightarrow> 'a cst" where
  "send_element hw can_number to_send s =
     (let c = cans s ! unat can_number;
          cfg = bus_config s ! unat can_number;
          tx_index = drop_bit 16 (TXFQS c) AND 0x1F;
          s = s\<lparr>tx_requests := tx_requests s @
            [(can_number, push_bit (unat tx_index) 1, element_of (canfd_enabled cfg) (brs_enabled cfg) to_send)]\<rparr>
      in upd_can can_number (write_TXBAR hw (push_bit (unat tx_index) 1)) s)"

text \<open>What becomes of a packet taken from the queue of its bus.\<close>

definition transmit_packet :: "core_behaviour \<Rightarrow> u8 \<Rightarrow> u8 \<Rightarrow> CANPacket_t \<Rightarrow> 'a cst \<Rightarrow> 'a cst" where
  "transmit_packet hw can_number bus_number to_send s =
     (let s = (if can_check_checksum to_send
               then let s = upd_health can_number (\<lambda>h. h\<lparr>total_tx_cnt := total_tx_cnt h + 1\<rparr>) s;
                        s = send_element hw can_number to_send s
                    in push_rx (copy_packet (stack_packet s) True (ucast bus_number) to_send) s
               else upd_health can_number
                      (\<lambda>h. h\<lparr>total_tx_checksum_error_cnt := total_tx_checksum_error_cnt h + 1\<rparr>) s)
      in refresh_can_tx_slots_available s)"

definition process_can :: "core_behaviour \<Rightarrow> u8 \<Rightarrow> 'a cst \<Rightarrow> 'a cst" where
  "process_can hw can_number s =
     (if can_number \<noteq> 0xFF
      then let bus_number = BUS_NUM_FROM_CAN_NUM s can_number;
               s = upd_can can_number (\<lambda>c. write_IR hw (IR c OR FDCAN_IR_TFE) c) s
           in if TXFQS (cans s ! unat can_number) AND FDCAN_TXFQS_TFQF = 0
              then let (popped, q) = can_pop (can_queues s ! unat bus_number)
                   in case popped of
                       None \<Rightarrow> s
                     | Some to_send \<Rightarrow> transmit_packet hw can_number bus_number to_send
                         (s\<lparr>can_queues := (can_queues s)[unat bus_number := q]\<rparr>)
              else s
      else s)"

definition can_send :: "build_flags \<Rightarrow> core_behaviour \<Rightarrow> CANPacket_t \<Rightarrow> u8 \<Rightarrow> bool \<Rightarrow> 'a cst \<Rightarrow> 'a cst" where
  "can_send b hw to_push bus_number skip_tx_hook s =
     (let (allowed, v) = (if skip_tx_hook then (True, safety_vars s) else safety_tx_hook b to_push (safety_vars s));
          s = s\<lparr>safety_vars := v\<rparr>
      in if allowed
         then if bus_number < PANDA_BUS_CNT
              then let s = push_tx bus_number to_push s
                   in process_can hw (CAN_NUM_FROM_BUS_NUM s bus_number) s
              else s
         else let s = s\<lparr>safety_tx_blocked := safety_tx_blocked s + 1\<rparr>
              in push_rx (can_set_checksum (to_push\<lparr>p_returned := False, p_rejected := True\<rparr>)) s)"

section \<open>Statistics and recovery\<close>

definition can_clear_send :: "core_behaviour \<Rightarrow> u8 \<Rightarrow> 'a cst \<Rightarrow> 'a cst" where
  "can_clear_send hw can_number s =
     (let s = upd_health can_number (\<lambda>h. h\<lparr>can_core_reset_cnt := can_core_reset_cnt h + 1\<rparr>) s;
          lost = FDCAN_TX_FIFO_EL_CNT - (TXFQS (cans s ! unat can_number) AND FDCAN_TXFQS_TFFL);
          s = upd_health can_number (\<lambda>h. h\<lparr>total_tx_lost_cnt := total_tx_lost_cnt h + lost\<rparr>) s
      in case llcan_clear_send hw can_number (cans s ! unat can_number) of
          None \<Rightarrow> s\<lparr>hung := True\<rparr>
        | Some c \<Rightarrow> upd_can can_number (\<lambda>_. c) s)"

definition health_of_registers :: "u32 \<Rightarrow> u32 \<Rightarrow> u32 \<times> u32 \<Rightarrow> can_health_t \<Rightarrow> can_health_t" where
  "health_of_registers psr_reg ecr_reg rates h =
     (let h = h\<lparr>bus_off := ucast (drop_bit 7 (psr_reg AND FDCAN_PSR_BO))\<rparr>;
          h = h\<lparr>bus_off_cnt := bus_off_cnt h + ucast (bus_off h)\<rparr>;
          h = h\<lparr>error_warning := ucast (drop_bit 6 (psr_reg AND FDCAN_PSR_EW))\<rparr>;
          h = h\<lparr>error_passive := ucast (drop_bit 5 (psr_reg AND FDCAN_PSR_EP))\<rparr>;
          h = h\<lparr>last_error := ucast (drop_bit 0 (psr_reg AND FDCAN_PSR_LEC))\<rparr>;
          h = (if last_error h \<noteq> 0 \<and> last_error h \<noteq> 7 then h\<lparr>last_stored_error := last_error h\<rparr> else h);
          h = h\<lparr>last_data_error := ucast (drop_bit 8 (psr_reg AND FDCAN_PSR_DLEC))\<rparr>;
          h = (if last_data_error h \<noteq> 0 \<and> last_data_error h \<noteq> 7
               then h\<lparr>last_data_stored_error := last_data_error h\<rparr> else h);
          h = h\<lparr>receive_error_cnt := ucast (drop_bit 8 (ecr_reg AND FDCAN_ECR_REC))\<rparr>;
          h = h\<lparr>transmit_error_cnt := ucast (drop_bit 0 (ecr_reg AND FDCAN_ECR_TEC))\<rparr>
      in h\<lparr>irq0_call_rate := fst rates, irq1_call_rate := snd rates\<rparr>)"

definition update_can_health_pkt :: "core_behaviour \<Rightarrow> u8 \<Rightarrow> u32 \<Rightarrow> 'a cst \<Rightarrow> 'a cst" where
  "update_can_health_pkt hw can_number ir_reg s =
     (let c = cans s ! unat can_number;
          s = upd_health can_number (health_of_registers (PSR c) (ECR c) (irq_call_rates s ! unat can_number)) s
      in if ir_reg \<noteq> 0
         then let s = upd_can can_number (\<lambda>c. write_IR hw (IR c OR error_flags) c) s;
                  s = upd_health can_number (\<lambda>h. h\<lparr>total_error_cnt := total_error_cnt h + 1\<rparr>) s;
                  s = (if ir_reg AND FDCAN_IR_RF0L \<noteq> 0
                       then upd_health can_number (\<lambda>h. h\<lparr>total_rx_lost_cnt := total_rx_lost_cnt h + 1\<rparr>) s else s);
                  h = can_health s ! unat can_number
              in if (last_error h = CAN_ACK_ERROR \<or> last_data_error h = CAN_ACK_ERROR) \<and> transmit_error_cnt h > 127 \<or>
                    ir_reg AND FDCAN_IR_BO \<noteq> 0
                 then can_clear_send hw can_number s else s
         else s)"

section \<open>Reception\<close>

definition rx_index :: "fdcan \<Rightarrow> u32" where
  "rx_index c =
     (let rx_fifo_idx = drop_bit 8 (RXF0S c) AND 0x3F
      in if RXF0S c AND FDCAN_RXF0S_F0F = FDCAN_RXF0S_F0F
         then if rx_fifo_idx + 1 \<ge> FDCAN_RX_FIFO_0_EL_CNT then 0 else rx_fifo_idx + 1
         else rx_fifo_idx)"

definition forward_packet :: "build_flags \<Rightarrow> core_behaviour \<Rightarrow> u8 \<Rightarrow> u8 \<Rightarrow> CANPacket_t \<Rightarrow> 'a cst \<Rightarrow> 'a cst" where
  "forward_packet b hw can_number bus_number to_push s =
     (let bus_fwd_num = safety_fwd_hook b (uint bus_number) (GET_ADDR to_push) (safety_vars s);
          bus_fwd_num = (if bus_fwd_num < 0 then sint (forwarding_bus (bus_config s ! unat can_number)) else bus_fwd_num)
      in if bus_fwd_num \<noteq> - 1
         then let to_send = copy_packet (stack_packet s) False (p_bus to_push) to_push;
                  s = can_send b hw to_send (word_of_int bus_fwd_num) True s
              in upd_health can_number (\<lambda>h. h\<lparr>total_fwd_cnt := total_fwd_cnt h + 1\<rparr>) s
         else s)"

definition receive_packet :: "build_flags \<Rightarrow> CANPacket_t \<Rightarrow> 'a cst \<Rightarrow> 'a cst" where
  "receive_packet b to_push s =
     (let (valid, v) = safety_rx_hook b to_push (safety_vars s)
      in s\<lparr>safety_vars := v, safety_rx_invalid := safety_rx_invalid s + (if valid then 0 else 1)\<rparr>)"

text \<open>One pass of the receive loop.\<close>

definition can_rx_one :: "build_flags \<Rightarrow> core_behaviour \<Rightarrow> u8 \<Rightarrow> u8 \<Rightarrow> 'a cst \<Rightarrow> 'a cst" where
  "can_rx_one b hw can_number bus_number s =
     (let s = upd_health can_number (\<lambda>h. h\<lparr>total_rx_cnt := total_rx_cnt h + 1\<rparr>) s;
          s = s\<lparr>pending_can_live := 1\<rparr>;
          c = cans s ! unat can_number;
          rx_fifo_idx = rx_index c;
          s = (if RXF0S c AND FDCAN_RXF0S_F0F = FDCAN_RXF0S_F0F
               then upd_health can_number (\<lambda>h. h\<lparr>total_rx_lost_cnt := total_rx_lost_cnt h + 1\<rparr>) s else s);
          fifo = rx_elements c ! unat rx_fifo_idx;
          to_push = packet_of (stack_packet s) bus_number fifo;
          canfd_frame = bit (header1 fifo) 21;
          brs_frame = bit (header1 fifo) 20;
          s = forward_packet b hw can_number bus_number to_push s;
          s = receive_packet b to_push s;
          s = ignition_can_hook to_push s;
          s = push_rx to_push s;
          s = (if \<not> canfd_enabled (bus_config s ! unat can_number) \<and> canfd_frame
               then upd_bus can_number (\<lambda>c. c\<lparr>canfd_enabled := True\<rparr>) s else s);
          s = (if \<not> brs_enabled (bus_config s ! unat can_number) \<and> brs_frame
               then upd_bus can_number (\<lambda>c. c\<lparr>brs_enabled := True\<rparr>) s else s)
      in upd_can can_number (write_RXF0A hw rx_fifo_idx) s)"

text \<open>
  \<open>None\<close>: the controller still has messages after \<open>n\<close> passes; of \<open>can_rx\<close>, also that the recovery of
  the core waits forever.
\<close>

fun can_rx_loop :: "build_flags \<Rightarrow> core_behaviour \<Rightarrow> u8 \<Rightarrow> u8 \<Rightarrow> nat \<Rightarrow> 'a cst \<Rightarrow> 'a cst option" where
  "can_rx_loop b hw can_number bus_number n s =
     (if RXF0S (cans s ! unat can_number) AND FDCAN_RXF0S_F0FL \<noteq> 0
      then case n of 0 \<Rightarrow> None
        | Suc m \<Rightarrow> can_rx_loop b hw can_number bus_number m (can_rx_one b hw can_number bus_number s)
      else Some s)"

declare can_rx_loop.simps [simp del]

definition can_rx :: "build_flags \<Rightarrow> core_behaviour \<Rightarrow> nat \<Rightarrow> u8 \<Rightarrow> 'a cst \<Rightarrow> 'a cst option" where
  "can_rx b hw fuel can_number s =
     (let bus_number = BUS_NUM_FROM_CAN_NUM s can_number;
          ir_reg = IR (cans s ! unat can_number);
          s = upd_can can_number (\<lambda>c. write_IR hw (IR c OR FDCAN_IR_RF0N) c) s
      in case can_rx_loop b hw can_number bus_number fuel s of
          None \<Rightarrow> None
        | Some s \<Rightarrow>
            (let s = (if ir_reg AND error_flags \<noteq> 0 then update_can_health_pkt hw can_number ir_reg s else s)
             in if hung s then None else Some s))"

section \<open>Setup of a bus\<close>

definition can_set_speed :: "core_behaviour \<Rightarrow> u8 \<Rightarrow> 'a cst \<Rightarrow> bool \<times> 'a cst" where
  "can_set_speed hw can_number s =
     (let cfg = bus_config s ! unat (BUS_NUM_FROM_CAN_NUM s can_number)
      in on_core can_number (llcan_set_speed hw (can_speed cfg) (can_data_speed cfg) (canfd_non_iso cfg) (can_loopback s)
           (bit (can_silent s) (unat can_number))) s)"

definition can_init :: "core_behaviour \<Rightarrow> u8 \<Rightarrow> 'a cst \<Rightarrow> bool \<times> 'a cst" where
  "can_init hw can_number s =
     (let ret = False
      in if can_number \<noteq> 0xFF
         then let (r, s) = can_set_speed hw can_number s;
                  ret = (ret \<and> r);
                  (r, s) = on_core can_number (llcan_init hw can_number) s;
                  ret = (ret \<and> r)
              in (ret, process_can hw can_number s)
         else (ret, s))"

fun can_init_loop :: "core_behaviour \<Rightarrow> bool \<Rightarrow> u8 list \<Rightarrow> 'a cst \<Rightarrow> 'a cst" where
  "can_init_loop hw has_canfd_v [] s = s"
| "can_init_loop hw has_canfd_v (i # is) s =
     (let s = (if \<not> has_canfd_v then upd_bus i (\<lambda>c. c\<lparr>can_data_speed := 0\<rparr>) s else s);
          s = can_clear_tx i s
      in can_init_loop hw has_canfd_v is (snd (can_init hw i s)))"

definition can_init_all :: "core_behaviour \<Rightarrow> bool \<Rightarrow> 'a cst \<Rightarrow> 'a cst" where
  "can_init_all hw has_canfd_v s = can_init_loop hw has_canfd_v [0, 1, 2] s"

end
