(* ===== verification/Safety_System.thy ===== *)
theory Safety_System
  imports Safety_Hooks
begin

text \<open>
  The safety layer as a state machine over its entry points: received packets, packets to
  send, the 1 Hz check, a switch of mode, and the writes the main loop does between them.
  The invariants hold in every reachable state, for every mode at once, by the contract
  of the modes.
\<close>

section \<open>The entry points keep the configuration\<close>

lemma set_checks_other [simp]:
  "current_hooks (set_checks cs s) = current_hooks s"
  "current_safety_mode (set_checks cs s) = current_safety_mode s"
  "tx_msgs (current_safety_config (set_checks cs s)) = tx_msgs (current_safety_config s)"
  "relay_malfunction (set_checks cs s) = relay_malfunction s"
  "safety_rx_checks_invalid (set_checks cs s) = safety_rx_checks_invalid s"
  by (simp_all add: set_checks_def)

definition checks_of :: "'a safety_scheme \<Rightarrow> RxCheck list" where
  "checks_of s = rx_checks (current_safety_config s)"

definition dispatch_of :: "'a safety_scheme \<Rightarrow> u16 \<times> hooks_ref" where
  "dispatch_of s = (current_safety_mode s, current_hooks s)"

lemma safety_rx_hook_valid_iff:
  assumes "checks_inv (checks_of s)"
  shows "fst (safety_rx_hook b p s) \<longleftrightarrow> valid_packet (hooks_of b (current_hooks s)) s p"
  using rx_gate_valid_iff [of s] assms by (simp add: safety_rx_hook_def checks_of_def)

lemma selected_rx_D:
  "current_safety_config (h_rx (hooks_of b r) p s) = current_safety_config s"
  "current_safety_mode (h_rx (hooks_of b r) p s) = current_safety_mode s"
  "current_hooks (h_rx (hooks_of b r) p s) = current_hooks s"
  using config_of_D [OF selected.rx_keeps(1) [of b r p s]] by blast+

lemma safety_rx_hook_keeps:
  assumes "checks_inv (checks_of s)"
  shows "checks_of (snd (safety_rx_hook b p s)) = checks_after (hooks_of b (current_hooks s)) s p"
    "dispatch_of (snd (safety_rx_hook b p s)) = dispatch_of s"
    "tx_msgs (current_safety_config (snd (safety_rx_hook b p s))) = tx_msgs (current_safety_config s)"
    "relay_malfunction s \<Longrightarrow> relay_malfunction (snd (safety_rx_hook b p s))"
proof -
  let ?H = "hooks_of b (current_hooks s)"
  have inv: "checks_inv (rx_checks (current_safety_config s))" using assms by (simp add: checks_of_def)
  show "checks_of (snd (safety_rx_hook b p s)) = checks_after ?H s p"
    "dispatch_of (snd (safety_rx_hook b p s)) = dispatch_of s"
    "tx_msgs (current_safety_config (snd (safety_rx_hook b p s))) = tx_msgs (current_safety_config s)"
    using rx_gate_invalid [OF inv, of ?H p] rx_gate_valid [OF inv, of ?H p]
    by (cases "valid_packet ?H s p";
        simp add: safety_rx_hook_def Let_def checks_of_def dispatch_of_def selected_rx_D)+
  show "relay_malfunction (snd (safety_rx_hook b p s))" if "relay_malfunction s"
    using rx_gate_invalid [OF inv, of ?H p] rx_gate_valid [OF inv, of ?H p] that
    by (cases "valid_packet ?H s p"; simp add: safety_rx_hook_def Let_def selected.relay_kept)
qed

lemma safety_tx_hook_keeps:
  "checks_of (snd (safety_tx_hook b p s)) = checks_of s"
  "dispatch_of (snd (safety_tx_hook b p s)) = dispatch_of s"
  "tx_msgs (current_safety_config (snd (safety_tx_hook b p s))) = tx_msgs (current_safety_config s)"
  "relay_malfunction (snd (safety_tx_hook b p s)) = relay_malfunction s"
  "controls_allowed (snd (safety_tx_hook b p s)) = controls_allowed s"
  using selected.tx_keeps [of b "current_hooks s" p s]
    config_of_D [OF selected.tx_keeps(1) [of b "current_hooks s" p s]]
  by (simp_all add: safety_tx_hook_def Let_def case_prod_beta checks_of_def dispatch_of_def)

lemma tick_loop_keeps:
  "checks_inv (checks_of s) \<Longrightarrow> checks_inv (checks_of (snd (tick_loop ts i n iv s)))"
  "dispatch_of (snd (tick_loop ts i n iv s)) = dispatch_of s"
  "tx_msgs (current_safety_config (snd (tick_loop ts i n iv s))) = tx_msgs (current_safety_config s)"
  "relay_malfunction (snd (tick_loop ts i n iv s)) = relay_malfunction s"
  by (induction n arbitrary: i iv s)
    (simp_all add: Let_def is_msg_valid_def checks_of_def dispatch_of_def upd_status_inv)

lemma safety_tick_keeps:
  "checks_inv (checks_of s) \<Longrightarrow> checks_inv (checks_of (safety_tick s))"
  "dispatch_of (safety_tick s) = dispatch_of s"
  "tx_msgs (current_safety_config (safety_tick s)) = tx_msgs (current_safety_config s)"
  "relay_malfunction (safety_tick s) = relay_malfunction s"
  using tick_loop_keeps
  by (simp_all add: safety_tick_def Let_def case_prod_beta checks_of_def dispatch_of_def)

section \<open>The entry points and the permission\<close>

lemma safety_rx_hook_engages:
  assumes "checks_inv (checks_of s)" "\<not> controls_allowed s" "controls_allowed (snd (safety_rx_hook b p s))"
  shows "fst (safety_rx_hook b p s)" "heartbeat_engaged_mismatches (snd (safety_rx_hook b p s)) = 0"
proof -
  let ?H = "hooks_of b (current_hooks s)"
  have inv: "checks_inv (rx_checks (current_safety_config s))" using assms(1) by (simp add: checks_of_def)
  have v: "valid_packet ?H s p"
    using rx_gate_invalid [OF inv, of ?H p] assms(3) by (force simp: safety_rx_hook_def)
  then show "fst (safety_rx_hook b p s)" by (simp add: safety_rx_hook_valid_iff [OF assms(1)])
  show "heartbeat_engaged_mismatches (snd (safety_rx_hook b p s)) = 0"
    using rx_gate_valid [OF inv v] assms(2,3)
    by (simp add: safety_rx_hook_def Let_def split: if_splits)
qed

lemma safety_tx_hook_accepts:
  assumes "fst (safety_tx_hook b p s)"
  shows "\<not> relay_malfunction s"
    "current_safety_mode s \<noteq> SAFETY_ALLOUTPUT \<Longrightarrow> current_safety_mode s \<noteq> SAFETY_ELM327 \<Longrightarrow>
      msg_allowed p (tx_msgs (current_safety_config s))"
    "actuates_of (current_hooks s) p s \<Longrightarrow> controls_allowed s"
  using assms selected.actuation_gated [of b "current_hooks s" p s] selected.tx_keeps(3) [of b "current_hooks s" p s]
  by (auto simp: safety_tx_hook_def Let_def case_prod_beta split: if_splits)

lemma msg_allowed_iff:
  "msg_allowed p ms \<longleftrightarrow> (\<exists>m \<in> set ms. m_addr m = GET_ADDR p \<and> m_bus m = GET_BUS p \<and> m_len m = int (GET_LEN p))"
  by (induction p ms rule: msg_allowed.induct) auto

lemma safety_fwd_hook_range:
  assumes "0 \<le> bus"
  shows "safety_fwd_hook b bus addr s \<in> {- 1, 0, 1, 2}" "safety_fwd_hook b bus addr s \<noteq> bus"
  using selected.fwd_elsewhere [OF assms, of b "current_hooks s" s addr] assms
  by (auto simp: safety_fwd_hook_def)

section \<open>The switch of mode\<close>

lemma select_hooks_keeps:
  "checks_of (snd (select_hooks reg mode param st s)) = checks_of s"
  "tx_msgs (current_safety_config (snd (select_hooks reg mode param st s))) = tx_msgs (current_safety_config s)"
  "relay_malfunction (snd (select_hooks reg mode param st s)) = relay_malfunction s"
  "signals_of (snd (select_hooks reg mode param st s)) = signals_of s"
  "history_of (snd (select_hooks reg mode param st s)) = history_of s"
  by (induction reg mode param st s rule: select_hooks.induct)
    (simp_all add: checks_of_def signals_of_def history_of_def)

text \<open>The status tells whether a match was found; the pointer is that of the last match.\<close>

lemma select_hooks_status:
  "fst (select_hooks reg mode param st s) = (if mode \<in> fst ` set reg then 0 else st)"
  by (induction reg mode param st s rule: select_hooks.induct) auto

lemma select_hooks_none:
  "mode \<notin> fst ` set reg \<Longrightarrow> snd (select_hooks reg mode param st s) = s"
  by (induction reg mode param st s rule: select_hooks.induct) auto

lemma select_hooks_dispatch:
  assumes "mode \<in> fst ` set reg"
  shows "dispatch_of (snd (select_hooks reg mode param st s)) \<in> set reg \<and>
     current_safety_mode (snd (select_hooks reg mode param st s)) = mode \<and>
     current_safety_param (snd (select_hooks reg mode param st s)) = param"
  using assms
proof (induction reg mode param st s rule: select_hooks.induct)
  case (2 i h reg mode param st s)
  show ?case
  proof (cases "mode \<in> fst ` set reg")
    case True
    then show ?thesis using 2 by (cases "i = mode") simp_all
  next
    case False
    then have "i = mode" using "2.prems" by auto
    then show ?thesis by (simp add: dispatch_of_def select_hooks_none [OF False])
  qed
qed simp

lemmas init_defs = nooutput_hooks_def nooutput_init_def alloutput_hooks_def alloutput_init_def
  elm327_hooks_def body_hooks_def body_init_def toyota_hooks_def toyota_init_def
  honda_nidec_hooks_def honda_nidec_init_def honda_bosch_hooks_def honda_bosch_init_def
  gm_hooks_def gm_init_def ford_hooks_def ford_init_def hyundai_hooks_def hyundai_init_def
  hyundai_legacy_hooks_def hyundai_legacy_init_def hyundai_canfd_hooks_def hyundai_canfd_init_def
  hyundai_common_init_def chrysler_hooks_def chrysler_init_def tesla_hooks_def tesla_init_def
  subaru_hooks_def subaru_init_def subaru_preglobal_hooks_def subaru_preglobal_init_def
  mazda_hooks_def mazda_init_def nissan_hooks_def nissan_init_def volkswagen_mqb_hooks_def
  volkswagen_mqb_init_def volkswagen_pq_hooks_def volkswagen_pq_init_def

text \<open>No initialiser but that of the debug mode without checks grants the permission.\<close>

lemma selected_init_keeps:
  "relay_malfunction (snd (h_init (hooks_of b r) prm s)) = relay_malfunction s"
  "r \<noteq> Alloutput_hooks \<Longrightarrow> controls_allowed (snd (h_init (hooks_of b r) prm s)) = controls_allowed s"
  "history_of (snd (h_init (hooks_of b r) prm s)) = history_of s"
  by (cases r; simp add: init_defs Let_def history_of_def)+

lemma registry_hooks:
  "(SAFETY_ALLOUTPUT, h) \<in> set (safety_hook_registry b) \<longleftrightarrow> ALLOW_DEBUG b \<and> h = Alloutput_hooks"
  "(m, Alloutput_hooks) \<in> set (safety_hook_registry b) \<longleftrightarrow> ALLOW_DEBUG b \<and> m = SAFETY_ALLOUTPUT"
  "(SAFETY_SILENT, h) \<in> set (safety_hook_registry b) \<longleftrightarrow> h = Nooutput_hooks"
  "(m, Elm327_hooks) \<in> set (safety_hook_registry b) \<longleftrightarrow> m = SAFETY_ELM327"
  "(SAFETY_ELM327, h) \<in> set (safety_hook_registry b) \<longleftrightarrow> h = Elm327_hooks"
  by (auto simp: safety_hook_registry_def safety_mode_ids)

lemma reset_mode_state_spec:
  "\<not> controls_allowed (reset_mode_state s)" "\<not> relay_malfunction (reset_mode_state s)"
  "history_of (reset_mode_state s) = (0, 0, 0, 0, 0, 0, 0)"
  "current_safety_config (reset_mode_state s) = empty_cfg"
  "dispatch_of (reset_mode_state s) = dispatch_of s"
  "safety_rx_checks_invalid (reset_mode_state s) = False"
  by (simp_all add: reset_mode_state_def relay_malfunction_reset_def history_of_def empty_cfg_def
      dispatch_of_def fault_recovered_def Let_def)

lemma set_safety_hooks_unknown:
  assumes "mode \<notin> fst ` set (safety_hook_registry b)"
  shows "set_safety_hooks b mode param s = (- 1, reset_mode_state s)"
  using assms select_hooks_status [of "safety_hook_registry b" mode param "- 1" "reset_mode_state s"]
  by (simp add: set_safety_hooks_def Let_def case_prod_beta select_hooks_none)

lemma set_safety_hooks_known:
  assumes "mode \<in> fst ` set (safety_hook_registry b)"
  shows "fst (set_safety_hooks b mode param s) = 0"
    "current_safety_mode (snd (set_safety_hooks b mode param s)) = mode"
    "current_safety_param (snd (set_safety_hooks b mode param s)) = param"
    "dispatch_of (snd (set_safety_hooks b mode param s)) \<in> set (safety_hook_registry b)"
    "\<not> relay_malfunction (snd (set_safety_hooks b mode param s))"
    "mode \<noteq> SAFETY_ALLOUTPUT \<Longrightarrow> \<not> controls_allowed (snd (set_safety_hooks b mode param s))"
    "history_of (snd (set_safety_hooks b mode param s)) = (0, 0, 0, 0, 0, 0, 0)"
    "\<And>c. c \<in> set (checks_of (snd (set_safety_hooks b mode param s))) \<Longrightarrow> check_ok c"
proof -
  define t where "t = snd (select_hooks (safety_hook_registry b) mode param (- 1) (reset_mode_state s))"
  define u where "u = h_init (hooks_of b (current_hooks t)) param t"
  note disp = select_hooks_dispatch [OF assms, of param "- 1" "reset_mode_state s", folded t_def]
  note kept = select_hooks_keeps [of "safety_hook_registry b" mode param "- 1" "reset_mode_state s", folded t_def]
  have eq: "set_safety_hooks b mode param s = (0, (snd u)\<lparr>current_safety_config :=
      (fst u)\<lparr>rx_checks := map (\<lambda>c. c\<lparr>rc_status := RxStatus_0\<rparr>) (rx_checks (fst u))\<rparr>\<rparr>)"
    using select_hooks_status [of "safety_hook_registry b" mode param "- 1" "reset_mode_state s"] assms
    by (simp add: set_safety_hooks_def Let_def case_prod_beta t_def u_def)
  have cfg: "config_of (snd u) = config_of t" by (simp add: u_def selected.init_frame)
  note cD = config_of_D [OF cfg]
  show "fst (set_safety_hooks b mode param s) = 0" by (simp add: eq)
  show "current_safety_mode (snd (set_safety_hooks b mode param s)) = mode" using disp by (simp add: eq cD)
  show "current_safety_param (snd (set_safety_hooks b mode param s)) = param" using disp by (simp add: eq cD)
  show "dispatch_of (snd (set_safety_hooks b mode param s)) \<in> set (safety_hook_registry b)"
    using disp unfolding eq dispatch_of_def by (simp add: cD) metis
  show "\<not> relay_malfunction (snd (set_safety_hooks b mode param s))"
    by (simp add: eq u_def selected_init_keeps kept reset_mode_state_spec)
  show "history_of (snd (set_safety_hooks b mode param s)) = (0, 0, 0, 0, 0, 0, 0)"
    using kept(5) selected_init_keeps(3) [of b "current_hooks t" param t] reset_mode_state_spec(3) [of s]
    by (simp add: eq u_def history_of_def)
  show "\<not> controls_allowed (snd (set_safety_hooks b mode param s))" if "mode \<noteq> SAFETY_ALLOUTPUT"
  proof -
    have "current_hooks t \<noteq> Alloutput_hooks"
      using disp that by (auto simp: dispatch_of_def registry_hooks)
    then show ?thesis using kept(4)
      by (simp add: eq u_def selected_init_keeps signals_of_def reset_mode_state_spec)
  qed
  show "check_ok c" if "c \<in> set (checks_of (snd (set_safety_hooks b mode param s)))" for c
  proof -
    have "config_ok (fst u)" unfolding u_def by (rule selected.init_config)
    then have "map (\<lambda>c. c\<lparr>rc_status := RxStatus_0\<rparr>) (rx_checks (fst u)) = rx_checks (fst u)"
      by (intro map_idI) (auto simp: config_ok_def check_ok_def)
    then show ?thesis using that \<open>config_ok (fst u)\<close> by (simp add: eq checks_of_def config_ok_def)
  qed
qed

section \<open>The state machine\<close>

text \<open>
  \<open>Env\<close> is what happens between calls: time passes, the mode counter and the
  heartbeat change, the host sets the alternative experience, a watchdog reports a fault, and the main
  loop withdraws the permission.
\<close>

datatype safety_event = Rx CANPacket_t | Tx CANPacket_t | Tick | Mode u16 u16 | Env

inductive safety_step :: "build_flags \<Rightarrow> 'a st \<Rightarrow> safety_event \<Rightarrow> 'a st \<Rightarrow> bool" for b where
  rx: "safety_step b s (Rx p) (snd (safety_rx_hook b p s))"
| tx: "safety_step b s (Tx p) (snd (safety_tx_hook b p s))"
| tick: "safety_step b s Tick (safety_tick s)"
| mode: "safety_step b s (Mode m prm) (snd (set_safety_hooks b m prm s))"
| env: "safety_step b s Env (s\<lparr>fault_status := fs, faults := fa, microsecond_timer := t, safety_mode_cnt := c, alternative_experience := x,
     heartbeat_engaged := h, heartbeat_engaged_mismatches := hm,
     controls_allowed := controls_allowed s \<and> keep\<rparr>)"

inductive_cases safety_step_RxE: "safety_step b s (Rx p) t"
inductive_cases safety_step_TxE: "safety_step b s (Tx p) t"
inductive_cases safety_step_TickE: "safety_step b s Tick t"
inductive_cases safety_step_ModeE: "safety_step b s (Mode m prm) t"
inductive_cases safety_step_EnvE: "safety_step b s Env t"

inductive safety_run :: "build_flags \<Rightarrow> 'a st \<Rightarrow> safety_event list \<Rightarrow> 'a st \<Rightarrow> bool" for b where
  nil: "safety_run b s [] s"
| step: "safety_step b s e t \<Longrightarrow> safety_run b t es u \<Longrightarrow> safety_run b s (e # es) u"

inductive_simps safety_run_Nil [simp]: "safety_run b s [] t"
inductive_simps safety_run_Cons: "safety_run b s (e # es) t"

text \<open>Before \<open>main\<close>, the hook pointer is that of the silent mode and no check is configured.\<close>

definition safety_start :: "'a st \<Rightarrow> bool" where
  "safety_start s \<longleftrightarrow> dispatch_of s = (SAFETY_SILENT, Nooutput_hooks) \<and> current_safety_config s = empty_cfg \<and>
     \<not> controls_allowed s \<and> \<not> gas_pressed s \<and> \<not> gas_pressed_prev s \<and> \<not> brake_pressed s \<and>
     \<not> brake_pressed_prev s \<and> \<not> regen_braking s \<and> \<not> regen_braking_prev s"

lemma statics_init_start: "safety_start statics_init"
  by (simp add: safety_start_def statics_init_def safety_init_def statics.defs safety.defs dispatch_of_def
      SAFETY_SILENT_def)

definition safety_reachable :: "build_flags \<Rightarrow> 'a st \<Rightarrow> bool" where
  "safety_reachable b s \<longleftrightarrow> (\<exists>s0 es. safety_start s0 \<and> safety_run b s0 es s)"

definition safety_inv :: "build_flags \<Rightarrow> 'a st \<Rightarrow> bool" where
  "safety_inv b s \<longleftrightarrow> checks_inv (checks_of s) \<and> dispatch_of s \<in> set (safety_hook_registry b)"

lemma safety_run_snoc: "safety_run b s es t \<Longrightarrow> safety_step b t e u \<Longrightarrow> safety_run b s (es @ [e]) u"
  by (induction rule: safety_run.induct) (auto intro: safety_run.intros)

lemma safety_reachable_step: "safety_reachable b s \<Longrightarrow> safety_step b s e t \<Longrightarrow> safety_reachable b t"
  unfolding safety_reachable_def using safety_run_snoc by blast

lemma safety_inv_start: "safety_start s \<Longrightarrow> safety_inv b s"
  by (simp add: safety_start_def safety_inv_def registry_hooks checks_of_def empty_cfg_def checks_inv_def)

lemma safety_inv_mode:
  assumes "safety_inv b s"
  shows "safety_inv b (snd (set_safety_hooks b m prm s))"
proof (cases "m \<in> fst ` set (safety_hook_registry b)")
  case True
  show ?thesis using set_safety_hooks_known(4) [OF True, of prm s] set_safety_hooks_known(8) [OF True, of _ prm s]
    by (auto simp: safety_inv_def checks_inv_def intro: check_inv_init)
next
  case False
  then show ?thesis using assms
    by (simp add: safety_inv_def set_safety_hooks_unknown reset_mode_state_spec checks_of_def
        empty_cfg_def checks_inv_def)
qed

lemma safety_inv_step:
  assumes "safety_step b s e t" "safety_inv b s"
  shows "safety_inv b t"
  using assms
proof (cases rule: safety_step.cases)
  case (rx p)
  then show ?thesis using assms(2)
    using checks_after_inv [of s "hooks_of b (current_hooks s)" p]
    by (simp add: safety_inv_def safety_rx_hook_keeps checks_of_def [symmetric])
next
  case tx
  then show ?thesis using assms(2) by (simp add: safety_inv_def safety_tx_hook_keeps)
next
  case tick
  then show ?thesis using assms(2) by (simp add: safety_inv_def safety_tick_keeps)
next
  case mode
  then show ?thesis using assms(2) by (simp add: safety_inv_mode)
next
  case env
  then show ?thesis using assms(2) by (simp add: safety_inv_def checks_of_def dispatch_of_def)
qed

lemma safety_inv_run: "safety_run b s es t \<Longrightarrow> safety_inv b s \<Longrightarrow> safety_inv b t"
  by (induction rule: safety_run.induct) (auto intro: safety_inv_step)

lemma safety_inv_reachable: "safety_reachable b s \<Longrightarrow> safety_inv b s"
  by (auto simp: safety_reachable_def intro: safety_inv_run safety_inv_start)

section \<open>The latch of the relay\<close>

lemma relay_step:
  assumes "safety_step b s e t" "safety_inv b s" "relay_malfunction s" "\<And>m prm. e \<noteq> Mode m prm"
  shows "relay_malfunction t"
  using assms(1)
proof (cases rule: safety_step.cases)
  case (rx p)
  then show ?thesis using assms by (simp add: safety_inv_def safety_rx_hook_keeps)
qed (use assms in \<open>simp_all add: safety_tx_hook_keeps safety_tick_keeps\<close>)

lemma relay_run:
  assumes "safety_run b s es t" "safety_inv b s" "relay_malfunction s" "\<And>m prm. Mode m prm \<notin> set es"
  shows "relay_malfunction t"
  using assms by (induction rule: safety_run.induct) (auto intro: relay_step safety_inv_step)

section \<open>Where the permission comes from\<close>

lemma engagement_step:
  assumes "safety_step b s e t" "safety_inv b s" "\<not> controls_allowed s" "controls_allowed t"
  shows "(\<exists>p. e = Rx p \<and> valid_packet (hooks_of b (current_hooks s)) s p) \<or>
    ALLOW_DEBUG b \<and> (\<exists>prm. e = Mode SAFETY_ALLOUTPUT prm)"
  using assms(1)
proof (cases rule: safety_step.cases)
  case (rx p)
  then show ?thesis using assms safety_rx_hook_engages(1) [of s b p]
    by (simp add: safety_inv_def safety_rx_hook_valid_iff)
next
  case (mode m prm)
  show ?thesis
  proof (cases "m \<in> fst ` set (safety_hook_registry b)")
    case True
    then have "m = SAFETY_ALLOUTPUT" using set_safety_hooks_known(6) [OF True] mode assms(4) by blast
    moreover have "ALLOW_DEBUG b" using True calculation registry_hooks(1) by fastforce
    ultimately show ?thesis using mode by blast
  next
    case False
    then show ?thesis using mode assms(4) by (simp add: set_safety_hooks_unknown reset_mode_state_spec)
  qed
qed (use assms in \<open>simp_all add: safety_tx_hook_keeps safety_tick_spec\<close>)

end
