(* ===== verification/Can_Invariant.thy ===== *)
theory Can_Invariant
  imports Fdcan Safety_System
begin

text \<open>
  What every operation of the CAN layer keeps: the arrays have their sizes, the bus numbering stays
  within them, the rings are well formed and hold packets of full size. So every index of the layer is in
  bounds. And what they leave alone: the variables of the safety layer.
\<close>

definition queue_ok :: "u32 \<Rightarrow> CANPacket_t can_ring \<Rightarrow> bool" where
  "queue_ok n q \<longleftrightarrow> ring_ok q \<and> fifo_size q = n \<and> (\<forall>p \<in> set (elems q). packet_ok p)"

definition bus_ok :: "bus_config_t \<Rightarrow> bool" where
  "bus_ok c \<longleftrightarrow> bus_lookup c < 3 \<and> can_num_lookup c < 3 \<and> forwarding_bus c = - 1"

definition can_ok :: "'a cst \<Rightarrow> bool" where
  "can_ok s \<longleftrightarrow> length (cans s) = 3 \<and> length (can_health s) = 3 \<and> length (can_queues s) = 3 \<and>
     length (bus_config s) = 4 \<and> (\<forall>i<3. bus_ok (bus_config s ! i)) \<and> queue_ok CAN_RX_BUFFER_SIZE (can_rx_q s) \<and>
     (\<forall>q \<in> set (can_queues s). queue_ok CAN_TX_BUFFER_SIZE q) \<and> packet_ok (stack_packet s)"

definition rx_content :: "'a cst \<Rightarrow> CANPacket_t list" where
  "rx_content s = ring_content (can_rx_q s)"

definition tx_content :: "'a cst \<Rightarrow> u8 \<Rightarrow> CANPacket_t list" where
  "tx_content s n = ring_content (can_queues s ! unat n)"

section \<open>Queues\<close>

lemma queue_ok_push: "queue_ok n q \<Longrightarrow> packet_ok p \<Longrightarrow> queue_ok n (snd (can_push q p))"
  using ring_ok_push [of q p] set_update_subset_insert [of "elems q" "unat (w_ptr q)" p]
  by (auto simp: queue_ok_def can_push_eq)

lemma queue_ok_pop: "queue_ok n q \<Longrightarrow> queue_ok n (snd (can_pop q))"
  using ring_ok_pop [of q] by (auto simp: queue_ok_def can_pop_eq)

lemma queue_ok_clear: "queue_ok n q \<Longrightarrow> queue_ok n (clear_ptrs q)"
  using clear_ptrs_ok [of q] by (simp add: queue_ok_def) (simp add: clear_ptrs_def)

lemma queue_ok_buffer: "0 < n \<Longrightarrow> packet_ok p \<Longrightarrow> queue_ok n (can_buffer p n)"
  using can_buffer_ok [of n p] by (auto simp: queue_ok_def can_buffer_def)

lemma queue_ok_popped:
  assumes "queue_ok n q" "fst (can_pop q) = Some p"
  shows "packet_ok p"
proof -
  have "unat (r_ptr q) < length (elems q)" using assms(1) by (auto simp: queue_ok_def ring_ok_def word_less_nat_alt)
  then have "elems q ! unat (r_ptr q) \<in> set (elems q)" by simp
  then show ?thesis using assms by (auto simp: queue_ok_def can_pop_eq split: if_splits)
qed

lemma queue_ok_content: "queue_ok n q \<Longrightarrow> p \<in> set (ring_content q) \<Longrightarrow> packet_ok p"
  using ring_index_less [of q] by (auto simp: queue_ok_def ring_content_def ring_ok_def)

section \<open>The primitives\<close>

lemma can_ok_bus: "can_ok s \<Longrightarrow> n < 3 \<Longrightarrow> bus_ok (bus_config s ! unat (n :: u8))"
  by (auto simp: can_ok_def word_less_nat_alt)

lemma can_ok_queue: "can_ok s \<Longrightarrow> n < 3 \<Longrightarrow> queue_ok CAN_TX_BUFFER_SIZE (can_queues s ! unat (n :: u8))"
  by (auto simp: can_ok_def word_less_nat_alt)

lemma upd_health_simps [simp]:
  "cans (upd_health n f s) = cans s" "can_queues (upd_health n f s) = can_queues s"
  "bus_config (upd_health n f s) = bus_config s" "can_rx_q (upd_health n f s) = can_rx_q s"
  "stack_packet (upd_health n f s) = stack_packet s" "tx_requests (upd_health n f s) = tx_requests s"
  "length (can_health (upd_health n f s)) = length (can_health s)"
  "safety_vars (upd_health n f s) = safety_vars s"
  by (simp_all add: upd_health_def)

lemma upd_can_simps [simp]:
  "length (cans (upd_can n g s)) = length (cans s)" "can_queues (upd_can n g s) = can_queues s"
  "bus_config (upd_can n g s) = bus_config s" "can_rx_q (upd_can n g s) = can_rx_q s"
  "stack_packet (upd_can n g s) = stack_packet s" "tx_requests (upd_can n g s) = tx_requests s"
  "can_health (upd_can n g s) = can_health s" "safety_vars (upd_can n g s) = safety_vars s"
  by (simp_all add: upd_can_def)

lemma on_core_simps [simp]:
  "length (cans (snd (on_core n g s))) = length (cans s)" "can_queues (snd (on_core n g s)) = can_queues s"
  "bus_config (snd (on_core n g s)) = bus_config s" "can_rx_q (snd (on_core n g s)) = can_rx_q s"
  "stack_packet (snd (on_core n g s)) = stack_packet s" "tx_requests (snd (on_core n g s)) = tx_requests s"
  "can_health (snd (on_core n g s)) = can_health s" "safety_vars (snd (on_core n g s)) = safety_vars s"
  by (simp_all add: on_core_def split: option.split prod.split)

lemma upd_bus_simps [simp]:
  "cans (upd_bus n h s) = cans s" "can_queues (upd_bus n h s) = can_queues s"
  "length (bus_config (upd_bus n h s)) = length (bus_config s)" "can_rx_q (upd_bus n h s) = can_rx_q s"
  "stack_packet (upd_bus n h s) = stack_packet s" "tx_requests (upd_bus n h s) = tx_requests s"
  "can_health (upd_bus n h s) = can_health s" "safety_vars (upd_bus n h s) = safety_vars s"
  by (simp_all add: upd_bus_def)

lemma can_ok_upd [simp]:
  "can_ok (upd_health n f s) = can_ok s" "can_ok (upd_can n g s) = can_ok s" "can_ok (snd (on_core n c s)) = can_ok s"
  "can_ok (s\<lparr>hung := h\<rparr>) = can_ok s"
  by (simp_all add: can_ok_def)

lemma can_ok_upd_bus:
  assumes "can_ok s" "\<And>c. bus_ok c \<Longrightarrow> bus_ok (h c)"
  shows "can_ok (upd_bus n h s)"
proof -
  have "bus_ok (bus_config (upd_bus n h s) ! i)" if "i < 3" for i
    using assms that by (cases "i = unat n") (simp_all add: upd_bus_def can_ok_def)
  then show ?thesis using assms(1) by (simp add: can_ok_def)
qed

lemma push_rx_simps [simp]:
  "cans (push_rx p s) = cans s" "can_queues (push_rx p s) = can_queues s" "bus_config (push_rx p s) = bus_config s"
  "stack_packet (push_rx p s) = stack_packet s" "tx_requests (push_rx p s) = tx_requests s"
  "can_health (push_rx p s) = can_health s" "safety_vars (push_rx p s) = safety_vars s"
  "can_rx_q (push_rx p s) = snd (can_push (can_rx_q s) p)"
  by (simp_all add: push_rx_def Let_def case_prod_beta)

lemma push_tx_simps [simp]:
  "cans (push_tx n p s) = cans s" "can_rx_q (push_tx n p s) = can_rx_q s" "bus_config (push_tx n p s) = bus_config s"
  "stack_packet (push_tx n p s) = stack_packet s" "tx_requests (push_tx n p s) = tx_requests s"
  "can_health (push_tx n p s) = can_health s" "safety_vars (push_tx n p s) = safety_vars s"
  "can_queues (push_tx n p s) = (can_queues s)[unat n := snd (can_push (can_queues s ! unat n) p)]"
  by (simp_all add: push_tx_def Let_def case_prod_beta)

lemma refresh_simps [simp]:
  "cans (refresh_can_tx_slots_available s) = cans s" "can_queues (refresh_can_tx_slots_available s) = can_queues s"
  "bus_config (refresh_can_tx_slots_available s) = bus_config s" "can_rx_q (refresh_can_tx_slots_available s) = can_rx_q s"
  "stack_packet (refresh_can_tx_slots_available s) = stack_packet s"
  "tx_requests (refresh_can_tx_slots_available s) = tx_requests s"
  "can_health (refresh_can_tx_slots_available s) = can_health s"
  "safety_vars (refresh_can_tx_slots_available s) = safety_vars s"
  by (simp_all add: refresh_can_tx_slots_available_def can_tx_comms_resume_usb_def can_tx_comms_resume_spi_def
      Let_def)

lemma can_ok_push_rx: "can_ok s \<Longrightarrow> packet_ok p \<Longrightarrow> can_ok (push_rx p s)"
  by (simp add: can_ok_def queue_ok_push)

lemma can_ok_refresh [simp]: "can_ok (refresh_can_tx_slots_available s) = can_ok s"
  by (simp add: can_ok_def)

lemma can_ok_set_queue:
  assumes "can_ok s" "queue_ok CAN_TX_BUFFER_SIZE q"
  shows "can_ok (s\<lparr>can_queues := (can_queues s)[n := q]\<rparr>)"
  using assms set_update_subset_insert [of "can_queues s" n q] by (auto simp: can_ok_def)

lemma can_ok_push_tx:
  assumes "can_ok s" "packet_ok p" "n < 3"
  shows "can_ok (push_tx n p s)"
proof -
  have "queue_ok CAN_TX_BUFFER_SIZE (snd (can_push (can_queues s ! unat n) p))"
    using can_ok_queue [OF assms(1,3)] assms(2) by (rule queue_ok_push)
  from can_ok_set_queue [OF assms(1) this, of "unat n"] show ?thesis by (simp add: can_ok_def)
qed

section \<open>Transmission\<close>

lemma send_element_simps [simp]:
  "length (cans (send_element hw n p s)) = length (cans s)" "can_queues (send_element hw n p s) = can_queues s"
  "bus_config (send_element hw n p s) = bus_config s" "can_rx_q (send_element hw n p s) = can_rx_q s"
  "stack_packet (send_element hw n p s) = stack_packet s" "can_health (send_element hw n p s) = can_health s"
  "safety_vars (send_element hw n p s) = safety_vars s" "can_ok (send_element hw n p s) = can_ok s"
  by (simp_all add: send_element_def Let_def can_ok_def)

lemma send_element_requests:
  "tx_requests (send_element hw n p s) = tx_requests s @
     [(n, push_bit (unat (drop_bit 16 (TXFQS (cans s ! unat n)) AND 0x1F)) 1,
       element_of (canfd_enabled (bus_config s ! unat n)) (brs_enabled (bus_config s ! unat n)) p)]"
  by (simp add: send_element_def Let_def)

lemma copy_packet_ok [simp]:
  assumes "packet_ok stack" "packet_ok p"
  shows "packet_ok (copy_packet stack r bus p)"
  using assms GET_LEN_le [of p] by (simp add: copy_packet_def) (simp add: packet_ok_def CANPACKET_DATA_SIZE_MAX_def)

text \<open>
  The three outcomes of a transmit interrupt: the FIFO of the core is full or nothing is queued;
  the oldest packet of the bus is sent; or it is dropped for its checksum.
\<close>

definition tx_ready :: "core_behaviour \<Rightarrow> u8 \<Rightarrow> 'a cst \<Rightarrow> bool" where
  "tx_ready hw n s \<longleftrightarrow>
     TXFQS (write_IR hw (IR (cans s ! unat n) OR FDCAN_IR_TFE) (cans s ! unat n)) AND FDCAN_TXFQS_TFQF = 0"

definition next_packet :: "core_behaviour \<Rightarrow> u8 \<Rightarrow> 'a cst \<Rightarrow> CANPacket_t option" where
  "next_packet hw n s = (if n \<noteq> 0xFF \<and> tx_ready hw n s
     then fst (can_pop (can_queues s ! unat (BUS_NUM_FROM_CAN_NUM s n))) else None)"

lemma core_numbers: "n < 3 \<Longrightarrow> n \<noteq> (0xFF :: u8)"
  by (auto simp: word_less_nat_alt)

lemma process_can_ready:
  assumes "can_ok s" "n < 3"
  shows "TXFQS (cans (upd_can n (\<lambda>c. write_IR hw (IR c OR FDCAN_IR_TFE) c) s) ! unat n) AND FDCAN_TXFQS_TFQF = 0
    \<longleftrightarrow> tx_ready hw n s"
proof -
  have "unat n < length (cans s)" using assms by (simp add: can_ok_def word_less_nat_alt)
  then show ?thesis by (simp add: upd_can_def tx_ready_def)
qed

lemma process_can_eq:
  fixes s :: "'a cst" and hw :: core_behaviour
  assumes "can_ok s" "n < 3"
  defines "t \<equiv> upd_can n (\<lambda>c. write_IR hw (IR c OR FDCAN_IR_TFE) c) s"
    and "bus \<equiv> BUS_NUM_FROM_CAN_NUM s n"
  shows "process_can hw n s = (case next_packet hw n s of None \<Rightarrow> t
    | Some p \<Rightarrow> transmit_packet hw n bus p
        (t\<lparr>can_queues := (can_queues s)[unat bus := snd (can_pop (can_queues s ! unat bus))]\<rparr>))"
proof -
  have n: "n \<noteq> 0xFF" by (rule core_numbers [OF assms(2)])
  obtain popped q where pop: "can_pop (can_queues s ! unat bus) = (popped, q)" by fastforce
  then have np: "next_packet hw n s = (if tx_ready hw n s then popped else None)"
    using n by (simp add: next_packet_def bus_def)
  show ?thesis
    unfolding process_can_def Let_def bus_def [symmetric] process_can_ready [OF assms(1,2)] np t_def
    by (simp only: n pop upd_can_simps not_False_eq_True if_True prod.case fst_conv snd_conv option.case
        split: if_split) simp
qed

lemma transmit_packet_simps [simp]:
  "safety_vars (transmit_packet hw n bus p s) = safety_vars s"
  "can_queues (transmit_packet hw n bus p s) = can_queues s"
  "bus_config (transmit_packet hw n bus p s) = bus_config s"
  "stack_packet (transmit_packet hw n bus p s) = stack_packet s"
  by (simp_all add: transmit_packet_def Let_def)

lemma transmit_packet_ok:
  assumes "can_ok s" "packet_ok p"
  shows "can_ok (transmit_packet hw n bus p s)"
proof -
  have "packet_ok (stack_packet s)" using assms(1) by (simp add: can_ok_def)
  then show ?thesis using assms by (simp add: transmit_packet_def Let_def can_ok_push_rx)
qed

lemma transmit_packet_requests:
  "\<exists>i fd brs. tx_requests (transmit_packet hw n bus p s) =
     tx_requests s @ (if can_check_checksum p then [(n, i, element_of fd brs p)] else [])"
  by (simp add: transmit_packet_def Let_def send_element_requests) blast

lemma next_packet_ok:
  assumes "can_ok s" "n < 3" "next_packet hw n s = Some p"
  shows "packet_ok p" "p \<in> set (tx_content s (BUS_NUM_FROM_CAN_NUM s n))"
proof -
  let ?bus = "BUS_NUM_FROM_CAN_NUM s n"
  have q: "queue_ok CAN_TX_BUFFER_SIZE (can_queues s ! unat ?bus)"
    using can_ok_queue [OF assms(1)] can_ok_bus [OF assms(1,2)] by (simp add: BUS_NUM_FROM_CAN_NUM_def bus_ok_def)
  have pop: "fst (can_pop (can_queues s ! unat ?bus)) = Some p"
    using assms(3) by (simp add: next_packet_def split: if_splits)
  show "packet_ok p" by (rule queue_ok_popped [OF q pop])
  show "p \<in> set (tx_content s ?bus)"
    using ring.pop_content [of "can_queues s ! unat ?bus"] q pop by (simp add: tx_content_def queue_ok_def)
qed

lemma process_can_ok:
  assumes "can_ok s" "n < 3"
  shows "can_ok (process_can hw n s)"
proof (cases "next_packet hw n s")
  case None
  then show ?thesis using assms by (simp add: process_can_eq)
next
  case (Some p)
  let ?bus = "BUS_NUM_FROM_CAN_NUM s n"
  have "queue_ok CAN_TX_BUFFER_SIZE (snd (can_pop (can_queues s ! unat ?bus)))"
    using can_ok_queue [OF assms(1)] can_ok_bus [OF assms] by (simp add: BUS_NUM_FROM_CAN_NUM_def bus_ok_def queue_ok_pop)
  from can_ok_set_queue [OF _ this, of "upd_can n (\<lambda>c. write_IR hw (IR c OR FDCAN_IR_TFE) c) s" "unat ?bus"]
  show ?thesis
    using assms Some next_packet_ok(1) [OF assms Some] by (simp add: process_can_eq transmit_packet_ok)
qed

lemma process_can_frame [simp]:
  "safety_vars (process_can hw n s) = safety_vars s" "stack_packet (process_can hw n s) = stack_packet s"
  "bus_config (process_can hw n s) = bus_config s"
  by (simp_all add: process_can_def Let_def case_prod_beta split: option.split)

text \<open>The queue of the bus loses its oldest packet, the others nothing.\<close>

lemma process_can_content:
  assumes "can_ok s" "n < 3" "m < 3"
  shows "tx_content s m = (case next_packet hw n s of Some p \<Rightarrow> (if m = BUS_NUM_FROM_CAN_NUM s n then [p] else []) | None \<Rightarrow> [])
    @ tx_content (process_can hw n s) m"
proof (cases "next_packet hw n s")
  case None
  then show ?thesis using assms by (simp add: process_can_eq tx_content_def)
next
  case (Some p)
  let ?bus = "BUS_NUM_FROM_CAN_NUM s n"
  have b: "?bus < 3" using can_ok_bus [OF assms(1,2)] by (simp add: BUS_NUM_FROM_CAN_NUM_def bus_ok_def)
  then have q: "queue_ok CAN_TX_BUFFER_SIZE (can_queues s ! unat ?bus)" by (rule can_ok_queue [OF assms(1)])
  have pop: "fst (can_pop (can_queues s ! unat ?bus)) = Some p"
    using Some by (simp add: next_packet_def split: if_splits)
  have l: "unat ?bus < length (can_queues s)" using b assms(1) by (simp add: can_ok_def word_less_nat_alt)
  have "tx_content s ?bus = p # ring_content (snd (can_pop (can_queues s ! unat ?bus)))"
    using ring.pop_content [of "can_queues s ! unat ?bus"] q pop by (simp add: tx_content_def queue_ok_def)
  then show ?thesis
    using Some assms l by (cases "m = ?bus") (auto simp: process_can_eq tx_content_def word_unat_eq_iff)
qed

section \<open>Sending\<close>

lemma can_ok_fields [simp]:
  "can_ok (s\<lparr>safety_vars := v\<rparr>) = can_ok s" "can_ok (s\<lparr>safety_tx_blocked := a\<rparr>) = can_ok s"
  "can_ok (s\<lparr>safety_rx_invalid := a\<rparr>) = can_ok s" "can_ok (s\<lparr>pending_can_live := i\<rparr>) = can_ok s"
  "can_ok (s\<lparr>ignition_can := c\<rparr>) = can_ok s" "can_ok (s\<lparr>ignition_can_cnt := a\<rparr>) = can_ok s"
  "can_ok (s\<lparr>can_silent := i\<rparr>) = can_ok s" "can_ok (s\<lparr>can_loopback := c\<rparr>) = can_ok s"
  "can_ok (s\<lparr>can_live := i\<rparr>) = can_ok s" "can_ok (s\<lparr>can_write_buffer := w\<rparr>) = can_ok s"
  "can_ok (s\<lparr>can_read_buffer := w\<rparr>) = can_ok s" "can_ok (s\<lparr>spi_can_tx_ready := c\<rparr>) = can_ok s"
  by (simp_all add: can_ok_def)

text \<open>The four outcomes.\<close>

lemma can_send_rejected:
  assumes "\<not> skip" "\<not> fst (safety_tx_hook b p (safety_vars s))"
  shows "can_send b hw p bus skip s = push_rx (can_set_checksum (p\<lparr>p_returned := False, p_rejected := True\<rparr>))
    (s\<lparr>safety_vars := snd (safety_tx_hook b p (safety_vars s)), safety_tx_blocked := safety_tx_blocked s + 1\<rparr>)"
  using assms by (simp add: can_send_def Let_def case_prod_beta)

lemma can_send_no_bus:
  assumes "\<not> bus < 3" "skip \<or> fst (safety_tx_hook b p (safety_vars s))"
  shows "can_send b hw p bus skip s =
    s\<lparr>safety_vars := if skip then safety_vars s else snd (safety_tx_hook b p (safety_vars s))\<rparr>"
  using assms by (auto simp: can_send_def Let_def case_prod_beta PANDA_BUS_CNT_def)

lemma can_send_accepted:
  assumes "bus < 3" "skip \<or> fst (safety_tx_hook b p (safety_vars s))"
  shows "can_send b hw p bus skip s = process_can hw (CAN_NUM_FROM_BUS_NUM s bus)
    (push_tx bus p (s\<lparr>safety_vars := if skip then safety_vars s else snd (safety_tx_hook b p (safety_vars s))\<rparr>))"
  using assms by (auto simp: can_send_def Let_def case_prod_beta PANDA_BUS_CNT_def CAN_NUM_FROM_BUS_NUM_def)

lemma can_number_ok: "can_ok s \<Longrightarrow> bus < 3 \<Longrightarrow> CAN_NUM_FROM_BUS_NUM s bus < 3"
  "can_ok s \<Longrightarrow> n < 3 \<Longrightarrow> BUS_NUM_FROM_CAN_NUM s n < 3"
  using can_ok_bus [of s] by (simp_all add: CAN_NUM_FROM_BUS_NUM_def BUS_NUM_FROM_CAN_NUM_def bus_ok_def)

lemma can_send_cases [case_names rejected no_bus accepted]:
  assumes "\<not> skip \<Longrightarrow> \<not> fst (safety_tx_hook b p (safety_vars s)) \<Longrightarrow> Q"
    and "\<not> bus < (3 :: u8) \<Longrightarrow> skip \<or> fst (safety_tx_hook b p (safety_vars s)) \<Longrightarrow> Q"
    and "bus < 3 \<Longrightarrow> skip \<or> fst (safety_tx_hook b p (safety_vars s)) \<Longrightarrow> Q"
  shows Q
  using assms by blast

lemma can_send_ok:
  assumes "can_ok s" "packet_ok p"
  shows "can_ok (can_send b hw p bus skip s)"
proof (cases rule: can_send_cases [where skip = skip and b = b and p = p and s = s and bus = bus])
  case rejected
  then show ?thesis using assms
    by (simp add: can_send_rejected can_ok_push_rx) (simp add: can_ok_push_rx packet_ok_def)
next
  case no_bus
  then show ?thesis using assms by (simp add: can_send_no_bus)
next
  case accepted
  show ?thesis unfolding can_send_accepted [OF accepted]
    by (intro process_can_ok can_ok_push_tx can_number_ok accepted assms(2)) (simp_all add: assms)
qed

lemma can_send_safety_vars:
  "safety_vars (can_send b hw p bus skip s) = (if skip then safety_vars s else snd (safety_tx_hook b p (safety_vars s)))"
  by (cases rule: can_send_cases [where skip = skip and b = b and p = p and s = s and bus = bus]) (simp_all add: can_send_rejected can_send_no_bus can_send_accepted)

lemma can_send_frame [simp]:
  "stack_packet (can_send b hw p bus skip s) = stack_packet s" "bus_config (can_send b hw p bus skip s) = bus_config s"
  by (cases rule: can_send_cases [where skip = skip and b = b and p = p and s = s and bus = bus]; simp add: can_send_rejected can_send_no_bus can_send_accepted)+

section \<open>Where the transmitted frames come from\<close>

text \<open>\<open>P\<close> holds of every packet waiting for a bus and of every element handed to a core.\<close>

definition only_sends :: "(CANPacket_t \<Rightarrow> bool) \<Rightarrow> 'a cst \<Rightarrow> bool" where
  "only_sends P s \<longleftrightarrow> (\<forall>m<3. \<forall>p \<in> set (tx_content s m). P p) \<and>
     (\<forall>(n, i, e) \<in> set (tx_requests s). \<exists>p fd brs. P p \<and> can_check_checksum p \<and> e = element_of fd brs p)"

lemma only_sends_process:
  assumes "can_ok s" "n < 3" "only_sends P s"
  shows "only_sends P (process_can hw n s)"
proof (cases "next_packet hw n s")
  case None
  then show ?thesis using assms by (simp add: process_can_eq only_sends_def tx_content_def)
next
  case (Some p)
  let ?bus = "BUS_NUM_FROM_CAN_NUM s n"
  have p: "P p" using next_packet_ok(2) [OF assms(1,2) Some] can_number_ok(2) [OF assms(1,2)] assms(3)
    by (auto simp: only_sends_def)
  obtain i fd brs where r: "tx_requests (process_can hw n s) =
      tx_requests s @ (if can_check_checksum p then [(n, i, element_of fd brs p)] else [])"
    using transmit_packet_requests [of hw n ?bus p "(upd_can n (\<lambda>c. write_IR hw (IR c OR FDCAN_IR_TFE) c) s)
        \<lparr>can_queues := (can_queues s)[unat ?bus := snd (can_pop (can_queues s ! unat ?bus))]\<rparr>"]
      process_can_eq [OF assms(1,2), of hw] Some by auto
  have "set (tx_content (process_can hw n s) m) \<subseteq> set (tx_content s m)" if "m < 3" for m
    using process_can_content [OF assms(1,2) that, of hw] by auto
  then show ?thesis using assms(3) p by (auto simp: only_sends_def r split: if_splits)
qed

lemma only_sends_cong:
  "can_queues s = can_queues t \<Longrightarrow> tx_requests s = tx_requests t \<Longrightarrow> only_sends P s = only_sends P t"
  by (simp add: only_sends_def tx_content_def)

lemma only_sends_push_tx:
  assumes "can_ok s" "bus < 3" "P p" "only_sends P s"
  shows "only_sends P (push_tx bus p s)"
proof -
  have q: "ring_ok (can_queues s ! unat bus)" using can_ok_queue [OF assms(1,2)] by (simp add: queue_ok_def)
  have l: "unat bus < length (can_queues s)" using assms(1,2) by (simp add: can_ok_def word_less_nat_alt)
  have "set (tx_content (push_tx bus p s) m) \<subseteq> insert p (set (tx_content s m))" if "m < 3" for m
    using ring.push_content [OF q, of p] l
    by (cases "m = bus") (auto simp: tx_content_def word_unat_eq_iff split: if_splits)
  then show ?thesis using assms(3,4) by (auto simp: only_sends_def)
qed

lemma only_sends_can_send:
  assumes "can_ok s" "packet_ok p" "only_sends P s"
    and "skip \<or> fst (safety_tx_hook b p (safety_vars s)) \<Longrightarrow> P p"
  shows "only_sends P (can_send b hw p bus skip s)"
proof (cases rule: can_send_cases [where skip = skip and b = b and p = p and s = s and bus = bus])
  case rejected
  then show ?thesis using assms(3) by (simp add: can_send_rejected only_sends_def tx_content_def)
next
  case no_bus
  then show ?thesis using assms(3) by (simp add: can_send_no_bus only_sends_def tx_content_def)
next
  case accepted
  let ?s = "s\<lparr>safety_vars := if skip then safety_vars s else snd (safety_tx_hook b p (safety_vars s))\<rparr>"
  have o: "only_sends P (push_tx bus p ?s)"
    by (rule only_sends_push_tx) (use assms accepted in \<open>simp_all add: only_sends_def tx_content_def\<close>)
  show ?thesis unfolding can_send_accepted [OF accepted]
    by (intro only_sends_process o can_ok_push_tx can_number_ok accepted assms(2)) (simp_all add: assms)
qed

section \<open>Reception\<close>

lemma data_len_w_le: "4 * data_len_w (GET_LEN p) \<le> CANPACKET_DATA_SIZE_MAX"
proof -
  have "unat (p_data_len_code p) < 16" using unsigned_less [of "p_data_len_code p"] by simp
  then have "unat (p_data_len_code p) \<in> {0..<16}" by simp
  also have "{0..<16 :: nat} = set [0..<16]" by simp
  finally show ?thesis
    by (auto simp: GET_LEN_def dlc_to_len_def data_len_w_def CANPACKET_DATA_SIZE_MAX_def upt_rec)
qed

lemma GET_LEN_cong: "p_data_len_code p = p_data_len_code q \<Longrightarrow> GET_LEN p = GET_LEN q"
  by (simp add: GET_LEN_def)

lemma packet_of_ok [simp]:
  assumes "packet_ok stack"
  shows "packet_ok (packet_of stack bus fifo)"
proof -
  have l: "length (concat (map (\<lambda>i. WORD_TO_BYTE_ARRAY (nth_default 0 (data_word fifo) i)) [0..<n])) = 4 * n" for n
    by (induction n) (simp_all add: WORD_TO_BYTE_ARRAY_def word_bytes_def)
  have "4 * data_len_w (GET_LEN p) + (CANPACKET_DATA_SIZE_MAX - 4 * data_len_w (GET_LEN p)) = CANPACKET_DATA_SIZE_MAX" for p
    by (rule le_add_diff_inverse [OF data_len_w_le])
  then show ?thesis using assms
    by (simp add: packet_of_def Let_def) (simp add: packet_ok_def l)
qed

lemma ignition_simps [simp]:
  "can_ok (ignition_can_hook p s) = can_ok s" "tx_requests (ignition_can_hook p s) = tx_requests s"
  "can_queues (ignition_can_hook p s) = can_queues s" "safety_vars (ignition_can_hook p s) = safety_vars s"
  "stack_packet (ignition_can_hook p s) = stack_packet s" "bus_config (ignition_can_hook p s) = bus_config s"
  by (simp_all add: ignition_can_hook_def Let_def)

lemma receive_simps [simp]:
  "can_ok (receive_packet b p s) = can_ok s" "tx_requests (receive_packet b p s) = tx_requests s"
  "can_queues (receive_packet b p s) = can_queues s" "stack_packet (receive_packet b p s) = stack_packet s"
  "safety_vars (receive_packet b p s) = snd (safety_rx_hook b p (safety_vars s))"
  "bus_config (receive_packet b p s) = bus_config s"
  by (simp_all add: receive_packet_def Let_def case_prod_beta)

text \<open>The forwarding of a received packet, where the safety layer chooses a bus.\<close>

definition forwards :: "build_flags \<Rightarrow> u8 \<Rightarrow> CANPacket_t \<Rightarrow> statics \<Rightarrow> bool" where
  "forwards b bus p v \<longleftrightarrow> safety_fwd_hook b (uint bus) (GET_ADDR p) v \<noteq> - 1"

lemma fwd_choice:
  fixes v :: statics
  shows "safety_fwd_hook b (uint (bus :: u8)) a v \<in> {- 1, 0, 1, 2}"
  using selected.fwd_elsewhere [of "uint bus" b "current_hooks v" v a] by (auto simp: safety_fwd_hook_def)

lemma forward_packet_eq:
  assumes "can_ok s" "n < 3"
  shows "forward_packet b hw n bus p s = (if forwards b bus p (safety_vars s)
    then upd_health n (\<lambda>h. h\<lparr>total_fwd_cnt := total_fwd_cnt h + 1\<rparr>)
      (can_send b hw (copy_packet (stack_packet s) False (p_bus p) p)
        (word_of_int (safety_fwd_hook b (uint bus) (GET_ADDR p) (safety_vars s))) True s) else s)"
proof -
  have "forwarding_bus (bus_config s ! unat n) = - 1" using can_ok_bus [OF assms] by (simp add: bus_ok_def)
  then show ?thesis using fwd_choice [of b bus "GET_ADDR p" "safety_vars s"]
    by (auto simp: forward_packet_def forwards_def Let_def)
qed

lemma forward_packet_ok:
  assumes "can_ok s" "n < 3" "packet_ok p"
  shows "can_ok (forward_packet b hw n bus p s)"
proof -
  have "packet_ok (stack_packet s)" using assms(1) by (simp add: can_ok_def)
  then show ?thesis using assms by (simp add: forward_packet_eq can_send_ok)
qed

lemma forward_packet_vars:
  assumes "can_ok s" "n < 3"
  shows "safety_vars (forward_packet b hw n bus p s) = safety_vars s"
    "stack_packet (forward_packet b hw n bus p s) = stack_packet s"
  using assms by (simp_all add: forward_packet_eq can_send_safety_vars)

lemma can_rx_one_ok:
  assumes "can_ok s" "n < 3"
  shows "can_ok (can_rx_one b hw n bus s)"
  unfolding can_rx_one_def Let_def
  by (auto intro!: can_ok_upd_bus can_ok_push_rx forward_packet_ok packet_of_ok
      simp: assms bus_ok_def) (use assms in \<open>simp_all add: can_ok_def\<close>)

lemma can_rx_loop_ok:
  "can_rx_loop b hw n bus k s = Some t \<Longrightarrow> can_ok s \<Longrightarrow> n < 3 \<Longrightarrow> can_ok t"
proof (induction k arbitrary: s)
  case 0
  then show ?case by (simp add: can_rx_loop.simps split: if_splits)
next
  case (Suc k)
  then show ?case using can_rx_one_ok [of s n b hw bus]
    by (auto simp: can_rx_loop.simps [of _ _ _ _ "Suc k"] split: if_splits)
qed

section \<open>The invariant of the layer\<close>

text \<open>\<open>P\<close> holds of every packet on its way to a core or handed to one.\<close>

definition layer_inv :: "build_flags \<Rightarrow> (CANPacket_t \<Rightarrow> bool) \<Rightarrow> 'a cst \<Rightarrow> bool" where
  "layer_inv b P s \<longleftrightarrow> can_ok s \<and> safety_reachable b (safety_vars s) \<and> only_sends P s"

lemma layer_inv_mono: "layer_inv b P s \<Longrightarrow> (\<And>p. P p \<Longrightarrow> Q p) \<Longrightarrow> layer_inv b Q s"
  by (fastforce simp: layer_inv_def only_sends_def)

lemma layer_inv_cong:
  "can_ok s \<Longrightarrow> safety_vars s = safety_vars t \<Longrightarrow> can_queues s = can_queues t \<Longrightarrow> tx_requests s = tx_requests t \<Longrightarrow>
     layer_inv b P t \<Longrightarrow> layer_inv b P s"
  using only_sends_cong [of s t] by (simp add: layer_inv_def)

lemma layer_inv_upd [simp]:
  "layer_inv b P (upd_health n f s) = layer_inv b P s" "layer_inv b P (upd_can n g s) = layer_inv b P s"
  "layer_inv b P (snd (on_core n c s)) = layer_inv b P s" "layer_inv b P (s\<lparr>hung := h\<rparr>) = layer_inv b P s"
  "layer_inv b P (refresh_can_tx_slots_available s) = layer_inv b P s"
  "layer_inv b P (ignition_can_hook p s) = layer_inv b P s"
  by (simp_all add: layer_inv_def only_sends_def tx_content_def)

lemma layer_inv_push_rx: "layer_inv b P s \<Longrightarrow> packet_ok p \<Longrightarrow> layer_inv b P (push_rx p s)"
  by (simp add: layer_inv_def can_ok_push_rx) (simp add: only_sends_def tx_content_def)

lemma layer_inv_upd_bus:
  assumes "layer_inv b P s" "\<And>c. bus_ok c \<Longrightarrow> bus_ok (h c)"
  shows "layer_inv b P (upd_bus n h s)"
  by (rule layer_inv_cong [OF can_ok_upd_bus]) (use assms in \<open>auto simp: layer_inv_def\<close>)

lemma layer_inv_process: "layer_inv b P s \<Longrightarrow> n < 3 \<Longrightarrow> layer_inv b P (process_can hw n s)"
  by (simp add: layer_inv_def process_can_ok only_sends_process)

lemma layer_inv_send:
  assumes "layer_inv b P s" "packet_ok p" "skip \<or> fst (safety_tx_hook b p (safety_vars s)) \<Longrightarrow> P p"
  shows "layer_inv b P (can_send b hw p bus skip s)"
proof -
  have "safety_reachable b (snd (safety_tx_hook b p (safety_vars s)))"
    using assms(1) safety_step.tx by (auto simp: layer_inv_def intro: safety_reachable_step)
  moreover have "only_sends P (can_send b hw p bus skip s)"
    by (rule only_sends_can_send) (use assms in \<open>auto simp: layer_inv_def\<close>)
  ultimately show ?thesis using assms by (simp add: layer_inv_def can_send_ok can_send_safety_vars)
qed

lemma layer_inv_forward:
  assumes "layer_inv b P s" "n < 3" "packet_ok p"
    "forwards b bus p (safety_vars s) \<Longrightarrow> P (copy_packet (stack_packet s) False (p_bus p) p)"
  shows "layer_inv b P (forward_packet b hw n bus p s)"
proof -
  have ok: "can_ok s" "packet_ok (stack_packet s)" using assms(1) by (simp_all add: layer_inv_def can_ok_def)
  show ?thesis
    unfolding forward_packet_eq [OF ok(1) assms(2)] using assms ok by (simp add: layer_inv_send)
qed

lemma layer_inv_receive:
  assumes "layer_inv b P s"
  shows "layer_inv b P (receive_packet b p s)"
proof -
  have "safety_reachable b (snd (safety_rx_hook b p (safety_vars s)))"
    using assms safety_step.rx by (auto simp: layer_inv_def intro: safety_reachable_step)
  then show ?thesis using assms by (simp add: layer_inv_def) (simp add: only_sends_def tx_content_def)
qed

lemma layer_inv_pending: "layer_inv b P s \<Longrightarrow> layer_inv b P (s\<lparr>pending_can_live := i\<rparr>)"
  by (simp add: layer_inv_def only_sends_def tx_content_def)

text \<open>The packet that a pass of the receive loop takes from the core, and the state before the pass.\<close>

definition received :: "u8 \<Rightarrow> u8 \<Rightarrow> 'a cst \<Rightarrow> CANPacket_t" where
  "received n bus s = packet_of (stack_packet s) bus (rx_elements (cans s ! unat n) ! unat (rx_index (cans s ! unat n)))"

definition rx_passes :: "build_flags \<Rightarrow> core_behaviour \<Rightarrow> u8 \<Rightarrow> u8 \<Rightarrow> nat \<Rightarrow> 'a cst \<Rightarrow> 'a cst" where
  "rx_passes b hw n bus i = (can_rx_one b hw n bus ^^ i)"

definition rx_pending :: "u8 \<Rightarrow> 'a cst \<Rightarrow> bool" where
  "rx_pending n s \<longleftrightarrow> RXF0S (cans s ! unat n) AND FDCAN_RXF0S_F0FL \<noteq> 0"

lemma layer_inv_rx_one:
  assumes "layer_inv b P s" "n < 3"
    "forwards b bus (received n bus s) (safety_vars s) \<Longrightarrow>
       P (copy_packet (stack_packet s) False (p_bus (received n bus s)) (received n bus s))"
  shows "layer_inv b P (can_rx_one b hw n bus s)"
proof -
  have stack: "packet_ok (stack_packet s)" using assms(1) by (simp add: layer_inv_def can_ok_def)
  show ?thesis
    unfolding can_rx_one_def Let_def
    by (auto intro!: layer_inv_upd_bus layer_inv_push_rx layer_inv_receive layer_inv_forward layer_inv_pending
        packet_of_ok simp: assms(1,2) stack bus_ok_def assms(3) [unfolded received_def])
qed

lemma layer_inv_rx_loop:
  assumes "can_rx_loop b hw n bus k s = Some t" "layer_inv b P s" "n < 3"
    and "\<And>i q. \<forall>j\<le>i. rx_pending n (rx_passes b hw n bus j s) \<Longrightarrow> q = received n bus (rx_passes b hw n bus i s) \<Longrightarrow>
       forwards b bus q (safety_vars (rx_passes b hw n bus i s)) \<Longrightarrow>
       P (copy_packet (stack_packet (rx_passes b hw n bus i s)) False (p_bus q) q)"
  shows "layer_inv b P t"
  using assms
proof (induction k arbitrary: s)
  case 0
  then show ?case by (simp add: can_rx_loop.simps split: if_splits)
next
  case (Suc k)
  let ?u = "can_rx_one b hw n bus s"
  have p: "rx_passes b hw n bus 0 s = s" "rx_passes b hw n bus (Suc i) s = rx_passes b hw n bus i ?u" for i
    by (simp_all add: rx_passes_def funpow_swap1)
  show ?case
  proof (cases "rx_pending n s")
    case True
    then have r: "can_rx_loop b hw n bus k ?u = Some t"
      using Suc.prems(1) by (simp add: can_rx_loop.simps [of _ _ _ _ "Suc k"] rx_pending_def)
    have u: "layer_inv b P ?u"
      using Suc.prems(2,3) Suc.prems(4) [of 0] True by (intro layer_inv_rx_one) (simp_all add: p)
    have "P (copy_packet (stack_packet (rx_passes b hw n bus i ?u)) False (p_bus q) q)"
      if "\<forall>j\<le>i. rx_pending n (rx_passes b hw n bus j ?u)" "q = received n bus (rx_passes b hw n bus i ?u)"
        "forwards b bus q (safety_vars (rx_passes b hw n bus i ?u))" for i q
    proof -
      have "\<forall>j\<le>Suc i. rx_pending n (rx_passes b hw n bus j s)"
        using that(1) True by (auto simp: p All_less_Suc2 less_Suc_eq_le [symmetric])
      from Suc.prems(4) [OF this, of q] show ?thesis using that(2,3) by (simp add: p)
    qed
    then show ?thesis by (rule Suc.IH [OF r u Suc.prems(3)])
  next
    case False
    then show ?thesis using Suc.prems(1,2) by (simp add: can_rx_loop.simps [of _ _ _ _ "Suc k"] rx_pending_def)
  qed
qed

lemma layer_inv_health: "layer_inv b P s \<Longrightarrow> layer_inv b P (update_can_health_pkt hw n ir s)"
  by (simp add: update_can_health_pkt_def can_clear_send_def Let_def split: option.split)

text \<open>The state in which the receive loop starts: the flag of new messages is acknowledged.\<close>

definition rx_entry :: "core_behaviour \<Rightarrow> u8 \<Rightarrow> 'a cst \<Rightarrow> 'a cst" where
  "rx_entry hw n s = upd_can n (\<lambda>c. write_IR hw (IR c OR FDCAN_IR_RF0N) c) s"

definition forwarded :: "build_flags \<Rightarrow> core_behaviour \<Rightarrow> u8 \<Rightarrow> 'a cst \<Rightarrow> CANPacket_t \<Rightarrow> bool" where
  "forwarded b hw n s p \<longleftrightarrow>
     (let bus = BUS_NUM_FROM_CAN_NUM s n
      in \<exists>i q. (\<forall>j\<le>i. rx_pending n (rx_passes b hw n bus j (rx_entry hw n s))) \<and>
           q = received n bus (rx_passes b hw n bus i (rx_entry hw n s)) \<and>
           forwards b bus q (safety_vars (rx_passes b hw n bus i (rx_entry hw n s))) \<and>
           p = copy_packet (stack_packet (rx_passes b hw n bus i (rx_entry hw n s))) False (p_bus q) q)"

lemma layer_inv_rx:
  assumes "can_rx b hw fuel n s = Some t" "layer_inv b P s" "n < 3" "\<And>p. forwarded b hw n s p \<Longrightarrow> P p"
  shows "layer_inv b P t"
proof -
  let ?s = "upd_can n (\<lambda>c. write_IR hw (IR c OR FDCAN_IR_RF0N) c) s"
  obtain u where u: "can_rx_loop b hw n (BUS_NUM_FROM_CAN_NUM s n) fuel ?s = Some u"
    and t: "t = (if IR (cans s ! unat n) AND error_flags \<noteq> 0
      then update_can_health_pkt hw n (IR (cans s ! unat n)) u else u)"
    using assms(1) by (auto simp: can_rx_def Let_def split: option.splits if_splits)
  have "layer_inv b P u"
    by (rule layer_inv_rx_loop [OF u]) (use assms in \<open>auto simp: forwarded_def rx_entry_def Let_def\<close>)
  then show ?thesis by (simp add: t layer_inv_health)
qed

text \<open>Clearing the queues, renumbering the buses, setting up the cores.\<close>

lemma only_sends_set_queue:
  assumes "only_sends P s" "set (ring_content q) \<subseteq> set (ring_content (can_queues s ! n))"
  shows "only_sends P (s\<lparr>can_queues := (can_queues s)[n := q]\<rparr>)"
proof -
  have "set (tx_content (s\<lparr>can_queues := (can_queues s)[n := q]\<rparr>) m) \<subseteq> set (tx_content s m)" for m
    using assms(2) by (cases "n < length (can_queues s)") (auto simp: tx_content_def nth_list_update list_update_beyond)
  then show ?thesis using assms(1) by (auto simp: only_sends_def)
qed

lemma layer_inv_clear_tx:
  assumes "layer_inv b P s" "n < 3"
  shows "layer_inv b P (can_clear_tx n s)"
proof -
  let ?q = "clear_ptrs (can_queues s ! unat n)"
  have "can_ok s" using assms(1) by (simp add: layer_inv_def)
  then have q: "queue_ok CAN_TX_BUFFER_SIZE ?q" by (intro queue_ok_clear can_ok_queue assms(2))
  have "only_sends P (s\<lparr>can_queues := (can_queues s)[unat n := ?q]\<rparr>)"
    using assms(1) by (intro only_sends_set_queue) (simp_all add: layer_inv_def clear_ptrs_content)
  then show ?thesis using assms(1) can_ok_set_queue [OF _ q, of s "unat n"]
    by (simp add: can_clear_tx_def) (simp add: layer_inv_def)
qed

lemma layer_inv_clear_rx: "layer_inv b P s \<Longrightarrow> layer_inv b P (can_clear_rx s)"
  by (simp add: can_clear_rx_def) (simp add: layer_inv_def can_ok_def queue_ok_clear only_sends_def tx_content_def)

lemma layer_inv_orientation: "layer_inv b P s \<Longrightarrow> layer_inv b P (can_set_orientation flipped s)"
  by (auto simp: can_set_orientation_def Let_def bus_ok_def intro!: layer_inv_upd_bus)

lemma layer_inv_init: "layer_inv b P s \<Longrightarrow> n < 3 \<Longrightarrow> layer_inv b P (snd (can_init hw n s))"
  by (simp add: can_init_def can_set_speed_def Let_def case_prod_beta layer_inv_process)

lemma layer_inv_init_loop:
  "layer_inv b P s \<Longrightarrow> \<forall>i \<in> set is. i < 3 \<Longrightarrow> layer_inv b P (can_init_loop hw fd is s)"
proof (induction "is" arbitrary: s)
  case (Cons i "is")
  have "layer_inv b P (if \<not> fd then upd_bus i (\<lambda>c. c\<lparr>can_data_speed := 0\<rparr>) s else s)"
    using Cons.prems by (auto simp: bus_ok_def intro: layer_inv_upd_bus)
  then have "layer_inv b P (snd (can_init hw i
      (can_clear_tx i (if \<not> fd then upd_bus i (\<lambda>c. c\<lparr>can_data_speed := 0\<rparr>) s else s))))"
    using Cons.prems by (intro layer_inv_init layer_inv_clear_tx) simp_all
  from Cons.IH [OF this] show ?case using Cons.prems by (simp only: can_init_loop.simps Let_def) simp
qed simp

lemma layer_inv_init_all: "layer_inv b P s \<Longrightarrow> layer_inv b P (can_init_all hw fd s)"
  unfolding can_init_all_def by (rule layer_inv_init_loop) (auto simp: word_less_nat_alt)

end
