(* ===== verification/Can_Stream.thy ===== *)
theory Can_Stream
  imports Can_Invariant
begin

text \<open>
  \<^verbatim>\<open>board/can_comms.h\<close>: packets to and from the host as a stream of bytes cut into
  transfers anywhere. A transfer and the rest of it are lists of bytes; \<open>memcpy\<close> into a buffer
  replaces a slice of it. Where the rest of the read buffer is moved to its front the two regions may overlap,
  which \<open>memcpy\<close> leaves undefined; the definition copies from the state before, as \<open>memmove\<close> does.
\<close>

definition copy_to :: "nat \<Rightarrow> 'e list \<Rightarrow> 'e list \<Rightarrow> 'e list" where
  "copy_to off src dst = take off dst @ src @ drop (off + length src) dst"

definition pckt_len :: "u8 \<Rightarrow> nat" where
  "pckt_len byte0 = CANPACKET_HEAD_SIZE + dlc_to_len ! unat (drop_bit 4 byte0)"

section \<open>From the host\<close>

function comms_can_write_loop :: "build_flags \<Rightarrow> core_behaviour \<Rightarrow> u8 list \<Rightarrow> 'a cst \<Rightarrow> 'a cst" where
  "comms_can_write_loop b hw data s =
     (if data = [] then s
      else let n = pckt_len (hd data)
           in if n \<le> length data
              then let to_push = bytes_packet (take n data)
                   in comms_can_write_loop b hw (drop n data) (can_send b hw to_push (ucast (p_bus to_push)) False s)
              else s\<lparr>can_write_buffer := \<lparr>ab_ptr = length data, tail_size = n - length data,
                       ab_data = copy_to 0 data (ab_data (can_write_buffer s))\<rparr>\<rparr>)"
  by pat_completeness auto

termination
  by (relation "measure (\<lambda>(b, hw, data, s). length data)") (auto simp: pckt_len_def CANPACKET_HEAD_SIZE_def)

declare comms_can_write_loop.simps [simp del]

definition comms_can_write :: "build_flags \<Rightarrow> core_behaviour \<Rightarrow> u8 list \<Rightarrow> 'a cst \<Rightarrow> 'a cst" where
  "comms_can_write b hw data s =
     (let buf = can_write_buffer s;
          (data, s) =
            (if ab_ptr buf \<noteq> 0
             then if tail_size buf \<le> length data
                  then let buf = buf\<lparr>ab_data := copy_to (ab_ptr buf) (take (tail_size buf) data) (ab_data buf)\<rparr>;
                           buf = buf\<lparr>ab_ptr := ab_ptr buf + tail_size buf\<rparr>;
                           rest = drop (tail_size buf) data;
                           to_push = bytes_packet (take (ab_ptr buf) (ab_data buf));
                           s = can_send b hw to_push (ucast (p_bus to_push)) False (s\<lparr>can_write_buffer := buf\<rparr>)
                       in (rest, s\<lparr>can_write_buffer := (can_write_buffer s)\<lparr>ab_ptr := 0, tail_size := 0\<rparr>\<rparr>)
                  else let data_size = length data;
                           buf = buf\<lparr>ab_data := copy_to (ab_ptr buf) data (ab_data buf)\<rparr>;
                           buf = buf\<lparr>tail_size := tail_size buf - data_size\<rparr>
                       in ([], s\<lparr>can_write_buffer := buf\<lparr>ab_ptr := ab_ptr buf + data_size\<rparr>\<rparr>)
             else (data, s))
      in refresh_can_tx_slots_available (comms_can_write_loop b hw data s))"

section \<open>To the host\<close>

definition packet_wire :: "CANPacket_t \<Rightarrow> u8 list" where
  "packet_wire p = take (CANPACKET_HEAD_SIZE + GET_LEN p) (packet_bytes p)"

text \<open>\<open>room\<close> is what is left of the transfer; the result is what is added to it.\<close>

function comms_can_read_loop :: "nat \<Rightarrow> 'a cst \<Rightarrow> u8 list \<times> 'a cst" where
  "comms_can_read_loop room s =
     (if 0 < room
      then let (popped, q) = can_pop (can_rx_q s);
               s = s\<lparr>can_rx_q := q\<rparr>
           in case popped of
               None \<Rightarrow> ([], s)
             | Some can_packet \<Rightarrow>
                 let n = CANPACKET_HEAD_SIZE + GET_LEN can_packet
                 in if n \<le> room
                    then let (out, s) = comms_can_read_loop (room - n) s
                         in (packet_wire can_packet @ out, s)
                    else let buf = can_read_buffer s;
                             tail = drop room (packet_wire can_packet);
                             buf = buf\<lparr>ab_ptr := ab_ptr buf + (n - room)\<rparr>
                         in (take room (packet_wire can_packet),
                             s\<lparr>can_read_buffer := buf\<lparr>ab_data := copy_to 0 tail (ab_data buf)\<rparr>\<rparr>)
      else ([], s))"
  by pat_completeness auto

termination
  by (relation "measure fst") (auto simp: CANPACKET_HEAD_SIZE_def)

declare comms_can_read_loop.simps [simp del]

definition comms_can_read :: "nat \<Rightarrow> 'a cst \<Rightarrow> u8 list \<times> 'a cst" where
  "comms_can_read max_len s =
     (let buf = can_read_buffer s;
          (out, s) =
            (if ab_ptr buf > 0
             then let overflow_len = MIN_m max_len (ab_ptr buf);
                      out = take overflow_len (ab_data buf);
                      rest = take (ab_ptr buf - overflow_len) (drop overflow_len (ab_data buf))
                  in (out, s\<lparr>can_read_buffer := buf\<lparr>ab_data := copy_to 0 rest (ab_data buf),
                                                     ab_ptr := ab_ptr buf - overflow_len\<rparr>\<rparr>)
             else ([], s))
      in if ab_ptr (can_read_buffer s) = 0
         then let (more, s) = comms_can_read_loop (max_len - length out) s in (out @ more, s)
         else (out, s))"

definition comms_can_reset :: "'a cst \<Rightarrow> 'a cst" where
  "comms_can_reset s =
     (let s = s\<lparr>can_write_buffer := (can_write_buffer s)\<lparr>ab_ptr := 0\<rparr>\<rparr>;
          s = s\<lparr>can_write_buffer := (can_write_buffer s)\<lparr>tail_size := 0\<rparr>\<rparr>;
          s = s\<lparr>can_read_buffer := (can_read_buffer s)\<lparr>ab_ptr := 0\<rparr>\<rparr>
      in s\<lparr>can_read_buffer := (can_read_buffer s)\<lparr>tail_size := 0\<rparr>\<rparr>)"

section \<open>The stream\<close>

text \<open>The packets a stream of bytes holds, and the start of the next one left over.\<close>

function decode_stream :: "u8 list \<Rightarrow> CANPacket_t list \<times> u8 list" where
  "decode_stream bs =
     (if bs = [] \<or> length bs < pckt_len (hd bs) then ([], bs)
      else let (ps, rest) = decode_stream (drop (pckt_len (hd bs)) bs)
           in (bytes_packet (take (pckt_len (hd bs)) bs) # ps, rest))"
  by pat_completeness auto

termination
  by (relation "measure length") (auto simp: pckt_len_def CANPACKET_HEAD_SIZE_def)

declare decode_stream.simps [simp del]

lemma pckt_len_bounds: "CANPACKET_HEAD_SIZE \<le> pckt_len c" "pckt_len c \<le> 70"
proof -
  have "unat (drop_bit 4 c) < 16"
  proof -
    have "unat c < 256" using unsigned_less [of c] by simp
    then show ?thesis by (simp add: drop_bit_eq_div unat_div)
  qed
  then have "dlc_to_len ! unat (drop_bit 4 c) \<in> set dlc_to_len" by (intro nth_mem) (simp add: dlc_to_len_def)
  then have "dlc_to_len ! unat (drop_bit 4 c) \<le> 64" by (auto simp: dlc_to_len_def)
  then show "CANPACKET_HEAD_SIZE \<le> pckt_len c" "pckt_len c \<le> 70" by (simp_all add: pckt_len_def CANPACKET_HEAD_SIZE_def)
qed

lemma pckt_len_pos: "0 < pckt_len c"
  using pckt_len_bounds(1) [of c] by (simp add: CANPACKET_HEAD_SIZE_def)

lemma decode_short: "bs = [] \<or> length bs < pckt_len (hd bs) \<Longrightarrow> decode_stream bs = ([], bs)"
  by (simp add: decode_stream.simps)

lemma decode_packet:
  "bs \<noteq> [] \<Longrightarrow> pckt_len (hd bs) \<le> length bs \<Longrightarrow> decode_stream bs =
     (bytes_packet (take (pckt_len (hd bs)) bs) # fst (decode_stream (drop (pckt_len (hd bs)) bs)),
      snd (decode_stream (drop (pckt_len (hd bs)) bs)))"
  by (subst decode_stream.simps) (simp add: case_prod_beta)

text \<open>What is left over is not a packet yet, and decoding can be suspended anywhere.\<close>

definition partial_packet :: "u8 list \<Rightarrow> bool" where
  "partial_packet bs \<longleftrightarrow> bs = [] \<or> length bs < pckt_len (hd bs)"

lemma decode_rest: "partial_packet (snd (decode_stream bs))"
proof (induction bs rule: decode_stream.induct)
  case (1 bs)
  then show ?case
    by (cases "bs = [] \<or> length bs < pckt_len (hd bs)")
      (auto simp: decode_short partial_packet_def decode_packet prod_eq_iff)
qed

lemma decode_append:
  "decode_stream (bs @ cs) = (fst (decode_stream bs) @ fst (decode_stream (snd (decode_stream bs) @ cs)),
     snd (decode_stream (snd (decode_stream bs) @ cs)))"
proof (induction bs rule: decode_stream.induct)
  case (1 bs)
  show ?case
  proof (cases "bs = [] \<or> length bs < pckt_len (hd bs)")
    case True
    then show ?thesis by (simp add: decode_short [OF True])
  next
    case False
    then have "decode_stream (bs @ cs) = (bytes_packet (take (pckt_len (hd bs)) bs) #
        fst (decode_stream (drop (pckt_len (hd bs)) bs @ cs)), snd (decode_stream (drop (pckt_len (hd bs)) bs @ cs)))"
      by (subst decode_packet) auto
    then show ?thesis using 1 False decode_packet [of bs] by (auto simp: prod_eq_iff)
  qed
qed

section \<open>The transfers send what the stream holds\<close>

definition buffer_ok :: "asm_buffer \<Rightarrow> bool" where
  "buffer_ok buf \<longleftrightarrow> length (ab_data buf) = 72 \<and>
     (if ab_ptr buf = 0 then tail_size buf = 0
      else 0 < tail_size buf \<and> ab_ptr buf + tail_size buf = pckt_len (hd (ab_data buf)))"

definition pending_write :: "'a cst \<Rightarrow> u8 list" where
  "pending_write s = take (ab_ptr (can_write_buffer s)) (ab_data (can_write_buffer s))"

definition send_packet :: "build_flags \<Rightarrow> core_behaviour \<Rightarrow> CANPacket_t \<Rightarrow> 'a cst \<Rightarrow> 'a cst" where
  "send_packet b hw p s = can_send b hw p (ucast (p_bus p)) False s"

lemma length_copy_to: "off + length src \<le> length dst \<Longrightarrow> length (copy_to off src dst) = length dst"
  by (simp add: copy_to_def)

lemma take_copy_to: "off \<le> length dst \<Longrightarrow> n = off + length src \<Longrightarrow> take n (copy_to off src dst) = take off dst @ src"
  by (simp add: copy_to_def)

lemma hd_copy_to: "0 < off \<Longrightarrow> dst \<noteq> [] \<Longrightarrow> hd (copy_to off src dst) = hd dst"
  by (cases dst; cases off) (simp_all add: copy_to_def)

lemma buffer_kept [simp]:
  "can_write_buffer (upd_health n f s) = can_write_buffer s" "can_write_buffer (upd_can n g s) = can_write_buffer s"
  "can_write_buffer (push_rx p s) = can_write_buffer s" "can_write_buffer (push_tx m p s) = can_write_buffer s"
  "can_write_buffer (refresh_can_tx_slots_available s) = can_write_buffer s"
  "can_write_buffer (send_element hw n p s) = can_write_buffer s"
  by (simp_all add: upd_health_def upd_can_def push_rx_def push_tx_def refresh_can_tx_slots_available_def
      can_tx_comms_resume_usb_def can_tx_comms_resume_spi_def send_element_def Let_def case_prod_beta)

lemma can_send_buffer [simp]: "can_write_buffer (can_send b hw p bus skip s) = can_write_buffer s"
  by (simp add: can_send_def process_can_def transmit_packet_def Let_def case_prod_beta split: option.split)

text \<open>Sending does not look at the buffer.\<close>

lemma upd_commutes:
  "upd_health n f (s\<lparr>can_write_buffer := w\<rparr>) = (upd_health n f s)\<lparr>can_write_buffer := w\<rparr>"
  "upd_can n g (s\<lparr>can_write_buffer := w\<rparr>) = (upd_can n g s)\<lparr>can_write_buffer := w\<rparr>"
  by (simp_all add: upd_health_def upd_can_def)

lemma push_rx_commutes: "push_rx p (s\<lparr>can_write_buffer := w\<rparr>) = (push_rx p s)\<lparr>can_write_buffer := w\<rparr>"
  by (simp add: push_rx_def Let_def case_prod_beta)

lemma push_tx_commutes: "push_tx m p (s\<lparr>can_write_buffer := w\<rparr>) = (push_tx m p s)\<lparr>can_write_buffer := w\<rparr>"
  by (simp add: push_tx_def Let_def case_prod_beta)

lemma resume_commutes:
  "can_tx_comms_resume_usb (s\<lparr>can_write_buffer := w\<rparr>) = (can_tx_comms_resume_usb s)\<lparr>can_write_buffer := w\<rparr>"
  "can_tx_comms_resume_spi (s\<lparr>can_write_buffer := w\<rparr>) = (can_tx_comms_resume_spi s)\<lparr>can_write_buffer := w\<rparr>"
  "can_tx_check_min_slots_free k (s\<lparr>can_write_buffer := w\<rparr>) = can_tx_check_min_slots_free k s"
  by (simp_all add: can_tx_comms_resume_usb_def can_tx_comms_resume_spi_def can_tx_check_min_slots_free_def)

lemma refresh_commutes:
  "refresh_can_tx_slots_available (s\<lparr>can_write_buffer := w\<rparr>) = (refresh_can_tx_slots_available s)\<lparr>can_write_buffer := w\<rparr>"
  unfolding refresh_can_tx_slots_available_def Let_def
  by (simp only: resume_commutes if_distrib [of "\<lambda>s. s\<lparr>can_write_buffer := w\<rparr>"] split: if_split) simp

lemmas write_buffer_commutes = upd_commutes push_rx_commutes push_tx_commutes refresh_commutes

lemma send_element_commutes:
  "send_element hw n p (s\<lparr>can_write_buffer := w\<rparr>) = (send_element hw n p s)\<lparr>can_write_buffer := w\<rparr>"
  by (simp add: send_element_def Let_def upd_can_def)

lemma transmit_commutes:
  "transmit_packet hw n bus p (s\<lparr>can_write_buffer := w\<rparr>) = (transmit_packet hw n bus p s)\<lparr>can_write_buffer := w\<rparr>"
  by (simp add: transmit_packet_def Let_def write_buffer_commutes send_element_commutes)

lemma process_commutes:
  "process_can hw n (s\<lparr>can_write_buffer := w\<rparr>) = (process_can hw n s)\<lparr>can_write_buffer := w\<rparr>"
proof -
  have q: "s\<lparr>can_write_buffer := w, can_queues := x\<rparr> = s\<lparr>can_queues := x\<rparr>\<lparr>can_write_buffer := w\<rparr>" for s :: "'a cst" and x
    by simp
  show ?thesis
    by (simp add: process_can_def BUS_NUM_FROM_CAN_NUM_def Let_def case_prod_beta write_buffer_commutes q
        transmit_commutes del: can_layer.update_convs split: option.split)
qed

lemma write_buffer_last:
  "s\<lparr>can_write_buffer := w, safety_vars := v\<rparr> = s\<lparr>safety_vars := v\<rparr>\<lparr>can_write_buffer := w\<rparr>"
  "s\<lparr>can_write_buffer := w, safety_tx_blocked := k\<rparr> = s\<lparr>safety_tx_blocked := k\<rparr>\<lparr>can_write_buffer := w\<rparr>"
  by simp_all

lemma can_send_commutes:
  "can_send b hw p bus skip (s\<lparr>can_write_buffer := w\<rparr>) = (can_send b hw p bus skip s)\<lparr>can_write_buffer := w\<rparr>"
proof (cases rule: can_send_cases [where skip = skip and b = b and p = p and s = s and bus = bus])
  case rejected
  then show ?thesis by (simp add: can_send_rejected write_buffer_last push_rx_commutes)
next
  case no_bus
  then show ?thesis by (simp add: can_send_no_bus)
next
  case accepted
  then show ?thesis
    by (simp add: can_send_accepted CAN_NUM_FROM_BUS_NUM_def write_buffer_last push_tx_commutes process_commutes)
qed

lemma fold_send_commutes:
  "fold (send_packet b hw) ps (s\<lparr>can_write_buffer := w\<rparr>) = (fold (send_packet b hw) ps s)\<lparr>can_write_buffer := w\<rparr>"
  by (induction ps arbitrary: s) (simp_all add: send_packet_def can_send_commutes)

text \<open>A transfer sends the packets that became complete, in the order of the stream.\<close>

lemma write_loop_eq:
  "length (ab_data (can_write_buffer s)) = 72 \<Longrightarrow> ab_ptr (can_write_buffer s) = 0 \<Longrightarrow> tail_size (can_write_buffer s) = 0 \<Longrightarrow>
   \<exists>w. comms_can_write_loop b hw data s = (fold (send_packet b hw) (fst (decode_stream data)) s)\<lparr>can_write_buffer := w\<rparr> \<and>
     buffer_ok w \<and> take (ab_ptr w) (ab_data w) = snd (decode_stream data)"
proof (induction b hw data s rule: comms_can_write_loop.induct)
  case (1 b hw data s)
  let ?n = "pckt_len (hd data)"
  show ?case
  proof (cases "data = []")
    case True
    then show ?thesis using "1.prems"
      by (intro exI [of _ "can_write_buffer s"])
        (simp add: comms_can_write_loop.simps decode_short buffer_ok_def)
  next
    case False
    show ?thesis
    proof (cases "?n \<le> length data")
      case True
      let ?p = "bytes_packet (take ?n data)"
      have "\<exists>w. comms_can_write_loop b hw (drop ?n data) (send_packet b hw ?p s) =
          (fold (send_packet b hw) (fst (decode_stream (drop ?n data))) (send_packet b hw ?p s))\<lparr>can_write_buffer := w\<rparr> \<and>
          buffer_ok w \<and> take (ab_ptr w) (ab_data w) = snd (decode_stream (drop ?n data))"
        using "1.IH" [OF False refl True refl] "1.prems" by (simp add: send_packet_def [of b hw ?p])
      then show ?thesis using False True
        by (simp add: comms_can_write_loop.simps [of b hw data] decode_packet send_packet_def [of b hw ?p] Let_def)
    next
      case False2: False
      let ?w = "\<lparr>ab_ptr = length data, tail_size = ?n - length data, ab_data = copy_to 0 data (ab_data (can_write_buffer s))\<rparr>"
      have "length data < 72" using False2 pckt_len_bounds(2) [of "hd data"] by simp
      moreover have "hd (copy_to 0 data (ab_data (can_write_buffer s))) = hd data"
        using False by (simp add: copy_to_def)
      ultimately have "buffer_ok ?w \<and> take (ab_ptr ?w) (ab_data ?w) = data"
        using False False2 "1.prems" by (simp add: buffer_ok_def length_copy_to take_copy_to)
      then show ?thesis using False False2
        by (intro exI [of _ ?w]) (simp add: comms_can_write_loop.simps [of b hw data] decode_short Let_def)
    qed
  qed
qed

lemma asm_buffer_updates:
  "w\<lparr>ab_data := d, ab_ptr := i, tail_size := k\<rparr> = \<lparr>ab_ptr = i, tail_size = k, ab_data = d\<rparr>"
  "w\<lparr>ab_data := d, tail_size := k, ab_ptr := i\<rparr> = \<lparr>ab_ptr = i, tail_size = k, ab_data = d\<rparr>"
  by (cases w; simp)+

lemma comms_can_write_eq:
  assumes "buffer_ok (can_write_buffer s)"
  shows "\<exists>w. comms_can_write b hw data s = (refresh_can_tx_slots_available
      (fold (send_packet b hw) (fst (decode_stream (pending_write s @ data))) s))\<lparr>can_write_buffer := w\<rparr> \<and>
    buffer_ok w \<and> take (ab_ptr w) (ab_data w) = snd (decode_stream (pending_write s @ data))"
proof (cases "ab_ptr (can_write_buffer s) = 0")
  case True
  then show ?thesis
    using write_loop_eq [of s b hw data] assms
    by (auto simp: comms_can_write_def buffer_ok_def pending_write_def refresh_commutes)
next
  case False
  let ?buf = "can_write_buffer s"
  let ?t = "tail_size ?buf"
  have buf: "length (ab_data ?buf) = 72" "0 < ?t" "ab_ptr ?buf + ?t = pckt_len (hd (ab_data ?buf))"
    using assms False by (auto simp: buffer_ok_def)
  have t: "pckt_len (hd (ab_data ?buf)) - ab_ptr ?buf = ?t" using buf(3) by simp
  have pend: "length (pending_write s) = ab_ptr ?buf" "hd (pending_write s) = hd (ab_data ?buf)" "pending_write s \<noteq> []"
    using buf pckt_len_bounds(2) [of "hd (ab_data ?buf)"] False
    by (auto simp: pending_write_def hd_take)
  show ?thesis
  proof (cases "?t \<le> length data")
    case True
    let ?d = "copy_to (ab_ptr ?buf) (take ?t data) (ab_data ?buf)"
    let ?p = "bytes_packet (take (ab_ptr ?buf + ?t) ?d)"
    let ?s = "send_packet b hw ?p s"
    have "take (ab_ptr ?buf + ?t) ?d = take (pckt_len (hd (pending_write s @ data))) (pending_write s @ data)"
      using buf pend True pckt_len_bounds(2) [of "hd (ab_data ?buf)"]
      by (subst take_copy_to) (simp_all add: t pending_write_def hd_append)
    moreover have "drop (pckt_len (hd (pending_write s @ data))) (pending_write s @ data) = drop ?t data"
      using pend by (simp add: buf(3) [symmetric])
    ultimately have dec: "decode_stream (pending_write s @ data) =
        (?p # fst (decode_stream (drop ?t data)), snd (decode_stream (drop ?t data)))"
      using pend True by (subst decode_packet) (simp_all add: buf(3) [symmetric])
    let ?w0 = "\<lparr>ab_ptr = 0, tail_size = 0, ab_data = ?d\<rparr>"
    have len: "length ?d = 72"
      using buf True pckt_len_bounds(2) [of "hd (ab_data ?buf)"] by (simp add: length_copy_to)
    have "comms_can_write b hw data s =
        refresh_can_tx_slots_available (comms_can_write_loop b hw (drop ?t data) (?s\<lparr>can_write_buffer := ?w0\<rparr>))"
      using False True by (simp add: comms_can_write_def Let_def send_packet_def can_send_commutes asm_buffer_updates)
    moreover obtain w where "comms_can_write_loop b hw (drop ?t data) (?s\<lparr>can_write_buffer := ?w0\<rparr>) =
        (fold (send_packet b hw) (fst (decode_stream (drop ?t data))) (?s\<lparr>can_write_buffer := ?w0\<rparr>))\<lparr>can_write_buffer := w\<rparr>"
      "buffer_ok w" "take (ab_ptr w) (ab_data w) = snd (decode_stream (drop ?t data))"
      using write_loop_eq [of "?s\<lparr>can_write_buffer := ?w0\<rparr>" b hw "drop ?t data"] len by auto
    ultimately show ?thesis
      by (intro exI [of _ w]) (simp add: dec refresh_commutes fold_send_commutes)
  next
    case False2: False
    let ?w = "\<lparr>ab_ptr = ab_ptr ?buf + length data, tail_size = ?t - length data,
      ab_data = copy_to (ab_ptr ?buf) data (ab_data ?buf)\<rparr>"
    have "decode_stream (pending_write s @ data) = ([], pending_write s @ data)"
      using pend False2 by (intro decode_short) (simp add: buf(3) [symmetric])
    moreover have "ab_data ?buf \<noteq> []" using buf(1) by auto
    then have "buffer_ok ?w \<and> take (ab_ptr ?w) (ab_data ?w) = pending_write s @ data"
      using buf False False2 pckt_len_bounds(2) [of "hd (ab_data ?buf)"]
      by (auto simp: buffer_ok_def length_copy_to take_copy_to hd_copy_to pending_write_def)
    ultimately show ?thesis using False False2
      by (intro exI [of _ ?w])
        (simp add: comms_can_write_def comms_can_write_loop.simps Let_def refresh_commutes asm_buffer_updates)
  qed
qed

text \<open>A sequence of transfers.\<close>

definition comms_can_writes :: "build_flags \<Rightarrow> core_behaviour \<Rightarrow> u8 list list \<Rightarrow> 'a cst \<Rightarrow> 'a cst" where
  "comms_can_writes b hw chunks s = fold (comms_can_write b hw) chunks s"

lemma comms_can_write_facts:
  assumes "buffer_ok (can_write_buffer s)"
  shows "buffer_ok (can_write_buffer (comms_can_write b hw data s))"
    "pending_write (comms_can_write b hw data s) = snd (decode_stream (pending_write s @ data))"
    "safety_vars (comms_can_write b hw data s) =
       fold (\<lambda>p v. snd (safety_tx_hook b p v)) (fst (decode_stream (pending_write s @ data))) (safety_vars s)"
proof -
  have "safety_vars (fold (send_packet b hw) ps t) = fold (\<lambda>p v. snd (safety_tx_hook b p v)) ps (safety_vars t)"
    for ps and t :: "'a cst"
    by (induction ps arbitrary: t) (simp_all add: send_packet_def can_send_safety_vars)
  then show "buffer_ok (can_write_buffer (comms_can_write b hw data s))"
    "pending_write (comms_can_write b hw data s) = snd (decode_stream (pending_write s @ data))"
    "safety_vars (comms_can_write b hw data s) =
       fold (\<lambda>p v. snd (safety_tx_hook b p v)) (fst (decode_stream (pending_write s @ data))) (safety_vars s)"
    using comms_can_write_eq [OF assms, of b hw data] by (auto simp: pending_write_def)
qed

lemma pending_partial: "buffer_ok (can_write_buffer s) \<Longrightarrow> partial_packet (pending_write s)"
  using pckt_len_bounds(2) [of "hd (ab_data (can_write_buffer s))"]
  by (auto simp: partial_packet_def pending_write_def buffer_ok_def hd_take split: if_splits)

lemma comms_can_writes_stream:
  assumes "buffer_ok (can_write_buffer s)"
  shows "buffer_ok (can_write_buffer (comms_can_writes b hw chunks s)) \<and>
    pending_write (comms_can_writes b hw chunks s) = snd (decode_stream (pending_write s @ concat chunks)) \<and>
    safety_vars (comms_can_writes b hw chunks s) = fold (\<lambda>p v. snd (safety_tx_hook b p v))
       (fst (decode_stream (pending_write s @ concat chunks))) (safety_vars s)"
  using assms
proof (induction chunks arbitrary: s)
  case Nil
  then show ?case using pending_partial [OF Nil.prems]
    by (simp add: comms_can_writes_def decode_short partial_packet_def)
next
  case (Cons data chunks)
  note w = comms_can_write_facts [OF Cons.prems, of b hw data]
  have step: "comms_can_writes b hw (data # chunks) s = comms_can_writes b hw chunks (comms_can_write b hw data s)"
    by (simp add: comms_can_writes_def)
  show ?case
    using Cons.IH [OF w(1)] w decode_append [of "pending_write s @ data" "concat chunks"] by (simp add: step)
qed

lemma buffer_ok_reset: "length (ab_data (can_write_buffer s)) = 72 \<Longrightarrow> buffer_ok (can_write_buffer (comms_can_reset s))"
  "pending_write (comms_can_reset s) = []"
  by (simp_all add: comms_can_reset_def Let_def buffer_ok_def pending_write_def)

section \<open>The host reads the queue as a stream\<close>

definition readable :: "'a cst \<Rightarrow> u8 list" where
  "readable s = take (ab_ptr (can_read_buffer s)) (ab_data (can_read_buffer s)) @
     concat (map packet_wire (rx_content s))"

definition read_ok :: "'a cst \<Rightarrow> bool" where
  "read_ok s \<longleftrightarrow> can_ok s \<and> length (ab_data (can_read_buffer s)) = 72 \<and> ab_ptr (can_read_buffer s) \<le> 72"

lemma length_packet_wire: "packet_ok p \<Longrightarrow> length (packet_wire p) = CANPACKET_HEAD_SIZE + GET_LEN p"
  using GET_LEN_le [of p] by (simp add: packet_wire_def length_packet_bytes CANPACKET_DATA_SIZE_MAX_def)

lemma read_loop_spec:
  assumes "read_ok s" "ab_ptr (can_read_buffer s) = 0"
  shows "read_ok (snd (comms_can_read_loop room s)) \<and>
    readable s = fst (comms_can_read_loop room s) @ readable (snd (comms_can_read_loop room s)) \<and>
    length (fst (comms_can_read_loop room s)) = min room (length (readable s))"
  using assms
proof (induction room s rule: comms_can_read_loop.induct)
  case (1 room s)
  have q: "queue_ok CAN_RX_BUFFER_SIZE (can_rx_q s)" "ring_ok (can_rx_q s)"
    using "1.prems" by (simp_all add: read_ok_def can_ok_def queue_ok_def)
  obtain popped q' where pop: "can_pop (can_rx_q s) = (popped, q')" by fastforce
  let ?t = "s\<lparr>can_rx_q := q'\<rparr>"
  have t: "read_ok ?t" "ab_ptr (can_read_buffer ?t) = 0"
    using "1.prems" queue_ok_pop [OF q(1)] by (simp_all add: read_ok_def can_ok_def pop)
  show ?case
  proof (cases "0 < room")
    case False
    then show ?thesis using "1.prems" by (simp add: comms_can_read_loop.simps)
  next
    case room: True
    show ?thesis
    proof (cases popped)
      case None
      then have "ring_content (can_rx_q s) = []" "ring_content q' = []"
        using ring.pop_content [OF q(2)] ring.pop_None [OF q(2)] pop by simp_all
      moreover have "comms_can_read_loop room s = ([], ?t)"
        using room None by (subst comms_can_read_loop.simps) (simp add: pop Let_def)
      ultimately show ?thesis using t "1.prems" by (simp add: readable_def rx_content_def)
    next
      case (Some p)
      let ?n = "CANPACKET_HEAD_SIZE + GET_LEN p"
      have p: "packet_ok p" using queue_ok_popped [OF q(1)] pop Some by simp
      have rd: "readable s = packet_wire p @ readable ?t"
        using ring.pop_content [OF q(2)] pop Some t(2) "1.prems"(2) by (simp add: readable_def rx_content_def)
      show ?thesis
      proof (cases "?n \<le> room")
        case True
        have "comms_can_read_loop room s = (packet_wire p @ fst (comms_can_read_loop (room - ?n) ?t),
            snd (comms_can_read_loop (room - ?n) ?t))"
          using room Some True by (subst comms_can_read_loop.simps) (simp add: pop Let_def case_prod_beta)
        then have r: "fst (comms_can_read_loop room s) = packet_wire p @ fst (comms_can_read_loop (room - ?n) ?t)"
          "snd (comms_can_read_loop room s) = snd (comms_can_read_loop (room - ?n) ?t)"
          by simp_all
        note ih = "1.IH" [OF room refl pop [symmetric] refl Some refl True t]
        have "readable s = fst (comms_can_read_loop room s) @ readable (snd (comms_can_read_loop room s))"
          unfolding r rd using ih by (simp only: append_assoc)
        moreover have "length (fst (comms_can_read_loop room s)) = min room (length (readable s))"
          unfolding r rd length_append conjunct2 [OF conjunct2 [OF ih]] length_packet_wire [OF p] using True by simp
        ultimately show ?thesis using ih r(2) by metis
      next
        case False
        let ?rest = "drop room (packet_wire p)"
        let ?u = "?t\<lparr>can_read_buffer := (can_read_buffer s)\<lparr>ab_ptr := ab_ptr (can_read_buffer s) + (?n - room),
            ab_data := copy_to 0 ?rest (ab_data (can_read_buffer s))\<rparr>\<rparr>"
        have l: "length ?rest = ?n - room" "?n - room \<le> 72" "length (ab_data (can_read_buffer s)) = 72"
          using length_packet_wire [OF p] GET_LEN_le [of p] "1.prems"(1)
          by (simp_all add: read_ok_def CANPACKET_HEAD_SIZE_def)
        have "comms_can_read_loop room s = (take room (packet_wire p), ?u)"
          using room Some False by (subst comms_can_read_loop.simps) (simp add: pop Let_def)
        moreover have "read_ok ?u"
          using t l "1.prems"(2) by (simp add: read_ok_def length_copy_to)
        moreover have "readable ?u = ?rest @ readable ?t"
          using l "1.prems"(2) by (simp add: readable_def rx_content_def take_copy_to)
        moreover have "length (take room (packet_wire p)) = min room (length (readable s))"
          using False length_packet_wire [OF p] by (simp add: rd)
        ultimately show ?thesis by (simp add: rd)
      qed
    qed
  qed
qed

lemma comms_can_read_buffered:
  fixes s :: "'a cst" and max_len :: nat
  defines "buf \<equiv> can_read_buffer s"
  defines "u \<equiv> s\<lparr>can_read_buffer := buf\<lparr>ab_data := copy_to 0 (take (ab_ptr buf - min max_len (ab_ptr buf))
      (drop (min max_len (ab_ptr buf)) (ab_data buf))) (ab_data buf), ab_ptr := ab_ptr buf - min max_len (ab_ptr buf)\<rparr>\<rparr>"
  assumes "0 < ab_ptr buf"
  shows "comms_can_read max_len s = (if ab_ptr buf \<le> max_len
    then (take (min max_len (ab_ptr buf)) (ab_data buf) @
        fst (comms_can_read_loop (max_len - length (take (min max_len (ab_ptr buf)) (ab_data buf))) u),
      snd (comms_can_read_loop (max_len - length (take (min max_len (ab_ptr buf)) (ab_data buf))) u))
    else (take (min max_len (ab_ptr buf)) (ab_data buf), u))"
proof -
  have "ab_ptr (can_read_buffer u) = 0 \<longleftrightarrow> ab_ptr buf \<le> max_len" by (auto simp: u_def)
  then show ?thesis using assms(3)
    unfolding comms_can_read_def Let_def MIN_m_eq_min buf_def [symmetric] u_def [symmetric]
    by (simp only: if_True prod.case case_prod_beta fst_conv snd_conv)
qed

lemma comms_can_read_spec:
  assumes "read_ok s" "comms_can_read max_len s = (out, t)"
  shows "read_ok t \<and> readable s = out @ readable t \<and> length out = min max_len (length (readable s))"
proof (cases "ab_ptr (can_read_buffer s) = 0")
  case True
  then have "comms_can_read max_len s = comms_can_read_loop max_len s"
    by (simp add: comms_can_read_def Let_def case_prod_beta)
  then have "comms_can_read_loop max_len s = (out, t)" using assms(2) by simp
  then have "out = fst (comms_can_read_loop max_len s)" "t = snd (comms_can_read_loop max_len s)"
    by (simp_all only: fst_conv snd_conv)
  then show ?thesis using read_loop_spec [OF assms(1) True, of max_len] by (simp only:)
next
  case False
  let ?buf = "can_read_buffer s" and ?k = "min max_len (ab_ptr (can_read_buffer s))"
  let ?u = "s\<lparr>can_read_buffer := ?buf\<lparr>ab_data := copy_to 0 (take (ab_ptr ?buf - ?k) (drop ?k (ab_data ?buf))) (ab_data ?buf),
    ab_ptr := ab_ptr ?buf - ?k\<rparr>\<rparr>"
  have l: "length (ab_data ?buf) = 72" "ab_ptr ?buf \<le> 72" using assms(1) by (simp_all add: read_ok_def)
  have u: "read_ok ?u" using assms(1) l by (simp add: read_ok_def length_copy_to)
  have "take (ab_ptr ?buf) (ab_data ?buf) = take ?k (ab_data ?buf) @ take (ab_ptr ?buf - ?k) (drop ?k (ab_data ?buf))"
    by (simp add: take_add [symmetric])
  then have rd: "readable s = take ?k (ab_data ?buf) @ readable ?u"
    using l by (simp add: readable_def rx_content_def take_copy_to)
  show ?thesis
  proof (cases "ab_ptr ?buf \<le> max_len")
    case True
    then have "ab_ptr (can_read_buffer ?u) = 0" by simp
    note more = read_loop_spec [OF u this, of "max_len - ?k"]
    have "comms_can_read max_len s = (take ?k (ab_data ?buf) @ fst (comms_can_read_loop (max_len - ?k) ?u),
        snd (comms_can_read_loop (max_len - ?k) ?u))"
      using comms_can_read_buffered [of s max_len] False True l by simp
    then have o: "out = take ?k (ab_data ?buf) @ fst (comms_can_read_loop (max_len - ?k) ?u)"
      "t = snd (comms_can_read_loop (max_len - ?k) ?u)"
      using assms(2) by simp_all
    have "readable s = out @ readable t" unfolding rd o using more by (simp only: append_assoc)
    moreover have "length out = min max_len (length (readable s))"
      unfolding rd o length_append conjunct2 [OF conjunct2 [OF more]] using True l by simp
    ultimately show ?thesis using more o(2) by metis
  next
    case False2: False
    then show ?thesis using comms_can_read_buffered [of s max_len] assms(2) False u rd l by auto
  qed
qed

text \<open>A sequence of reads, each asking for as much as it likes.\<close>

fun comms_can_reads :: "nat list \<Rightarrow> 'a cst \<Rightarrow> u8 list list \<times> 'a cst" where
  "comms_can_reads [] s = ([], s)"
| "comms_can_reads (k # ks) s =
     (let (out, s) = comms_can_read k s; (outs, s) = comms_can_reads ks s in (out # outs, s))"

lemma comms_can_reads_spec:
  "read_ok s \<Longrightarrow> comms_can_reads ks s = (outs, t) \<Longrightarrow>
     read_ok t \<and> readable s = concat outs @ readable t \<and> length (concat outs) = min (sum_list ks) (length (readable s))"
proof (induction ks arbitrary: s outs)
  case (Cons k ks)
  obtain out u where u: "comms_can_read k s = (out, u)" by fastforce
  obtain outs' where o: "comms_can_reads ks u = (outs', t)" "outs = out # outs'"
    using Cons.prems(2) u by (auto simp: case_prod_beta prod_eq_iff)
  have r: "read_ok u" "readable s = out @ readable u" "length out = min k (length (readable s))"
    using comms_can_read_spec [OF Cons.prems(1) u] by blast+
  have t: "read_ok t" "readable u = concat outs' @ readable t"
    "length (concat outs') = min (sum_list ks) (length (readable u))"
    using Cons.IH [OF r(1) o(1)] by blast+
  have "length (readable s) = length out + length (readable u)" using r(2) by simp
  then have "length (concat outs) = min (sum_list (k # ks)) (length (readable s))" using o(2) r(3) t(3) by simp
  moreover have "readable s = concat outs @ readable t" using r(2) t(2) o(2) by simp
  ultimately show ?case using t(1) by blast
qed simp

text \<open>What is read parses back: the packets of the queue, with the bytes past the length cleared.\<close>

definition clear_tail :: "CANPacket_t \<Rightarrow> CANPacket_t" where
  "clear_tail p = p\<lparr>p_data := take (GET_LEN p) (p_data p) @ replicate (CANPACKET_DATA_SIZE_MAX - GET_LEN p) 0\<rparr>"

lemma pckt_len_packet: "pckt_len (packet_byte0 p) = CANPACKET_HEAD_SIZE + GET_LEN p"
proof -
  have "drop_bit 4 (packet_byte0 p) = ucast (p_data_len_code p)"
    by (rule bit_word_eqI) (auto simp: bit_simps bit_packet_byte0 dest: bit_imp_le_length)
  moreover have "unat (p_data_len_code p) < 16" using unsigned_less [of "p_data_len_code p"] by simp
  then have "unat (ucast (p_data_len_code p) :: u8) = unat (p_data_len_code p)"
    by (simp add: unsigned_ucast_eq take_bit_nat_eq_self)
  ultimately show ?thesis by (simp add: pckt_len_def GET_LEN_def)
qed

lemma bytes_packet_append_zeros: "bytes_packet (bs @ replicate k 0) = bytes_packet bs"
proof -
  have "nth_default 0 (bs @ replicate k 0) i = nth_default 0 bs i" for i
    by (auto simp: nth_default_def nth_append)
  then show ?thesis by (simp add: bytes_packet_def)
qed

lemma packet_wire_back:
  assumes "packet_ok p"
  shows "bytes_packet (packet_wire p) = clear_tail p"
proof -
  have b: "packet_byte0 (clear_tail p) = packet_byte0 p" "packet_word (clear_tail p) = packet_word p"
    by (simp_all add: clear_tail_def packet_byte0_def packet_word_def)
  have "packet_wire p @ replicate (CANPACKET_DATA_SIZE_MAX - GET_LEN p) 0 = packet_bytes (clear_tail p)"
    using assms
    by (simp add: packet_wire_def packet_bytes_def word_bytes_def b CANPACKET_HEAD_SIZE_def numeral_eq_Suc)
      (simp add: clear_tail_def)
  moreover have "packet_ok (clear_tail p)"
    using assms GET_LEN_le [of p] by (simp add: packet_ok_def clear_tail_def CANPACKET_DATA_SIZE_MAX_def)
  ultimately show ?thesis using bytes_packet_bytes bytes_packet_append_zeros by metis
qed

lemma hd_packet_wire: "hd (packet_wire p) = packet_byte0 p" "packet_wire p \<noteq> []"
  by (simp_all add: packet_wire_def packet_bytes_def CANPACKET_HEAD_SIZE_def)

lemma decode_wire:
  "\<forall>p \<in> set ps. packet_ok p \<Longrightarrow> decode_stream (concat (map packet_wire ps)) = (map clear_tail ps, [])"
proof (induction ps)
  case (Cons p ps)
  let ?n = "CANPACKET_HEAD_SIZE + GET_LEN p"
  have l: "length (packet_wire p) = ?n" using Cons.prems by (simp add: length_packet_wire)
  have h: "pckt_len (hd (concat (map packet_wire (p # ps)))) = ?n"
    by (simp add: hd_packet_wire pckt_len_packet)
  have "decode_stream (concat (map packet_wire (p # ps))) =
      (bytes_packet (packet_wire p) # fst (decode_stream (concat (map packet_wire ps))),
       snd (decode_stream (concat (map packet_wire ps))))"
    by (subst decode_packet) (use l h hd_packet_wire in \<open>simp_all\<close>)
  then show ?case using Cons by (simp add: packet_wire_back)
qed (simp add: decode_short)

text \<open>The stream keeps the invariant of the layer.\<close>

lemma layer_inv_buffers [simp]:
  "layer_inv b P (s\<lparr>can_write_buffer := w\<rparr>) = layer_inv b P s" "layer_inv b P (s\<lparr>can_read_buffer := w\<rparr>) = layer_inv b P s"
  by (simp_all add: layer_inv_def only_sends_def tx_content_def)

lemma layer_inv_sends:
  assumes "layer_inv b P s" "\<forall>p \<in> set ps. packet_ok p"
    and "\<And>i. i < length ps \<Longrightarrow> fst (safety_tx_hook b (ps ! i) (safety_vars (fold (send_packet b hw) (take i ps) s))) \<Longrightarrow>
      P (ps ! i)"
  shows "layer_inv b P (fold (send_packet b hw) ps s)"
  using assms
proof (induction ps arbitrary: s)
  case (Cons p ps)
  have "layer_inv b P (send_packet b hw p s)"
    unfolding send_packet_def by (rule layer_inv_send) (use Cons.prems Cons.prems(3) [of 0] in auto)
  then have "layer_inv b P (fold (send_packet b hw) ps (send_packet b hw p s))"
    by (rule Cons.IH) (use Cons.prems(2) Cons.prems(3) [of "Suc i" for i] in auto)
  then show ?case by simp
qed simp

lemma decode_packets_ok: "p \<in> set (fst (decode_stream bs)) \<Longrightarrow> packet_ok p"
proof (induction bs rule: decode_stream.induct)
  case (1 bs)
  then show ?case
    by (cases "bs = [] \<or> length bs < pckt_len (hd bs)") (auto simp: decode_short decode_packet prod_eq_iff)
qed

text \<open>The packets of a transfer that the transmit hook accepts, each when its turn comes.\<close>

definition accepted :: "build_flags \<Rightarrow> core_behaviour \<Rightarrow> u8 list \<Rightarrow> 'a cst \<Rightarrow> CANPacket_t \<Rightarrow> bool" where
  "accepted b hw data s p \<longleftrightarrow>
     (let ps = fst (decode_stream (pending_write s @ data))
      in \<exists>i<length ps. p = ps ! i \<and> fst (safety_tx_hook b p (safety_vars (fold (send_packet b hw) (take i ps) s))))"

lemma layer_inv_write:
  assumes "layer_inv b P s" "buffer_ok (can_write_buffer s)" "\<And>p. accepted b hw data s p \<Longrightarrow> P p"
  shows "layer_inv b P (comms_can_write b hw data s)"
proof -
  have "layer_inv b P (fold (send_packet b hw) (fst (decode_stream (pending_write s @ data))) s)"
    by (rule layer_inv_sends [OF assms(1)]) (use assms(3) in \<open>auto simp: decode_packets_ok accepted_def Let_def\<close>)
  then show ?thesis using comms_can_write_eq [OF assms(2), of b hw data] by auto
qed

lemma layer_inv_read_loop: "layer_inv b P s \<Longrightarrow> layer_inv b P (snd (comms_can_read_loop room s))"
proof (induction room s rule: comms_can_read_loop.induct)
  case (1 room s)
  obtain popped q' where pop: "can_pop (can_rx_q s) = (popped, q')" by fastforce
  have t: "layer_inv b P (s\<lparr>can_rx_q := q'\<rparr>)"
    using "1.prems" queue_ok_pop [of CAN_RX_BUFFER_SIZE "can_rx_q s"]
    by (simp add: layer_inv_def can_ok_def pop) (simp add: only_sends_def tx_content_def)
  then show ?case using "1.prems" "1.IH" [OF _ refl pop [symmetric] refl]
    by (subst comms_can_read_loop.simps) (auto simp: pop Let_def case_prod_beta split: option.split)
qed

lemma layer_inv_read: "layer_inv b P s \<Longrightarrow> layer_inv b P (snd (comms_can_read k s))"
  by (auto simp: comms_can_read_def Let_def case_prod_beta intro: layer_inv_read_loop)

lemma layer_inv_reset: "layer_inv b P s \<Longrightarrow> layer_inv b P (comms_can_reset s)"
  by (simp add: comms_can_reset_def Let_def)

section \<open>What the layer leaves alone\<close>

text \<open>Besides the transfers, nothing touches the transfer buffers; and nothing of the layer touches
  the variables of the program around it.\<close>

definition outside :: "'a cst \<Rightarrow> asm_buffer \<times> asm_buffer \<times> 'a" where
  "outside s = (can_write_buffer s, can_read_buffer s, can_layer.more s)"

lemma outside_fields [simp]:
  "outside (s\<lparr>safety_vars := v\<rparr>) = outside s" "outside (s\<lparr>safety_tx_blocked := a\<rparr>) = outside s"
  "outside (s\<lparr>safety_rx_invalid := a\<rparr>) = outside s" "outside (s\<lparr>can_queues := qs\<rparr>) = outside s"
  "outside (s\<lparr>can_rx_q := q\<rparr>) = outside s" "outside (s\<lparr>pending_can_live := i\<rparr>) = outside s"
  "outside (s\<lparr>tx_requests := r\<rparr>) = outside s" "outside (s\<lparr>ignition_can := c\<rparr>) = outside s"
  "outside (s\<lparr>ignition_can_cnt := a\<rparr>) = outside s" "outside (s\<lparr>spi_can_tx_ready := c\<rparr>) = outside s"
  "outside (s\<lparr>can_loopback := c\<rparr>) = outside s" "outside (s\<lparr>can_silent := i\<rparr>) = outside s"
  "outside (s\<lparr>hung := c\<rparr>) = outside s"
  by (simp_all add: outside_def)

lemma outside_primitives [simp]:
  "outside (upd_health n f s) = outside s" "outside (upd_can n g s) = outside s" "outside (upd_bus n h s) = outside s"
  "outside (snd (on_core n d s)) = outside s"
  "outside (push_rx p s) = outside s" "outside (push_tx m p s) = outside s"
  "outside (ignition_can_hook p s) = outside s" "outside (receive_packet b p s) = outside s"
  by (simp_all add: outside_def upd_health_def upd_can_def upd_bus_def push_rx_def push_tx_def ignition_can_hook_def
      receive_packet_def on_core_def Let_def case_prod_beta split: option.split)

lemma outside_refresh [simp]: "outside (refresh_can_tx_slots_available s) = outside s"
  by (simp add: outside_def refresh_can_tx_slots_available_def can_tx_comms_resume_usb_def
      can_tx_comms_resume_spi_def Let_def)

lemma outside_transmit [simp]:
  "outside (send_element hw n p s) = outside s" "outside (transmit_packet hw n bus p s) = outside s"
  by (simp_all add: send_element_def transmit_packet_def Let_def)

lemma outside_process [simp]: "outside (process_can hw n s) = outside s"
  by (simp add: process_can_def Let_def case_prod_beta split: option.split)

lemma outside_send [simp]: "outside (can_send b hw p bus skip s) = outside s"
  by (simp add: can_send_def Let_def case_prod_beta)

lemma outside_health [simp]:
  "outside (can_clear_send hw n s) = outside s" "outside (update_can_health_pkt hw n ir s) = outside s"
  by (simp_all add: can_clear_send_def update_can_health_pkt_def Let_def split: option.split)

lemma outside_rx_one [simp]: "outside (can_rx_one b hw n bus s) = outside s"
  by (simp add: can_rx_one_def forward_packet_def Let_def)

lemma outside_rx_loop: "can_rx_loop b hw n bus k s = Some t \<Longrightarrow> outside t = outside s"
proof (induction k arbitrary: s)
  case 0
  then show ?case by (simp add: can_rx_loop.simps split: if_splits)
next
  case (Suc k)
  then show ?case by (auto simp: can_rx_loop.simps [of _ _ _ _ "Suc k"] split: if_splits)
qed

lemma outside_rx: "can_rx b hw fuel n s = Some t \<Longrightarrow> outside t = outside s"
  using outside_rx_loop [of b hw n "BUS_NUM_FROM_CAN_NUM s n" fuel "upd_can n (\<lambda>c. write_IR hw (IR c OR FDCAN_IR_RF0N) c) s"]
  by (auto simp: can_rx_def Let_def split: option.splits if_splits)

lemma outside_setup [simp]:
  "outside (can_clear_tx n s) = outside s" "outside (can_clear_rx s) = outside s"
  "outside (can_set_orientation flipped s) = outside s" "outside (snd (can_init hw n s)) = outside s"
  by (simp_all add: can_clear_tx_def can_clear_rx_def can_set_orientation_def can_init_def can_set_speed_def
      Let_def case_prod_beta)

lemma outside_init_loop: "outside (can_init_loop hw fd is s) = outside s"
  by (induction "is" arbitrary: s) (simp_all add: Let_def)

lemma outside_init_all [simp]: "outside (can_init_all hw fd s) = outside s"
  by (simp add: can_init_all_def outside_init_loop)

text \<open>The setup does not touch the variables of the safety layer either.\<close>

lemma vars_setup [simp]:
  "safety_vars (can_clear_tx n s) = safety_vars s" "safety_vars (can_clear_rx s) = safety_vars s"
  "safety_vars (can_set_orientation flipped s) = safety_vars s" "safety_vars (snd (can_init hw n s)) = safety_vars s"
  "safety_vars (can_clear_send hw n s) = safety_vars s" "safety_vars (update_can_health_pkt hw n ir s) = safety_vars s"
  by (simp_all add: can_clear_tx_def can_clear_rx_def can_set_orientation_def can_init_def can_set_speed_def
      can_clear_send_def update_can_health_pkt_def Let_def case_prod_beta split: option.split)

lemma vars_init_all [simp]: "safety_vars (can_init_all hw fd s) = safety_vars s"
proof -
  have "safety_vars (can_init_loop hw fd is s) = safety_vars s" for "is"
    by (induction "is" arbitrary: s) (simp_all add: Let_def)
  then show ?thesis by (simp add: can_init_all_def)
qed

section \<open>The waits that may never end\<close>

text \<open>Only a command to a core can hang the layer, and only when a core does not leave its clock stop.\<close>

lemma hung_primitives [simp]:
  "hung (upd_health n f s) = hung s" "hung (upd_can n g s) = hung s" "hung (upd_bus n h s) = hung s"
  "hung (push_rx p s) = hung s" "hung (push_tx m p s) = hung s"
  "hung (ignition_can_hook p s) = hung s" "hung (receive_packet b p s) = hung s"
  by (simp_all add: upd_health_def upd_can_def upd_bus_def push_rx_def push_tx_def ignition_can_hook_def
      receive_packet_def Let_def case_prod_beta)

lemma hung_refresh [simp]: "hung (refresh_can_tx_slots_available s) = hung s"
  by (simp add: refresh_can_tx_slots_available_def can_tx_comms_resume_usb_def can_tx_comms_resume_spi_def Let_def)

lemma hung_transmit [simp]:
  "hung (send_element hw n p s) = hung s" "hung (transmit_packet hw n bus p s) = hung s"
  by (simp_all add: send_element_def transmit_packet_def Let_def)

lemma hung_send [simp]: "hung (process_can hw n s) = hung s" "hung (can_send b hw p bus skip s) = hung s"
  by (simp_all add: process_can_def can_send_def Let_def case_prod_beta split: option.split)

lemma hung_clears [simp]:
  "hung (can_clear_tx n s) = hung s" "hung (can_clear_rx s) = hung s" "hung (can_set_orientation flipped s) = hung s"
  by (simp_all add: can_clear_tx_def can_clear_rx_def can_set_orientation_def Let_def)

lemma hung_rx_one [simp]: "hung (can_rx_one b hw n bus s) = hung s"
  by (simp add: can_rx_one_def forward_packet_def Let_def)

lemma hung_rx_loop: "can_rx_loop b hw n bus k s = Some t \<Longrightarrow> hung t = hung s"
proof (induction k arbitrary: s)
  case 0
  then show ?case by (simp add: can_rx_loop.simps split: if_splits)
next
  case (Suc k)
  then show ?case by (auto simp: can_rx_loop.simps [of _ _ _ _ "Suc k"] split: if_splits)
qed

lemma hung_rx: "can_rx b hw fuel n s = Some t \<Longrightarrow> \<not> hung t"
  by (auto simp: can_rx_def Let_def split: option.splits if_splits)

lemma hung_sends [simp]: "hung (fold (send_packet b hw) ps s) = hung s"
  by (induction ps arbitrary: s) (simp_all add: send_packet_def)

lemma hung_write [simp]:
  assumes "buffer_ok (can_write_buffer s)"
  shows "hung (comms_can_write b hw data s) = hung s"
  using comms_can_write_eq [OF assms, of b hw data] by auto

lemma hung_read_loop [simp]: "hung (snd (comms_can_read_loop room s)) = hung s"
proof (induction room s rule: comms_can_read_loop.induct)
  case (1 room s)
  obtain popped q' where pop: "can_pop (can_rx_q s) = (popped, q')" by fastforce
  then show ?case using 1 [OF _ pop [symmetric] refl]
    by (subst comms_can_read_loop.simps) (auto simp: Let_def case_prod_beta split: option.split)
qed

lemma hung_read [simp]: "hung (snd (comms_can_read k s)) = hung s" "hung (comms_can_reset s) = hung s"
  by (auto simp: comms_can_read_def comms_can_reset_def Let_def case_prod_beta)

lemma hung_on_core: "f (cans s ! unat n) \<noteq> None \<Longrightarrow> hung (snd (on_core n f s)) = hung s"
  by (auto simp: on_core_def)

lemma hung_setup:
  assumes "core_restarts hw"
  shows "hung (snd (can_init hw n s)) = hung s" "hung (can_clear_send hw n s) = hung s"
    "hung (update_can_health_pkt hw n ir s) = hung s"
proof -
  note e = setup_ends [OF assms]
  show "hung (snd (can_init hw n s)) = hung s"
    by (simp add: can_init_def can_set_speed_def Let_def case_prod_beta hung_on_core e del: not_None_eq)
  show c: "hung (can_clear_send hw n s) = hung s" for s :: "'a cst"
    by (simp add: can_clear_send_def Let_def e(3) del: not_None_eq split: option.split)
  show "hung (update_can_health_pkt hw n ir s) = hung s"
    by (simp add: update_can_health_pkt_def Let_def c)
qed

lemma hung_init_loop: "core_restarts hw \<Longrightarrow> hung (can_init_loop hw fd is s) = hung s"
  by (induction "is" arbitrary: s) (simp_all add: Let_def hung_setup)

lemma hung_init_all: "core_restarts hw \<Longrightarrow> hung (can_init_all hw fd s) = hung s"
  unfolding can_init_all_def by (rule hung_init_loop)

text \<open>Without errors there is nothing to recover.\<close>

lemma hung_health_0 [simp]: "hung (update_can_health_pkt hw n 0 s) = hung s"
  by (simp add: update_can_health_pkt_def Let_def)

end
