(* ===== verification/Main_Loop.thy ===== *)
theory Main_Loop
  imports Can_Stream
begin

text \<open>
  \<^verbatim>\<open>main.c\<close> with the parts it ticks: the harness, the watchdog, power saving, the start
  of the attached computer. The board is its constants (\<open>board\<close>); what the program reads from pins and
  converters is a field of the state that the environment writes, what it drives is a field that it
  writes. The fan's controller, the USB statistics, the register checks, the lamps and the prints are left
  out. \<open>None\<close> is a hang: of a failed assertion, or of a wait that never ends.
\<close>

section \<open>State\<close>

definition HARNESS_STATUS_NC :: u8 where "HARNESS_STATUS_NC = 0"
definition HARNESS_STATUS_NORMAL :: u8 where "HARNESS_STATUS_NORMAL = 1"
definition HARNESS_STATUS_FLIPPED :: u8 where "HARNESS_STATUS_FLIPPED = 2"

definition CAN_MODE_NORMAL :: u8 where "CAN_MODE_NORMAL = 0"
definition CAN_MODE_OBD_CAN2 :: u8 where "CAN_MODE_OBD_CAN2 = 1"

definition POWER_SAVE_STATUS_DISABLED :: int where "POWER_SAVE_STATUS_DISABLED = 0"
definition POWER_SAVE_STATUS_ENABLED :: int where "POWER_SAVE_STATUS_ENABLED = 1"

datatype BootState = BOOT_STANDBY | BOOT_BOOTKICK | BOOT_RESET

record board =
  hw_type :: u8
  has_harness :: bool
  has_obd :: bool
  has_canfd :: bool
  avdd_mV :: u16
  fan_max_rpm :: u16

record harness_t =
  status :: u8
  sbu1_voltage_mV :: u16
  sbu2_voltage_mV :: u16
  relay_driven :: bool
  sbu_adc_lock :: bool

record simple_watchdog_state_t =
  wd_fault :: u32
  wd_last_ts :: u32
  wd_threshold :: u32

text \<open>The static variables of \<open>bootkick_tick\<close> and its global.\<close>

record bootkick_t =
  bootkick_reset_triggered :: bool
  bootkick_last_serial_ptr :: u16
  waiting_to_boot_countdown :: u8
  boot_reset_countdown :: u8
  bootkick_harness_status_prev :: u8
  bootkick_ign_prev :: bool
  boot_state :: BootState

definition bootkick_0 :: bootkick_t where
  "bootkick_0 = \<lparr>bootkick_reset_triggered = False, bootkick_last_serial_ptr = 0,
     waiting_to_boot_countdown = 0, boot_reset_countdown = 0,
     bootkick_harness_status_prev = HARNESS_STATUS_NC, bootkick_ign_prev = False, boot_state = BOOT_BOOTKICK\<rparr>"

text \<open>
  Read from outside: \<open>ignition_line\<close>, \<open>adc_sbu1\<close>, \<open>adc_sbu2\<close>, \<open>som_gpio\<close>,
  \<open>som_serial_ptr\<close>, \<open>usb_enumerated\<close>. Driven: \<open>relay_sbu1\<close>, \<open>relay_sbu2\<close>,
  \<open>can_mode\<close>, \<open>transceivers\<close>, \<open>ir_power\<close>, \<open>fan_target_rpm\<close>,
  \<open>siren\<close>, \<open>bootkick_out\<close>. \<open>ignition_line\<close> is what \<^verbatim>\<open>harness_check_ignition\<close> returns; its own wait is for
  the lock of the converter too, which is free then.
\<close>

record firmware = can_layer +
  uptime_cnt :: u32
  heartbeat_counter :: u32
  heartbeat_lost :: bool
  heartbeat_disabled :: bool
  siren_enabled :: bool
  green_led_enabled :: bool
  power_save_status :: int
  harness :: harness_t
  wd_state :: simple_watchdog_state_t
  siren_countdown :: u32
  controls_allowed_countdown :: u32
  prev_harness_status :: u8
  loop_counter :: u8
  bootkick :: bootkick_t
  ignition_line :: bool
  adc_sbu1 :: u16
  adc_sbu2 :: u16
  som_gpio :: bool
  som_serial_ptr :: u16
  usb_enumerated :: bool
  relay_sbu1 :: bool
  relay_sbu2 :: bool
  can_mode :: u8
  transceivers :: bool
  ir_power :: u8
  fan_target_rpm :: u16
  siren :: bool
  bootkick_out :: BootState

type_synonym 'a fw = "'a firmware_scheme"

definition upd_vars :: "(statics \<Rightarrow> statics) \<Rightarrow> 'a cst \<Rightarrow> 'a cst" where
  "upd_vars f s = s\<lparr>safety_vars := f (safety_vars s)\<rparr>"

section \<open>Harness, watchdog, power saving\<close>

text \<open>
  The wait for the lock: who holds it is interrupted by the waiting code and never gives it back.
\<close>

definition sbu_adc_wait :: "'a fw \<Rightarrow> 'a fw" where
  "sbu_adc_wait s = (if sbu_adc_lock (harness s) then s\<lparr>hung := True\<rparr> else s)"

definition set_intercept_relay :: "board \<Rightarrow> bool \<Rightarrow> bool \<Rightarrow> 'a fw \<Rightarrow> 'a fw" where
  "set_intercept_relay bd intercept ignition_relay s =
     (if has_harness bd
      then let drive_relay = intercept;
               drive_relay = (if status (harness s) = HARNESS_STATUS_NC then False else drive_relay);
               s = (if drive_relay \<or> ignition_relay
                    then s\<lparr>harness := (harness s)\<lparr>relay_driven := True\<rparr>\<rparr> else s);
               s = sbu_adc_wait s;
               s = (if status (harness s) = HARNESS_STATUS_NORMAL
                    then s\<lparr>relay_sbu1 := \<not> ignition_relay, relay_sbu2 := \<not> drive_relay\<rparr>
                    else s\<lparr>relay_sbu1 := \<not> drive_relay, relay_sbu2 := \<not> ignition_relay\<rparr>)
           in if \<not> (drive_relay \<or> ignition_relay)
              then s\<lparr>harness := (harness s)\<lparr>relay_driven := False\<rparr>\<rparr> else s
      else s)"

definition harness_detect_orientation :: "board \<Rightarrow> 'a fw \<Rightarrow> u8 \<times> 'a fw" where
  "harness_detect_orientation bd s =
     (if \<not> relay_driven (harness s) \<and> has_harness bd
      then let s = s\<lparr>harness := (harness s)\<lparr>sbu_adc_lock := True\<rparr>\<rparr>;
               s = s\<lparr>harness := (harness s)\<lparr>sbu1_voltage_mV := adc_sbu1 s\<rparr>\<rparr>;
               s = s\<lparr>harness := (harness s)\<lparr>sbu2_voltage_mV := adc_sbu2 s\<rparr>\<rparr>;
               detection_threshold = avdd_mV bd div 2;
               ret = (if sbu1_voltage_mV (harness s) < detection_threshold \<or> sbu2_voltage_mV (harness s) < detection_threshold
                 then if sbu1_voltage_mV (harness s) < sbu2_voltage_mV (harness s)
                      then HARNESS_STATUS_FLIPPED else HARNESS_STATUS_NORMAL
                 else HARNESS_STATUS_NC)
           in (ret, s\<lparr>harness := (harness s)\<lparr>sbu_adc_lock := False\<rparr>\<rparr>)
      else (status (harness s), s))"

definition harness_tick :: "board \<Rightarrow> 'a fw \<Rightarrow> 'a fw" where
  "harness_tick bd s =
     (let (st, s) = harness_detect_orientation bd s in s\<lparr>harness := (harness s)\<lparr>status := st\<rparr>\<rparr>)"

definition harness_init :: "board \<Rightarrow> 'a fw \<Rightarrow> 'a fw" where
  "harness_init bd s = set_intercept_relay bd False False (harness_tick bd s)"

definition simple_watchdog_kick :: "'a fw \<Rightarrow> 'a fw" where
  "simple_watchdog_kick s =
     (let ts = microsecond_timer (safety_vars s);
          et = get_ts_elapsed ts (wd_last_ts (wd_state s));
          s = (if et > wd_threshold (wd_state s) then upd_vars (fault_occurred (wd_fault (wd_state s))) s else s)
      in s\<lparr>wd_state := (wd_state s)\<lparr>wd_last_ts := ts\<rparr>\<rparr>)"

definition simple_watchdog_init :: "u32 \<Rightarrow> u32 \<Rightarrow> 'a fw \<Rightarrow> 'a fw" where
  "simple_watchdog_init fault threshold s =
     (let s = s\<lparr>wd_state := (wd_state s)\<lparr>wd_fault := fault\<rparr>\<rparr>;
          s = s\<lparr>wd_state := (wd_state s)\<lparr>wd_threshold := threshold\<rparr>\<rparr>
      in s\<lparr>wd_state := (wd_state s)\<lparr>wd_last_ts := microsecond_timer (safety_vars s)\<rparr>\<rparr>)"

definition set_power_save_state :: "int \<Rightarrow> 'a fw \<Rightarrow> 'a fw" where
  "set_power_save_state state s =
     (let is_valid_state = (state = POWER_SAVE_STATUS_ENABLED \<or> state = POWER_SAVE_STATUS_DISABLED)
      in if is_valid_state \<and> state \<noteq> power_save_status s
         then let side = (if status (harness s) = HARNESS_STATUS_FLIPPED then 0 else 2);
                  enable = (state \<noteq> POWER_SAVE_STATUS_ENABLED);
                  switch = (if enable then llcan_irq_enable else llcan_irq_disable);
                  s = upd_can side switch s;
                  s = upd_can 1 switch s;
                  s = s\<lparr>transceivers := enable\<rparr>;
                  s = (if \<not> enable then s\<lparr>ir_power := 0\<rparr> else s)
              in s\<lparr>power_save_status := state\<rparr>
         else s)"

definition fan_set_power :: "board \<Rightarrow> u8 \<Rightarrow> 'a fw \<Rightarrow> 'a fw" where
  "fan_set_power bd percentage s =
     s\<lparr>fan_target_rpm := word_of_int (uint (fan_max_rpm bd) * CLAMP (uint percentage) 0 100 div 100)\<rparr>"

section \<open>The start of the attached computer\<close>

definition bootkick_tick :: "bool \<Rightarrow> bool \<Rightarrow> 'a fw \<Rightarrow> 'a fw" where
  "bootkick_tick ignition recent_heartbeat s =
     (let k = bootkick s;
          boot_state_prev = boot_state k;
          harness_inserted = (status (harness s) \<noteq> bootkick_harness_status_prev k \<and>
            status (harness s) \<noteq> HARNESS_STATUS_NC);
          k = (if ignition \<and> \<not> bootkick_ign_prev k \<or> harness_inserted then k\<lparr>boot_state := BOOT_BOOTKICK\<rparr>
               else if recent_heartbeat then k\<lparr>boot_state := BOOT_STANDBY\<rparr> else k);
          k = (if \<not> bootkick_reset_triggered k \<and> boot_state k = BOOT_BOOTKICK \<and> boot_state_prev = BOOT_STANDBY
               then k\<lparr>waiting_to_boot_countdown := 20\<rparr> else k);
          serial_activity = (som_serial_ptr s \<noteq> bootkick_last_serial_ptr k);
          k = (if waiting_to_boot_countdown k > 0
               then if serial_activity \<or> som_gpio s \<or> boot_state k \<noteq> BOOT_BOOTKICK
                    then k\<lparr>waiting_to_boot_countdown := 0\<rparr>
                    else if waiting_to_boot_countdown k = 1 then k\<lparr>boot_reset_countdown := 5\<rparr> else k
               else k);
          k = (if boot_reset_countdown k > 0
               then k\<lparr>boot_state := BOOT_RESET, bootkick_reset_triggered := True\<rparr>
               else if boot_state k = BOOT_RESET then k\<lparr>boot_state := BOOT_BOOTKICK\<rparr> else k);
          k = k\<lparr>bootkick_ign_prev := ignition, bootkick_harness_status_prev := status (harness s),
                bootkick_last_serial_ptr := som_serial_ptr s\<rparr>;
          k = (if waiting_to_boot_countdown k > 0
               then k\<lparr>waiting_to_boot_countdown := waiting_to_boot_countdown k - 1\<rparr> else k);
          k = (if boot_reset_countdown k > 0 then k\<lparr>boot_reset_countdown := boot_reset_countdown k - 1\<rparr> else k)
      in s\<lparr>bootkick := k, bootkick_out := boot_state k\<rparr>)"

section \<open>The safety mode\<close>

definition is_car_safety_mode :: "u16 \<Rightarrow> bool" where
  "is_car_safety_mode mode \<longleftrightarrow> mode \<noteq> SAFETY_SILENT \<and> mode \<noteq> SAFETY_NOOUTPUT \<and>
     mode \<noteq> SAFETY_ALLOUTPUT \<and> mode \<noteq> SAFETY_ELM327"

definition check_started :: "'a fw \<Rightarrow> bool" where
  "check_started s \<longleftrightarrow> ignition_line s \<or> ignition_can s"

definition set_can_mode :: "board \<Rightarrow> u8 \<Rightarrow> 'a fw \<Rightarrow> 'a fw" where
  "set_can_mode bd mode s = (if has_obd bd then s\<lparr>can_mode := mode\<rparr> else s)"

text \<open>The switch of \<open>set_safety_mode\<close> over the mode that is now in force.\<close>

definition enter_mode :: "board \<Rightarrow> core_behaviour \<Rightarrow> u16 \<Rightarrow> u16 \<Rightarrow> 'a fw \<Rightarrow> 'a fw" where
  "enter_mode bd hw mode_copy param s =
     (if mode_copy = SAFETY_SILENT
      then (set_can_mode bd CAN_MODE_NORMAL (set_intercept_relay bd False False s))\<lparr>can_silent := ALL_CAN_SILENT\<rparr>
      else if mode_copy = SAFETY_NOOUTPUT
      then (set_can_mode bd CAN_MODE_NORMAL (set_intercept_relay bd False False s))\<lparr>can_silent := ALL_CAN_LIVE\<rparr>
      else if mode_copy = SAFETY_ELM327
      then let s = (set_intercept_relay bd False False s)\<lparr>heartbeat_counter := 0, heartbeat_lost := False\<rparr>;
               s = (if has_obd bd
                    then set_can_mode bd (if param = 0 then CAN_MODE_OBD_CAN2 else CAN_MODE_NORMAL) (can_clear_send hw 1 s)
                    else s)
           in s\<lparr>can_silent := ALL_CAN_LIVE\<rparr>
      else let s = (set_intercept_relay bd True False s)\<lparr>heartbeat_counter := 0, heartbeat_lost := False\<rparr>
           in (set_can_mode bd CAN_MODE_NORMAL s)\<lparr>can_silent := ALL_CAN_LIVE\<rparr>)"

definition set_safety_mode ::
  "build_flags \<Rightarrow> board \<Rightarrow> core_behaviour \<Rightarrow> u16 \<Rightarrow> u16 \<Rightarrow> 'a fw \<Rightarrow> 'a fw option" where
  "set_safety_mode b bd hw mode param s =
     (let mode_copy = mode;
          (err, v) = set_safety_hooks b mode_copy param (safety_vars s);
          s = s\<lparr>safety_vars := v\<rparr>;
          mode_copy = (if err = - 1 then SAFETY_SILENT else mode_copy);
          (err, v) = (if err = - 1 then set_safety_hooks b SAFETY_SILENT 0 (safety_vars s) else (0, v));
          s = s\<lparr>safety_vars := v\<rparr>
      in if err \<noteq> 0 then None
         else let s = s\<lparr>safety_tx_blocked := 0, safety_rx_invalid := 0\<rparr>;
                  s = enter_mode bd hw mode_copy param s
              in Some (can_init_all hw (has_canfd bd) s))"

section \<open>The tick\<close>

definition HEARTBEAT_IGNITION_CNT_ON :: u32 where "HEARTBEAT_IGNITION_CNT_ON = 5"
definition HEARTBEAT_IGNITION_CNT_OFF :: u32 where "HEARTBEAT_IGNITION_CNT_OFF = 2"

text \<open>A harness that was plugged, unplugged or turned.\<close>

definition harness_changed ::
  "build_flags \<Rightarrow> board \<Rightarrow> core_behaviour \<Rightarrow> 'a fw \<Rightarrow> 'a fw option" where
  "harness_changed b bd hw s =
     (if status (harness s) \<noteq> prev_harness_status s
      then let s = s\<lparr>prev_harness_status := status (harness s)\<rparr>;
               s = can_set_orientation (status (harness s) = HARNESS_STATUS_FLIPPED) s;
               s = can_init_all hw (has_canfd bd) s
           in case set_safety_mode b bd hw (current_safety_mode (safety_vars s)) (current_safety_param (safety_vars s)) s of
               None \<Rightarrow> None
             | Some s \<Rightarrow> Some (set_power_save_state (power_save_status s) s)
      else Some s)"

text \<open>The two timers on controls that nobody uses.\<close>

definition controls_timers :: "'a fw \<Rightarrow> 'a fw" where
  "controls_timers s =
     (let s = (if siren_countdown s > 0 then s\<lparr>siren_countdown := siren_countdown s - 1\<rparr> else s);
          s = (if controls_allowed (safety_vars s) \<or> heartbeat_engaged (safety_vars s)
               then s\<lparr>controls_allowed_countdown := 30\<rparr>
               else if controls_allowed_countdown s > 0
               then s\<lparr>controls_allowed_countdown := controls_allowed_countdown s - 1\<rparr> else s)
      in if controls_allowed (safety_vars s) \<and> \<not> heartbeat_engaged (safety_vars s)
         then let s = upd_vars (\<lambda>v. v\<lparr>heartbeat_engaged_mismatches := heartbeat_engaged_mismatches v + 1\<rparr>) s
              in if heartbeat_engaged_mismatches (safety_vars s) \<ge> 3
                 then upd_vars (\<lambda>v. v\<lparr>controls_allowed := False\<rparr>) s else s
         else upd_vars (\<lambda>v. v\<lparr>heartbeat_engaged_mismatches := 0\<rparr>) s)"

text \<open>No heartbeat for too long: to the silent mode and to power saving.\<close>

definition heartbeat_check ::
  "build_flags \<Rightarrow> board \<Rightarrow> core_behaviour \<Rightarrow> 'a fw \<Rightarrow> 'a fw option" where
  "heartbeat_check b bd hw s =
     (if \<not> heartbeat_disabled s \<and>
         heartbeat_counter s \<ge> (if check_started s then HEARTBEAT_IGNITION_CNT_ON else HEARTBEAT_IGNITION_CNT_OFF)
      then let s = (if controls_allowed_countdown s > 0
                    then s\<lparr>siren_countdown := 5, controls_allowed_countdown := 0\<rparr> else s);
               s = (if is_car_safety_mode (current_safety_mode (safety_vars s))
                    then s\<lparr>heartbeat_lost := True\<rparr> else s);
               s = upd_vars (\<lambda>v. v\<lparr>heartbeat_engaged := False\<rparr>) s
           in case (if current_safety_mode (safety_vars s) \<noteq> SAFETY_SILENT
                    then set_safety_mode b bd hw SAFETY_SILENT 0 s else Some s) of
               None \<Rightarrow> None
             | Some s \<Rightarrow>
                 let s = (if power_save_status s \<noteq> POWER_SAVE_STATUS_ENABLED
                          then set_power_save_state POWER_SAVE_STATUS_ENABLED s else s);
                     s = s\<lparr>ir_power := 0\<rparr>;
                     enabled = (usb_enumerated s \<or> som_gpio s)
                 in Some (fan_set_power bd (if enabled then 50 else 0) s)
      else Some s)"

definition heartbeat_age :: "'a fw \<Rightarrow> 'a fw" where
  "heartbeat_age s =
     (let s = (if heartbeat_counter s < 0xFFFFFFFF then s\<lparr>heartbeat_counter := heartbeat_counter s + 1\<rparr> else s)
      in if is_car_safety_mode (current_safety_mode (safety_vars s)) then s\<lparr>heartbeat_disabled := False\<rparr> else s)"

definition counters_tick :: "'a fw \<Rightarrow> 'a fw" where
  "counters_tick s =
     (let s = (if ignition_can_cnt s > 2 then s\<lparr>ignition_can := False\<rparr> else s);
          s = s\<lparr>uptime_cnt := uptime_cnt s + 1\<rparr>;
          s = upd_vars (\<lambda>v. v\<lparr>safety_mode_cnt := safety_mode_cnt v + 1\<rparr>) s
      in s\<lparr>ignition_can_cnt := ignition_can_cnt s + 1\<rparr>)"

text \<open>What happens every eighth tick.\<close>

definition tick_1Hz :: "build_flags \<Rightarrow> board \<Rightarrow> core_behaviour \<Rightarrow> 'a fw \<Rightarrow> 'a fw option" where
  "tick_1Hz b bd hw s =
     (let s = s\<lparr>can_live := pending_can_live s\<rparr>;
          s = (if uptime_cnt s AND 0xF = 0 then s\<lparr>pending_can_live := 0\<rparr> else s);
          recent_heartbeat = (heartbeat_counter s = 0);
          s = bootkick_tick (check_started s) recent_heartbeat s;
          s = heartbeat_age s;
          s = controls_timers s
      in case heartbeat_check b bd hw s of
          None \<Rightarrow> None
        | Some s \<Rightarrow> Some (upd_vars safety_tick (counters_tick s)))"

text \<open>A tick that enters a wait without end has no state after it.\<close>

definition tick_handler ::
  "build_flags \<Rightarrow> board \<Rightarrow> core_behaviour \<Rightarrow> u32 \<Rightarrow> 'a fw \<Rightarrow> 'a fw option" where
  "tick_handler b bd hw tick_sr s =
     (if tick_sr \<noteq> 0
      then let s = s\<lparr>siren := loop_counter s AND 1 \<noteq> 0 \<and> (siren_enabled s \<or> siren_countdown s > 0)\<rparr>;
               s = harness_tick bd s;
               s = simple_watchdog_kick s
           in case harness_changed b bd hw s of
               None \<Rightarrow> None
             | Some s \<Rightarrow>
                 (case (if loop_counter s = 0 then tick_1Hz b bd hw s else Some s) of
                   None \<Rightarrow> None
                 | Some s \<Rightarrow> if hung s then None else Some (s\<lparr>loop_counter := (loop_counter s + 1) mod 8\<rparr>))
      else Some s)"

text \<open>From reset to the loop: the orientation, then the silent mode.\<close>

definition main_init :: "build_flags \<Rightarrow> board \<Rightarrow> core_behaviour \<Rightarrow> 'a fw \<Rightarrow> 'a fw option" where
  "main_init b bd hw s =
     (case set_safety_mode b bd hw SAFETY_SILENT 0 (harness_init bd s) of
        None \<Rightarrow> None
      | Some s \<Rightarrow> if hung s then None else Some (simple_watchdog_init FAULT_HEARTBEAT_LOOP_WATCHDOG (3 * 1000000 div 8)
          (s\<lparr>transceivers := True\<rparr>)))"

end
