(* ===== verification/Control.thy ===== *)
theory Control
  imports Main_Loop
begin

text \<open>
  \<open>comms_control_handler\<close> of \<^verbatim>\<open>main_comms.h\<close>: the requests of the host on the control
  endpoint. One definition per request, then the switch. The requests that only concern the serial
  ports, the flash, the identity of the chip, the fan's tachometer, the clock output, the interrupt
  statistics and the health packet are \<open>Elsewhere\<close>, in \<^verbatim>\<open>Requests\<close>.
\<close>

record ControlPacket_t =
  request :: u8
  param1 :: u16
  param2 :: u16
  cp_length :: u16

datatype 's outcome = Response "u8 list" 's | Hangs | Elsewhere

text \<open>The answer of a request whose work may enter a wait that never ends.\<close>

definition answer :: "u8 list \<Rightarrow> 'a cst \<Rightarrow> 'a cst outcome" where
  "answer resp s = (if hung s then Hangs else Response resp s)"

definition le_bytes16 :: "u16 \<Rightarrow> u8 list" where
  "le_bytes16 w = [ucast w, ucast (drop_bit 8 w)]"

definition can_health_bytes :: "can_health_t \<Rightarrow> u8 list" where
  "can_health_bytes h =
     [bus_off h] @ word_bytes (bus_off_cnt h) @ [error_warning h, error_passive h, last_error h,
      last_stored_error h, last_data_error h, last_data_stored_error h, receive_error_cnt h,
      transmit_error_cnt h] @ word_bytes (total_error_cnt h) @ word_bytes (total_tx_lost_cnt h) @
     word_bytes (total_rx_lost_cnt h) @ word_bytes (total_tx_cnt h) @ word_bytes (total_rx_cnt h) @
     word_bytes (total_fwd_cnt h) @ word_bytes (total_tx_checksum_error_cnt h) @
     le_bytes16 (h_can_speed h) @ le_bytes16 (h_can_data_speed h) @
     [of_bool (h_canfd_enabled h), of_bool (h_brs_enabled h), of_bool (h_canfd_non_iso h)] @
     word_bytes (irq0_call_rate h) @ word_bytes (irq1_call_rate h) @ word_bytes (irq2_call_rate h) @
     word_bytes (can_core_reset_cnt h)"

section \<open>The requests\<close>

definition req_timer :: "'a fw \<Rightarrow> u8 list" where
  "req_timer s = word_bytes (microsecond_timer (safety_vars s))"

definition req_can_health :: "core_behaviour \<Rightarrow> u16 \<Rightarrow> 'a fw \<Rightarrow> u8 list \<times> 'a fw" where
  "req_can_health hw p1 s =
     (if p1 < 3
      then let n = ucast p1 :: u8;
               s = update_can_health_pkt hw n 0 s;
               cfg = bus_config s ! unat n;
               s = upd_health n (\<lambda>h. h\<lparr>h_can_speed := ucast (can_speed cfg div 10),
                     h_can_data_speed := ucast (can_data_speed cfg div 10),
                     h_canfd_enabled := canfd_enabled cfg, h_brs_enabled := brs_enabled cfg,
                     h_canfd_non_iso := canfd_non_iso cfg\<rparr>) s
           in (can_health_bytes (can_health s ! unat n), s)
      else ([], s))"

definition req_obd_mode :: "board \<Rightarrow> u16 \<Rightarrow> 'a fw \<Rightarrow> 'a fw" where
  "req_obd_mode bd p1 s =
     (if has_obd bd
      then if p1 = 1 then set_can_mode bd CAN_MODE_OBD_CAN2 s else set_can_mode bd CAN_MODE_NORMAL s
      else s)"

definition req_can_speed :: "core_behaviour \<Rightarrow> u16 \<Rightarrow> u16 \<Rightarrow> 'a fw \<Rightarrow> 'a fw" where
  "req_can_speed hw p1 p2 s =
     (if p1 < ucast PANDA_BUS_CNT \<and> is_speed_valid (ucast p2) speeds
      then let s = upd_bus (ucast p1) (\<lambda>c. c\<lparr>can_speed := ucast p2\<rparr>) s
           in snd (can_init hw (CAN_NUM_FROM_BUS_NUM s (ucast p1)) s)
      else s)"

definition req_alternative_experience :: "u16 \<Rightarrow> 'a fw \<Rightarrow> 'a fw" where
  "req_alternative_experience p1 s =
     (if \<not> is_car_safety_mode (current_safety_mode (safety_vars s))
      then upd_vars (\<lambda>v. v\<lparr>alternative_experience := uint p1\<rparr>) s else s)"

definition req_loopback :: "board \<Rightarrow> core_behaviour \<Rightarrow> u16 \<Rightarrow> 'a fw \<Rightarrow> 'a fw" where
  "req_loopback bd hw p1 s = can_init_all hw (has_canfd bd) (s\<lparr>can_loopback := p1 > 0\<rparr>)"

definition req_clear_ring :: "u16 \<Rightarrow> 'a fw \<Rightarrow> 'a fw" where
  "req_clear_ring p1 s =
     (if p1 = 0xFFFF then can_clear_rx s
      else if p1 < ucast PANDA_BUS_CNT then can_clear_tx (ucast p1) s
      else s)"

definition req_heartbeat :: "u16 \<Rightarrow> 'a fw \<Rightarrow> 'a fw" where
  "req_heartbeat p1 s =
     upd_vars (\<lambda>v. v\<lparr>heartbeat_engaged := p1 = 1\<rparr>)
       (s\<lparr>heartbeat_counter := 0, heartbeat_lost := False, heartbeat_disabled := False\<rparr>)"

definition req_disable_heartbeat :: "'a fw \<Rightarrow> 'a fw" where
  "req_disable_heartbeat s =
     (if \<not> is_car_safety_mode (current_safety_mode (safety_vars s)) then s\<lparr>heartbeat_disabled := True\<rparr> else s)"

definition req_data_speed :: "board \<Rightarrow> core_behaviour \<Rightarrow> u16 \<Rightarrow> u16 \<Rightarrow> 'a fw \<Rightarrow> 'a fw" where
  "req_data_speed bd hw p1 p2 s =
     (if p1 < ucast PANDA_CAN_CNT \<and> has_canfd bd \<and> is_speed_valid (ucast p2) data_speeds
      then let n = ucast p1;
               s = upd_bus n (\<lambda>c. c\<lparr>can_data_speed := ucast p2\<rparr>) s;
               s = upd_bus n (\<lambda>c. c\<lparr>canfd_enabled := ucast p2 \<ge> can_speed c\<rparr>) s;
               s = upd_bus n (\<lambda>c. c\<lparr>brs_enabled := ucast p2 > can_speed c\<rparr>) s
           in snd (can_init hw (CAN_NUM_FROM_BUS_NUM s n) s)
      else s)"

definition req_non_iso :: "board \<Rightarrow> core_behaviour \<Rightarrow> u16 \<Rightarrow> u16 \<Rightarrow> 'a fw \<Rightarrow> 'a fw" where
  "req_non_iso bd hw p1 p2 s =
     (if p1 < ucast PANDA_CAN_CNT \<and> has_canfd bd
      then let s = upd_bus (ucast p1) (\<lambda>c. c\<lparr>canfd_non_iso := p2 \<noteq> 0\<rparr>) s
           in snd (can_init hw (CAN_NUM_FROM_BUS_NUM s (ucast p1)) s)
      else s)"

section \<open>The switch\<close>

definition requests_elsewhere :: "u8 list" where
  "requests_elsewhere = [0xb2, 0xc3, 0xc4, 0xd0, 0xd1, 0xd2, 0xd3, 0xd4, 0xd6, 0xd8, 0xe0, 0xe1, 0xe2, 0xe4, 0xe6, 0xf2]"

definition comms_control_handler ::
  "build_flags \<Rightarrow> board \<Rightarrow> core_behaviour \<Rightarrow> ControlPacket_t \<Rightarrow> 'a fw \<Rightarrow> 'a fw outcome" where
  "comms_control_handler b bd hw req s =
     (let r = request req; p1 = param1 req; p2 = param2 req
      in if r = 0xa8 then Response (req_timer s) s
         else if r = 0xb0 then Response [] (s\<lparr>ir_power := ucast p1\<rparr>)
         else if r = 0xb1 then Response [] (fan_set_power bd (ucast p1) s)
         else if r = 0xc0 then Response [] (comms_can_reset s)
         else if r = 0xc1 then Response [hw_type bd] s
         else if r = 0xc2 then (let (resp, s) = req_can_health hw p1 s in Response resp s)
         else if r = 0xc5 then answer [] (set_intercept_relay bd (bit p1 0) (bit p1 1) s)
         else if r = 0xc6 then Response [of_bool (som_gpio s)] s
         else if r = 0xdb then Response [] (req_obd_mode bd p1 s)
         else if r = 0xdc then (case set_safety_mode b bd hw p1 p2 s of None \<Rightarrow> Hangs | Some s \<Rightarrow> answer [] s)
         else if r = 0xdd then Response [16, 4, 5] s
         else if r = 0xde then answer [] (req_can_speed hw p1 p2 s)
         else if r = 0xdf then Response [] (req_alternative_experience p1 s)
         else if r = 0xe5 then answer [] (req_loopback bd hw p1 s)
         else if r = 0xe7 then Response [] (set_power_save_state (uint p1) s)
         else if r = 0xf1 then Response [] (req_clear_ring p1 s)
         else if r = 0xf3 then Response [] (req_heartbeat p1 s)
         else if r = 0xf6 then Response [] (s\<lparr>siren_enabled := p1 \<noteq> 0\<rparr>)
         else if r = 0xf7 then Response [] (s\<lparr>green_led_enabled := p1 \<noteq> 0\<rparr>)
         else if r = 0xf8 then Response [] (req_disable_heartbeat s)
         else if r = 0xf9 then answer [] (req_data_speed bd hw p1 p2 s)
         else if r = 0xfc then answer [] (req_non_iso bd hw p1 p2 s)
         else if r \<in> set requests_elsewhere then Elsewhere
         else Response [] s)"

end
