(* ===== verification/Sha1.thy ===== *)
theory Sha1
  imports Prelude
begin

text \<open>
  The hash of the boot loader, \<^verbatim>\<open>crypto/sha.c\<close>. The first section is the code: a context
  with the byte count, the block under construction and the chaining words, fed byte by byte. The second
  is the standard (FIPS 180-4, SHA-1): padding, blocks, message schedule, rounds. The third shows that the
  code computes the standard, however the data is cut into calls of \<open>SHA_update\<close> and whatever the memory
  of the context holds before. The table of function pointers of the context is left out: it is constant.
\<close>

section \<open>The code\<close>

record SHA_CTX =
  ctx_count :: "64 word"
  ctx_buf :: "u8 list"
  ctx_state :: "u32 list"

definition rol :: "nat \<Rightarrow> u32 \<Rightarrow> u32" where
  "rol bits value = push_bit bits value OR drop_bit (32 - bits) value"

definition sha_word :: "u8 list \<Rightarrow> nat \<Rightarrow> u32" where
  "sha_word p t =
     (let tmp = push_bit 24 (ucast (p ! (4 * t)));
          tmp = tmp OR push_bit 16 (ucast (p ! (4 * t + 1)));
          tmp = tmp OR push_bit 8 (ucast (p ! (4 * t + 2)))
      in tmp OR ucast (p ! (4 * t + 3)))"

text \<open>The array \<open>W\<close> as the list of the words filled so far.\<close>

primrec sha_expand :: "nat \<Rightarrow> u32 list \<Rightarrow> u32 list" where
  "sha_expand 0 W = W"
| "sha_expand (Suc n) W =
     (let t = length W
      in sha_expand n (W @ [rol 1 (W ! (t - 3) XOR W ! (t - 8) XOR W ! (t - 14) XOR W ! (t - 16))]))"

type_synonym five = "u32 \<times> u32 \<times> u32 \<times> u32 \<times> u32"

fun sha_round :: "u32 list \<Rightarrow> nat \<Rightarrow> five \<Rightarrow> five" where
  "sha_round W t (A, B, C, D, E) =
     (let tmp = rol 5 A + E + W ! t;
          tmp = (if t < 20 then tmp + ((D XOR (B AND (C XOR D))) + 0x5A827999)
                 else if t < 40 then tmp + ((B XOR C XOR D) + 0x6ED9EBA1)
                 else if t < 60 then tmp + (((B AND C) OR (D AND (B OR C))) + 0x8F1BBCDC)
                 else tmp + ((B XOR C XOR D) + 0xCA62C1D6))
      in (tmp, A, rol 30 B, C, D))"

definition SHA1_Transform :: "SHA_CTX \<Rightarrow> SHA_CTX" where
  "SHA1_Transform ctx =
     (let p = ctx_buf ctx;
          W = sha_expand 64 (map (sha_word p) [0..<16]);
          s = ctx_state ctx;
          (A, B, C, D, E) = fold (sha_round W) [0..<80] (s ! 0, s ! 1, s ! 2, s ! 3, s ! 4)
      in ctx\<lparr>ctx_state := s[0 := s ! 0 + A, 1 := s ! 1 + B, 2 := s ! 2 + C, 3 := s ! 3 + D, 4 := s ! 4 + E]\<rparr>)"

definition SHA_init :: "SHA_CTX \<Rightarrow> SHA_CTX" where
  "SHA_init ctx = ctx\<lparr>ctx_state := (ctx_state ctx)
     [0 := 0x67452301, 1 := 0xEFCDAB89, 2 := 0x98BADCFE, 3 := 0x10325476, 4 := 0xC3D2E1F0], ctx_count := 0\<rparr>"

primrec sha_feed :: "nat \<Rightarrow> u8 list \<Rightarrow> SHA_CTX \<Rightarrow> SHA_CTX" where
  "sha_feed i [] ctx = ctx"
| "sha_feed i (x # xs) ctx =
     (let ctx = ctx\<lparr>ctx_buf := (ctx_buf ctx)[i := x]\<rparr>
      in if i + 1 = 64 then sha_feed 0 xs (SHA1_Transform ctx) else sha_feed (i + 1) xs ctx)"

definition SHA_update :: "SHA_CTX \<Rightarrow> u8 list \<Rightarrow> SHA_CTX" where
  "SHA_update ctx data =
     sha_feed (unat (ctx_count ctx AND 63)) data (ctx\<lparr>ctx_count := ctx_count ctx + of_nat (length data)\<rparr>)"

lemma transform_count [simp]: "ctx_count (SHA1_Transform c) = ctx_count c"
  by (simp add: SHA1_Transform_def Let_def case_prod_beta)

lemma feed_count [simp]: "ctx_count (sha_feed i xs c) = ctx_count c"
  by (induction xs arbitrary: i c) (simp_all add: Let_def)

lemma update_count [simp]: "ctx_count (SHA_update c xs) = ctx_count c + of_nat (length xs)"
  by (simp add: SHA_update_def)

lemma and_63: "unat ((x :: 64 word) AND 63) = unat x mod 64"
proof -
  have "x AND 63 = take_bit 6 x" by (simp add: take_bit_eq_mask mask_eq_exp_minus_1)
  then show ?thesis by (simp add: unsigned_take_bit_eq) (simp add: take_bit_eq_mod)
qed

lemma count_mod: "unat (x + of_nat n :: 64 word) mod 64 = (unat x + n) mod 64"
proof -
  have "unat (x + of_nat n) mod 64 = (unat x + n mod 2 ^ 64) mod 2 ^ 64 mod 64"
    by (simp add: unat_word_ariths(1) unat_of_nat)
  also have "\<dots> = (unat x + n mod 2 ^ 64) mod 64" by (rule mod_mod_cancel) simp
  also have "\<dots> = (unat x + n mod 2 ^ 64 mod 64) mod 64" by (simp only: mod_add_right_eq)
  also have "n mod 2 ^ 64 mod 64 = n mod 64" by (rule mod_mod_cancel) simp
  finally show ?thesis by (simp add: mod_add_right_eq)
qed

text \<open>The loop that pads with zeroes ends: the count gets closer to 56 below the next block.\<close>

definition pad_missing :: "SHA_CTX \<Rightarrow> nat" where
  "pad_missing ctx = 63 - (unat (ctx_count ctx) + 7) mod 64"

lemma pad_distance:
  assumes "ctx_count c AND 63 \<noteq> 56"
  shows "pad_missing (SHA_update c [0]) < pad_missing c"
proof -
  have "unat (ctx_count c AND 63) \<noteq> 56"
    using assms by (simp add: word_unat_eq_iff)
  then have n: "unat (ctx_count c) mod 64 \<noteq> 56" by (simp add: and_63)
  have "unat (ctx_count (SHA_update c [0])) mod 64 = (unat (ctx_count c) + 1) mod 64"
    using count_mod [of "ctx_count c" 1] by simp
  moreover have "(x + 7) mod 64 = (if x mod 64 < 57 then x mod 64 + 7 else x mod 64 - 57)" for x :: nat
    by (simp add: mod_if [of "x mod 64 + 7"] flip: mod_add_left_eq [of x])
  moreover have "(x + 1) mod 64 = (if x mod 64 = 63 then 0 else x mod 64 + 1)" for x :: nat
    by (simp add: mod_Suc)
  ultimately show ?thesis using n by (auto simp: pad_missing_def)
qed

function sha_pad :: "SHA_CTX \<Rightarrow> SHA_CTX" where
  "sha_pad ctx = (if ctx_count ctx AND 63 \<noteq> 56 then sha_pad (SHA_update ctx [0]) else ctx)"
  by auto

termination
  by (relation "measure pad_missing") (simp_all add: pad_distance)

definition SHA_final :: "SHA_CTX \<Rightarrow> SHA_CTX" where
  "SHA_final ctx =
     (let cnt = ctx_count ctx * 8;
          ctx = SHA_update ctx [0x80];
          ctx = sha_pad ctx;
          ctx = SHA_update ctx [ucast (drop_bit 56 cnt)];
          ctx = SHA_update ctx [ucast (drop_bit 48 cnt)];
          ctx = SHA_update ctx [ucast (drop_bit 40 cnt)];
          ctx = SHA_update ctx [ucast (drop_bit 32 cnt)];
          ctx = SHA_update ctx [ucast (drop_bit 24 cnt)];
          ctx = SHA_update ctx [ucast (drop_bit 16 cnt)];
          ctx = SHA_update ctx [ucast (drop_bit 8 cnt)];
          ctx = SHA_update ctx [ucast cnt];
          digest = concat (map (\<lambda>i. let tmp = ctx_state ctx ! i
            in [ucast (drop_bit 24 tmp), ucast (drop_bit 16 tmp), ucast (drop_bit 8 tmp), ucast tmp]) [0..<5])
      in ctx\<lparr>ctx_buf := digest @ drop 20 (ctx_buf ctx)\<rparr>)"

definition SHA_DIGEST_SIZE :: nat where "SHA_DIGEST_SIZE = 20"

text \<open>The context is a local variable: its memory before the call is an argument.\<close>

definition SHA_hash :: "SHA_CTX \<Rightarrow> u8 list \<Rightarrow> u8 list" where
  "SHA_hash memory data =
     (let ctx = SHA_init memory;
          ctx = SHA_update ctx data
      in take SHA_DIGEST_SIZE (ctx_buf (SHA_final ctx)))"


section \<open>The standard\<close>

definition sha1_f :: "nat \<Rightarrow> u32 \<Rightarrow> u32 \<Rightarrow> u32 \<Rightarrow> u32" where
  "sha1_f t x y z =
     (if t < 20 then (x AND y) XOR (NOT x AND z)
      else if 40 \<le> t \<and> t < 60 then (x AND y) XOR (x AND z) XOR (y AND z)
      else x XOR y XOR z)"

definition sha1_K :: "nat \<Rightarrow> u32" where
  "sha1_K t = (if t < 20 then 0x5A827999 else if t < 40 then 0x6ED9EBA1 else if t < 60 then 0x8F1BBCDC else 0xCA62C1D6)"

fun sha1_W :: "u32 list \<Rightarrow> nat \<Rightarrow> u32" where
  "sha1_W M t = (if t < 16 then M ! t
     else word_rotl 1 (sha1_W M (t - 3) XOR sha1_W M (t - 8) XOR sha1_W M (t - 14) XOR sha1_W M (t - 16)))"

declare sha1_W.simps [simp del]

fun sha1_step :: "u32 list \<Rightarrow> nat \<Rightarrow> five \<Rightarrow> five" where
  "sha1_step M t (a, b, c, d, e) =
     (word_rotl 5 a + sha1_f t b c d + e + sha1_K t + sha1_W M t, a, word_rotl 30 b, c, d)"

fun add_five :: "five \<Rightarrow> five \<Rightarrow> five" where
  "add_five (a, b, c, d, e) (a', b', c', d', e') = (a + a', b + b', c + c', d + d', e + e')"

text \<open>Numbers and their bytes, the most significant one first.\<close>

definition be_word :: "u8 list \<Rightarrow> u32" where
  "be_word p = horner_sum ucast 256 (rev p)"

definition be_bytes :: "nat \<Rightarrow> 'a::len word \<Rightarrow> u8 list" where
  "be_bytes n w = map (\<lambda>i. ucast (drop_bit (8 * (n - 1 - i)) w)) [0..<n]"

text \<open>The words of a block, the hash of a block, the hash of a list of blocks.\<close>

definition block_words :: "u8 list \<Rightarrow> u32 list" where
  "block_words p = map (\<lambda>t. be_word (take 4 (drop (4 * t) p))) [0..<16]"

definition sha1_block :: "u8 list \<Rightarrow> five \<Rightarrow> five" where
  "sha1_block p h = add_five h (fold (sha1_step (block_words p)) [0..<80] h)"

function sha1_blocks :: "u8 list \<Rightarrow> u8 list list" where
  "sha1_blocks xs = (if length xs < 64 then [] else take 64 xs # sha1_blocks (drop 64 xs))"
  by auto

termination by (relation "measure length") auto

declare sha1_blocks.simps [simp del]

text \<open>
  One bit, zeroes up to eight bytes below a multiple of the block size, and the length in bits.
\<close>

definition sha1_padded :: "u8 list \<Rightarrow> u8 list" where
  "sha1_padded xs = xs @ [0x80] @ replicate ((119 - length xs mod 64) mod 64) 0 @
     be_bytes 8 (of_nat (8 * length xs) :: 64 word)"

definition sha1_start :: five where
  "sha1_start = (0x67452301, 0xEFCDAB89, 0x98BADCFE, 0x10325476, 0xC3D2E1F0)"

definition five_bytes :: "five \<Rightarrow> u8 list" where
  "five_bytes h = (case h of (a, b, c, d, e) \<Rightarrow> concat (map (be_bytes 4) [a, b, c, d, e]))"

definition sha1 :: "u8 list \<Rightarrow> u8 list" where
  "sha1 xs = five_bytes (fold sha1_block (sha1_blocks (sha1_padded xs)) sha1_start)"

section \<open>The code computes the standard\<close>

lemma sha1_f_code:
  "(D XOR (B AND (C XOR D))) = (B AND C) XOR (NOT B AND (D :: u32))"
  "(B AND C) OR (D AND (B OR C)) = (B AND C) XOR (B AND D) XOR (C AND (D :: u32))"
  by (rule bit_word_eqI; auto simp: bit_and_iff bit_or_iff bit_xor_iff bit_not_iff)+

lemma rol_rotl: "0 < n \<Longrightarrow> n < 32 \<Longrightarrow> rol n w = word_rotl n w"
proof (rule bit_word_eqI)
  fix k assume n: "0 < n" "n < 32" and k: "k < LENGTH(32)"
  have e: "(k + (32 - n)) mod 32 = (if k < n then k + (32 - n) else k - n)"
    using n k by (simp add: mod_if)
  have "bit (rol n w) k \<longleftrightarrow> n \<le> k \<and> bit w (k - n) \<or> bit w (k + (32 - n))"
    using k by (auto simp: rol_def bit_simps add.commute)
  also have "\<dots> \<longleftrightarrow> bit w (if k < n then k + (32 - n) else k - n)"
    using n bit_imp_le_length [of w "k + (32 - n)"] by auto
  also have "\<dots> \<longleftrightarrow> bit (word_rotl n w) k" using n k e by (simp add: bit_word_rotl_iff)
  finally show "bit (rol n w) k = bit (word_rotl n w) k" .
qed

lemma or_bytes:
  "((push_bit 24 (ucast a) OR push_bit 16 (ucast b)) OR push_bit 8 (ucast c)) OR ucast d = (be_word [a, b, c, d] :: u32)"
proof -
  let ?a = "push_bit 24 (ucast a) :: u32" and ?b = "push_bit 16 (ucast b) :: u32"
    and ?c = "push_bit 8 (ucast c) :: u32" and ?d = "ucast d :: u32"
  have high: "\<not> bit x k" if "8 \<le> k" for x :: u8 and k
    using bit_imp_le_length [of x k] that by auto
  have "?a AND ?b = 0" "(?a OR ?b) AND ?c = 0" "((?a OR ?b) OR ?c) AND ?d = 0"
    by (auto intro!: bit_word_eqI simp: bit_simps high)
  then have "((?a OR ?b) OR ?c) OR ?d = ?a + ?b + ?c + ?d"
    by (simp flip: disjunctive_add_eq_or)
  also have "\<dots> = be_word [a, b, c, d]" by (simp add: be_word_def push_bit_eq_mult algebra_simps)
  finally show ?thesis .
qed

lemma take_4: "4 * t + 4 \<le> length p \<Longrightarrow> take 4 (drop (4 * t) p) = [p ! (4 * t), p ! (4 * t + 1), p ! (4 * t + 2), p ! (4 * t + 3)]"
  by (rule nth_equalityI) (auto simp: nth_Cons' numeral_eq_Suc less_Suc_eq)

lemma sha_word_be: "4 * t + 4 \<le> length p \<Longrightarrow> sha_word p t = be_word (take 4 (drop (4 * t) p))"
  by (simp only: take_4 sha_word_def Let_def or_bytes)

lemma sha_words: "length p = 64 \<Longrightarrow> map (sha_word p) [0..<16] = block_words p"
  by (simp add: block_words_def sha_word_be)

lemma length_block_words [simp]: "length (block_words p) = 16"
  by (simp add: block_words_def)

lemma expand_schedule:
  assumes "16 \<le> length V" "\<forall>t < length V. V ! t = sha1_W M t"
  shows "length (sha_expand n V) = length V + n \<and> (\<forall>t < length V + n. sha_expand n V ! t = sha1_W M t)"
  using assms
proof (induction n arbitrary: V)
  case (Suc n)
  let ?t = "length V"
  let ?w = "rol 1 (V ! (?t - 3) XOR V ! (?t - 8) XOR V ! (?t - 14) XOR V ! (?t - 16))"
  have "?w = sha1_W M ?t" using Suc.prems by (subst sha1_W.simps) (simp add: rol_rotl)
  then have "\<forall>t < length (V @ [?w]). (V @ [?w]) ! t = sha1_W M t"
    using Suc.prems(2) by (simp add: nth_append less_Suc_eq)
  then show ?case using Suc.IH [of "V @ [?w]"] Suc.prems(1) by (simp add: Let_def)
qed simp

lemma sha_schedule: "length M = 16 \<Longrightarrow> t < 80 \<Longrightarrow> sha_expand 64 M ! t = sha1_W M t"
  using expand_schedule [of M M 64] by (simp add: sha1_W.simps)

lemma sha_round_step: "W ! t = sha1_W M t \<Longrightarrow> sha_round W t h = sha1_step M t h"
  by (cases h) (simp add: rol_rotl sha1_f_def sha1_K_def sha1_f_code Let_def ac_simps)

lemma sha_rounds: "length M = 16 \<Longrightarrow> fold (sha_round (sha_expand 64 M)) [0..<80] h = fold (sha1_step M) [0..<80] h"
  by (rule fold_cong) (simp_all add: sha_round_step sha_schedule fun_eq_iff)

definition hash_of :: "SHA_CTX \<Rightarrow> five" where
  "hash_of c = (ctx_state c ! 0, ctx_state c ! 1, ctx_state c ! 2, ctx_state c ! 3, ctx_state c ! 4)"

definition ctx_ok :: "SHA_CTX \<Rightarrow> bool" where
  "ctx_ok c \<longleftrightarrow> length (ctx_buf c) = 64 \<and> length (ctx_state c) = 8"

lemma transform_block:
  assumes "ctx_ok c"
  shows "hash_of (SHA1_Transform c) = sha1_block (ctx_buf c) (hash_of c)" "ctx_ok (SHA1_Transform c)"
proof -
  obtain A B C D E where r: "fold (sha1_step (block_words (ctx_buf c))) [0..<80] (hash_of c) = (A, B, C, D, E)"
    using prod_cases5 by blast
  then have f: "fold (sha_round (sha_expand 64 (map (sha_word (ctx_buf c)) [0..<16]))) [0..<80]
      (ctx_state c ! 0, ctx_state c ! 1, ctx_state c ! 2, ctx_state c ! 3, ctx_state c ! 4) = (A, B, C, D, E)"
    using assms by (simp add: sha_words sha_rounds ctx_ok_def hash_of_def)
  show "hash_of (SHA1_Transform c) = sha1_block (ctx_buf c) (hash_of c)" "ctx_ok (SHA1_Transform c)"
    using assms by (simp_all add: SHA1_Transform_def Let_def f hash_of_def sha1_block_def ctx_ok_def
      r [unfolded hash_of_def] del: One_nat_def)
qed

section \<open>A context and the bytes it stands for\<close>

lemma sha1_blocks_append:
  "length xs = 64 * k \<Longrightarrow> sha1_blocks (xs @ ys) = sha1_blocks xs @ sha1_blocks ys"
proof (induction k arbitrary: xs)
  case (Suc k)
  then have "sha1_blocks (drop 64 xs @ ys) = sha1_blocks (drop 64 xs) @ sha1_blocks ys" by simp
  with Suc.prems show ?case by (simp add: sha1_blocks.simps [of xs] sha1_blocks.simps [of "xs @ ys"])
qed (simp add: sha1_blocks.simps)

lemma sha1_blocks_one: "length xs = 64 \<Longrightarrow> sha1_blocks xs = [xs]"
  by (simp add: sha1_blocks.simps)

text \<open>
  A context has taken the bytes \<open>done @ rest\<close>: the chaining words are the hash of the blocks in \<open>done\<close>,
  and \<open>rest\<close>, less than a block, lies at the front of the buffer.
\<close>

definition has_taken :: "SHA_CTX \<Rightarrow> u8 list \<Rightarrow> bool" where
  "has_taken c xs \<longleftrightarrow> ctx_ok c \<and>
     take (length xs mod 64) (ctx_buf c) = drop (64 * (length xs div 64)) xs \<and>
     hash_of c = fold sha1_block (sha1_blocks (take (64 * (length xs div 64)) xs)) sha1_start"

lemma has_taken_split:
  assumes "length done = 64 * k" "length rest < 64"
  shows "has_taken c (done @ rest) \<longleftrightarrow>
    ctx_ok c \<and> take (length rest) (ctx_buf c) = rest \<and> hash_of c = fold sha1_block (sha1_blocks done) sha1_start"
  using assms by (simp add: has_taken_def)

lemma has_taken_obtain:
  assumes "has_taken c xs"
  obtains "done" rest k where "xs = done @ rest" "length done = 64 * k" "length rest < 64" "length xs mod 64 = length rest"
proof (rule that)
  let ?n = "64 * (length xs div 64)"
  show "xs = take ?n xs @ drop ?n xs" by simp
  show "length (take ?n xs) = 64 * (length xs div 64)" by simp
  show "length (drop ?n xs) < 64" "length xs mod 64 = length (drop ?n xs)"
    by (simp_all add: minus_mult_div_eq_mod)
qed

lemma has_taken_init: "length (ctx_buf c) = 64 \<Longrightarrow> length (ctx_state c) = 8 \<Longrightarrow> has_taken (SHA_init c) []"
  by (simp add: has_taken_def SHA_init_def ctx_ok_def hash_of_def sha1_start_def sha1_blocks.simps nth_list_update)

lemma has_taken_count: "has_taken (c\<lparr>ctx_count := n\<rparr>) xs = has_taken c xs"
  by (simp add: has_taken_def ctx_ok_def hash_of_def)

lemma has_taken_byte:
  fixes x :: u8
  assumes "has_taken c xs"
  defines "c' \<equiv> c\<lparr>ctx_buf := (ctx_buf c)[length xs mod 64 := x]\<rparr>"
  shows "has_taken (if length xs mod 64 + 1 = 64 then SHA1_Transform c' else c') (xs @ [x])"
proof -
  obtain "done" rest k where x: "xs = done @ rest" "length done = 64 * k" "length rest < 64" "length xs mod 64 = length rest"
    using has_taken_obtain [OF assms(1)] .
  then have c: "ctx_ok c" "take (length rest) (ctx_buf c) = rest"
    "hash_of c = fold sha1_block (sha1_blocks done) sha1_start"
    using assms(1) by (simp_all add: has_taken_split)
  have b: "take (Suc (length rest)) ((ctx_buf c)[length rest := x]) = rest @ [x]"
    using c(1,2) x(3) by (simp add: ctx_ok_def take_Suc_conv_app_nth)
  have c': "ctx_ok c'" "hash_of c' = hash_of c" "take (Suc (length rest)) (ctx_buf c') = rest @ [x]"
    using c(1) b x(4) by (simp_all add: c'_def ctx_ok_def hash_of_def)
  show ?thesis
  proof (cases "length rest + 1 = 64")
    case True
    then have "ctx_buf c' = rest @ [x]" using c'(1,3) by (simp add: ctx_ok_def)
    moreover have "sha1_blocks (done @ rest @ [x]) = sha1_blocks done @ [rest @ [x]]"
      using sha1_blocks_append [OF x(2)] sha1_blocks_one [of "rest @ [x]"] True by simp
    moreover have "length (done @ rest @ [x]) = 64 * (k + 1)" using True x(2) by simp
    ultimately show ?thesis
      using True transform_block [OF c'(1)] c'(2) c(3) x(1,4) has_taken_split [of "done @ rest @ [x]" "k + 1" "[]"] by simp
  next
    case False
    then show ?thesis using x c c' has_taken_split [OF x(2), of "rest @ [x]" c'] by simp
  qed
qed

lemma has_taken_feed:
  "has_taken c xs \<Longrightarrow> i = length xs mod 64 \<Longrightarrow> has_taken (sha_feed i ys c) (xs @ ys)"
proof (induction ys arbitrary: i c xs)
  case (Cons y ys)
  have "length (xs @ [y]) mod 64 = (if i + 1 = 64 then 0 else i + 1)" using Cons.prems(2) by (simp add: mod_Suc)
  then show ?case
    using Cons.IH [OF has_taken_byte [OF Cons.prems(1)], of "length (xs @ [y]) mod 64" y] Cons.prems(2)
    by (auto simp: Let_def split: if_splits)
qed simp

text \<open>The count says how many bytes were taken, modulo its width.\<close>

definition absorbed :: "SHA_CTX \<Rightarrow> u8 list \<Rightarrow> bool" where
  "absorbed c xs \<longleftrightarrow> has_taken c xs \<and> ctx_count c = of_nat (length xs)"

lemma absorbed_mod: "absorbed c xs \<Longrightarrow> unat (ctx_count c AND 63) = length xs mod 64"
  using count_mod [of 0 "length xs"] by (simp add: absorbed_def and_63)

lemma absorbed_init: "length (ctx_buf c) = 64 \<Longrightarrow> length (ctx_state c) = 8 \<Longrightarrow> absorbed (SHA_init c) []"
  by (simp add: absorbed_def has_taken_init) (simp add: SHA_init_def)

lemma absorbed_update: "absorbed c xs \<Longrightarrow> absorbed (SHA_update c ys) (xs @ ys)"
  using absorbed_mod [of c xs] by (simp add: absorbed_def SHA_update_def has_taken_feed has_taken_count)

text \<open>So the way the data is cut into calls does not matter.\<close>

lemma update_append: "SHA_update (SHA_update c xs) ys = SHA_update c (xs @ ys)"
proof -
  have f: "sha_feed i (xs @ ys) u = sha_feed ((i + length xs) mod 64) ys (sha_feed i xs u)" if "i < 64" for i u
    using that by (induction xs arbitrary: i u) (auto simp: Let_def)
  have t: "SHA1_Transform (u\<lparr>ctx_count := n\<rparr>) = (SHA1_Transform u)\<lparr>ctx_count := n\<rparr>"
    "u\<lparr>ctx_count := n, ctx_buf := v\<rparr> = u\<lparr>ctx_buf := v, ctx_count := n\<rparr>" for u v n
    by (simp_all add: SHA1_Transform_def Let_def case_prod_beta)
  have k: "sha_feed i xs (u\<lparr>ctx_count := n\<rparr>) = (sha_feed i xs u)\<lparr>ctx_count := n\<rparr>" for i xs u n
    by (induction xs arbitrary: i u) (simp_all add: Let_def t)
  show ?thesis
    using count_mod [of "ctx_count c" "length xs"] by (simp add: SHA_update_def f k and_63 add.assoc mod_add_left_eq)
qed

section \<open>The hash\<close>

lemma pad_count:
  "m < 64 \<Longrightarrow> m \<noteq> 56 \<Longrightarrow> (120 - m) mod 64 = Suc ((120 - Suc m mod 64) mod (64 :: nat))"
  by (cases "m = 63"; cases "m < 56") (auto simp: mod_if)

lemma absorbed_pad:
  "absorbed c xs \<Longrightarrow> absorbed (sha_pad c) (xs @ replicate ((120 - length xs mod 64) mod 64) 0)"
proof (induction c arbitrary: xs rule: sha_pad.induct)
  case (1 c)
  have m: "ctx_count c AND 63 = 56 \<longleftrightarrow> length xs mod 64 = 56"
    using absorbed_mod [OF "1.prems"] by (simp add: word_unat_eq_iff)
  show ?case
  proof (cases "length xs mod 64 = 56")
    case False
    have "absorbed (sha_pad (SHA_update c [0]))
        ((xs @ [0]) @ replicate ((120 - length (xs @ [0]) mod 64) mod 64) 0)"
      using False by (intro "1.IH" absorbed_update "1.prems") (simp add: m)
    moreover have "(120 - length xs mod 64) mod 64 = Suc ((120 - length (xs @ [0 :: u8]) mod 64) mod 64)"
      using pad_count [of "length xs mod 64"] False by (simp add: mod_Suc_eq)
    ultimately show ?thesis using False m by (subst sha_pad.simps) (simp del: sha_pad.simps)
  qed (use "1.prems" m in \<open>subst sha_pad.simps, simp\<close>)
qed

lemma be_bytes_8: "be_bytes 8 w = [ucast (drop_bit 56 w), ucast (drop_bit 48 w), ucast (drop_bit 40 w),
    ucast (drop_bit 32 w), ucast (drop_bit 24 w), ucast (drop_bit 16 w), ucast (drop_bit 8 w), ucast w]"
  by (simp add: be_bytes_def upt_conv_Cons)

lemma be_bytes_4: "be_bytes 4 w = [ucast (drop_bit 24 w), ucast (drop_bit 16 w), ucast (drop_bit 8 w), ucast w]"
  by (simp add: be_bytes_def upt_conv_Cons)

lemma five_words:
  "concat (map (\<lambda>i. let tmp = ctx_state c ! i
     in [ucast (drop_bit 24 tmp), ucast (drop_bit 16 tmp), ucast (drop_bit 8 tmp), ucast tmp]) [0..<5]) = five_bytes (hash_of c)"
proof -
  have "[0..<5] = [0, 1, 2, 3, 4 :: nat]" by code_simp
  then show ?thesis by (simp add: five_bytes_def hash_of_def be_bytes_4 Let_def)
qed

text \<open>What \<open>SHA_final\<close> adds is the padding of the standard.\<close>

lemma final_absorbs:
  assumes "absorbed c xs"
  shows "\<exists>u. absorbed u (sha1_padded xs) \<and> SHA_final c = u\<lparr>ctx_buf := five_bytes (hash_of u) @ drop 20 (ctx_buf u)\<rparr>"
proof -
  let ?u = "SHA_update (sha_pad (SHA_update c [0x80])) (be_bytes 8 (ctx_count c * 8))"
  have n: "ctx_count c * 8 = of_nat (8 * length xs)" using assms by (simp add: absorbed_def mult.commute)
  have z: "(120 - length (xs @ [0x80 :: u8]) mod 64) mod 64 = (119 - length xs mod 64) mod 64"
    by (cases "length xs mod 64 = 63") (simp_all add: mod_Suc)
  have "absorbed ?u (((xs @ [0x80]) @ replicate ((120 - length (xs @ [0x80 :: u8]) mod 64) mod 64) 0) @ be_bytes 8 (ctx_count c * 8))"
    by (intro absorbed_update absorbed_pad assms)
  then have "absorbed ?u (sha1_padded xs)" unfolding z n by (simp add: sha1_padded_def)
  moreover have "SHA_final c = ?u\<lparr>ctx_buf := five_bytes (hash_of ?u) @ drop 20 (ctx_buf ?u)\<rparr>"
    unfolding SHA_final_def five_words by (simp only: Let_def update_append be_bytes_8 append_Cons append_Nil)
  ultimately show ?thesis by blast
qed

lemma length_padded: "length (sha1_padded xs) mod 64 = 0"
proof -
  have z: "(9 + (l + (119 - l mod 64) mod 64)) mod 64 = 0" for l :: nat
  proof -
    have "(l + (119 - l mod 64) mod 64) mod 64 = (l mod 64 + (119 - l mod 64)) mod 64"
      by (simp only: mod_add_left_eq mod_add_right_eq)
    also have "l mod 64 + (119 - l mod 64) = 119" using mod_less_divisor [of 64 l] by linarith
    finally show ?thesis by (subst mod_add_right_eq [symmetric]) simp
  qed
  show ?thesis using z [of "length xs"] by (simp add: sha1_padded_def be_bytes_def add.left_commute)
qed

lemma length_five_bytes [simp]: "length (five_bytes h) = 20"
  by (cases h) (simp add: five_bytes_def be_bytes_def)

lemma SHA_hash_sha1:
  assumes "length (ctx_buf memory) = 64" "length (ctx_state memory) = 8"
  shows "SHA_hash memory data = sha1 data"
proof -
  have "absorbed (SHA_update (SHA_init memory) data) ([] @ data)"
    by (intro absorbed_update absorbed_init assms)
  then obtain u where u: "absorbed u (sha1_padded data)"
    "SHA_final (SHA_update (SHA_init memory) data) = u\<lparr>ctx_buf := five_bytes (hash_of u) @ drop 20 (ctx_buf u)\<rparr>"
    using final_absorbs [of "SHA_update (SHA_init memory) data" data] by auto
  have "64 * (length (sha1_padded data) div 64) = length (sha1_padded data)"
    using length_padded [of data] mult_div_mod_eq [of 64 "length (sha1_padded data)"] by simp
  then have "hash_of u = fold sha1_block (sha1_blocks (sha1_padded data)) sha1_start"
    using u(1) by (simp add: absorbed_def has_taken_def)
  then show ?thesis using u(2) by (simp add: SHA_hash_def sha1_def SHA_DIGEST_SIZE_def Let_def)
qed

text \<open>Memory of a context.\<close>

definition blank_memory :: SHA_CTX where
  "blank_memory = \<lparr>ctx_count = 0, ctx_buf = replicate 64 0, ctx_state = replicate 8 0\<rparr>"

end
