(* ===== verification/Rsa.thy ===== *)
theory Rsa
  imports Sha1
begin

text \<open>
  The signature check of the boot loader, \<^verbatim>\<open>crypto/rsa.c\<close>. Numbers are arrays of 32-bit words, the least
  significant first. The first section is the code: subtraction and comparison with the modulus, one step
  of Montgomery's multiplication, the multiplication, the power with the exponents 3 and 65537, and the
  check against the padding of PKCS 1. The others read the arrays as numbers and show that the
  code computes the power modulo the key, so that a signature is accepted exactly when its power is the
  padded hash. Local arrays are not initialised by the code: their contents are arguments.
\<close>

section \<open>The code\<close>

type_synonym u64 = "64 word"

record RSAPublicKey =
  key_len :: int
  n0inv :: u32
  key_n :: "u32 list"
  key_rr :: "u32 list"
  exponent :: int

definition RSANUMBYTES :: nat where "RSANUMBYTES = 128"
definition RSANUMWORDS :: nat where "RSANUMWORDS = RSANUMBYTES div 4"

definition subM_step :: "u32 list \<Rightarrow> nat \<Rightarrow> u64 \<times> u32 list \<Rightarrow> u64 \<times> u32 list" where
  "subM_step n i = (\<lambda>(A, a).
     let A = A + (ucast (a ! i) - ucast (n ! i));
         a = a[i := ucast A]
     in (signed_drop_bit 32 A, a))"

definition subM :: "RSAPublicKey \<Rightarrow> u32 list \<Rightarrow> u32 list" where
  "subM key a = snd (fold (subM_step (key_n key)) [0..<nat (key_len key)] (0, a))"

primrec geM_loop :: "RSAPublicKey \<Rightarrow> u32 list \<Rightarrow> nat \<Rightarrow> bool" where
  "geM_loop key a 0 = True"
| "geM_loop key a (Suc i) =
     (if a ! i < key_n key ! i then False else if a ! i > key_n key ! i then True else geM_loop key a i)"

definition geM :: "RSAPublicKey \<Rightarrow> u32 list \<Rightarrow> bool" where
  "geM key a = geM_loop key a (nat (key_len key))"

definition mont_step :: "RSAPublicKey \<Rightarrow> u32 \<Rightarrow> u32 \<Rightarrow> u32 list \<Rightarrow> nat \<Rightarrow> u64 \<times> u64 \<times> u32 list \<Rightarrow> u64 \<times> u64 \<times> u32 list" where
  "mont_step key a d0 b i = (\<lambda>(A, B, c).
     let A = drop_bit 32 A + ucast a * ucast (b ! i) + ucast (c ! i);
         B = drop_bit 32 B + ucast d0 * ucast (key_n key ! i) + ucast (ucast A :: u32)
     in (A, B, c[i - 1 := ucast B]))"

definition montMulAdd :: "RSAPublicKey \<Rightarrow> u32 list \<Rightarrow> u32 \<Rightarrow> u32 list \<Rightarrow> u32 list" where
  "montMulAdd key c a b =
     (let A = ucast a * ucast (b ! 0) + ucast (c ! 0) :: u64;
          d0 = ucast A * n0inv key;
          B = ucast d0 * ucast (key_n key ! 0) + ucast (ucast A :: u32);
          (A, B, c) = fold (mont_step key a d0 b) [1..<nat (key_len key)] (A, B, c);
          A = drop_bit 32 A + drop_bit 32 B;
          c = c[max 1 (nat (key_len key)) - 1 := ucast A]
      in if drop_bit 32 A \<noteq> 0 then subM key c else c)"

definition montMul :: "RSAPublicKey \<Rightarrow> u32 list \<Rightarrow> u32 list \<Rightarrow> u32 list \<Rightarrow> u32 list" where
  "montMul key c a b =
     (let c = fold (\<lambda>i c. c[i := 0]) [0..<nat (key_len key)] c
      in fold (\<lambda>i c. montMulAdd key c (a ! i) b) [0..<nat (key_len key)] c)"

text \<open>The bytes of the buffer as words and back.\<close>

definition get_words :: "RSAPublicKey \<Rightarrow> u8 list \<Rightarrow> u32 list \<Rightarrow> u32 list" where
  "get_words key inout a = fold (\<lambda>i a.
     let k = (nat (key_len key) - 1 - i) * 4;
         tmp = ((push_bit 24 (ucast (inout ! (k + 0))) OR push_bit 16 (ucast (inout ! (k + 1)))) OR
           push_bit 8 (ucast (inout ! (k + 2)))) OR ucast (inout ! (k + 3))
     in a[i := tmp]) [0..<nat (key_len key)] a"

definition put_words :: "RSAPublicKey \<Rightarrow> u32 list \<Rightarrow> u8 list \<Rightarrow> u8 list" where
  "put_words key aaa inout =
     concat (map (\<lambda>i. let tmp = aaa ! i
       in [ucast (drop_bit 24 tmp), ucast (drop_bit 16 tmp), ucast (drop_bit 8 tmp), ucast tmp])
       (rev [0..<nat (key_len key)])) @ drop (4 * nat (key_len key)) inout"

text \<open>One turn of the loop of squarings; the power; \<open>None\<close> is the null pointer of any other exponent.\<close>

definition square_twice :: "RSAPublicKey \<Rightarrow> u32 list \<times> u32 list \<Rightarrow> u32 list \<times> u32 list" where
  "square_twice key = (\<lambda>(aR, aaR).
     let aaR = montMul key aaR aR aR;
         aR = montMul key aR aaR aaR
     in (aR, aaR))"

definition modpow :: "RSAPublicKey \<Rightarrow> u32 list \<times> u32 list \<times> u32 list \<Rightarrow> u8 list \<Rightarrow> u8 list option" where
  "modpow key memory inout =
     (let (a, aR, aaR) = memory;
          a = get_words key inout a;
          result =
            (if exponent key = 65537
             then let aR = montMul key aR a (key_rr key);
                      (aR, aaR) = (square_twice key ^^ 8) (aR, aaR)
                  in Some (montMul key aaR aR a)
             else if exponent key = 3
             then let aR = montMul key aR a (key_rr key);
                      aaR = montMul key aaR aR aR
                  in Some (montMul key aR aaR a)
             else None)
      in case result of
           None \<Rightarrow> None
         | Some aaa \<Rightarrow>
             let aaa = (if geM key aaa then subM key aaa else aaa)
             in Some (put_words key aaa inout))"

definition sha_padding_1024 :: "u8 list" where
  "sha_padding_1024 = [0x00, 0x01] @ replicate 105 0xff @ [0x00] @ replicate 20 0"

definition RSA_verify ::
  "u32 list \<times> u32 list \<times> u32 list \<Rightarrow> RSAPublicKey \<Rightarrow> u8 list \<Rightarrow> int \<Rightarrow> u8 list \<Rightarrow> int \<Rightarrow> bool option" where
  "RSA_verify memory key signature len hash hash_len =
     (if key_len key \<noteq> int RSANUMWORDS then Some False
      else if len \<noteq> int RSANUMBYTES then Some False
      else if hash_len \<noteq> int SHA_DIGEST_SIZE then Some False
      else if exponent key \<noteq> 3 \<and> exponent key \<noteq> 65537 then Some False
      else case modpow key memory (take (nat len) signature) of
        None \<Rightarrow> None
      | Some buf \<Rightarrow>
          let buf = fold (\<lambda>i buf. buf[i := buf ! i XOR hash ! (i - nat (len - hash_len))]) [nat (len - hash_len)..<nat len] buf
          in Some (list_all (\<lambda>i. buf ! i = sha_padding_1024 ! i) [0..<RSANUMBYTES]))"

section \<open>Arrays as numbers\<close>

definition num :: "u32 list \<Rightarrow> int" where
  "num ws = horner_sum uint (2 ^ 32) ws"

lemma num_simps [simp]: "num [] = 0" "num (w # ws) = uint w + 2 ^ 32 * num ws"
  by (simp_all add: num_def)

lemma num_append: "num (xs @ ys) = num xs + 2 ^ (32 * length xs) * num ys"
  by (simp add: num_def horner_sum_append power_mult)

lemma num_take_Suc: "i < length xs \<Longrightarrow> num (take (Suc i) xs) = num (take i xs) + 2 ^ (32 * i) * uint (xs ! i)"
  by (simp add: take_Suc_conv_app_nth num_append)

lemma uint_lt: "uint (w :: u32) < 2 ^ 32"
  using uint_lt2p [of w] by simp

text \<open>Numbers written in words of any width.\<close>

lemma digits_bounds:
  fixes ws :: "'a::len word list"
  shows "0 \<le> horner_sum uint (2 ^ LENGTH('a)) ws \<and> horner_sum uint (2 ^ LENGTH('a)) ws < 2 ^ (LENGTH('a) * length ws)"
proof (induction ws)
  case (Cons w ws)
  let ?h = "horner_sum uint (2 ^ LENGTH('a)) ws"
  have "uint w + 2 ^ LENGTH('a) * ?h < 2 ^ LENGTH('a) + 2 ^ LENGTH('a) * ?h" using uint_lt2p [of w] by simp
  also have "\<dots> = 2 ^ LENGTH('a) * (?h + 1)" by (simp add: algebra_simps)
  also have "\<dots> \<le> 2 ^ LENGTH('a) * 2 ^ (LENGTH('a) * length ws)" using Cons by (intro mult_left_mono) auto
  finally show ?case using Cons by (simp add: power_add)
qed simp

lemma digits_inject:
  fixes xs ys :: "'a::len word list"
  shows "length xs = length ys \<Longrightarrow>
    horner_sum uint (2 ^ LENGTH('a)) xs = horner_sum uint (2 ^ LENGTH('a)) ys \<longleftrightarrow> xs = ys"
proof (induction xs ys rule: list_induct2)
  case (Cons x xs y ys)
  let ?W = "2 ^ LENGTH('a) :: int"
  have "x = y \<and> horner_sum uint ?W xs = horner_sum uint ?W ys"
    if e: "uint x + ?W * horner_sum uint ?W xs = uint y + ?W * horner_sum uint ?W ys"
  proof -
    have "uint x = (uint x + ?W * horner_sum uint ?W xs) mod ?W" using uint_lt2p [of x] by simp
    also have "\<dots> = (uint y + ?W * horner_sum uint ?W ys) mod ?W" using e by simp
    also have "\<dots> = uint y" using uint_lt2p [of y] by simp
    finally show ?thesis using e by (simp add: word_uint_eq_iff)
  qed
  then show ?case using Cons.IH by auto
qed simp

lemma num_bounds: "0 \<le> num ws \<and> num ws < 2 ^ (32 * length ws)"
  using digits_bounds [of ws] by (simp add: num_def)

section \<open>Subtraction and comparison\<close>

definition key_shape :: "RSAPublicKey \<Rightarrow> nat \<Rightarrow> bool" where
  "key_shape key k \<longleftrightarrow> key_len key = int k \<and> 0 < k \<and> length (key_n key) = k \<and> length (key_rr key) = k"

abbreviation modulus :: "RSAPublicKey \<Rightarrow> int" where
  "modulus key \<equiv> num (key_n key)"

lemma sint_small: "- (2 ^ 63) \<le> t \<Longrightarrow> t < 2 ^ 63 \<Longrightarrow> sint (word_of_int t :: u64) = t"
  by (simp add: signed_of_int signed_take_bit_int_eq_self)

lemma uint_low: "uint (ucast (w :: u64) :: u32) = uint w mod 2 ^ 32"
  by (simp add: unsigned_ucast_eq take_bit_eq_mod)

lemma borrow_step:
  fixes A :: u64 and x y :: u32
  assumes "A = 0 \<or> A = - 1"
  defines "A' \<equiv> A + (ucast x - ucast y)"
  shows "signed_drop_bit 32 A' = 0 \<or> signed_drop_bit 32 A' = - 1"
    "uint (ucast A' :: u32) + 2 ^ 32 * sint (signed_drop_bit 32 A') = sint A + uint x - uint y"
proof -
  define t where "t = sint A + uint x - uint y"
  have s: "sint A = 0 \<or> sint A = - 1" using assms(1) by auto
  then have "- 1 \<le> sint A" "sint A \<le> 0" by auto
  then have t: "- (2 ^ 32) \<le> t" "t < 2 ^ 32"
    using uint_lt [of x] uint_lt [of y] unsigned_greater_eq [of x, where 'a = int] unsigned_greater_eq [of y, where 'a = int]
    unfolding t_def by linarith+
  have A: "A' = word_of_int t" by (simp add: A'_def t_def)
  have d: "sint (signed_drop_bit 32 A') = t div 2 ^ 32"
    using t by (simp add: A sint_signed_drop_bit_eq sint_small drop_bit_eq_div)
  have "t div 2 ^ 32 = 0 \<or> t div 2 ^ 32 = - 1"
    using t div_add_self2 [of "2 ^ 32" t] div_pos_pos_trivial [of t "2 ^ 32"] div_pos_pos_trivial [of "t + 2 ^ 32" "2 ^ 32"]
    by (cases "0 \<le> t") auto
  moreover have inj: "v = w" if "sint v = sint w" for v w :: u64 using that by (rule signed_word_eqI)
  ultimately show "signed_drop_bit 32 A' = 0 \<or> signed_drop_bit 32 A' = - 1"
    using d inj [of "signed_drop_bit 32 A'" 0] inj [of "signed_drop_bit 32 A'" "- 1"] by auto
  have "uint (ucast A' :: u32) = t mod 2 ^ 32"
    by (simp add: uint_low A uint_word_of_int mod_mod_cancel)
  then show "uint (ucast A' :: u32) + 2 ^ 32 * sint (signed_drop_bit 32 A') = sint A + uint x - uint y"
    using d by (simp flip: t_def)
qed

text \<open>Loops over an array that write behind the point they read: what is left to read is untouched.\<close>

lemma subM_loop:
  assumes "m \<le> length a" "m \<le> length n"
  shows "case fold (subM_step n) [0..<m] (0, a) of (A, c) \<Rightarrow>
    (A = 0 \<or> A = - 1) \<and> length c = length a \<and> drop m c = drop m a \<and>
    num (take m c) + 2 ^ (32 * m) * sint A = num (take m a) - num (take m n)"
  using assms
proof (induction m)
  case (Suc m)
  obtain A c where f: "fold (subM_step n) [0..<m] (0, a) = (A, c)" by (cases "fold (subM_step n) [0..<m] (0, a)")
  let ?A = "A + (ucast (c ! m) - ucast (n ! m))"
  have IH: "A = 0 \<or> A = - 1" "length c = length a" "drop m c = drop m a"
    "num (take m c) + 2 ^ (32 * m) * sint A = num (take m a) - num (take m n)"
    using Suc f by simp_all
  have c: "c ! m = a ! m" using IH(2,3) Suc.prems(1) by (metis Suc_le_lessD hd_drop_conv_nth)
  have d: "drop (Suc m) c = drop (Suc m) a" using IH(3) by (metis drop_Suc tl_drop)
  have "num (take (Suc m) (c[m := ucast ?A])) = num (take m c) + 2 ^ (32 * m) * uint (ucast ?A :: u32)"
    using Suc.prems(1) IH(2) by (simp add: num_take_Suc)
  then have "num (take (Suc m) (c[m := ucast ?A])) + 2 ^ (32 * Suc m) * sint (signed_drop_bit 32 ?A) =
      num (take m c) + 2 ^ (32 * m) * (uint (ucast ?A :: u32) + 2 ^ 32 * sint (signed_drop_bit 32 ?A))"
    by (simp add: power_add algebra_simps)
  also have "\<dots> = num (take m c) + 2 ^ (32 * m) * (sint A + uint (c ! m) - uint (n ! m))"
    by (simp only: borrow_step(2) [OF IH(1)])
  also have "\<dots> = num (take (Suc m) a) - num (take (Suc m) n)"
    using IH(4) Suc.prems by (simp add: num_take_Suc c algebra_simps)
  finally have e: "num (take (Suc m) (c[m := ucast ?A])) + 2 ^ (32 * Suc m) * sint (signed_drop_bit 32 ?A) =
      num (take (Suc m) a) - num (take (Suc m) n)" .
  have "subM_step n m (A, c) = (signed_drop_bit 32 ?A, c[m := ucast ?A])" by (simp add: subM_step_def Let_def)
  then show ?case using borrow_step(1) [OF IH(1), of "c ! m" "n ! m"] IH(2) d e by (simp add: f del: mult_Suc_right)
qed simp

lemma subM_spec:
  assumes "key_shape key k" "length a = k"
  shows "length (subM key a) = k" "num (subM key a) = (num a - modulus key) mod 2 ^ (32 * k)"
proof -
  obtain A c where f: "fold (subM_step (key_n key)) [0..<k] (0, a) = (A, c)"
    by (cases "fold (subM_step (key_n key)) [0..<k] (0, a)")
  then have c: "length c = k" "num c + 2 ^ (32 * k) * sint A = num a - modulus key"
    using subM_loop [of k a "key_n key"] assms by (auto simp: key_shape_def)
  have s: "subM key a = c" using f assms(1) by (simp add: subM_def key_shape_def)
  show "length (subM key a) = k" using s c(1) by simp
  have "(num a - modulus key) mod 2 ^ (32 * k) = num c mod 2 ^ (32 * k)" by (simp flip: c(2))
  then show "num (subM key a) = (num a - modulus key) mod 2 ^ (32 * k)"
    using num_bounds [of c] s c(1) by simp
qed

lemma geM_loop_spec:
  "i \<le> length a \<Longrightarrow> i \<le> length (key_n key) \<Longrightarrow> geM_loop key a i \<longleftrightarrow> num (take i (key_n key)) \<le> num (take i a)"
proof (induction i)
  case (Suc i)
  let ?n = "key_n key"
  have b: "0 \<le> num (take i a)" "num (take i a) < 2 ^ (32 * i)" "0 \<le> num (take i ?n)" "num (take i ?n) < 2 ^ (32 * i)"
    using num_bounds [of "take i a"] num_bounds [of "take i ?n"] Suc.prems by simp_all
  have e: "num (take (Suc i) xs) = num (take i xs) + 2 ^ (32 * i) * uint (xs ! i)" if "Suc i \<le> length xs" for xs
    using that by (simp add: num_take_Suc)
  have far: "num (take i x) + 2 ^ (32 * i) * u < num (take i y) + 2 ^ (32 * i) * v"
    if "u < v" "num (take i x) < 2 ^ (32 * i)" "0 \<le> num (take i y)" for x y u v
  proof -
    have "num (take i x) + 2 ^ (32 * i) * u < 2 ^ (32 * i) * (u + 1)" using that by (simp add: algebra_simps)
    also have "\<dots> \<le> 2 ^ (32 * i) * v" using that by (intro mult_left_mono) auto
    finally show ?thesis using that by simp
  qed
  consider "a ! i < ?n ! i" | "?n ! i < a ! i" | "a ! i = ?n ! i" by (metis linorder_neqE)
  then show ?case
    using Suc b e [of a] e [of ?n] far [of "uint (a ! i)" "uint (?n ! i)" a ?n] far [of "uint (?n ! i)" "uint (a ! i)" ?n a]
    by cases (auto simp: word_less_def)
qed simp

lemma geM_spec: "key_shape key k \<Longrightarrow> length a = k \<Longrightarrow> geM key a \<longleftrightarrow> modulus key \<le> num a"
  using geM_loop_spec [of k a key] by (simp add: geM_def key_shape_def)

section \<open>One step of Montgomery's multiplication\<close>

lemma uint_of_word: "0 \<le> t \<Longrightarrow> t < 2 ^ 64 \<Longrightarrow> uint (word_of_int t :: u64) = t"
  by (simp add: uint_word_of_int)

text \<open>The products with their carries fit: \<open>(W - 1) + (W - 1) * (W - 1) + (W - 1) = W * W - 1\<close>.\<close>

lemma mul_add_fits:
  fixes a b c :: u32 and h :: u64
  assumes "uint h < 2 ^ 32"
  shows "uint (h + ucast a * ucast b + ucast c) = uint h + uint a * uint b + uint c"
proof -
  have "uint a * uint b \<le> (2 ^ 32 - 1) * (2 ^ 32 - 1)" using uint_lt [of a] uint_lt [of b] by (intro mult_mono) auto
  then have "uint h + uint a * uint b + uint c < 2 ^ 64" using assms uint_lt [of c] by simp
  moreover have "h + ucast a * ucast b + ucast c = word_of_int (uint h + uint a * uint b + uint c)" by simp
  moreover have "0 \<le> uint h + uint a * uint b + uint c" by simp
  ultimately show ?thesis by (metis uint_of_word)
qed

lemma high_word: "uint (drop_bit 32 (A :: u64)) = uint A div 2 ^ 32" "uint (drop_bit 32 A) < 2 ^ 32"
proof -
  show d: "uint (drop_bit 32 A) = uint A div 2 ^ 32" by (simp add: drop_bit_eq_div uint_div)
  have "uint A < 2 ^ 32 * 2 ^ 32" using uint_lt2p [of A] by simp
  then show "uint (drop_bit 32 A) < 2 ^ 32" unfolding d by simp
qed

lemma mont_column:
  fixes A B :: u64 and a b c d n :: u32
  defines "A' \<equiv> drop_bit 32 A + ucast a * ucast b + ucast c"
  defines "B' \<equiv> drop_bit 32 B + ucast d * ucast n + ucast (ucast A' :: u32)"
  shows "uint (ucast B' :: u32) + 2 ^ 32 * (uint A' div 2 ^ 32 + uint B' div 2 ^ 32) =
    uint A div 2 ^ 32 + uint B div 2 ^ 32 + uint a * uint b + uint c + uint d * uint n"
proof -
  have A: "uint A' = uint A div 2 ^ 32 + uint a * uint b + uint c"
    unfolding A'_def by (simp only: mul_add_fits [OF high_word(2)] high_word(1))
  have B: "uint B' = uint B div 2 ^ 32 + uint d * uint n + uint A' mod 2 ^ 32"
    unfolding B'_def by (simp only: mul_add_fits [OF high_word(2)] high_word(1) uint_low)
  have "uint (ucast B' :: u32) + 2 ^ 32 * (uint A' div 2 ^ 32 + uint B' div 2 ^ 32) =
      uint B' + 2 ^ 32 * (uint A' div 2 ^ 32)"
    using mod_mult_div_eq [of "uint B'" "2 ^ 32"] by (simp only: uint_low distrib_left)
  also have "\<dots> = uint B div 2 ^ 32 + uint d * uint n + uint A'"
    using mod_mult_div_eq [of "uint A'" "2 ^ 32"] unfolding B by linarith
  finally show ?thesis unfolding A by linarith
qed

lemma nth_drop_eq: "drop j xs = drop j ys \<Longrightarrow> j \<le> i \<Longrightarrow> length xs = length ys \<Longrightarrow> i < length xs \<Longrightarrow> xs ! i = ys ! i"
  using nth_drop [of j xs "i - j"] nth_drop [of j ys "i - j"] by simp

lemma mont_loop:
  assumes "uint a * uint (b ! 0) + uint (c0 ! 0) + uint d * uint (key_n key ! 0) = 2 ^ 32 * (uint A0 div 2 ^ 32 + uint B0 div 2 ^ 32)"
    and "j < length c0" "j < length b" "j < length (key_n key)"
  shows "case fold (mont_step key a d b) [1..<Suc j] (A0, B0, c0) of (A, B, c) \<Rightarrow>
    length c = length c0 \<and> drop j c = drop j c0 \<and>
    uint a * num (take (Suc j) b) + num (take (Suc j) c0) + uint d * num (take (Suc j) (key_n key)) =
      2 ^ 32 * num (take j c) + 2 ^ (32 * Suc j) * (uint A div 2 ^ 32 + uint B div 2 ^ 32)"
  using assms(2-4)
proof (induction j)
  case 0
  then show ?case using assms(1) by (simp add: num_take_Suc)
next
  case (Suc j)
  let ?n = "key_n key" and ?i = "Suc j"
  obtain A B c where f: "fold (mont_step key a d b) [1..<?i] (A0, B0, c0) = (A, B, c)"
    by (cases "fold (mont_step key a d b) [1..<?i] (A0, B0, c0)")
  define A' where "A' = drop_bit 32 A + ucast a * ucast (b ! ?i) + ucast (c ! ?i)"
  define B' where "B' = drop_bit 32 B + ucast d * ucast (?n ! ?i) + ucast (ucast A' :: u32)"
  let ?S = "uint a * num (take ?i b) + num (take ?i c0) + uint d * num (take ?i ?n)"
  have IH: "length c = length c0" "drop j c = drop j c0"
    "?S = 2 ^ 32 * num (take j c) + 2 ^ (32 * ?i) * (uint A div 2 ^ 32 + uint B div 2 ^ 32)"
    using Suc f by simp_all
  have c: "c ! ?i = c0 ! ?i" by (rule nth_drop_eq [OF IH(2)]) (use IH(1) Suc.prems in auto)
  have d: "drop ?i c = drop ?i c0" using IH(2) by (metis drop_Suc tl_drop)
  have t: "num (take ?i (c[j := ucast B'])) = num (take j c) + 2 ^ (32 * j) * uint (ucast B' :: u32)"
    using Suc.prems(1) IH(1) by (simp add: num_take_Suc)
  have "uint a * num (take (Suc ?i) b) + num (take (Suc ?i) c0) + uint d * num (take (Suc ?i) ?n) =
      ?S + 2 ^ (32 * ?i) * (uint a * uint (b ! ?i) + uint (c ! ?i) + uint d * uint (?n ! ?i))"
    using Suc.prems by (simp add: num_take_Suc c algebra_simps)
  also have "\<dots> = 2 ^ 32 * num (take j c) + 2 ^ (32 * ?i) *
      (uint A div 2 ^ 32 + uint B div 2 ^ 32 + uint a * uint (b ! ?i) + uint (c ! ?i) + uint d * uint (?n ! ?i))"
    unfolding IH(3) by (simp only: distrib_left add.assoc)
  also have "\<dots> = 2 ^ 32 * num (take j c) + 2 ^ (32 * ?i) *
      (uint (ucast B' :: u32) + 2 ^ 32 * (uint A' div 2 ^ 32 + uint B' div 2 ^ 32))"
    unfolding A'_def B'_def mont_column ..
  also have "\<dots> = 2 ^ 32 * num (take ?i (c[j := ucast B'])) + 2 ^ (32 * Suc ?i) * (uint A' div 2 ^ 32 + uint B' div 2 ^ 32)"
    unfolding t by (simp add: power_add algebra_simps)
  finally have e: "uint a * num (take (Suc ?i) b) + num (take (Suc ?i) c0) + uint d * num (take (Suc ?i) ?n) =
      2 ^ 32 * num (take ?i (c[j := ucast B'])) + 2 ^ (32 * Suc ?i) * (uint A' div 2 ^ 32 + uint B' div 2 ^ 32)" .
  have "fold (mont_step key a d b) [1..<Suc ?i] (A0, B0, c0) = (A', B', c[j := ucast B'])"
    using f by (simp add: mont_step_def Let_def A'_def B'_def)
  then show ?case using IH(1) d e by (simp del: mult_Suc_right)
qed

text \<open>The key makes the lowest column vanish.\<close>

lemma mont_low:
  fixes a x y n v :: u32
  assumes "v * n = - 1"
  defines "A \<equiv> ucast a * ucast x + ucast y :: u64"
  defines "d \<equiv> ucast A * v"
  defines "B \<equiv> ucast d * ucast n + ucast (ucast A :: u32) :: u64"
  shows "uint a * uint x + uint y + uint d * uint n = 2 ^ 32 * (uint A div 2 ^ 32 + uint B div 2 ^ 32)"
proof -
  have A: "uint A = uint a * uint x + uint y" using mul_add_fits [of 0 a x y] by (simp add: A_def)
  have B': "uint B = uint d * uint n + uint (ucast A :: u32)"
    using mul_add_fits [of 0 d n "ucast A"] by (simp add: B_def)
  then have B: "uint B = uint d * uint n + uint A mod 2 ^ 32" by (simp add: uint_low)
  have "d * n + ucast A = ucast A * (v * n) + (ucast A :: u32)" by (simp add: d_def)
  then have "d * n + ucast A = 0" unfolding assms(1) by simp
  moreover have "word_of_int (uint B) = d * n + (ucast A :: u32)"
    by (simp add: B')
  ultimately have "uint (word_of_int (uint B) :: u32) = 0" by simp
  then have "uint B mod 2 ^ 32 = 0" unfolding uint_word_of_int by simp
  then have "uint B = 2 ^ 32 * (uint B div 2 ^ 32)" using mod_mult_div_eq [of "uint B" "2 ^ 32"] by linarith
  then show ?thesis using A B mod_mult_div_eq [of "uint A" "2 ^ 32"] by (simp only: distrib_left)
qed

lemma mont_bound:
  fixes a b c d n R T W :: int
  assumes "W * T = a * b + c + d * n" "0 \<le> a" "a < W" "0 \<le> d" "d < W" "0 \<le> b" "b < R" "0 \<le> c" "c < R" "0 \<le> n"
  shows "0 \<le> T \<and> T < R + n"
proof -
  have "a * b \<le> (W - 1) * (R - 1)" using assms by (intro mult_mono) auto
  moreover have "d * n \<le> (W - 1) * n" using assms by (intro mult_right_mono) auto
  ultimately have "W * T < W * (R + n)" using assms(1,3,2,9,10) by (simp add: algebra_simps)
  moreover have "0 \<le> W * T" using assms by simp
  moreover have "0 < W" using assms by simp
  ultimately show ?thesis by (simp add: zero_le_mult_iff)
qed

text \<open>The two conditions on a key that the multiplication relies on.\<close>

definition mont_key :: "RSAPublicKey \<Rightarrow> nat \<Rightarrow> bool" where
  "mont_key key k \<longleftrightarrow> key_shape key k \<and> n0inv key * key_n key ! 0 = - 1"

lemma montMulAdd_spec:
  assumes "mont_key key k" "length c = k" "length b = k"
  shows "length (montMulAdd key c a b) = k"
    "(2 ^ 32 * num (montMulAdd key c a b)) mod modulus key = (uint a * num b + num c) mod modulus key"
proof -
  let ?N = "modulus key" and ?n = "key_n key" and ?R = "2 ^ (32 * k) :: int"
  have key: "key_shape key k" "nat (key_len key) = k" "0 < k" "length ?n = k" "n0inv key * ?n ! 0 = - 1"
    using assms(1) by (simp_all add: mont_key_def key_shape_def)
  obtain j where j: "k = Suc j" using key(3) gr0_conv_Suc by blast
  define A0 :: u64 where "A0 = ucast a * ucast (b ! 0) + ucast (c ! 0)"
  define d where "d = ucast A0 * n0inv key"
  define B0 :: u64 where "B0 = ucast d * ucast (?n ! 0) + ucast (ucast A0 :: u32)"
  have low: "uint a * uint (b ! 0) + uint (c ! 0) + uint d * uint (?n ! 0) = 2 ^ 32 * (uint A0 div 2 ^ 32 + uint B0 div 2 ^ 32)"
    unfolding A0_def d_def B0_def by (rule mont_low [OF key(5)])
  obtain A B c1 where f: "fold (mont_step key a d b) [1..<k] (A0, B0, c) = (A, B, c1)"
    by (cases "fold (mont_step key a d b) [1..<k] (A0, B0, c)")
  have loop: "length c1 = k"
    "uint a * num b + num c + uint d * ?N = 2 ^ 32 * num (take j c1) + 2 ^ (32 * k) * (uint A div 2 ^ 32 + uint B div 2 ^ 32)"
    using mont_loop [OF low, of j] f assms key(4) j by (simp_all del: upt_Suc mult_Suc_right)
  define A' where "A' = drop_bit 32 A + drop_bit 32 B"
  define c2 where "c2 = c1[j := ucast A']"
  define T where "T = num c2 + ?R * (uint A' div 2 ^ 32)"
  have A': "uint A' = uint A div 2 ^ 32 + uint B div 2 ^ 32"
  proof -
    have "uint (drop_bit 32 A) + uint (drop_bit 32 B) < 2 ^ 64" using high_word(2) [of A] high_word(2) [of B] by simp
    then have "uint A' = uint (drop_bit 32 A) + uint (drop_bit 32 B)"
      unfolding A'_def by (intro uint_add_lem [THEN iffD1]) simp
    then show ?thesis by (simp only: high_word(1))
  qed
  have c2: "length c2 = k" "num c2 = num (take j c1) + 2 ^ (32 * j) * (uint A' mod 2 ^ 32)"
    using loop(1) j num_take_Suc [of j c2] by (simp_all add: c2_def uint_low)
  have alg: "2 ^ 32 * (x + 2 ^ (32 * j) * u + 2 ^ (32 * k) * v) = 2 ^ 32 * x + 2 ^ (32 * k) * (u + 2 ^ 32 * v)" for x u v :: int
    by (simp add: j power_add algebra_simps)
  have "2 ^ 32 * T = 2 ^ 32 * num (take j c1) + 2 ^ (32 * k) * (uint A' mod 2 ^ 32 + 2 ^ 32 * (uint A' div 2 ^ 32))"
    unfolding T_def c2(2) by (rule alg)
  then have T: "2 ^ 32 * T = uint a * num b + num c + uint d * ?N" using loop(2) A' by simp
  have N: "0 \<le> ?N" "?N < ?R" using num_bounds [of ?n] key(4) by simp_all
  have bound: "0 \<le> T \<and> T < ?R + ?N"
    by (rule mont_bound [OF T]) (use uint_lt num_bounds [of b] num_bounds [of c] assms N in auto)
  have res: "montMulAdd key c a b = (if drop_bit 32 A' \<noteq> 0 then subM key c2 else c2)"
    using f j key(2) by (simp add: montMulAdd_def Let_def c2_def A'_def flip: A0_def d_def B0_def)
  show "length (montMulAdd key c a b) = k" using subM_spec(1) [OF key(1) c2(1)] c2(1) by (simp add: res)
  have "num (montMulAdd key c a b) = T \<or> num (montMulAdd key c a b) = T - ?N"
  proof (cases "drop_bit 32 A' = 0")
    case True
    then have "uint A' div 2 ^ 32 = 0" using high_word(1) [of A'] by simp
    then show ?thesis by (simp add: res True T_def)
  next
    case False
    then have "uint A' div 2 ^ 32 \<noteq> 0" using high_word(1) [of A'] by (metis unsigned_0 word_uint_eqI)
    moreover have "0 \<le> uint A' div 2 ^ 32" by (simp add: pos_imp_zdiv_nonneg_iff)
    moreover have "?R * (uint A' div 2 ^ 32) < ?R * 2" using bound N num_bounds [of c2] unfolding T_def by linarith
    ultimately have "uint A' div 2 ^ 32 = 1" by simp
    then have "num (montMulAdd key c a b) = (T - ?R - ?N) mod ?R"
      using subM_spec(2) [OF key(1) c2(1)] False by (simp add: res T_def)
    also have "\<dots> = (T - ?N) mod ?R" by (metis diff_right_commute minus_mod_self2)
    also have "\<dots> = T - ?N"
      using bound N num_bounds [of c2] \<open>uint A' div 2 ^ 32 = 1\<close> by (intro mod_pos_pos_trivial) (auto simp: T_def)
    finally show ?thesis ..
  qed
  then have "2 ^ 32 * num (montMulAdd key c a b) = uint a * num b + num c + uint d * ?N \<or>
      2 ^ 32 * num (montMulAdd key c a b) = uint a * num b + num c + (uint d - 2 ^ 32) * ?N"
    using T by (auto simp: algebra_simps)
  then show "(2 ^ 32 * num (montMulAdd key c a b)) mod ?N = (uint a * num b + num c) mod ?N"
    by (elim disjE) (simp_all only: mod_mult_self1)
qed

section \<open>The multiplication\<close>

lemma num_zero: "num (replicate k 0) = 0"
  by (induction k) simp_all

lemma fold_set: "m \<le> length a \<Longrightarrow> fold (\<lambda>i a. a[i := f i]) [0..<m] a = map f [0..<m] @ drop m (a :: u32 list)"
proof (induction m)
  case (Suc m)
  then have "(map f [0..<m] @ drop m a)[m := f m] = map f [0..<Suc m] @ drop (Suc m) a"
    by (simp add: list_update_append flip: Cons_nth_drop_Suc)
  then show ?case using Suc by simp
qed simp

lemma montMul_loop:
  assumes "mont_key key k" "length c = k" "length b = k" "num c = 0" "m \<le> length a"
  defines "r \<equiv> fold (\<lambda>i c. montMulAdd key c (a ! i) b) [0..<m] c"
  shows "length r = k \<and> (2 ^ (32 * m) * num r) mod modulus key = (num (take m a) * num b) mod modulus key"
  using assms(5) unfolding r_def
proof (induction m)
  case (Suc m)
  let ?N = "modulus key"
  define r where "r = fold (\<lambda>i c. montMulAdd key c (a ! i) b) [0..<m] c"
  have IH: "length r = k" "(2 ^ (32 * m) * num r) mod ?N = (num (take m a) * num b) mod ?N"
    using Suc by (simp_all add: r_def)
  have step: "length (montMulAdd key r (a ! m) b) = k"
    "(2 ^ 32 * num (montMulAdd key r (a ! m) b)) mod ?N = (uint (a ! m) * num b + num r) mod ?N"
    using montMulAdd_spec [OF assms(1) IH(1) assms(3)] by blast+
  have "(2 ^ (32 * Suc m) * num (montMulAdd key r (a ! m) b)) mod ?N =
      (2 ^ (32 * m) * (2 ^ 32 * num (montMulAdd key r (a ! m) b))) mod ?N"
    by (simp add: power_add ac_simps)
  also have "\<dots> = (2 ^ (32 * m) * (uint (a ! m) * num b + num r)) mod ?N"
    using step(2) by (metis mod_mult_right_eq)
  also have "\<dots> = (2 ^ (32 * m) * num r + 2 ^ (32 * m) * uint (a ! m) * num b) mod ?N"
    by (simp add: algebra_simps)
  also have "\<dots> = (num (take m a) * num b + 2 ^ (32 * m) * uint (a ! m) * num b) mod ?N"
    using IH(2) by (metis mod_add_left_eq)
  also have "\<dots> = (num (take (Suc m) a) * num b) mod ?N"
    using Suc.prems by (simp add: num_take_Suc algebra_simps)
  finally show ?case using step(1) by (simp add: r_def)
qed (use assms in simp)

lemma montMul_spec:
  assumes "mont_key key k" "length c = k" "length a = k" "length b = k"
  shows "length (montMul key c a b) = k"
    "(2 ^ (32 * k) * num (montMul key c a b)) mod modulus key = (num a * num b) mod modulus key"
proof -
  have k: "nat (key_len key) = k" using assms(1) by (simp add: mont_key_def key_shape_def)
  have "montMul key c a b = fold (\<lambda>i c. montMulAdd key c (a ! i) b) [0..<k] (replicate k 0)"
    using assms(2) by (simp add: montMul_def k fold_set map_replicate_const Let_def)
  then show "length (montMul key c a b) = k"
    "(2 ^ (32 * k) * num (montMul key c a b)) mod modulus key = (num a * num b) mod modulus key"
    using montMul_loop [OF assms(1) _ assms(4), of "replicate k 0" k a] assms(3) by (simp_all add: num_zero)
qed

text \<open>Montgomery's factor cancels: the modulus is odd.\<close>

lemma modulus_odd:
  assumes "mont_key key k"
  shows "odd (modulus key)"
proof -
  have k: "n0inv key * key_n key ! 0 = - 1" "0 < length (key_n key)"
    using assms by (simp_all add: mont_key_def key_shape_def)
  have "odd (n0inv key * key_n key ! 0)" by (simp add: k(1))
  then have "odd (key_n key ! 0)" by simp
  then have "odd (uint (key_n key ! 0))" by (simp add: bit_uint_iff flip: bit_0)
  then show ?thesis using num_take_Suc [of 0 "key_n key"] k(2)
    by (cases "key_n key") auto
qed

lemma cancel_factor:
  assumes "odd n" "(2 ^ e * x) mod n = (2 ^ e * y) mod (n :: int)"
  shows "x mod n = y mod n"
proof -
  have "n dvd 2 ^ e * (x - y)" using assms(2) by (simp add: mod_eq_dvd_iff right_diff_distrib)
  moreover have "coprime n (2 ^ e)" using assms(1) by (simp add: coprime_commute)
  ultimately have "n dvd x - y" by (metis coprime_dvd_mult_right_iff)
  then show ?thesis by (simp add: mod_eq_dvd_iff)
qed

section \<open>The power\<close>

text \<open>What a key must be: its numbers fit the code, \<open>rr\<close> is the square of \<open>R = 2 ^ 1024\<close>, and \<open>R\<close> is less than twice the modulus.\<close>

definition mont_R :: int where "mont_R = 2 ^ 1024"

lemma mont_R: "2 ^ (32 * 32) = mont_R"
  by (simp add: mont_R_def)

definition valid_key :: "RSAPublicKey \<Rightarrow> bool" where
  "valid_key key \<longleftrightarrow> mont_key key RSANUMWORDS \<and> mont_R \<le> 2 * modulus key \<and>
     num (key_rr key) mod modulus key = (mont_R * mont_R) mod modulus key"

lemma valid_keyD:
  assumes "valid_key key"
  shows "mont_key key 32" "nat (key_len key) = 32" "length (key_rr key) = 32" "odd (modulus key)"
    "0 < modulus key" "mont_R \<le> 2 * modulus key"
    "num (key_rr key) mod modulus key = (mont_R * mont_R) mod modulus key"
proof -
  have v: "mont_key key 32" "mont_R \<le> 2 * modulus key"
    "num (key_rr key) mod modulus key = (mont_R * mont_R) mod modulus key"
    using assms unfolding valid_key_def RSANUMWORDS_def RSANUMBYTES_def by simp_all
  then show "mont_key key 32" "nat (key_len key) = 32" "length (key_rr key) = 32" "mont_R \<le> 2 * modulus key"
    "num (key_rr key) mod modulus key = (mont_R * mont_R) mod modulus key"
    by (simp_all add: mont_key_def key_shape_def)
  show "odd (modulus key)" using v(1) by (rule modulus_odd)
  then show "0 < modulus key" using num_bounds [of "key_n key"] by (cases "modulus key = 0") auto
qed

text \<open>An array holds a number in Montgomery's form.\<close>

definition mont_form :: "RSAPublicKey \<Rightarrow> u32 list \<Rightarrow> int \<Rightarrow> bool" where
  "mont_form key x v \<longleftrightarrow> length x = 32 \<and> num x mod modulus key = (mont_R * v) mod modulus key"

lemma mont_cancel:
  assumes "valid_key key" "length c = 32" "length x = 32" "length y = 32"
    and "(num x * num y) mod modulus key = (mont_R * t) mod modulus key"
  shows "length (montMul key c x y) = 32" "num (montMul key c x y) mod modulus key = t mod modulus key"
proof -
  note m = montMul_spec [OF valid_keyD(1) [OF assms(1)] assms(2-4), unfolded mont_R]
  show "length (montMul key c x y) = 32" by (rule m(1))
  show "num (montMul key c x y) mod modulus key = t mod modulus key"
    by (rule cancel_factor [OF valid_keyD(4) [OF assms(1)], of "32 * 32", unfolded mont_R]) (rule trans [OF m(2) assms(5)])
qed

lemma mont_enter:
  assumes "valid_key key" "length c = 32" "length a = 32"
  shows "mont_form key (montMul key c a (key_rr key)) (num a)"
proof -
  have "(num a * num (key_rr key)) mod modulus key = (num a * (mont_R * mont_R)) mod modulus key"
    by (intro mod_mult_cong valid_keyD(7) [OF assms(1)] refl)
  also have "num a * (mont_R * mont_R) = mont_R * (mont_R * num a)" by (simp only: ac_simps)
  finally show ?thesis
    unfolding mont_form_def using mont_cancel [OF assms valid_keyD(3) [OF assms(1)]] by blast
qed

lemma mont_product:
  assumes "valid_key key" "length c = 32" "mont_form key x v" "mont_form key y w"
  shows "mont_form key (montMul key c x y) (v * w)"
proof -
  have "(num x * num y) mod modulus key = ((mont_R * v) * (mont_R * w)) mod modulus key"
    using assms(3,4) by (intro mod_mult_cong) (simp_all only: mont_form_def)
  also have "(mont_R * v) * (mont_R * w) = mont_R * (mont_R * (v * w))" by (simp only: ac_simps)
  finally show ?thesis
    using mont_cancel [OF assms(1,2)] assms(3,4) unfolding mont_form_def by blast
qed

lemma mont_leave:
  assumes "valid_key key" "length c = 32" "mont_form key x v" "length a = 32"
  shows "length (montMul key c x a) = 32" "num (montMul key c x a) mod modulus key = (v * num a) mod modulus key"
proof -
  have "(num x * num a) mod modulus key = (mont_R * v * num a) mod modulus key"
    using assms(3) by (intro mod_mult_cong) (simp_all only: mont_form_def)
  then show "length (montMul key c x a) = 32" "num (montMul key c x a) mod modulus key = (v * num a) mod modulus key"
    using mont_cancel [OF assms(1,2) _ assms(4), of x "v * num a"] assms(3) by (simp_all add: mont_form_def mult.assoc)
qed

lemma mont_squares:
  assumes "valid_key key" "mont_form key x v" "length y = 32"
  shows "case (square_twice key ^^ m) (x, y) of (x, y) \<Rightarrow> mont_form key x (v ^ 4 ^ m) \<and> length y = 32"
proof (induction m)
  case (Suc m)
  obtain p q where f: "(square_twice key ^^ m) (x, y) = (p, q)" by (cases "(square_twice key ^^ m) (x, y)")
  then have p: "mont_form key p (v ^ 4 ^ m)" "length q = 32" using Suc by simp_all
  let ?q = "montMul key q p p"
  have q: "mont_form key ?q (v ^ 4 ^ m * v ^ 4 ^ m)" by (rule mont_product [OF assms(1) p(2,1,1)])
  have four: "4 ^ Suc m = 4 ^ m + 4 ^ m + (4 ^ m + 4 ^ m :: nat)" by simp
  have "mont_form key (montMul key p ?q ?q) (v ^ 4 ^ m * v ^ 4 ^ m * (v ^ 4 ^ m * v ^ 4 ^ m))"
    using mont_product [OF assms(1) _ q q] p(1) by (simp add: mont_form_def)
  also have "v ^ 4 ^ m * v ^ 4 ^ m * (v ^ 4 ^ m * v ^ 4 ^ m) = v ^ 4 ^ Suc m"
    unfolding four by (simp only: power_add)
  finally have "mont_form key (montMul key p ?q ?q) (v ^ 4 ^ Suc m)" .
  moreover have "(square_twice key ^^ Suc m) (x, y) = (montMul key p ?q ?q, ?q)"
    unfolding funpow.simps comp_def f by (simp add: square_twice_def Let_def)
  ultimately show ?case using q by (simp add: mont_form_def)
qed (use assms in simp)

text \<open>Both exponents give the power; one subtraction at most brings it below the modulus.\<close>

lemma mont_power:
  assumes "valid_key key" "length a = 32" "length aR = 32" "length aaR = 32"
  shows "case (square_twice key ^^ 8) (montMul key aR a (key_rr key), aaR) of (aR, aaR) \<Rightarrow>
      length (montMul key aaR aR a) = 32 \<and> num (montMul key aaR aR a) mod modulus key = num a ^ 65537 mod modulus key"
    "length (montMul key (montMul key aR a (key_rr key)) (montMul key aaR (montMul key aR a (key_rr key)) (montMul key aR a (key_rr key))) a) = 32"
    "num (montMul key (montMul key aR a (key_rr key)) (montMul key aaR (montMul key aR a (key_rr key)) (montMul key aR a (key_rr key))) a)
       mod modulus key = num a ^ 3 mod modulus key"
proof -
  let ?x = "montMul key aR a (key_rr key)"
  have x: "mont_form key ?x (num a)" by (rule mont_enter [OF assms(1,3,2)])
  then have l: "length ?x = 32" by (simp add: mont_form_def)
  obtain p q where f: "(square_twice key ^^ 8) (?x, aaR) = (p, q)" by (cases "(square_twice key ^^ 8) (?x, aaR)")
  then have p: "mont_form key p (num a ^ 4 ^ 8)" "length q = 32" using mont_squares [OF assms(1) x assms(4), of 8] by auto
  have "num a ^ 4 ^ 8 * num a = num a ^ (4 ^ 8 + 1)" by (simp only: power_add power_one_right)
  also have "(4 ^ 8 + 1 :: nat) = 65537" by simp
  finally have e: "num a ^ 4 ^ 8 * num a = num a ^ 65537" .
  show "case (square_twice key ^^ 8) (?x, aaR) of (aR, aaR) \<Rightarrow>
      length (montMul key aaR aR a) = 32 \<and> num (montMul key aaR aR a) mod modulus key = num a ^ 65537 mod modulus key"
    using mont_leave [OF assms(1) p(2,1) assms(2)] unfolding f e by simp
  have s: "mont_form key (montMul key aaR ?x ?x) (num a * num a)" by (rule mont_product [OF assms(1,4) x x])
  show "length (montMul key ?x (montMul key aaR ?x ?x) a) = 32"
    "num (montMul key ?x (montMul key aaR ?x ?x) a) mod modulus key = num a ^ 3 mod modulus key"
    using mont_leave [OF assms(1) l s assms(2)] by (simp_all add: power3_eq_cube)
qed

lemma reduced:
  assumes "valid_key key" "length x = 32"
  shows "length (if geM key x then subM key x else x) = 32"
    "num (if geM key x then subM key x else x) = num x mod modulus key"
proof -
  have s: "key_shape key 32" using valid_keyD(1) [OF assms(1)] by (simp add: mont_key_def)
  have b: "0 \<le> num x" "num x < mont_R" using num_bounds [of x] assms(2) unfolding mont_R [symmetric] by simp_all
  note k = valid_keyD(5,6) [OF assms(1)]
  show "length (if geM key x then subM key x else x) = 32" using subM_spec(1) [OF s assms(2)] assms(2) by simp
  show "num (if geM key x then subM key x else x) = num x mod modulus key"
  proof (cases "modulus key \<le> num x")
    case True
    have "num (subM key x) = (num x - modulus key) mod mont_R" using subM_spec(2) [OF s assms(2)] unfolding mont_R .
    also have "\<dots> = num x - modulus key" using True b k by (intro mod_pos_pos_trivial) linarith+
    also have "\<dots> = (num x - modulus key) mod modulus key" using True b k by (intro mod_pos_pos_trivial [symmetric]) linarith+
    also have "\<dots> = num x mod modulus key" by simp
    finally show ?thesis using True geM_spec [OF s assms(2)] by simp
  next
    case False
    then show ?thesis using geM_spec [OF s assms(2)] b by simp
  qed
qed

section \<open>Bytes and words\<close>

definition be_num :: "u8 list \<Rightarrow> int" where
  "be_num bs = horner_sum uint 256 (rev bs)"

lemma be_num_bounds: "0 \<le> be_num bs \<and> be_num bs < 2 ^ (8 * length bs)"
  using digits_bounds [of "rev bs"] by (simp add: be_num_def)

lemma be_num_inject: "length xs = length ys \<Longrightarrow> be_num xs = be_num ys \<longleftrightarrow> xs = ys"
  using digits_inject [of "rev xs" "rev ys"] by (simp add: be_num_def)

lemma be_num_append: "be_num (xs @ ys) = be_num ys + 2 ^ (8 * length ys) * be_num xs"
  by (simp add: be_num_def horner_sum_append power_mult)

lemma uint_be_word: "length bs = 4 \<Longrightarrow> uint (be_word bs) = be_num bs"
proof -
  assume l: "length bs = 4"
  have "horner_sum ucast 256 xs = (word_of_int (horner_sum uint 256 xs) :: u32)" for xs :: "u8 list"
    by (induction xs) simp_all
  then have "be_word bs = word_of_int (be_num bs)" by (simp add: be_word_def be_num_def)
  then show ?thesis using be_num_bounds [of bs] l by (simp add: uint_word_of_int)
qed

lemma be_num_be_bytes: "be_num (be_bytes 4 (w :: u32)) = uint w"
proof -
  have b: "uint (ucast (v :: u32) :: u8) = uint v mod 256" for v
    by (simp add: unsigned_ucast_eq take_bit_eq_mod)
  have d: "uint (drop_bit 24 w) = uint w div 2 ^ 24" "uint (drop_bit 16 w) = uint w div 2 ^ 16"
    "uint (drop_bit 8 w) = uint w div 2 ^ 8"
    by (simp_all add: drop_bit_eq_div uint_div)
  have digits: "x mod 256 + 256 * (x div 2 ^ 8 mod 256 + 256 * (x div 2 ^ 16 mod 256 + 256 * (x div 2 ^ 24 mod 256))) = x"
    if "0 \<le> x" "x < 2 ^ 32" for x :: int
  proof -
    define p q r where "p = x div 256" and "q = p div 256" and "r = q div 256"
    have "x div 2 ^ 16 = q" "x div 2 ^ 24 = r"
      unfolding p_def q_def r_def by (simp_all flip: zdiv_zmult2_eq)
    moreover have "r mod 256 = r" using that unfolding p_def q_def r_def by (simp flip: zdiv_zmult2_eq)
    moreover have "x mod 256 + 256 * p = x" "p mod 256 + 256 * q = p" "q mod 256 + 256 * r = q"
      unfolding p_def q_def r_def by simp_all
    moreover have "x div 2 ^ 8 = p" by (simp add: p_def)
    ultimately show ?thesis by (simp only:)
  qed
  have "be_num (be_bytes 4 w) = uint w mod 256 + 256 * (uint w div 2 ^ 8 mod 256 +
      256 * (uint w div 2 ^ 16 mod 256 + 256 * (uint w div 2 ^ 24 mod 256)))"
    by (simp add: be_bytes_4 be_num_def b d)
  also have "\<dots> = uint w" by (rule digits [OF unsigned_greater_eq uint_lt])
  finally show ?thesis .
qed

lemma get_words_eq:
  assumes "length inout = 4 * k" "length a = k" "nat (key_len key) = k"
  shows "get_words key inout a = rev (map (\<lambda>j. be_word (take 4 (drop (4 * j) inout))) [0..<k])"
proof -
  have w: "((push_bit 24 (ucast (inout ! (j * 4 + 0))) OR push_bit 16 (ucast (inout ! (j * 4 + 1)))) OR
      push_bit 8 (ucast (inout ! (j * 4 + 2)))) OR ucast (inout ! (j * 4 + 3)) = be_word (take 4 (drop (4 * j) inout))"
    if "j < k" for j
  proof -
    have "take 4 (drop (4 * j) inout) = [inout ! (4 * j), inout ! (4 * j + 1), inout ! (4 * j + 2), inout ! (4 * j + 3)]"
      by (rule take_4) (use that assms(1) in simp)
    then show ?thesis unfolding or_bytes by (simp add: mult.commute)
  qed
  have "get_words key inout a = map (\<lambda>i. be_word (take 4 (drop (4 * (k - 1 - i)) inout))) [0..<k]"
    using assms(2) w unfolding get_words_def assms(3) Let_def by (simp only: fold_set order.refl) simp
  also have "\<dots> = rev (map (\<lambda>j. be_word (take 4 (drop (4 * j) inout))) [0..<k])"
    by (rule nth_equalityI) (simp_all add: rev_nth)
  finally show ?thesis .
qed

lemma num_words:
  "4 * k \<le> length inout \<Longrightarrow> num (rev (map (\<lambda>j. be_word (take 4 (drop (4 * j) inout))) [0..<k])) = be_num (take (4 * k) inout)"
proof (induction k)
  case (Suc k)
  have "take (4 * Suc k) inout = take (4 * k) inout @ take 4 (drop (4 * k) inout)"
    using take_add [of "4 * k" 4 inout] by (simp add: add.commute)
  then show ?case using Suc by (simp add: be_num_append uint_be_word)
qed (simp add: be_num_def)

lemma put_bytes:
  "m \<le> length ws \<Longrightarrow> be_num (concat (map (\<lambda>i. be_bytes 4 (ws ! i)) (rev [0..<m]))) = num (take m ws) \<and>
     length (concat (map (\<lambda>i. be_bytes 4 (ws ! i)) (rev [0..<m]))) = 4 * m"
proof (induction m)
  case (Suc m)
  then show ?case by (simp add: be_num_append be_num_be_bytes num_take_Suc) (simp add: be_bytes_def)
qed (simp add: be_num_def)

section \<open>The signature\<close>

lemma modpow_spec:
  assumes "valid_key key" "exponent key = 3 \<or> exponent key = 65537" "length inout = 128"
    and "length a = 32" "length aR = 32" "length aaR = 32"
  shows "\<exists>out. modpow key (a, aR, aaR) inout = Some out \<and> length out = 128 \<and>
    be_num out = be_num inout ^ nat (exponent key) mod modulus key"
proof -
  let ?a = "get_words key inout a"
  have k: "nat (key_len key) = 32" by (rule valid_keyD(2) [OF assms(1)])
  have w: "?a = rev (map (\<lambda>j. be_word (take 4 (drop (4 * j) inout))) [0..<32])"
    by (rule get_words_eq) (use assms(3,4) k in simp_all)
  have l: "length ?a = 32" unfolding w by simp
  have n: "num ?a = be_num inout" unfolding w using num_words [of 32 inout] assms(3) by simp
  have out: "length (put_words key x inout) = 128 \<and> be_num (put_words key x inout) = num x" if "length x = 32" for x
  proof -
    have "put_words key x inout = concat (map (\<lambda>i. be_bytes 4 (x ! i)) (rev [0..<32]))"
      unfolding put_words_def k Let_def be_bytes_4 using assms(3) by simp
    then show ?thesis using put_bytes [of 32 x] that by simp
  qed
  let ?R = "if exponent key = 65537
     then case (square_twice key ^^ 8) (montMul key aR ?a (key_rr key), aaR) of (aR, aaR) \<Rightarrow> montMul key aaR aR ?a
     else montMul key (montMul key aR ?a (key_rr key)) (montMul key aaR (montMul key aR ?a (key_rr key)) (montMul key aR ?a (key_rr key))) ?a"
  have m: "modpow key (a, aR, aaR) inout = Some (put_words key (if geM key ?R then subM key ?R else ?R) inout)"
    using assms(2) by (auto simp: modpow_def Let_def split: prod.splits)
  have r: "length ?R = 32" "num ?R mod modulus key = num ?a ^ nat (exponent key) mod modulus key"
    using mont_power [OF assms(1) l assms(5,6)] assms(2) by (auto split: prod.splits)
  show ?thesis
    unfolding m using out [OF reduced(1) [OF assms(1) r(1)]] reduced(2) [OF assms(1) r(1)] r(2) n by simp
qed

lemma fold_xor:
  fixes h :: "nat \<Rightarrow> u8"
  assumes "i \<le> j" "j \<le> length b"
  defines "r \<equiv> fold (\<lambda>m b. b[m := b ! m XOR h m]) [i..<j] (b :: u8 list)"
  shows "length r = length b \<and> (\<forall>m < length b. r ! m = (if i \<le> m \<and> m < j then b ! m XOR h m else b ! m))"
  using assms(1,2) unfolding r_def
proof (induction j rule: dec_induct)
  case (step j)
  then show ?case by (auto simp: nth_list_update less_Suc_eq)
qed auto

lemma sha_padding_facts: "length sha_padding_1024 = 128" "108 \<le> i \<Longrightarrow> i < 128 \<Longrightarrow> sha_padding_1024 ! i = 0"
  by (simp_all add: sha_padding_1024_def nth_append nth_Cons')

lemma xor_zero: "x XOR y = 0 \<longleftrightarrow> x = (y :: u8)"
  by (metis xor.assoc xor_self_eq xor.right_neutral)

text \<open>The padding of PKCS 1 with the hash in its last twenty bytes.\<close>

definition padded_hash :: "u8 list \<Rightarrow> u8 list" where
  "padded_hash hash = take 108 sha_padding_1024 @ hash"

lemma RSA_verify_spec:
  assumes "valid_key key" "exponent key = 3 \<or> exponent key = 65537" "length signature = 128" "length hash = 20"
    and "length a = 32" "length aR = 32" "length aaR = 32"
  shows "RSA_verify (a, aR, aaR) key signature 128 hash 20 =
    Some (be_num signature ^ nat (exponent key) mod modulus key = be_num (padded_hash hash))"
proof -
  obtain out where out: "modpow key (a, aR, aaR) signature = Some out" "length out = 128"
    "be_num out = be_num signature ^ nat (exponent key) mod modulus key"
    using modpow_spec [OF assms(1-3,5-7)] by blast
  define buf where "buf = fold (\<lambda>i buf. buf[i := buf ! i XOR hash ! (i - 108)]) [108..<128] out"
  have b: "buf ! i = (if 108 \<le> i then out ! i XOR hash ! (i - 108) else out ! i)" if "i < 128" for i
    using fold_xor [of 108 128 out "\<lambda>i. hash ! (i - 108)"] out(2) that by (simp add: buf_def)
  have "(\<forall>i < 128. buf ! i = sha_padding_1024 ! i) \<longleftrightarrow> (\<forall>i < 128. out ! i = padded_hash hash ! i)"
    by (intro all_cong1 imp_cong refl)
      (simp add: b padded_hash_def nth_append sha_padding_facts xor_zero)
  also have "\<dots> \<longleftrightarrow> out = padded_hash hash"
    using out(2) assms(4) by (auto simp: list_eq_iff_nth_eq padded_hash_def sha_padding_facts)
  also have "\<dots> \<longleftrightarrow> be_num out = be_num (padded_hash hash)"
    using out(2) assms(4) by (intro be_num_inject [symmetric]) (simp add: padded_hash_def sha_padding_facts)
  finally have e: "list_all (\<lambda>i. buf ! i = sha_padding_1024 ! i) [0..<128] \<longleftrightarrow> be_num out = be_num (padded_hash hash)"
    by (simp add: list_all_iff Ball_def del: upt_rec_numeral)
  have "key_len key = 32" using assms(1) by (simp add: valid_key_def mont_key_def key_shape_def RSANUMWORDS_def RSANUMBYTES_def)
  then show ?thesis
    using assms(2,3) out(1) e
    by (auto simp: RSA_verify_def RSANUMWORDS_def RSANUMBYTES_def SHA_DIGEST_SIZE_def buf_def out(3)
        simp del: upt_rec_numeral)
qed

end
