(* ===== verification/Bootstub.thy ===== *)
theory Bootstub
  imports Rsa
begin

text \<open>
  The boot loader, \<^verbatim>\<open>board/bootstub.c\<close> with \<^verbatim>\<open>board/early_init.h\<close>: what the start of the chip leads to. The flash from
  the start of the application on is a function from offsets to bytes; the keys, which the build writes
  into a header, the memory of local arrays and the identity of the chip are arguments. The last section
  is a key for which everything can be computed, with a signature it accepts.
\<close>

section \<open>Early initialisation\<close>

definition ENTER_BOOTLOADER_MAGIC :: u32 where "ENTER_BOOTLOADER_MAGIC = 0xdeadbeef"
definition ENTER_SOFTLOADER_MAGIC :: u32 where "ENTER_SOFTLOADER_MAGIC = 0xdeadc0de"
definition BOOT_NORMAL :: u32 where "BOOT_NORMAL = 0xdeadb111"

datatype boot_outcome = System_reset | System_bootloader | Soft_flasher | Run_app u32

text \<open>The variable that survives a reset, and where the chip goes; \<open>None\<close> goes on to \<open>main\<close>.\<close>

definition early_initialization :: "bool \<Rightarrow> u32 \<Rightarrow> boot_outcome option \<times> u32" where
  "early_initialization right_chip mode =
     (if mode \<noteq> BOOT_NORMAL \<and> mode \<noteq> ENTER_BOOTLOADER_MAGIC \<and> mode \<noteq> ENTER_SOFTLOADER_MAGIC
      then (Some System_reset, BOOT_NORMAL)
      else let mode = (if \<not> right_chip then ENTER_BOOTLOADER_MAGIC else mode)
           in if mode = ENTER_BOOTLOADER_MAGIC then (Some System_bootloader, 0) else (None, mode))"

section \<open>The check of the application\<close>

definition VERS_TAG :: u32 where "VERS_TAG = 0x53524556"
definition MIN_VERSION :: u32 where "MIN_VERSION = 2"

definition le_word_at :: "(nat \<Rightarrow> u8) \<Rightarrow> nat \<Rightarrow> u32" where
  "le_word_at flash i = be_word [flash (i + 3), flash (i + 2), flash (i + 1), flash i]"

definition bootstub_main ::
  "bool \<Rightarrow> RSAPublicKey \<Rightarrow> RSAPublicKey \<Rightarrow> SHA_CTX \<Rightarrow> u32 list \<times> u32 list \<times> u32 list \<Rightarrow>
     (nat \<Rightarrow> u8) \<Rightarrow> u32 \<Rightarrow> boot_outcome option" where
  "bootstub_main allow_debug release_rsa_key debug_rsa_key ctx memory flash mode =
     (if mode = ENTER_SOFTLOADER_MAGIC then Some Soft_flasher
      else let len = sint (le_word_at flash 0)
      in if len < 8 \<or> len > 0x1000000 - 0x4000 - 4 - int RSANUMBYTES then Some Soft_flasher
      else let digest = SHA_hash ctx (map flash [4..<nat len])
      in if le_word_at flash (nat len - 8) \<noteq> VERS_TAG \<or> le_word_at flash (nat len - 4) < MIN_VERSION then Some Soft_flasher
      else let signature = map flash [nat len..<nat len + RSANUMBYTES];
               good = Some (Run_app (le_word_at flash 4))
      in case RSA_verify memory release_rsa_key signature (int RSANUMBYTES) digest (int SHA_DIGEST_SIZE) of
           None \<Rightarrow> None
         | Some True \<Rightarrow> good
         | Some False \<Rightarrow>
             if allow_debug
             then case RSA_verify memory debug_rsa_key signature (int RSANUMBYTES) digest (int SHA_DIGEST_SIZE) of
               None \<Rightarrow> None
             | Some True \<Rightarrow> good
             | Some False \<Rightarrow> Some Soft_flasher
             else Some Soft_flasher)"

text \<open>What a signed application is, without the code's arithmetic.\<close>

definition signed_by :: "RSAPublicKey \<Rightarrow> u8 list \<Rightarrow> u8 list \<Rightarrow> bool" where
  "signed_by key signature data \<longleftrightarrow>
     be_num signature ^ nat (exponent key) mod num (key_n key) = be_num (padded_hash (sha1 data))"

definition good_app :: "bool \<Rightarrow> RSAPublicKey \<Rightarrow> RSAPublicKey \<Rightarrow> (nat \<Rightarrow> u8) \<Rightarrow> bool" where
  "good_app allow_debug release_rsa_key debug_rsa_key flash \<longleftrightarrow>
     (let len = sint (le_word_at flash 0);
          data = map flash [4..<nat len];
          signature = map flash [nat len..<nat len + 128]
      in 8 \<le> len \<and> len \<le> 16760700 \<and>
         le_word_at flash (nat len - 8) = VERS_TAG \<and> MIN_VERSION \<le> le_word_at flash (nat len - 4) \<and>
         (signed_by release_rsa_key signature data \<or> allow_debug \<and> signed_by debug_rsa_key signature data))"

text \<open>A key of the build, and local memory of the right size.\<close>

definition build_key :: "RSAPublicKey \<Rightarrow> bool" where
  "build_key key \<longleftrightarrow> valid_key key \<and> (exponent key = 3 \<or> exponent key = 65537)"

definition local_memory :: "SHA_CTX \<Rightarrow> u32 list \<times> u32 list \<times> u32 list \<Rightarrow> bool" where
  "local_memory ctx memory \<longleftrightarrow> length (ctx_buf ctx) = 64 \<and> length (ctx_state ctx) = 8 \<and>
     (case memory of (a, aR, aaR) \<Rightarrow> length a = 32 \<and> length aR = 32 \<and> length aaR = 32)"

lemma length_sha1 [simp]: "length (sha1 data) = 20"
  by (simp add: sha1_def)

lemma verify_signed:
  assumes "build_key key" "local_memory ctx memory" "length signature = 128"
  shows "RSA_verify memory key signature (int RSANUMBYTES) (SHA_hash ctx data) (int SHA_DIGEST_SIZE) = Some (signed_by key signature data)"
proof -
  obtain a aR aaR where m: "memory = (a, aR, aaR)" by (cases memory)
  have h: "SHA_hash ctx data = sha1 data" using assms(2) by (intro SHA_hash_sha1) (simp_all add: local_memory_def)
  show ?thesis
    using RSA_verify_spec [of key signature "sha1 data" a aR aaR] assms
    by (simp add: m h build_key_def local_memory_def signed_by_def RSANUMBYTES_def SHA_DIGEST_SIZE_def)
qed

text \<open>The application runs exactly when it is good; otherwise the flasher starts.\<close>

lemma bootstub_main_spec:
  assumes "build_key release_rsa_key" "build_key debug_rsa_key" "local_memory ctx memory"
  shows "bootstub_main allow_debug release_rsa_key debug_rsa_key ctx memory flash mode =
    Some (if mode \<noteq> ENTER_SOFTLOADER_MAGIC \<and> good_app allow_debug release_rsa_key debug_rsa_key flash
          then Run_app (le_word_at flash 4) else Soft_flasher)"
proof -
  let ?len = "nat (sint (le_word_at flash 0))"
  have l: "length (map flash [?len..<?len + RSANUMBYTES]) = 128" by (simp add: RSANUMBYTES_def)
  note v = verify_signed [OF assms(1,3) l] verify_signed [OF assms(2,3) l]
  show ?thesis
    unfolding bootstub_main_def Let_def v by (auto simp: good_app_def Let_def RSANUMBYTES_def split: bool.splits)
qed

section \<open>A key and a signature\<close>

text \<open>The words of a number, for keys given by their modulus, as the build computes them.\<close>

definition to_words :: "int \<Rightarrow> u32 list" where
  "to_words x = map (\<lambda>i. word_of_int (x div 2 ^ (32 * i))) [0..<32]"

lemma num_to_words: "0 \<le> x \<Longrightarrow> x < mont_R \<Longrightarrow> num (to_words x) = x"
proof -
  have "num (map (\<lambda>i. word_of_int (x div 2 ^ (32 * i))) [0..<k]) = x mod 2 ^ (32 * k)" for k
  proof (induction k)
    case (Suc k)
    have "x mod 2 ^ (32 * Suc k) = 2 ^ (32 * k) * (x div 2 ^ (32 * k) mod 2 ^ 32) + x mod 2 ^ (32 * k)"
      using zmod_zmult2_eq [of "2 ^ 32" x "2 ^ (32 * k)"] by (simp add: power_add mult.commute)
    then show ?case using Suc by (simp add: num_append uint_word_of_int)
  qed simp
  from this [of 32, unfolded mont_R] show "0 \<le> x \<Longrightarrow> x < mont_R \<Longrightarrow> num (to_words x) = x"
    by (simp add: to_words_def)
qed

lemma length_to_words [simp]: "length (to_words x) = 32"
  by (simp add: to_words_def)

definition demo_modulus :: int where "demo_modulus = 31999 * 2 ^ 1009 + 2 ^ 168 - 1"

definition demo_key :: RSAPublicKey where
  "demo_key = \<lparr>key_len = 32, n0inv = 1, key_n = to_words demo_modulus,
     key_rr = to_words (mont_R * mont_R mod demo_modulus), exponent = 3\<rparr>"

lemma demo_bounds: "0 < demo_modulus" "demo_modulus < mont_R" "mont_R \<le> 2 * demo_modulus"
  by (simp_all add: demo_modulus_def mont_R_def)

lemma demo_key_num: "num (key_n demo_key) = demo_modulus"
  using demo_bounds by (simp add: demo_key_def num_to_words)

lemma demo_key_build: "build_key demo_key"
proof -
  have "to_words demo_modulus ! 0 = word_of_int demo_modulus" by (simp add: to_words_def nth_append)
  also have "\<dots> = word_of_int (- 1)" unfolding word_of_int_eq_iff by (simp add: take_bit_eq_mod demo_modulus_def)
  also have "\<dots> = - 1" by simp
  finally have low: "to_words demo_modulus ! 0 = - 1" .
  have "0 \<le> mont_R * mont_R mod demo_modulus" "mont_R * mont_R mod demo_modulus < mont_R"
    using demo_bounds pos_mod_bound [OF demo_bounds(1), of "mont_R * mont_R"] pos_mod_sign [OF demo_bounds(1), of "mont_R * mont_R"]
    by linarith+
  then have r: "num (key_rr demo_key) = mont_R * mont_R mod demo_modulus"
    unfolding demo_key_def by (simp only: RSAPublicKey.select_convs num_to_words)
  have "mont_key demo_key 32" using low by (simp add: mont_key_def key_shape_def demo_key_def)
  then show ?thesis
    using demo_bounds(3) unfolding build_key_def valid_key_def RSANUMWORDS_def RSANUMBYTES_def demo_key_num r
    by (simp add: demo_key_def)
qed

text \<open>A signature: its cube is the padded hash plus the modulus.\<close>

definition demo_signature :: "u8 list" where
  "demo_signature = replicate 85 0 @ [0x28] @ replicate 42 0"

definition demo_hash :: "u8 list" where
  "demo_hash = replicate 19 0 @ [1]"

lemma be_num_zeros: "be_num (replicate k 0) = 0" "be_num (replicate k 0xff) = 2 ^ (8 * k) - 1"
  by (induction k) (simp_all add: be_num_def horner_sum_append power_add power_mult flip: replicate_append_same)

lemma be_num_Nil: "be_num [] = 0"
  by (simp add: be_num_def)

lemma be_num_Cons: "be_num (b # bs) = be_num bs + 2 ^ (8 * length bs) * uint b"
  using be_num_append [of "[b]" bs] by (simp add: be_num_def)

lemma demo_signature_num: "be_num demo_signature = 40 * 2 ^ 336"
  by (simp add: demo_signature_def be_num_append be_num_Cons be_num_Nil be_num_zeros)

lemma demo_padded_num: "be_num (padded_hash demo_hash) = 2 ^ 1009 - 2 ^ 168 + 1"
proof -
  have "take 108 sha_padding_1024 = [0, 1] @ replicate 105 0xff @ [0]" by (simp add: sha_padding_1024_def)
  then show ?thesis by (simp add: padded_hash_def demo_hash_def be_num_append be_num_Cons be_num_Nil be_num_zeros)
qed

lemma demo_cube: "be_num demo_signature ^ 3 mod demo_modulus = be_num (padded_hash demo_hash)"
proof -
  have "be_num demo_signature ^ 3 = demo_modulus + be_num (padded_hash demo_hash)"
    unfolding demo_signature_num demo_padded_num demo_modulus_def by simp
  moreover have "0 \<le> be_num (padded_hash demo_hash)" "be_num (padded_hash demo_hash) < demo_modulus"
    unfolding demo_padded_num demo_modulus_def by simp_all
  ultimately show ?thesis by simp
qed
end
