(* ===== verification/Flasher.thy ===== *)
theory Flasher
  imports Control Bootstub
begin

text \<open>
  The flasher that the boot loader falls back to, \<^verbatim>\<open>board/flasher.h\<close> with \<^verbatim>\<open>board/stm32h7/llflash.h\<close>: the host
  unlocks the flash, erases sectors and sends words that are programmed one after the other. The commands
  given to the flash are recorded in order; the lock bit of the controller is part of the state; serial
  numbers, version and the type of the board are arguments. The lights are left out.
\<close>

datatype flash_op = Erase u8 | Program u32 u32

record flasher =
  prog_ptr :: u32
  unlocked :: bool
  flash_lock :: bool
  boot_mode :: u32
  flash_ops :: "flash_op list"

record board_identity =
  fl_hw_type :: u8
  fl_uid :: "u8 list"
  fl_serial :: "u8 list"
  fl_provision :: "u8 list"
  fl_gitversion :: "u8 list"

datatype flasher_answer = Answer "u8 list" flasher | Reset_chip flasher

definition APP_START_ADDRESS :: u32 where "APP_START_ADDRESS = 0x8020000"

definition flash_unlock :: "flasher \<Rightarrow> flasher" where
  "flash_unlock s = s\<lparr>flash_lock := False\<rparr>"

definition flash_erase_sector :: "u8 \<Rightarrow> flasher \<Rightarrow> bool \<times> flasher" where
  "flash_erase_sector sector s =
     (if sector \<noteq> 0 \<and> sector < 8 \<and> unlocked s then (True, s\<lparr>flash_ops := flash_ops s @ [Erase sector]\<rparr>)
      else (False, s))"

definition flash_write_word :: "u32 \<Rightarrow> u32 \<Rightarrow> flasher \<Rightarrow> flasher" where
  "flash_write_word p data s = s\<lparr>flash_ops := flash_ops s @ [Program p data]\<rparr>"

definition le4 :: "u32 \<Rightarrow> u8 list" where
  "le4 w = rev (be_bytes 4 w)"

definition UNPROVISIONED :: "u8 list" where
  "UNPROVISIONED = map (of_nat \<circ> of_char) (''unprovisioned'') @ [0, 0, 0] @ map (of_nat \<circ> of_char) (''testing123'') @
     [0, 0, 0xa3, 0xa6, 0x99, 0xec]"

definition get_provision_chunk :: "board_identity \<Rightarrow> u8 list" where
  "get_provision_chunk bi =
     (let resp = take 32 (fl_provision bi)
      in if resp = replicate 32 0xff then UNPROVISIONED else resp)"

text \<open>The answer of most requests: twelve bytes, the second one says whether it was done.\<close>

definition flasher_resp :: "u8 \<Rightarrow> u8 \<Rightarrow> u32 \<Rightarrow> u8 list" where
  "flasher_resp ack req p = [0xff, ack, req, NOT req, 0xde, 0xad, 0xd0, 0x0d] @ le4 p"

definition flasher_control :: "board_identity \<Rightarrow> ControlPacket_t \<Rightarrow> flasher \<Rightarrow> flasher_answer" where
  "flasher_control bi req s =
     (let r = request req; p = prog_ptr s
      in if r = 0xb0 then Answer (flasher_resp 0xff r p) s
         else if r = 0xb1
         then let (ack, s) = (if flash_lock s then (0xff, flash_unlock s) else (0, s))
              in Answer (flasher_resp ack r p) (s\<lparr>unlocked := True, prog_ptr := APP_START_ADDRESS\<rparr>)
         else if r = 0xb2
         then let (done, s) = flash_erase_sector (ucast (param1 req)) s
              in Answer (flasher_resp (if done then 0xff else 0) r p) s
         else if r = 0xc1 then Answer [fl_hw_type bi] s
         else if r = 0xc3 then Answer (take 12 (fl_uid bi)) s
         else if r = 0xd0
         then if param1 req = 1 then Answer (take 16 (fl_serial bi)) s else Answer (get_provision_chunk bi) s
         else if r = 0xd1
         then if param1 req = 0 then Reset_chip (s\<lparr>boot_mode := ENTER_BOOTLOADER_MAGIC\<rparr>)
              else if param1 req = 1 then Reset_chip (s\<lparr>boot_mode := ENTER_SOFTLOADER_MAGIC\<rparr>)
              else Answer (flasher_resp 0 r p) s
         else if r = 0xd6 then Answer (fl_gitversion bi) s
         else if r = 0xd8 then Reset_chip s
         else Answer (flasher_resp 0 r p) s)"

text \<open>A transfer to the second endpoint: its whole words, each at the pointer, which then moves on.\<close>

definition flasher_write :: "u8 list \<Rightarrow> flasher \<Rightarrow> flasher" where
  "flasher_write data s = fold (\<lambda>i s.
     let s = flash_write_word (prog_ptr s) (be_word [data ! (4 * i + 3), data ! (4 * i + 2), data ! (4 * i + 1), data ! (4 * i)]) s
     in s\<lparr>prog_ptr := prog_ptr s + 4\<rparr>) [0..<length data div 4] s"

definition soft_flasher_start :: "flasher \<Rightarrow> flasher" where
  "soft_flasher_start s = s\<lparr>boot_mode := 0\<rparr>"

section \<open>Runs of the flasher\<close>

datatype flasher_event = Flash_request ControlPacket_t | Flash_data "u8 list"

text \<open>The run ends at a reset.\<close>

fun flasher_run :: "board_identity \<Rightarrow> flasher_event list \<Rightarrow> flasher \<Rightarrow> flasher" where
  "flasher_run bi [] s = s"
| "flasher_run bi (Flash_request req # es) s =
     (case flasher_control bi req s of Answer _ s \<Rightarrow> flasher_run bi es s | Reset_chip s \<Rightarrow> s)"
| "flasher_run bi (Flash_data data # es) s = flasher_run bi es (flasher_write data s)"

fun words_sent :: "flasher_event list \<Rightarrow> nat" where
  "words_sent [] = 0"
| "words_sent (Flash_data data # es) = length data div 4 + words_sent es"
| "words_sent (Flash_request req # es) = words_sent es"

text \<open>Nothing is sent before the flash is unlocked.\<close>

fun unlocks_first :: "flasher_event list \<Rightarrow> bool" where
  "unlocks_first [] = True"
| "unlocks_first (Flash_request req # es) = (request req = 0xb1 \<or> unlocks_first es)"
| "unlocks_first (Flash_data data # es) = False"

definition flash_start :: flasher where
  "flash_start = soft_flasher_start \<lparr>prog_ptr = 0, unlocked = False, flash_lock = True, boot_mode = BOOT_NORMAL, flash_ops = []\<rparr>"

definition app_op :: "flash_op \<Rightarrow> bool" where
  "app_op f = (case f of Erase k \<Rightarrow> 0 < k \<and> k < 8 | Program p w \<Rightarrow> APP_START_ADDRESS \<le> p)"

text \<open>With \<open>n\<close> words still to come the pointer does not wrap around.\<close>

definition flasher_ok :: "nat \<Rightarrow> flasher \<Rightarrow> bool" where
  "flasher_ok n s \<longleftrightarrow> list_all app_op (flash_ops s) \<and>
     (unlocked s \<longrightarrow> APP_START_ADDRESS \<le> prog_ptr s \<and> unat (prog_ptr s) + 4 * n \<le> 2 ^ 32 - 4)"

lemma flasher_ok_le: "flasher_ok n s \<Longrightarrow> m \<le> n \<Longrightarrow> flasher_ok m s"
  by (auto simp: flasher_ok_def)

lemma flasher_ok_control:
  assumes "flasher_ok n s" "4 * n \<le> 2 ^ 32 - 4 - 0x8020000"
  shows "case flasher_control bi req s of Answer _ t \<Rightarrow> flasher_ok n t \<and> (unlocked t \<longleftrightarrow> unlocked s \<or> request req = 0xb1)
    | Reset_chip t \<Rightarrow> flasher_ok n t"
  using assms
  by (auto simp: flasher_control_def flash_erase_sector_def flash_unlock_def flasher_ok_def Let_def app_op_def
      APP_START_ADDRESS_def word_neq_0_conv split: if_splits)

lemma flasher_ok_word:
  assumes "flasher_ok (Suc n) s" "unlocked s"
  shows "flasher_ok n ((flash_write_word (prog_ptr s) w s)\<lparr>prog_ptr := prog_ptr s + 4\<rparr>)"
proof -
  have u: "unat (prog_ptr s + 4) = unat (prog_ptr s) + 4"
    using assms by (simp add: flasher_ok_def unat_add_lem [THEN iffD1])
  have "APP_START_ADDRESS \<le> prog_ptr s" using assms by (simp add: flasher_ok_def)
  then have "APP_START_ADDRESS \<le> prog_ptr s + 4" using u by (simp add: word_le_nat_alt)
  then show ?thesis using assms u by (simp add: flasher_ok_def flash_write_word_def app_op_def)
qed

lemma flasher_ok_write:
  assumes "flasher_ok (length data div 4 + n) s" "unlocked s"
  shows "flasher_ok n (flasher_write data s) \<and> unlocked (flasher_write data s)"
proof -
  define f where "f = (\<lambda>i s. let s = flash_write_word (prog_ptr s)
    (be_word [data ! (4 * i + 3), data ! (4 * i + 2), data ! (4 * i + 1), data ! (4 * i)]) s in s\<lparr>prog_ptr := prog_ptr s + 4\<rparr>)"
  have "flasher_ok (k - m + n) (fold f [0..<m] s) \<and> unlocked (fold f [0..<m] s)"
    if "m \<le> k" "flasher_ok (k + n) s" for m k
    using that(1)
  proof (induction m)
    case (Suc m)
    then have "flasher_ok (Suc (k - Suc m + n)) (fold f [0..<m] s)" "unlocked (fold f [0..<m] s)"
      by (simp_all add: Suc_diff_Suc)
    then show ?case using flasher_ok_word by (simp add: f_def flash_write_word_def Let_def)
  qed (use that(2) assms(2) in simp)
  from this [of "length data div 4" "length data div 4"] show ?thesis using assms(1) by (simp add: flasher_write_def f_def)
qed

lemma flasher_ok_run:
  "flasher_ok (words_sent es) s \<Longrightarrow> 4 * words_sent es \<le> 2 ^ 32 - 4 - 0x8020000 \<Longrightarrow> unlocked s \<or> unlocks_first es \<Longrightarrow>
     list_all app_op (flash_ops (flasher_run bi es s))"
proof (induction bi es s rule: flasher_run.induct)
  case (2 bi req es s)
  then show ?case using flasher_ok_control [OF 2(2), where bi = bi and req = req]
    by (auto split: flasher_answer.splits simp: flasher_ok_def)
next
  case (3 bi data es s)
  then show ?case using flasher_ok_write [of data "words_sent es" s] by auto
qed (simp add: flasher_ok_def)

text \<open>Without the unlock the pointer is null: the first word is written to address 0.\<close>

lemma write_before_unlock:
  "flash_ops (flasher_write [d0, d1, d2, d3] flash_start) = [Program 0 (be_word [d3, d2, d1, d0])]"
  by (simp add: flasher_write_def flash_start_def soft_flasher_start_def flash_write_word_def Let_def)

end
