(* ===== verification/Uart.thy ===== *)
theory Uart
  imports Can_Ring
begin

text \<open>
  The serial ports, \<^verbatim>\<open>drivers/uart.h\<close> with \<^verbatim>\<open>stm32h7/lluart.h\<close>: a ring for each direction, the low level
  functions that fill and drain them, the debugging text. The rings drop their oldest byte when they are
  full, if they are set up so, which all of them are. The registers of the port are fields; whether the
  transmit register is empty at the \<open>n\<close>-th look is the parameter \<open>txe\<close>. The callback of the debug ring is
  left out: its port has no interrupt on these boards.
\<close>

record uart_ring =
  w_ptr_tx :: u16
  r_ptr_tx :: u16
  elems_tx :: "u8 list"
  tx_fifo_size :: u32
  w_ptr_rx :: u16
  r_ptr_rx :: u16
  elems_rx :: "u8 list"
  rx_fifo_size :: u32
  overwrite :: bool
  uart_looks :: nat
  uart_TDR :: "u8 list"
  uart_CR1 :: u32
  uart_BRR :: u32
  uart_ICR :: u32

definition FIFO_SIZE_INT :: u32 where "FIFO_SIZE_INT = 0x400"
definition USART_CR1_TXEIE :: u32 where "USART_CR1_TXEIE = 0x80"

definition UART_BUFFER :: "u32 \<Rightarrow> u32 \<Rightarrow> bool \<Rightarrow> uart_ring" where
  "UART_BUFFER size_rx size_tx overwrite_mode =
     \<lparr>w_ptr_tx = 0, r_ptr_tx = 0, elems_tx = replicate (unat size_tx) 0, tx_fifo_size = size_tx,
      w_ptr_rx = 0, r_ptr_rx = 0, elems_rx = replicate (unat size_rx) 0, rx_fifo_size = size_rx,
      overwrite = overwrite_mode, uart_looks = 0, uart_TDR = [], uart_CR1 = 0, uart_BRR = 0, uart_ICR = 0\<rparr>"

text \<open>\<open>(p + 1U) % size\<close> is computed in 32 bits and stored in 16.\<close>

definition next_ptr :: "u32 \<Rightarrow> u16 \<Rightarrow> u16" where
  "next_ptr size_v p = ucast ((ucast p + 1) mod size_v)"

definition get_char :: "uart_ring \<Rightarrow> u8 option \<times> uart_ring" where
  "get_char q =
     (if w_ptr_rx q \<noteq> r_ptr_rx q
      then (Some (elems_rx q ! unat (r_ptr_rx q)), q\<lparr>r_ptr_rx := next_ptr (rx_fifo_size q) (r_ptr_rx q)\<rparr>)
      else (None, q))"

definition injectc :: "u8 \<Rightarrow> uart_ring \<Rightarrow> bool \<times> uart_ring" where
  "injectc elem q =
     (let next_w_ptr = next_ptr (rx_fifo_size q) (w_ptr_rx q);
          q = (if next_w_ptr = r_ptr_rx q \<and> overwrite q
               then q\<lparr>r_ptr_rx := next_ptr (rx_fifo_size q) (r_ptr_rx q)\<rparr> else q)
      in if next_w_ptr \<noteq> r_ptr_rx q
         then (True, q\<lparr>elems_rx := (elems_rx q)[unat (w_ptr_rx q) := elem], w_ptr_rx := next_w_ptr\<rparr>)
         else (False, q))"

definition uart_tx_ring :: "(nat \<Rightarrow> bool) \<Rightarrow> uart_ring \<Rightarrow> uart_ring" where
  "uart_tx_ring txe q =
     (if w_ptr_tx q \<noteq> r_ptr_tx q
      then let empty = txe (uart_looks q);
               q = q\<lparr>uart_looks := uart_looks q + 1\<rparr>;
               q = (if empty
                    then let q = q\<lparr>uart_TDR := uart_TDR q @ [elems_tx q ! unat (r_ptr_tx q)]\<rparr>
                         in q\<lparr>r_ptr_tx := next_ptr (tx_fifo_size q) (r_ptr_tx q)\<rparr>
                    else q)
           in if r_ptr_tx q \<noteq> w_ptr_tx q then q\<lparr>uart_CR1 := uart_CR1 q OR USART_CR1_TXEIE\<rparr>
              else q\<lparr>uart_CR1 := uart_CR1 q AND NOT USART_CR1_TXEIE\<rparr>
      else q)"

definition put_char :: "(nat \<Rightarrow> bool) \<Rightarrow> u8 \<Rightarrow> uart_ring \<Rightarrow> bool \<times> uart_ring" where
  "put_char txe elem q =
     (let next_w_ptr = next_ptr (tx_fifo_size q) (w_ptr_tx q);
          q = (if next_w_ptr = r_ptr_tx q \<and> overwrite q
               then q\<lparr>r_ptr_tx := next_ptr (tx_fifo_size q) (r_ptr_tx q)\<rparr> else q);
          (ret, q) =
            (if next_w_ptr \<noteq> r_ptr_tx q
             then (True, q\<lparr>elems_tx := (elems_tx q)[unat (w_ptr_tx q) := elem], w_ptr_tx := next_w_ptr\<rparr>)
             else (False, q))
      in (ret, uart_tx_ring txe q))"

definition clear_uart_buff :: "uart_ring \<Rightarrow> uart_ring" where
  "clear_uart_buff q = q\<lparr>w_ptr_tx := 0, r_ptr_tx := 0, w_ptr_rx := 0, r_ptr_rx := 0\<rparr>"

text \<open>The receive interrupt of a port without a callback; \<open>c\<close> is what its register holds.\<close>

definition uart_rx_ring :: "u8 \<Rightarrow> uart_ring \<Rightarrow> uart_ring" where
  "uart_rx_ring c q =
     (let next_w_ptr = next_ptr (rx_fifo_size q) (w_ptr_rx q);
          q = (if next_w_ptr = r_ptr_rx q \<and> overwrite q
               then q\<lparr>r_ptr_rx := next_ptr (rx_fifo_size q) (r_ptr_rx q)\<rparr> else q)
      in if next_w_ptr \<noteq> r_ptr_rx q
         then q\<lparr>elems_rx := (elems_rx q)[unat (w_ptr_rx q) := c], w_ptr_rx := next_w_ptr\<rparr>
         else q)"

text \<open>The code divides by the rate unchecked. \<open>None\<close>: by zero, of which C leaves open what it does.\<close>

definition uart_set_baud :: "u32 \<Rightarrow> uart_ring \<Rightarrow> uart_ring option" where
  "uart_set_baud baud q = (if baud = 0 then None else Some (q\<lparr>uart_BRR := 60000000 div baud\<rparr>))"

definition USART_ISR_PE :: u32 where "USART_ISR_PE = push_bit 0 1"
definition USART_ISR_FE :: u32 where "USART_ISR_FE = push_bit 1 1"
definition USART_ISR_NE :: u32 where "USART_ISR_NE = push_bit 2 1"
definition USART_ISR_ORE :: u32 where "USART_ISR_ORE = push_bit 3 1"
definition USART_ISR_RXNE_RXFNE :: u32 where "USART_ISR_RXNE_RXFNE = push_bit 5 1"
definition USART_ICR_PECF :: u32 where "USART_ICR_PECF = push_bit 0 1"
definition USART_ICR_FECF :: u32 where "USART_ICR_FECF = push_bit 1 1"
definition USART_ICR_NECF :: u32 where "USART_ICR_NECF = push_bit 2 1"
definition USART_ICR_ORECF :: u32 where "USART_ICR_ORECF = push_bit 3 1"

text \<open>The interrupt of a port; \<open>status\<close> and \<open>c\<close> are what its registers hold.\<close>

definition uart_interrupt_handler :: "(nat \<Rightarrow> bool) \<Rightarrow> u32 \<Rightarrow> u8 \<Rightarrow> uart_ring \<Rightarrow> uart_ring" where
  "uart_interrupt_handler txe status_v c q =
     (let q = (if status_v AND USART_ISR_RXNE_RXFNE \<noteq> 0 then uart_rx_ring c q else q);
          err = status_v AND USART_ISR_ORE OR (status_v AND USART_ISR_NE) OR (status_v AND USART_ISR_FE) OR
            (status_v AND USART_ISR_PE);
          q = (if err AND USART_ISR_ORE \<noteq> 0 then q\<lparr>uart_ICR := uart_ICR q OR USART_ICR_ORECF\<rparr>
               else if err AND USART_ISR_NE \<noteq> 0 then q\<lparr>uart_ICR := uart_ICR q OR USART_ICR_NECF\<rparr>
               else if err AND USART_ISR_FE \<noteq> 0 then q\<lparr>uart_ICR := uart_ICR q OR USART_ICR_FECF\<rparr>
               else if err AND USART_ISR_PE \<noteq> 0 then q\<lparr>uart_ICR := uart_ICR q OR USART_ICR_PECF\<rparr>
               else q)
      in uart_tx_ring txe q)"

section \<open>Sending\<close>

text \<open>\<open>while (!put_char(...))\<close>: \<open>None\<close> when it waits forever.\<close>

partial_function (option) put_char_wait :: "(nat \<Rightarrow> bool) \<Rightarrow> u8 \<Rightarrow> uart_ring \<Rightarrow> uart_ring option" where
  "put_char_wait txe elem q =
     (let (sent, q) = put_char txe elem q in if sent then Some q else put_char_wait txe elem q)"

fun put_chars :: "(nat \<Rightarrow> bool) \<Rightarrow> u8 list \<Rightarrow> uart_ring \<Rightarrow> uart_ring option" where
  "put_chars txe [] q = Some q"
| "put_chars txe (c # cs) q = (case put_char_wait txe c q of None \<Rightarrow> None | Some q \<Rightarrow> put_chars txe cs q)"

section \<open>Debugging text\<close>

definition putch :: "u8 \<Rightarrow> uart_ring \<Rightarrow> uart_ring" where
  "putch a q = snd (injectc a q)"

fun print_text :: "u8 list \<Rightarrow> uart_ring \<Rightarrow> uart_ring" where
  "print_text [] q = q"
| "print_text (c # cs) q =
     (if c = 0 then q else print_text cs (putch c (if c = 10 then putch 13 q else q)))"

definition hex_digits :: "u8 list" where
  "hex_digits = map (of_nat \<circ> of_char) ''0123456789abcdef''"

text \<open>The digits from the highest one; \<open>n\<close> of them are left.\<close>

fun puthx :: "u32 \<Rightarrow> nat \<Rightarrow> uart_ring \<Rightarrow> uart_ring" where
  "puthx i 0 q = q"
| "puthx i (Suc n) q = puthx i n (putch (hex_digits ! unat (drop_bit (4 * n) i AND 0xF)) q)"

section \<open>The ring that keeps the latest\<close>

text \<open>Each direction, seen as a ring of the CAN layer.\<close>

definition rx_view :: "uart_ring \<Rightarrow> u8 can_ring" where
  "rx_view q = \<lparr>w_ptr = ucast (w_ptr_rx q), r_ptr = ucast (r_ptr_rx q), fifo_size = rx_fifo_size q, elems = elems_rx q\<rparr>"

definition tx_view :: "uart_ring \<Rightarrow> u8 can_ring" where
  "tx_view q = \<lparr>w_ptr = ucast (w_ptr_tx q), r_ptr = ucast (r_ptr_tx q), fifo_size = tx_fifo_size q, elems = elems_tx q\<rparr>"

text \<open>Dropping the oldest element of a full queue first, a push always finds room.\<close>

definition push_latest :: "'e \<Rightarrow> 'e can_ring \<Rightarrow> 'e can_ring" where
  "push_latest x q =
     (if advance (fifo_size q) (w_ptr q) = r_ptr q then snd (can_push (snd (can_pop q)) x) else snd (can_push q x))"

definition latest :: "nat \<Rightarrow> 'e list \<Rightarrow> 'e list" where
  "latest n xs = drop (length xs - n) xs"

definition uart_ok :: "uart_ring \<Rightarrow> bool" where
  "uart_ok q \<longleftrightarrow> ring_ok (rx_view q) \<and> ring_ok (tx_view q) \<and> overwrite q \<and>
     1 < rx_fifo_size q \<and> rx_fifo_size q \<le> 0x8000 \<and> 1 < tx_fifo_size q \<and> tx_fifo_size q \<le> 0x8000"

lemma latest_app: "latest n (latest n xs @ ys) = latest n (xs @ ys)"
  by (cases "length xs \<le> n") (auto simp: latest_def drop_append add.commute)

lemma length_latest: "length (latest n xs) = min n (length xs)"
  by (simp add: latest_def)

lemma push_latest_ring:
  assumes "ring_ok q" "1 < fifo_size q"
  shows "ring_ok (push_latest x q)" "ring_capacity (push_latest x q) = ring_capacity q"
    "ring_content (push_latest x q) = latest (ring_capacity q) (ring_content q @ [x])"
proof -
  have cap: "0 < ring_capacity q" using assms(2) by (simp add: ring_capacity_def word_less_nat_alt)
  have full: "advance (fifo_size q) (w_ptr q) \<noteq> r_ptr q \<longleftrightarrow> length (ring_content q) < ring_capacity q"
    using ring_full_iff [OF assms(1)] by simp
  have le: "length (ring_content q) \<le> ring_capacity q" by (rule ring.bounded [OF assms(1)])
  let ?p = "snd (can_pop q)"
  have p: "ring_ok ?p" "ring_capacity ?p = ring_capacity q"
    using ring.pop_ok [OF assms(1)] ring.pop_capacity [OF assms(1)] by simp_all
  show "ring_ok (push_latest x q)" "ring_capacity (push_latest x q) = ring_capacity q"
    using p assms(1) by (simp_all add: push_latest_def ring.push_ok ring.push_capacity)
  show "ring_content (push_latest x q) = latest (ring_capacity q) (ring_content q @ [x])"
  proof (cases "advance (fifo_size q) (w_ptr q) = r_ptr q")
    case True
    then have n: "length (ring_content q) = ring_capacity q" using full le by auto
    then obtain y where y: "ring_content q = y # ring_content ?p"
      using ring.pop_content [OF assms(1)] cap by (auto split: option.splits)
    then have "fst (can_push ?p x)" using ring.push_accepts [OF p(1), of x] p(2) n by (simp del: ring_content_length)
    then show ?thesis
      using True ring.push_content [OF p(1), of x] y n by (simp add: push_latest_def latest_def del: ring_content_length)
  next
    case False
    then have "fst (can_push q x)" "length (ring_content q) < ring_capacity q"
      using ring.push_accepts [OF assms(1), of x] full by simp_all
    then show ?thesis
      using False ring.push_content [OF assms(1), of x] by (simp add: push_latest_def latest_def del: ring_content_length)
  qed
qed

lemma unat_widen [simp]: "unat (ucast (p :: u16) :: u32) = unat p"
proof -
  have "unat p < 2 ^ 16" using unsigned_less [of p] by simp
  then show ?thesis by (simp add: unsigned_ucast_eq take_bit_nat_eq_self)
qed

lemma widen_eq [simp]: "ucast (a :: u16) = (ucast b :: u32) \<longleftrightarrow> a = b"
  by (metis unat_widen word_unat_eq_iff)

lemma next_ptr_advance:
  assumes "ucast p < n" "n \<le> 0x8000"
  shows "ucast (next_ptr n p) = advance n (ucast p)"
proof -
  have b: "unat p < unat n" "unat n \<le> 0x8000"
    using assms by (simp_all add: word_less_nat_alt word_le_nat_alt)
  have s: "unat (ucast p + 1 :: u32) = unat p + 1" using b by (simp add: unat_word_ariths)
  have m: "unat ((ucast p + 1) mod n :: u32) = (unat p + 1) mod unat n" by (simp add: unat_mod s)
  then have "(unat p + 1) mod unat n < unat n" using b by simp
  then have "(unat p + 1) mod unat n < 2 ^ 16" by (rule less_le_trans) (use b in simp)
  then have "unat (ucast (next_ptr n p) :: u32) = (unat p + 1) mod unat n"
    by (simp add: next_ptr_def unsigned_ucast_eq unsigned_take_bit_eq take_bit_nat_eq_self m)
  moreover have "unat (advance n (ucast p)) = (unat p + 1) mod unat n"
    using unat_advance [of "ucast p" n] b by simp
  ultimately show ?thesis by (simp add: word_unat_eq_iff)
qed

text \<open>The functions of the port are those of the ring, in each direction.\<close>

lemma rx_view_ptrs:
  assumes "uart_ok q"
  shows "ucast (next_ptr (rx_fifo_size q) (r_ptr_rx q)) = advance (fifo_size (rx_view q)) (r_ptr (rx_view q))"
    "ucast (next_ptr (rx_fifo_size q) (w_ptr_rx q)) = advance (fifo_size (rx_view q)) (w_ptr (rx_view q))"
  using assms by (simp_all add: uart_ok_def ring_ok_def rx_view_def next_ptr_advance)

lemma tx_view_ptrs:
  assumes "uart_ok q"
  shows "ucast (next_ptr (tx_fifo_size q) (r_ptr_tx q)) = advance (fifo_size (tx_view q)) (r_ptr (tx_view q))"
    "ucast (next_ptr (tx_fifo_size q) (w_ptr_tx q)) = advance (fifo_size (tx_view q)) (w_ptr (tx_view q))"
  using assms by (simp_all add: uart_ok_def ring_ok_def tx_view_def next_ptr_advance)

lemma get_char_view:
  assumes "uart_ok q"
  shows "fst (get_char q) = fst (can_pop (rx_view q))" "rx_view (snd (get_char q)) = snd (can_pop (rx_view q))"
    "uart_ok (snd (get_char q))"
proof -
  show a: "fst (get_char q) = fst (can_pop (rx_view q))" "rx_view (snd (get_char q)) = snd (can_pop (rx_view q))"
    using rx_view_ptrs [OF assms] by (simp_all add: get_char_def can_pop_eq) (simp_all add: rx_view_def)
  then show "uart_ok (snd (get_char q))"
    using assms ring_ok_pop [of "rx_view q"] by (auto simp: uart_ok_def get_char_def tx_view_def)
qed

lemma injectc_view:
  assumes "uart_ok q"
  shows "fst (injectc x q)" "rx_view (snd (injectc x q)) = push_latest x (rx_view q)"
    "tx_view (snd (injectc x q)) = tx_view q"
proof -
  let ?n = "rx_fifo_size q"
  have ne: "advance ?n p \<noteq> p" if "p < ?n" for p
    using that assms unat_advance_split [of p ?n]
    by (auto simp: uart_ok_def word_less_nat_alt word_unat_eq_iff split: if_splits)
  have "r_ptr (rx_view q) < ?n" using assms by (simp add: uart_ok_def ring_ok_def rx_view_def)
  then have adv: "advance ?n (ucast (r_ptr_rx q)) \<noteq> ucast (r_ptr_rx q)" using ne by (simp add: rx_view_def)
  then have r: "next_ptr ?n (r_ptr_rx q) \<noteq> r_ptr_rx q"
    using rx_view_ptrs(1) [OF assms] by (auto simp: rx_view_def)
  show "fst (injectc x q)" "tx_view (snd (injectc x q)) = tx_view q"
    using assms r by (auto simp: injectc_def uart_ok_def Let_def tx_view_def)
  have o: "overwrite q" using assms by (simp add: uart_ok_def)
  have w: "w_ptr (rx_view q) \<noteq> r_ptr (rx_view q)"
    if "next_ptr ?n (w_ptr_rx q) = r_ptr_rx q"
    using that r by (auto simp: rx_view_def)
  show "rx_view (snd (injectc x q)) = push_latest x (rx_view q)"
  proof (cases "next_ptr ?n (w_ptr_rx q) = r_ptr_rx q")
    case True
    then have a: "advance (fifo_size (rx_view q)) (w_ptr (rx_view q)) = r_ptr (rx_view q)"
      using rx_view_ptrs(2) [OF assms] by (simp add: rx_view_def)
    show ?thesis
      using True o r w [OF True] a rx_view_ptrs(1) [OF assms] adv [symmetric]
      by (simp add: push_latest_def can_pop_eq can_push_eq injectc_def Let_def) (simp add: rx_view_def)
  next
    case False
    then have a: "advance (fifo_size (rx_view q)) (w_ptr (rx_view q)) \<noteq> r_ptr (rx_view q)"
      using rx_view_ptrs(2) [OF assms] by (auto simp: rx_view_def)
    show ?thesis
      using False a rx_view_ptrs(2) [OF assms]
      by (simp add: push_latest_def can_push_eq injectc_def Let_def) (simp add: rx_view_def)
  qed
qed

lemma rx_view_size [simp]: "fifo_size (rx_view q) = rx_fifo_size q" "fifo_size (tx_view q) = tx_fifo_size q"
  by (simp_all add: rx_view_def tx_view_def)

lemma injectc_ok:
  assumes "uart_ok q"
  shows "uart_ok (snd (injectc x q))"
proof -
  have "ring_ok (push_latest x (rx_view q))"
    by (rule push_latest_ring(1)) (use assms in \<open>simp_all add: uart_ok_def\<close>)
  then show ?thesis
    using assms injectc_view(2,3) [OF assms, of x] by (simp add: uart_ok_def) (simp add: injectc_def Let_def)
qed

text \<open>The text that is kept is the end of all that was printed.\<close>

lemma printed_text:
  assumes "uart_ok q"
  shows "uart_ok (fold putch xs q) \<and> ring_capacity (rx_view (fold putch xs q)) = ring_capacity (rx_view q) \<and>
    ring_content (rx_view (fold putch xs q)) = latest (ring_capacity (rx_view q)) (ring_content (rx_view q) @ xs)"
  using assms
proof (induction xs arbitrary: q)
  case Nil
  then have "length (ring_content (rx_view q)) \<le> ring_capacity (rx_view q)"
    by (intro ring.bounded) (simp add: uart_ok_def)
  then show ?case using Nil by (simp add: latest_def del: ring_content_length)
next
  case (Cons x xs)
  have r: "ring_ok (rx_view q)" "1 < fifo_size (rx_view q)" using Cons.prems by (simp_all add: uart_ok_def)
  have v: "rx_view (putch x q) = push_latest x (rx_view q)" "uart_ok (putch x q)"
    using injectc_view(2) [OF Cons.prems] injectc_ok [OF Cons.prems] by (simp_all add: putch_def)
  show ?case using Cons.IH [OF v(2)] by (simp add: v(1) push_latest_ring [OF r] latest_app)
qed

section \<open>Sending does not wait\<close>

definition uart_stream :: "uart_ring \<Rightarrow> u8 list" where
  "uart_stream q = uart_TDR q @ ring_content (tx_view q)"

lemma uart_tx_ring_ok:
  assumes "uart_ok q"
  shows "uart_ok (uart_tx_ring txe q)" "uart_stream (uart_tx_ring txe q) = uart_stream q"
    "ring_count (tx_view (uart_tx_ring txe q)) \<le> ring_count (tx_view q)"
    "ring_capacity (tx_view (uart_tx_ring txe q)) = ring_capacity (tx_view q)"
    "rx_view (uart_tx_ring txe q) = rx_view q"
proof -
  have r: "ring_ok (tx_view q)" using assms by (simp add: uart_ok_def)
  let ?sent = "w_ptr_tx q \<noteq> r_ptr_tx q \<and> txe (uart_looks q)"
  have v: "tx_view (uart_tx_ring txe q) = (if ?sent then snd (can_pop (tx_view q)) else tx_view q)"
    "uart_TDR (uart_tx_ring txe q) = (if ?sent then uart_TDR q @ [the (fst (can_pop (tx_view q)))] else uart_TDR q)"
    using tx_view_ptrs [OF assms] by (auto simp: uart_tx_ring_def Let_def can_pop_eq tx_view_def)
  have c: "ring_content (tx_view q) = the (fst (can_pop (tx_view q))) # ring_content (snd (can_pop (tx_view q)))"
    if "w_ptr_tx q \<noteq> r_ptr_tx q"
    using ring.pop_content [OF r] that by (simp add: can_pop_eq tx_view_def)
  show "rx_view (uart_tx_ring txe q) = rx_view q" by (simp add: uart_tx_ring_def Let_def rx_view_def)
  have "ring_ok (tx_view (uart_tx_ring txe q))" using r ring.pop_ok [OF r] by (simp add: v)
  then show "uart_ok (uart_tx_ring txe q)"
    using assms by (simp add: uart_ok_def) (simp add: uart_tx_ring_def Let_def rx_view_def)
  show "uart_stream (uart_tx_ring txe q) = uart_stream q" using c by (simp add: uart_stream_def v)
  show "ring_capacity (tx_view (uart_tx_ring txe q)) = ring_capacity (tx_view q)"
    using ring.pop_capacity [OF r] by (simp add: v)
  show "ring_count (tx_view (uart_tx_ring txe q)) \<le> ring_count (tx_view q)"
    using c by (auto simp: v simp flip: ring_content_length)
qed

text \<open>The two directions exchanged: filling the one is filling the other.\<close>

definition swap_ring :: "uart_ring \<Rightarrow> uart_ring" where
  "swap_ring q = q\<lparr>w_ptr_tx := w_ptr_rx q, r_ptr_tx := r_ptr_rx q, elems_tx := elems_rx q, tx_fifo_size := rx_fifo_size q,
     w_ptr_rx := w_ptr_tx q, r_ptr_rx := r_ptr_tx q, elems_rx := elems_tx q, rx_fifo_size := tx_fifo_size q\<rparr>"

lemma swap_ring_views [simp]: "rx_view (swap_ring q) = tx_view q" "tx_view (swap_ring q) = rx_view q"
  "uart_ok (swap_ring q) = uart_ok q" "uart_TDR (swap_ring q) = uart_TDR q"
  by (auto simp: swap_ring_def rx_view_def tx_view_def uart_ok_def)

lemma put_char_inject:
  "put_char txe c q =
     (let (sent, u) = injectc c (swap_ring q) in (sent, uart_tx_ring txe (swap_ring u)))"
  by (cases q) (simp add: put_char_def injectc_def swap_ring_def Let_def)

lemma put_char_ok:
  assumes "uart_ok q" "put_char txe c q = (sent, t)"
  shows "sent" "uart_ok t" "ring_capacity (tx_view t) = ring_capacity (tx_view q)"
    "ring_count (tx_view q) < ring_capacity (tx_view q) \<Longrightarrow>
       uart_stream t = uart_stream q @ [c] \<and> ring_count (tx_view t) \<le> Suc (ring_count (tx_view q))"
proof -
  have r: "ring_ok (tx_view q)" "1 < fifo_size (tx_view q)" using assms(1) by (simp_all add: uart_ok_def)
  have s: "uart_ok (swap_ring q)" using assms(1) by simp
  define u where "u = swap_ring (snd (injectc c (swap_ring q)))"
  have v: "tx_view u = push_latest c (tx_view q)" "uart_ok u"
    using injectc_view(2) [OF s, of c] injectc_ok [OF s, of c] by (simp_all add: u_def)
  have d: "uart_TDR u = uart_TDR q" by (simp add: u_def injectc_def Let_def swap_ring_def)
  have t: "t = uart_tx_ring txe u" "sent"
    using assms(2) injectc_view(1) [OF s, of c] by (auto simp: put_char_inject u_def case_prod_beta)
  show sent by (rule t)
  show "uart_ok t" "ring_capacity (tx_view t) = ring_capacity (tx_view q)"
    using uart_tx_ring_ok [OF v(2), of txe] push_latest_ring [OF r, of c] by (simp_all add: t v)
  assume "ring_count (tx_view q) < ring_capacity (tx_view q)"
  then have k: "ring_content (tx_view u) = ring_content (tx_view q) @ [c]"
    using push_latest_ring(3) [OF r, of c] by (simp add: v latest_def)
  then have "ring_count (tx_view u) = Suc (ring_count (tx_view q))" by (simp flip: ring_content_length)
  then show "uart_stream t = uart_stream q @ [c] \<and> ring_count (tx_view t) \<le> Suc (ring_count (tx_view q))"
    using uart_tx_ring_ok(2,3) [OF v(2), of txe] k d by (simp add: t uart_stream_def)
qed

lemma put_chars_ok:
  assumes "uart_ok q"
  shows "\<exists>t. put_chars txe cs q = Some t \<and> uart_ok t \<and>
    (ring_count (tx_view q) + length cs \<le> ring_capacity (tx_view q) \<longrightarrow> uart_stream t = uart_stream q @ cs)"
  using assms
proof (induction cs arbitrary: q)
  case (Cons c cs)
  obtain sent u where u: "put_char txe c q = (sent, u)" by fastforce
  note f = put_char_ok [OF Cons.prems u]
  have w: "put_char_wait txe c q = Some u" using u f(1) by (simp add: put_char_wait.simps)
  from Cons.IH [OF f(2)] f(3,4) show ?case by (auto simp: w)
qed simp

lemma uart_buffer_ok:
  "1 < a \<Longrightarrow> a \<le> 0x8000 \<Longrightarrow> 1 < b \<Longrightarrow> b \<le> 0x8000 \<Longrightarrow> uart_ok (UART_BUFFER a b True)"
  by (auto simp: uart_ok_def UART_BUFFER_def ring_ok_def rx_view_def tx_view_def intro: le_less_trans [of 0 1])

text \<open>The interrupt keeps the rings in order too; what it receives is queued as \<open>injectc\<close> would.\<close>

lemma uart_rx_inject: "uart_rx_ring c q = snd (injectc c q)"
  by (simp add: uart_rx_ring_def injectc_def Let_def)

lemma uart_ok_ICR [simp]: "uart_ok (q\<lparr>uart_ICR := x\<rparr>) = uart_ok q"
  by (simp add: uart_ok_def rx_view_def tx_view_def)

lemma uart_interrupt_ok: "uart_ok q \<Longrightarrow> uart_ok (uart_interrupt_handler txe status_v c q)"
  by (simp add: uart_interrupt_handler_def Let_def uart_rx_inject injectc_ok uart_tx_ring_ok(1))

end
