(* ===== verification/Firmware.thy ===== *)
theory Firmware
  imports Control
begin

text \<open>
  The firmware as a state machine over its entry points: the interrupts of the controllers, the
  transfers and requests of the host, the timer, and the world that changes the pins, the registers and
  the clock. The invariant of the CAN layer holds in every reachable state; every write the program makes
  to the variables of the safety layer is one of its events.
\<close>

section \<open>The variables around the layer\<close>

lemma layer_inv_program [simp]:
  "layer_inv b P (s\<lparr>uptime_cnt := y_0\<rparr>) = layer_inv b P s"
  "layer_inv b P (s\<lparr>heartbeat_counter := y_1\<rparr>) = layer_inv b P s"
  "layer_inv b P (s\<lparr>heartbeat_lost := y_2\<rparr>) = layer_inv b P s"
  "layer_inv b P (s\<lparr>heartbeat_disabled := y_3\<rparr>) = layer_inv b P s"
  "layer_inv b P (s\<lparr>siren_enabled := y_4\<rparr>) = layer_inv b P s"
  "layer_inv b P (s\<lparr>green_led_enabled := y_5\<rparr>) = layer_inv b P s"
  "layer_inv b P (s\<lparr>power_save_status := y_6\<rparr>) = layer_inv b P s"
  "layer_inv b P (s\<lparr>harness := y_7\<rparr>) = layer_inv b P s"
  "layer_inv b P (s\<lparr>wd_state := y_8\<rparr>) = layer_inv b P s"
  "layer_inv b P (s\<lparr>siren_countdown := y_9\<rparr>) = layer_inv b P s"
  "layer_inv b P (s\<lparr>controls_allowed_countdown := y_10\<rparr>) = layer_inv b P s"
  "layer_inv b P (s\<lparr>prev_harness_status := y_11\<rparr>) = layer_inv b P s"
  "layer_inv b P (s\<lparr>loop_counter := y_12\<rparr>) = layer_inv b P s"
  "layer_inv b P (s\<lparr>bootkick := y_13\<rparr>) = layer_inv b P s"
  "layer_inv b P (s\<lparr>ignition_line := y_14\<rparr>) = layer_inv b P s"
  "layer_inv b P (s\<lparr>adc_sbu1 := y_15\<rparr>) = layer_inv b P s"
  "layer_inv b P (s\<lparr>adc_sbu2 := y_16\<rparr>) = layer_inv b P s"
  "layer_inv b P (s\<lparr>som_gpio := y_17\<rparr>) = layer_inv b P s"
  "layer_inv b P (s\<lparr>som_serial_ptr := y_18\<rparr>) = layer_inv b P s"
  "layer_inv b P (s\<lparr>usb_enumerated := y_19\<rparr>) = layer_inv b P s"
  "layer_inv b P (s\<lparr>relay_sbu1 := y_20\<rparr>) = layer_inv b P s"
  "layer_inv b P (s\<lparr>relay_sbu2 := y_21\<rparr>) = layer_inv b P s"
  "layer_inv b P (s\<lparr>can_mode := y_22\<rparr>) = layer_inv b P s"
  "layer_inv b P (s\<lparr>transceivers := y_23\<rparr>) = layer_inv b P s"
  "layer_inv b P (s\<lparr>ir_power := y_24\<rparr>) = layer_inv b P s"
  "layer_inv b P (s\<lparr>fan_target_rpm := y_25\<rparr>) = layer_inv b P s"
  "layer_inv b P (s\<lparr>siren := y_26\<rparr>) = layer_inv b P s"
  "layer_inv b P (s\<lparr>bootkick_out := y_27\<rparr>) = layer_inv b P s"
  by (simp_all add: layer_inv_def can_ok_def only_sends_def tx_content_def)

lemma layer_inv_layer_fields [simp]:
  "layer_inv b P (s\<lparr>safety_tx_blocked := y_0\<rparr>) = layer_inv b P s"
  "layer_inv b P (s\<lparr>safety_rx_invalid := y_1\<rparr>) = layer_inv b P s"
  "layer_inv b P (s\<lparr>ignition_can := y_2\<rparr>) = layer_inv b P s"
  "layer_inv b P (s\<lparr>ignition_can_cnt := y_3\<rparr>) = layer_inv b P s"
  "layer_inv b P (s\<lparr>can_live := y_4\<rparr>) = layer_inv b P s"
  "layer_inv b P (s\<lparr>pending_can_live := y_5\<rparr>) = layer_inv b P s"
  "layer_inv b P (s\<lparr>can_silent := y_6\<rparr>) = layer_inv b P s"
  "layer_inv b P (s\<lparr>can_loopback := y_7\<rparr>) = layer_inv b P s"
  "layer_inv b P (s\<lparr>outep3_processing := y_8\<rparr>) = layer_inv b P s"
  "layer_inv b P (s\<lparr>DOEPCTL3 := y_9\<rparr>) = layer_inv b P s"
  "layer_inv b P (s\<lparr>DOEPTSIZ3 := y_10\<rparr>) = layer_inv b P s"
  "layer_inv b P (s\<lparr>spi_can_tx_ready := y_11\<rparr>) = layer_inv b P s"
  "layer_inv b P (s\<lparr>irq_call_rates := y_12\<rparr>) = layer_inv b P s"
  by (simp_all add: layer_inv_def can_ok_def only_sends_def tx_content_def)

lemma layer_inv_safety_step:
  "layer_inv b P s \<Longrightarrow> safety_step b (safety_vars s) e v \<Longrightarrow> layer_inv b P (s\<lparr>safety_vars := v\<rparr>)"
  by (auto simp: layer_inv_def only_sends_def tx_content_def intro: safety_reachable_step)

text \<open>The writes of the main loop to the safety layer's variables.\<close>

lemma safety_step_env:
  "safety_step b v Env (v\<lparr>heartbeat_engaged := h\<rparr>)"
  "safety_step b v Env (v\<lparr>heartbeat_engaged_mismatches := m\<rparr>)"
  "safety_step b v Env (v\<lparr>alternative_experience := x\<rparr>)"
  "safety_step b v Env (v\<lparr>safety_mode_cnt := k\<rparr>)"
  "safety_step b v Env (v\<lparr>microsecond_timer := t\<rparr>)"
  "safety_step b v Env (v\<lparr>controls_allowed := False\<rparr>)"
  using safety_step.env [where b = b and s = "v" and t = "microsecond_timer v" and c = "safety_mode_cnt v" and x = "alternative_experience v" and h = "h" and hm = "heartbeat_engaged_mismatches v" and keep = "True" and fs = "fault_status v" and fa = "faults v"]
    safety_step.env [where b = b and s = "v" and t = "microsecond_timer v" and c = "safety_mode_cnt v" and x = "alternative_experience v" and h = "heartbeat_engaged v" and hm = "m" and keep = "True" and fs = "fault_status v" and fa = "faults v"]
    safety_step.env [where b = b and s = "v" and t = "microsecond_timer v" and c = "safety_mode_cnt v" and x = "x" and h = "heartbeat_engaged v" and hm = "heartbeat_engaged_mismatches v" and keep = "True" and fs = "fault_status v" and fa = "faults v"]
    safety_step.env [where b = b and s = "v" and t = "microsecond_timer v" and c = "k" and x = "alternative_experience v" and h = "heartbeat_engaged v" and hm = "heartbeat_engaged_mismatches v" and keep = "True" and fs = "fault_status v" and fa = "faults v"]
    safety_step.env [where b = b and s = "v" and t = "t" and c = "safety_mode_cnt v" and x = "alternative_experience v" and h = "heartbeat_engaged v" and hm = "heartbeat_engaged_mismatches v" and keep = "True" and fs = "fault_status v" and fa = "faults v"]
    safety_step.env [where b = b and s = "v" and t = "microsecond_timer v" and c = "safety_mode_cnt v" and x = "alternative_experience v" and h = "heartbeat_engaged v" and hm = "heartbeat_engaged_mismatches v" and keep = "False" and fs = "fault_status v" and fa = "faults v"]
  by simp_all

lemma safety_step_fault: "safety_step b v Env (fault_occurred f v)"
proof -
  have e: "fault_occurred f v = v\<lparr>fault_status := fault_status (fault_occurred f v), faults := faults (fault_occurred f v),
      microsecond_timer := microsecond_timer v, safety_mode_cnt := safety_mode_cnt v,
      alternative_experience := alternative_experience v, heartbeat_engaged := heartbeat_engaged v,
      heartbeat_engaged_mismatches := heartbeat_engaged_mismatches v,
      controls_allowed := controls_allowed v \<and> True\<rparr>"
    by (simp add: fault_occurred_def Let_def)
  show ?thesis by (rule ssubst [OF e, of "safety_step b v Env"]) (rule safety_step.env)
qed

lemma layer_inv_upd_vars:
  "layer_inv b P s \<Longrightarrow> layer_inv b P (upd_vars (\<lambda>v. v\<lparr>heartbeat_engaged := h\<rparr>) s)"
  "layer_inv b P s \<Longrightarrow> layer_inv b P (upd_vars (\<lambda>v. v\<lparr>heartbeat_engaged_mismatches := m v\<rparr>) s)"
  "layer_inv b P s \<Longrightarrow> layer_inv b P (upd_vars (\<lambda>v. v\<lparr>alternative_experience := x\<rparr>) s)"
  "layer_inv b P s \<Longrightarrow> layer_inv b P (upd_vars (\<lambda>v. v\<lparr>safety_mode_cnt := k v\<rparr>) s)"
  "layer_inv b P s \<Longrightarrow> layer_inv b P (upd_vars (\<lambda>v. v\<lparr>controls_allowed := False\<rparr>) s)"
  "layer_inv b P s \<Longrightarrow> layer_inv b P (upd_vars (fault_occurred f) s)"
  "layer_inv b P s \<Longrightarrow> layer_inv b P (upd_vars safety_tick s)"
  unfolding upd_vars_def by (erule layer_inv_safety_step, rule safety_step_env safety_step_fault safety_step.tick)+

section \<open>The parts of the main loop\<close>

lemma layer_inv_relay [simp]: "layer_inv b P (set_intercept_relay bd x y s) = layer_inv b P s"
  by (simp add: set_intercept_relay_def sbu_adc_wait_def Let_def)

lemma layer_inv_can_mode [simp]: "layer_inv b P (set_can_mode bd m s) = layer_inv b P s"
  by (simp add: set_can_mode_def)

lemma layer_inv_harness_tick [simp]: "layer_inv b P (harness_tick bd s) = layer_inv b P s"
  by (simp add: harness_tick_def harness_detect_orientation_def Let_def)

lemma layer_inv_watchdog: "layer_inv b P s \<Longrightarrow> layer_inv b P (simple_watchdog_kick s)"
  by (simp add: simple_watchdog_kick_def Let_def layer_inv_upd_vars)

lemma layer_inv_power_save [simp]: "layer_inv b P (set_power_save_state st s) = layer_inv b P s"
  by (simp add: set_power_save_state_def Let_def)

lemma layer_inv_fan [simp]: "layer_inv b P (fan_set_power bd k s) = layer_inv b P s"
  by (simp add: fan_set_power_def)

lemma layer_inv_bootkick [simp]: "layer_inv b P (bootkick_tick i r s) = layer_inv b P s"
  by (simp add: bootkick_tick_def Let_def)

lemma layer_inv_clear_send [simp]: "layer_inv b P (can_clear_send hw n s) = layer_inv b P s"
  by (simp add: can_clear_send_def Let_def split: option.split)

lemma layer_inv_enter_mode [simp]: "layer_inv b P (enter_mode bd hw m p s) = layer_inv b P s"
  by (simp add: enter_mode_def Let_def)

lemma silent_registered: "SAFETY_SILENT \<in> fst ` set (safety_hook_registry b)"
  using registry_hooks(3) [of Nooutput_hooks b] by force

lemma set_safety_hooks_status: "fst (set_safety_hooks b m p v) = (if m \<in> fst ` set (safety_hook_registry b) then 0 else - 1)"
  by (simp add: set_safety_hooks_known(1) set_safety_hooks_unknown)

text \<open>The fatal assertion never fires: an unknown mode ends in the silent mode.\<close>

definition mode_chosen :: "build_flags \<Rightarrow> u16 \<Rightarrow> u16" where
  "mode_chosen b m = (if m \<in> fst ` set (safety_hook_registry b) then m else SAFETY_SILENT)"

definition mode_vars :: "build_flags \<Rightarrow> u16 \<Rightarrow> u16 \<Rightarrow> statics \<Rightarrow> statics" where
  "mode_vars b m p v = (let w = snd (set_safety_hooks b m p v)
     in if m \<in> fst ` set (safety_hook_registry b) then w else snd (set_safety_hooks b SAFETY_SILENT 0 w))"

lemma set_safety_mode_eq:
  "set_safety_mode b bd hw m p s = Some (can_init_all hw (has_canfd bd) (enter_mode bd hw (mode_chosen b m) p
     (s\<lparr>safety_vars := mode_vars b m p (safety_vars s), safety_tx_blocked := 0, safety_rx_invalid := 0\<rparr>)))"
proof (cases "m \<in> fst ` set (safety_hook_registry b)")
  case True
  then have "fst (set_safety_hooks b m p (safety_vars s)) = 0" by (simp add: set_safety_hooks_status)
  then show ?thesis using True
    by (simp add: set_safety_mode_def mode_chosen_def mode_vars_def Let_def case_prod_beta)
next
  case False
  have 1: "fst (set_safety_hooks b m p (safety_vars s)) = - 1" using False by (simp add: set_safety_hooks_status)
  have 2: "fst (set_safety_hooks b SAFETY_SILENT 0 w) = 0" for w :: statics
    by (simp add: set_safety_hooks_status silent_registered)
  show ?thesis using False
    by (simp add: set_safety_mode_def mode_chosen_def mode_vars_def Let_def case_prod_beta 1 2)
qed

lemma mode_chosen_registered: "mode_chosen b m \<in> fst ` set (safety_hook_registry b)"
  by (simp add: mode_chosen_def silent_registered)

lemma mode_vars_facts:
  "current_safety_mode (mode_vars b m p v) = mode_chosen b m"
  "\<not> relay_malfunction (mode_vars b m p v)"
  "mode_chosen b m \<noteq> SAFETY_ALLOUTPUT \<Longrightarrow> \<not> controls_allowed (mode_vars b m p v)"
  by (cases "m \<in> fst ` set (safety_hook_registry b)";
      simp add: mode_vars_def mode_chosen_def Let_def set_safety_hooks_known silent_registered)+

lemma layer_inv_mode_vars:
  assumes "layer_inv b P s"
  shows "layer_inv b P (s\<lparr>safety_vars := mode_vars b m p (safety_vars s)\<rparr>)"
proof -
  let ?s = "s\<lparr>safety_vars := snd (set_safety_hooks b m p (safety_vars s))\<rparr>"
  have 1: "layer_inv b P ?s"
    using assms safety_step.mode by (rule layer_inv_safety_step)
  have "layer_inv b P (?s\<lparr>safety_vars := snd (set_safety_hooks b SAFETY_SILENT 0 (safety_vars ?s))\<rparr>)"
    using 1 safety_step.mode by (rule layer_inv_safety_step)
  then show ?thesis using 1 by (simp add: mode_vars_def Let_def)
qed

lemma layer_inv_set_mode: "set_safety_mode b bd hw m p s = Some t \<Longrightarrow> layer_inv b P s \<Longrightarrow> layer_inv b P t"
  using layer_inv_mode_vars [of b P s m p] by (auto simp: set_safety_mode_eq intro!: layer_inv_init_all)

lemma layer_inv_timers: "layer_inv b P s \<Longrightarrow> layer_inv b P (controls_timers s)"
  by (simp add: controls_timers_def Let_def layer_inv_upd_vars)

lemma layer_inv_counters: "layer_inv b P s \<Longrightarrow> layer_inv b P (counters_tick s)"
  by (simp add: counters_tick_def Let_def layer_inv_upd_vars)

lemma layer_inv_age [simp]: "layer_inv b P (heartbeat_age s) = layer_inv b P s"
  by (simp add: heartbeat_age_def Let_def)

text \<open>A missing heartbeat, spelled out.\<close>

definition heartbeat_late :: "'a fw \<Rightarrow> bool" where
  "heartbeat_late s \<longleftrightarrow> \<not> heartbeat_disabled s \<and>
     heartbeat_counter s \<ge> (if check_started s then HEARTBEAT_IGNITION_CNT_ON else HEARTBEAT_IGNITION_CNT_OFF)"

definition to_silent :: "build_flags \<Rightarrow> board \<Rightarrow> core_behaviour \<Rightarrow> 'a fw \<Rightarrow> 'a fw" where
  "to_silent b bd hw s = the (set_safety_mode b bd hw SAFETY_SILENT 0 s)"

lemma to_silent: "set_safety_mode b bd hw SAFETY_SILENT 0 s = Some (to_silent b bd hw s)"
  by (simp add: to_silent_def set_safety_mode_eq)

lemma layer_inv_to_silent: "layer_inv b P s \<Longrightarrow> layer_inv b P (to_silent b bd hw s)"
  by (rule layer_inv_set_mode [OF to_silent])

definition give_up :: "build_flags \<Rightarrow> board \<Rightarrow> core_behaviour \<Rightarrow> 'a fw \<Rightarrow> 'a fw" where
  "give_up b bd hw s =
     (let s = (if controls_allowed_countdown s > 0
               then s\<lparr>siren_countdown := 5, controls_allowed_countdown := 0\<rparr> else s);
          s = (if is_car_safety_mode (current_safety_mode (safety_vars s)) then s\<lparr>heartbeat_lost := True\<rparr> else s);
          s = upd_vars (\<lambda>v. v\<lparr>heartbeat_engaged := False\<rparr>) s;
          s = (if current_safety_mode (safety_vars s) \<noteq> SAFETY_SILENT then to_silent b bd hw s else s);
          s = (if power_save_status s \<noteq> POWER_SAVE_STATUS_ENABLED
               then set_power_save_state POWER_SAVE_STATUS_ENABLED s else s);
          s = s\<lparr>ir_power := 0\<rparr>
      in fan_set_power bd (if usb_enumerated s \<or> som_gpio s then 50 else 0) s)"

lemma heartbeat_check_eq:
  "heartbeat_check b bd hw s = Some (if heartbeat_late s then give_up b bd hw s else s)"
proof (cases "heartbeat_late s")
  case True
  let ?u = "\<lambda>s :: 'a fw. upd_vars (\<lambda>v. v\<lparr>heartbeat_engaged := False\<rparr>) s"
  have "(if current_safety_mode (safety_vars u) \<noteq> SAFETY_SILENT then set_safety_mode b bd hw SAFETY_SILENT 0 u else Some u) =
      Some (if current_safety_mode (safety_vars u) \<noteq> SAFETY_SILENT then to_silent b bd hw u else u)" for u :: "'a fw"
    by (simp add: to_silent)
  with True show ?thesis
    unfolding heartbeat_check_def heartbeat_late_def [symmetric] give_up_def Let_def by (simp only: if_True option.case)
next
  case False
  then show ?thesis by (auto simp: heartbeat_check_def heartbeat_late_def)
qed

lemma layer_inv_give_up: "layer_inv b P s \<Longrightarrow> layer_inv b P (give_up b bd hw s)"
  by (simp add: give_up_def Let_def layer_inv_upd_vars layer_inv_to_silent)

definition second_tick :: "build_flags \<Rightarrow> board \<Rightarrow> core_behaviour \<Rightarrow> 'a fw \<Rightarrow> 'a fw" where
  "second_tick b bd hw s =
     (let s = s\<lparr>can_live := pending_can_live s\<rparr>;
          s = (if uptime_cnt s AND 0xF = 0 then s\<lparr>pending_can_live := 0\<rparr> else s);
          s = bootkick_tick (check_started s) (heartbeat_counter s = 0) s;
          s = controls_timers (heartbeat_age s);
          s = (if heartbeat_late s then give_up b bd hw s else s)
      in upd_vars safety_tick (counters_tick s))"

lemma tick_1Hz_eq: "tick_1Hz b bd hw s = Some (second_tick b bd hw s)"
  unfolding tick_1Hz_def second_tick_def Let_def by (simp only: heartbeat_check_eq option.case)

lemma layer_inv_second: "layer_inv b P s \<Longrightarrow> layer_inv b P (second_tick b bd hw s)"
  by (simp add: second_tick_def Let_def layer_inv_upd_vars layer_inv_counters layer_inv_timers layer_inv_give_up)

definition harness_switch :: "build_flags \<Rightarrow> board \<Rightarrow> core_behaviour \<Rightarrow> 'a fw \<Rightarrow> 'a fw" where
  "harness_switch b bd hw s = the (harness_changed b bd hw s)"

lemma harness_changed_eq: "harness_changed b bd hw s = Some (harness_switch b bd hw s)"
  by (simp add: harness_switch_def harness_changed_def Let_def set_safety_mode_eq)

lemma layer_inv_harness:
  assumes "layer_inv b P s"
  shows "layer_inv b P (harness_switch b bd hw s)"
proof (cases "status (harness s) \<noteq> prev_harness_status s")
  case True
  let ?s = "can_init_all hw (has_canfd bd) (can_set_orientation (status (harness s) = HARNESS_STATUS_FLIPPED)
    (s\<lparr>prev_harness_status := status (harness s)\<rparr>))"
  obtain t where t: "set_safety_mode b bd hw (current_safety_mode (safety_vars ?s)) (current_safety_param (safety_vars ?s)) ?s = Some t"
    by (simp add: set_safety_mode_eq)
  have "layer_inv b P ?s" using assms by (intro layer_inv_init_all layer_inv_orientation) simp
  with t have "layer_inv b P t" by (rule layer_inv_set_mode)
  moreover have "harness_switch b bd hw s = set_power_save_state (power_save_status t) t"
    using True t by (simp add: harness_switch_def harness_changed_def Let_def)
  ultimately show ?thesis by simp
next
  case False
  then show ?thesis using assms by (simp add: harness_switch_def harness_changed_def)
qed

text \<open>The whole tick, for as long as it enters no wait without end.\<close>

definition tick :: "build_flags \<Rightarrow> board \<Rightarrow> core_behaviour \<Rightarrow> 'a fw \<Rightarrow> 'a fw" where
  "tick b bd hw s =
     (let s = s\<lparr>siren := loop_counter s AND 1 \<noteq> 0 \<and> (siren_enabled s \<or> siren_countdown s > 0)\<rparr>;
          s = harness_switch b bd hw (simple_watchdog_kick (harness_tick bd s));
          s = (if loop_counter s = 0 then second_tick b bd hw s else s)
      in s\<lparr>loop_counter := (loop_counter s + 1) mod 8\<rparr>)"

lemma tick_handler_eq:
  "tick_handler b bd hw sr s =
     (if sr = 0 then Some s else if hung (tick b bd hw s) then None else Some (tick b bd hw s))"
proof -
  have "(if loop_counter u = 0 then tick_1Hz b bd hw u else Some u) =
      Some (if loop_counter u = 0 then second_tick b bd hw u else u)" for u :: "'a fw"
    by (simp add: tick_1Hz_eq)
  then show ?thesis
    unfolding tick_handler_def tick_def Let_def harness_changed_eq by (simp split: if_splits)
qed

lemma layer_inv_tick: "layer_inv b P s \<Longrightarrow> layer_inv b P (tick b bd hw s)"
  by (simp add: tick_def Let_def layer_inv_harness layer_inv_second layer_inv_watchdog)

section \<open>The transfer buffers\<close>

definition bufs :: "'a cst \<Rightarrow> asm_buffer \<times> asm_buffer" where
  "bufs s = (can_write_buffer s, can_read_buffer s)"

lemma bufs_fields [simp]:
  "bufs (s\<lparr>uptime_cnt := y_0\<rparr>) = bufs s"
  "bufs (s\<lparr>heartbeat_counter := y_1\<rparr>) = bufs s"
  "bufs (s\<lparr>heartbeat_lost := y_2\<rparr>) = bufs s"
  "bufs (s\<lparr>heartbeat_disabled := y_3\<rparr>) = bufs s"
  "bufs (s\<lparr>siren_enabled := y_4\<rparr>) = bufs s"
  "bufs (s\<lparr>green_led_enabled := y_5\<rparr>) = bufs s"
  "bufs (s\<lparr>power_save_status := y_6\<rparr>) = bufs s"
  "bufs (s\<lparr>harness := y_7\<rparr>) = bufs s"
  "bufs (s\<lparr>wd_state := y_8\<rparr>) = bufs s"
  "bufs (s\<lparr>siren_countdown := y_9\<rparr>) = bufs s"
  "bufs (s\<lparr>controls_allowed_countdown := y_10\<rparr>) = bufs s"
  "bufs (s\<lparr>prev_harness_status := y_11\<rparr>) = bufs s"
  "bufs (s\<lparr>loop_counter := y_12\<rparr>) = bufs s"
  "bufs (s\<lparr>bootkick := y_13\<rparr>) = bufs s"
  "bufs (s\<lparr>ignition_line := y_14\<rparr>) = bufs s"
  "bufs (s\<lparr>adc_sbu1 := y_15\<rparr>) = bufs s"
  "bufs (s\<lparr>adc_sbu2 := y_16\<rparr>) = bufs s"
  "bufs (s\<lparr>som_gpio := y_17\<rparr>) = bufs s"
  "bufs (s\<lparr>som_serial_ptr := y_18\<rparr>) = bufs s"
  "bufs (s\<lparr>usb_enumerated := y_19\<rparr>) = bufs s"
  "bufs (s\<lparr>relay_sbu1 := y_20\<rparr>) = bufs s"
  "bufs (s\<lparr>relay_sbu2 := y_21\<rparr>) = bufs s"
  "bufs (s\<lparr>can_mode := y_22\<rparr>) = bufs s"
  "bufs (s\<lparr>transceivers := y_23\<rparr>) = bufs s"
  "bufs (s\<lparr>ir_power := y_24\<rparr>) = bufs s"
  "bufs (s\<lparr>fan_target_rpm := y_25\<rparr>) = bufs s"
  "bufs (s\<lparr>siren := y_26\<rparr>) = bufs s"
  "bufs (s\<lparr>bootkick_out := y_27\<rparr>) = bufs s"
  "bufs (s\<lparr>safety_vars := y_28\<rparr>) = bufs s"
  "bufs (s\<lparr>safety_tx_blocked := y_29\<rparr>) = bufs s"
  "bufs (s\<lparr>safety_rx_invalid := y_30\<rparr>) = bufs s"
  "bufs (s\<lparr>ignition_can := y_31\<rparr>) = bufs s"
  "bufs (s\<lparr>ignition_can_cnt := y_32\<rparr>) = bufs s"
  "bufs (s\<lparr>can_live := y_33\<rparr>) = bufs s"
  "bufs (s\<lparr>pending_can_live := y_34\<rparr>) = bufs s"
  "bufs (s\<lparr>can_silent := y_35\<rparr>) = bufs s"
  "bufs (s\<lparr>can_loopback := y_36\<rparr>) = bufs s"
  "bufs (s\<lparr>hung := y_37\<rparr>) = bufs s"
  by (simp_all add: bufs_def)

lemma bufs_outside: "outside t = outside s \<Longrightarrow> bufs t = bufs s"
  by (simp add: outside_def bufs_def)

lemma bufs_layer [simp]:
  "bufs (upd_health n f s) = bufs s" "bufs (upd_can n g s) = bufs s" "bufs (upd_bus n h s) = bufs s"
  "bufs (process_can hw n s) = bufs s" "bufs (can_send b hw p bus skip s) = bufs s"
  "bufs (can_clear_send hw n s) = bufs s" "bufs (update_can_health_pkt hw n ir s) = bufs s"
  "bufs (can_clear_tx n s) = bufs s" "bufs (can_clear_rx s) = bufs s" "bufs (can_set_orientation flipped s) = bufs s"
  "bufs (snd (can_init hw n s)) = bufs s" "bufs (can_init_all hw fd s) = bufs s" "bufs (upd_vars u s) = bufs s"
  by (auto intro: bufs_outside simp: upd_vars_def)

lemma bufs_rx: "can_rx b hw fuel n s = Some t \<Longrightarrow> bufs t = bufs s"
  by (rule bufs_outside) (rule outside_rx)

lemma bufs_relay [simp]: "bufs (set_intercept_relay bd x y s) = bufs s" "bufs (set_can_mode bd m s) = bufs s"
  by (simp_all add: set_intercept_relay_def sbu_adc_wait_def set_can_mode_def Let_def)

lemma bufs_harness_tick [simp]: "bufs (harness_tick bd s) = bufs s"
  by (simp add: harness_tick_def harness_detect_orientation_def Let_def)

lemma bufs_main [simp]:
  "bufs (set_power_save_state st s) = bufs s" "bufs (fan_set_power bd k s) = bufs s"
  "bufs (bootkick_tick i r s) = bufs s" "bufs (simple_watchdog_kick s) = bufs s"
  "bufs (heartbeat_age s) = bufs s" "bufs (controls_timers s) = bufs s" "bufs (counters_tick s) = bufs s"
  by (simp_all add: set_power_save_state_def fan_set_power_def bootkick_tick_def simple_watchdog_kick_def
      heartbeat_age_def controls_timers_def counters_tick_def Let_def)

lemma bufs_set_mode: "set_safety_mode b bd hw m p s = Some t \<Longrightarrow> bufs t = bufs s"
  by (auto simp: set_safety_mode_eq enter_mode_def Let_def)

lemma bufs_to_silent [simp]: "bufs (to_silent b bd hw s) = bufs s"
  by (rule bufs_set_mode [OF to_silent])

lemma bufs_second [simp]: "bufs (second_tick b bd hw s) = bufs s"
  by (simp add: second_tick_def give_up_def Let_def)

lemma bufs_harness [simp]: "bufs (harness_switch b bd hw s) = bufs s"
proof (cases "status (harness s) \<noteq> prev_harness_status s")
  case True
  let ?s = "can_init_all hw (has_canfd bd) (can_set_orientation (status (harness s) = HARNESS_STATUS_FLIPPED)
    (s\<lparr>prev_harness_status := status (harness s)\<rparr>))"
  obtain t where t: "set_safety_mode b bd hw (current_safety_mode (safety_vars ?s)) (current_safety_param (safety_vars ?s)) ?s = Some t"
    by (simp add: set_safety_mode_eq)
  have "harness_switch b bd hw s = set_power_save_state (power_save_status t) t"
    using True t by (simp add: harness_switch_def harness_changed_def Let_def)
  then show ?thesis using bufs_set_mode [OF t] by simp
qed (simp add: harness_switch_def harness_changed_def)

lemma bufs_tick [simp]: "bufs (tick b bd hw s) = bufs s"
  by (simp add: tick_def Let_def)

section \<open>The events\<close>

text \<open>
  \<open>World\<close> is everything outside: pins, converters, the registers of the controllers and of the
  USB core, the clock, and what is left on the stack.
\<close>

datatype fw_event = Rx_irq u8 nat | Tx_irq u8 | Host_write "u8 list" | Host_read nat
  | Request ControlPacket_t | Timer u32 | World

inductive fw_step ::
  "build_flags \<Rightarrow> board \<Rightarrow> core_behaviour \<Rightarrow> 'a fw \<Rightarrow> fw_event \<Rightarrow> 'a fw \<Rightarrow> bool" for b bd hw where
  rx_irq: "n < 3 \<Longrightarrow> can_rx b hw fuel n s = Some t \<Longrightarrow> fw_step b bd hw s (Rx_irq n fuel) t"
| tx_irq: "n < 3 \<Longrightarrow> fw_step b bd hw s (Tx_irq n) (process_can hw n s)"
| host_write: "fw_step b bd hw s (Host_write data) (comms_can_write b hw data s)"
| host_read: "fw_step b bd hw s (Host_read k) (snd (comms_can_read k s))"
| host_request: "comms_control_handler b bd hw req s = Response resp t \<Longrightarrow> fw_step b bd hw s (Request req) t"
| timer: "tick_handler b bd hw sr s = Some t \<Longrightarrow> fw_step b bd hw s (Timer sr) t"
| world: "length cs = 3 \<Longrightarrow> packet_ok p \<Longrightarrow> fw_step b bd hw s World
    (s\<lparr>safety_vars := (safety_vars s)\<lparr>microsecond_timer := ts\<rparr>, cans := cs, stack_packet := p,
       outep3_processing := o3, DOEPCTL3 := d3, spi_can_tx_ready := rdy, irq_call_rates := rates,
       ignition_line := ign, adc_sbu1 := a1, adc_sbu2 := a2, som_gpio := g, som_serial_ptr := sp,
       usb_enumerated := ue\<rparr>)"

inductive_cases fw_step_TimerE: "fw_step b bd hw s (Timer sr) t"
inductive_cases fw_step_RequestE: "fw_step b bd hw s (Request req) t"

inductive fw_run ::
  "build_flags \<Rightarrow> board \<Rightarrow> core_behaviour \<Rightarrow> 'a fw \<Rightarrow> fw_event list \<Rightarrow> 'a fw \<Rightarrow> bool" for b bd hw where
  nil: "fw_run b bd hw s [] s"
| step: "fw_step b bd hw s e t \<Longrightarrow> fw_run b bd hw t es u \<Longrightarrow> fw_run b bd hw s (e # es) u"

inductive_simps fw_run_Nil [simp]: "fw_run b bd hw s [] t"
inductive_simps fw_run_Cons: "fw_run b bd hw s (e # es) t"

text \<open>Neither waiting forever nor about to: nobody holds the lock of the converter.\<close>

definition running :: "'a fw \<Rightarrow> bool" where
  "running s \<longleftrightarrow> \<not> hung s \<and> \<not> sbu_adc_lock (harness s)"

text \<open>Memory when \<open>main\<close> starts, and the states after it.\<close>

definition fw_start :: "'a fw \<Rightarrow> bool" where
  "fw_start s \<longleftrightarrow> safety_start (safety_vars s) \<and> can_ok s \<and> (\<forall>m<3. tx_content s m = []) \<and> tx_requests s = [] \<and>
     bufs s = (asm_buffer_0, asm_buffer_0) \<and> loop_counter s = 0 \<and> running s"

definition fw_reachable :: "build_flags \<Rightarrow> board \<Rightarrow> core_behaviour \<Rightarrow> 'a fw \<Rightarrow> bool" where
  "fw_reachable b bd hw s \<longleftrightarrow> (\<exists>s0 s1 es. fw_start s0 \<and> main_init b bd hw s0 = Some s1 \<and> fw_run b bd hw s1 es s)"

definition fw_inv :: "build_flags \<Rightarrow> 'a fw \<Rightarrow> bool" where
  "fw_inv b s \<longleftrightarrow> layer_inv b (\<lambda>_. True) s \<and> buffer_ok (can_write_buffer s) \<and> read_ok s"

lemma fw_inv_bufs: "layer_inv b (\<lambda>_. True) t \<Longrightarrow> bufs t = bufs s \<Longrightarrow> fw_inv b s \<Longrightarrow> fw_inv b t"
  by (simp add: fw_inv_def bufs_def read_ok_def layer_inv_def)

lemma fw_inv_layer: "fw_inv b s \<Longrightarrow> layer_inv b (\<lambda>_. True) s"
  by (simp add: fw_inv_def)

text \<open>What the host can ask for.\<close>

lemma layer_inv_requests:
  assumes "layer_inv b P s"
  shows "layer_inv b P (snd (req_can_health hw p1 s))" "layer_inv b P (req_obd_mode bd p1 s)"
    "layer_inv b P (req_alternative_experience p1 s)" "layer_inv b P (req_loopback bd hw p1 s)"
    "layer_inv b P (req_heartbeat p1 s)" "layer_inv b P (req_disable_heartbeat s)"
  using assms
  by (simp_all add: req_can_health_def req_obd_mode_def req_alternative_experience_def req_loopback_def
      req_heartbeat_def req_disable_heartbeat_def Let_def layer_inv_upd_vars layer_inv_init_all layer_inv_health)

lemma bufs_requests [simp]:
  "bufs (snd (req_can_health hw p1 s)) = bufs s" "bufs (req_obd_mode bd p1 s) = bufs s"
  "bufs (req_alternative_experience p1 s) = bufs s" "bufs (req_loopback bd hw p1 s) = bufs s"
  "bufs (req_heartbeat p1 s) = bufs s" "bufs (req_disable_heartbeat s) = bufs s"
  "bufs (req_can_speed hw p1 p2 s) = bufs s" "bufs (req_clear_ring p1 s) = bufs s"
  "bufs (req_data_speed bd hw p1 p2 s) = bufs s" "bufs (req_non_iso bd hw p1 p2 s) = bufs s"
  by (simp_all add: req_can_health_def req_obd_mode_def req_alternative_experience_def req_loopback_def
      req_heartbeat_def req_disable_heartbeat_def req_can_speed_def req_clear_ring_def req_data_speed_def
      req_non_iso_def Let_def)

lemma layer_inv_bus_setup:
  assumes "layer_inv b P s" "n < 3" "\<And>c. bus_ok c \<Longrightarrow> bus_ok (h c)"
  shows "layer_inv b P (snd (can_init hw (CAN_NUM_FROM_BUS_NUM (upd_bus n h s) n) (upd_bus n h s)))"
proof -
  have "layer_inv b P (upd_bus n h s)" using assms(1,3) by (rule layer_inv_upd_bus)
  then show ?thesis using assms(2) by (intro layer_inv_init can_number_ok) (simp_all add: layer_inv_def)
qed

lemma bus_param: "p1 < (3 :: u16) \<Longrightarrow> (ucast p1 :: u8) < 3"
  by (simp add: word_less_nat_alt unsigned_ucast_eq take_bit_nat_eq_self)

lemma layer_inv_bus_requests:
  assumes "layer_inv b P s"
  shows "layer_inv b P (req_can_speed hw p1 p2 s)" "layer_inv b P (req_clear_ring p1 s)"
    "layer_inv b P (req_data_speed bd hw p1 p2 s)" "layer_inv b P (req_non_iso bd hw p1 p2 s)"
proof -
  have three: "ucast (3 :: u8) = (3 :: u16)" by simp
  have u: "upd_bus n f (upd_bus n g s) = upd_bus n (\<lambda>c. f (g c)) s" for n f g and s :: "'b cst"
    by (cases "unat n < length (bus_config s)") (simp_all add: upd_bus_def list_update_beyond)
  show "layer_inv b P (req_can_speed hw p1 p2 s)" "layer_inv b P (req_clear_ring p1 s)"
    "layer_inv b P (req_data_speed bd hw p1 p2 s)" "layer_inv b P (req_non_iso bd hw p1 p2 s)"
    using assms
    by (auto simp: req_can_speed_def req_clear_ring_def req_data_speed_def req_non_iso_def Let_def u three
        PANDA_BUS_CNT_def PANDA_CAN_CNT_def bus_ok_def bus_param layer_inv_clear_tx layer_inv_clear_rx
        intro!: layer_inv_bus_setup)
qed

text \<open>What a request does to the state.\<close>

inductive request_effect ::
  "build_flags \<Rightarrow> board \<Rightarrow> core_behaviour \<Rightarrow> u8 \<Rightarrow> 'a fw \<Rightarrow> 'a fw \<Rightarrow> bool" for b bd hw r s where
  same: "request_effect b bd hw r s s"
| ir: "request_effect b bd hw r s (s\<lparr>ir_power := i\<rparr>)"
| fan: "request_effect b bd hw r s (fan_set_power bd k s)"
| reset: "request_effect b bd hw r s (comms_can_reset s)"
| health: "request_effect b bd hw r s (snd (req_can_health hw p s))"
| relay: "request_effect b bd hw r s (set_intercept_relay bd x y s)"
| obd: "request_effect b bd hw r s (req_obd_mode bd p s)"
| mode: "r = 0xdc \<Longrightarrow> set_safety_mode b bd hw m p s = Some t \<Longrightarrow> request_effect b bd hw r s t"
| speed: "request_effect b bd hw r s (req_can_speed hw p q s)"
| experience: "request_effect b bd hw r s (req_alternative_experience p s)"
| loopback: "request_effect b bd hw r s (req_loopback bd hw p s)"
| power: "request_effect b bd hw r s (set_power_save_state st s)"
| clear: "request_effect b bd hw r s (req_clear_ring p s)"
| heartbeat: "request_effect b bd hw r s (req_heartbeat p s)"
| siren: "request_effect b bd hw r s (s\<lparr>siren_enabled := c\<rparr>)"
| led: "request_effect b bd hw r s (s\<lparr>green_led_enabled := c\<rparr>)"
| unguard: "request_effect b bd hw r s (req_disable_heartbeat s)"
| data_speed: "request_effect b bd hw r s (req_data_speed bd hw p q s)"
| non_iso: "request_effect b bd hw r s (req_non_iso bd hw p q s)"

lemma comms_control_effect:
  assumes "comms_control_handler b bd hw req s = Response resp t"
  shows "request_effect b bd hw (request req) s t"
  using assms unfolding comms_control_handler_def answer_def Let_def
  by (auto simp: case_prod_beta split: if_splits option.splits intro: request_effect.intros)

lemma layer_inv_request:
  assumes "comms_control_handler b bd hw req s = Response resp t" "layer_inv b P s"
  shows "layer_inv b P t"
  using comms_control_effect [OF assms(1)]
proof (cases rule: request_effect.cases)
  case reset
  then show ?thesis by (simp add: layer_inv_reset assms(2))
next
  case (mode m p)
  show ?thesis using mode(2) assms(2) by (rule layer_inv_set_mode)
qed (simp_all add: assms(2) layer_inv_requests layer_inv_bus_requests)

lemma fw_inv_request:
  assumes "comms_control_handler b bd hw req s = Response resp t" "fw_inv b s"
  shows "fw_inv b t"
proof -
  have s: "layer_inv b (\<lambda>_. True) s" "buffer_ok (can_write_buffer s)" "read_ok s" using assms(2) by (simp_all add: fw_inv_def)
  have t: "layer_inv b (\<lambda>_. True) t" using assms(1) s(1) by (rule layer_inv_request)
  note k = fw_inv_bufs [OF t _ assms(2)]
  from comms_control_effect [OF assms(1)] show ?thesis
  proof (cases rule: request_effect.cases)
    case reset
    then show ?thesis using s(2,3) t buffer_ok_reset(1) [of s]
      by (auto simp: fw_inv_def read_ok_def layer_inv_def comms_can_reset_def buffer_ok_def Let_def)
  next
    case (mode m p)
    show ?thesis using bufs_set_mode [OF mode(2)] by (rule k)
  qed (intro k; simp)+
qed

text \<open>The invariant of the firmware.\<close>

lemma layer_inv_world:
  assumes "layer_inv b P s" "length cs = 3" "packet_ok p"
  shows "layer_inv b P (s\<lparr>safety_vars := (safety_vars s)\<lparr>microsecond_timer := ts\<rparr>, cans := cs, stack_packet := p,
       outep3_processing := o3, DOEPCTL3 := d3, spi_can_tx_ready := rdy, irq_call_rates := rates,
       ignition_line := ign, adc_sbu1 := a1, adc_sbu2 := a2, som_gpio := g, som_serial_ptr := sp,
       usb_enumerated := ue\<rparr>)"
proof -
  have "safety_reachable b ((safety_vars s)\<lparr>microsecond_timer := ts\<rparr>)"
    using assms(1) safety_step_env(5) by (auto simp: layer_inv_def intro: safety_reachable_step)
  then show ?thesis
    using assms by (auto simp: layer_inv_def can_ok_def only_sends_def tx_content_def)
qed

text \<open>What an event lets out: the packets accepted of a transfer, those forwarded of the received ones.\<close>

definition granted :: "build_flags \<Rightarrow> core_behaviour \<Rightarrow> 'a fw \<Rightarrow> fw_event \<Rightarrow> CANPacket_t \<Rightarrow> bool" where
  "granted b hw s e p =
     (case e of Host_write data \<Rightarrow> accepted b hw data s p | Rx_irq n fuel \<Rightarrow> forwarded b hw n s p | _ \<Rightarrow> False)"

lemma layer_inv_event:
  assumes "fw_step b bd hw s e t" "buffer_ok (can_write_buffer s)" "layer_inv b P s"
    and g: "\<And>p. granted b hw s e p \<Longrightarrow> P p"
  shows "layer_inv b P t"
  using assms(1)
proof (cases rule: fw_step.cases)
  case (rx_irq n fuel)
  then show ?thesis using g by (intro layer_inv_rx [of b hw fuel n s t]) (simp_all add: assms(3) granted_def)
next
  case (tx_irq n)
  then show ?thesis using assms(3) by (simp add: layer_inv_process)
next
  case (host_write data)
  then show ?thesis using g by (auto intro!: layer_inv_write assms(2,3) simp: granted_def)
next
  case (host_read k)
  then show ?thesis using assms(3) by (simp add: layer_inv_read)
next
  case (host_request req resp)
  show ?thesis using host_request(2) assms(3) by (rule layer_inv_request)
next
  case (timer sr)
  then show ?thesis using assms(3) by (auto simp: tick_handler_eq layer_inv_tick split: if_splits)
next
  case (world cs p)
  then show ?thesis using assms(3) by (simp only: layer_inv_world)
qed

lemma fw_inv_world:
  assumes "fw_inv b s" "length cs = 3" "packet_ok p"
  shows "fw_inv b (s\<lparr>safety_vars := (safety_vars s)\<lparr>microsecond_timer := ts\<rparr>, cans := cs, stack_packet := p,
       outep3_processing := o3, DOEPCTL3 := d3, spi_can_tx_ready := rdy, irq_call_rates := rates,
       ignition_line := ign, adc_sbu1 := a1, adc_sbu2 := a2, som_gpio := g, som_serial_ptr := sp,
       usb_enumerated := ue\<rparr>)"
  using layer_inv_world [OF fw_inv_layer [OF assms(1)] assms(2,3)] assms
  by (simp add: fw_inv_def read_ok_def) (simp add: can_ok_def)

lemma bufs_refresh [simp]: "bufs (refresh_can_tx_slots_available s) = bufs s"
  by (rule bufs_outside) (rule outside_refresh)

lemma bufs_sends [simp]: "bufs (fold (send_packet b hw) ps s) = bufs s"
  by (induction ps arbitrary: s) (simp_all add: send_packet_def)

lemma comms_can_write_reader:
  assumes "buffer_ok (can_write_buffer s)"
  shows "can_read_buffer (comms_can_write b hw data s) = can_read_buffer s"
proof -
  let ?t = "refresh_can_tx_slots_available (fold (send_packet b hw) (fst (decode_stream (pending_write s @ data))) s)"
  obtain w where w: "comms_can_write b hw data s = ?t\<lparr>can_write_buffer := w\<rparr>"
    using comms_can_write_eq [OF assms, of b hw data] by blast
  have "bufs ?t = bufs s" by (simp only: bufs_refresh bufs_sends)
  then show ?thesis by (simp add: w bufs_def)
qed

lemma read_loop_writer: "can_write_buffer (snd (comms_can_read_loop room s)) = can_write_buffer s"
proof (induction room s rule: comms_can_read_loop.induct)
  case (1 room s)
  obtain popped q' where pop: "can_pop (can_rx_q s) = (popped, q')" by fastforce
  then show ?case using 1 [OF _ pop [symmetric] refl]
    by (subst comms_can_read_loop.simps) (auto simp: Let_def case_prod_beta split: option.split)
qed

lemma comms_can_read_writer [simp]: "can_write_buffer (snd (comms_can_read k s)) = can_write_buffer s"
  by (auto simp: comms_can_read_def Let_def case_prod_beta read_loop_writer)

lemma fw_inv_step:
  assumes "fw_step b bd hw s e t" "fw_inv b s"
  shows "fw_inv b t"
proof -
  have s: "buffer_ok (can_write_buffer s)" "read_ok s" using assms(2) by (simp_all add: fw_inv_def)
  have t: "layer_inv b (\<lambda>_. True) t"
    using assms(1) s(1) fw_inv_layer [OF assms(2)] by (rule layer_inv_event) simp
  note k = fw_inv_bufs [OF t _ assms(2)]
  from assms(1) show ?thesis
  proof (cases rule: fw_step.cases)
    case (rx_irq n fuel)
    show ?thesis using rx_irq(3) by (intro k bufs_rx)
  next
    case (host_write data)
    then show ?thesis
      using t s comms_can_write_facts(1) [of s b hw data] comms_can_write_reader [of s b hw data]
      by (auto simp: fw_inv_def read_ok_def layer_inv_def)
  next
    case (host_read n)
    then show ?thesis
      using t s comms_can_read_spec [of s n, OF _ surjective_pairing] by (auto simp: fw_inv_def)
  next
    case (host_request req resp)
    then show ?thesis using assms(2) by (auto intro: fw_inv_request)
  next
    case (world cs p)
    then show ?thesis using assms(2) by (simp only: fw_inv_world)
  next
    case (tx_irq n)
    then show ?thesis by (intro k) simp
  next
    case (timer sr)
    show ?thesis using timer(2) assms(2) by (intro k) (auto simp: tick_handler_eq split: if_splits)
  qed
qed

lemma fw_inv_run: "fw_run b bd hw s es t \<Longrightarrow> fw_inv b s \<Longrightarrow> fw_inv b t"
  by (induction rule: fw_run.induct) (simp_all add: fw_inv_step)

lemma fw_inv_start:
  assumes "fw_start s"
  shows "fw_inv b s"
proof -
  have "safety_reachable b (safety_vars s)" using assms 
    unfolding fw_start_def safety_reachable_def by (blast intro: safety_run.nil)
  then show ?thesis using assms
    by (simp add: fw_start_def fw_inv_def layer_inv_def only_sends_def bufs_def asm_buffer_0_def buffer_ok_def read_ok_def)
qed

lemma fw_inv_init:
  assumes "main_init b bd hw s = Some t" "fw_inv b s"
  shows "fw_inv b t"
proof -
  have h: "layer_inv b (\<lambda>_. True) (harness_init bd s)" "bufs (harness_init bd s) = bufs s"
    using assms(2) by (simp_all add: harness_init_def fw_inv_def)
  obtain u where u: "set_safety_mode b bd hw SAFETY_SILENT 0 (harness_init bd s) = Some u"
    by (simp add: set_safety_mode_eq)
  have "layer_inv b (\<lambda>_. True) u" "bufs u = bufs s" using layer_inv_set_mode [OF u h(1)] bufs_set_mode [OF u] h(2) by simp_all
  then show ?thesis using assms u
    by (auto simp: main_init_def simple_watchdog_init_def Let_def split: if_splits intro!: fw_inv_bufs [of b _ s])
qed

lemma fw_inv_reachable: "fw_reachable b bd hw s \<Longrightarrow> fw_inv b s"
  unfolding fw_reachable_def by (metis fw_inv_run fw_inv_init fw_inv_start)

section \<open>Where a transmitted packet was let out\<close>

lemma layer_inv_run:
  assumes "fw_run b bd hw s es t" "fw_inv b s" "layer_inv b P s"
  shows "layer_inv b (\<lambda>p. P p \<or> (\<exists>es1 e es2 u. es = es1 @ e # es2 \<and> fw_run b bd hw s es1 u \<and> granted b hw u e p)) t"
  using assms
proof (induction arbitrary: P rule: fw_run.induct)
  case (nil s)
  then show ?case by (simp add: layer_inv_mono)
next
  case (step s e t es u)
  have "buffer_ok (can_write_buffer s)" using step.prems(1) by (simp add: fw_inv_def)
  then have "layer_inv b (\<lambda>p. P p \<or> granted b hw s e p) t"
    using step.prems(2) by (intro layer_inv_event [OF step.hyps(1)]) (auto elim: layer_inv_mono)
  from step.IH [OF fw_inv_step [OF step.hyps(1) step.prems(1)] this]
  show ?case
  proof (rule layer_inv_mono)
    fix p
    assume "(P p \<or> granted b hw s e p) \<or> (\<exists>es1 e' es2 w. es = es1 @ e' # es2 \<and> fw_run b bd hw t es1 w \<and> granted b hw w e' p)"
    then consider "P p" | "granted b hw s e p"
      | es1 e' es2 w where "es = es1 @ e' # es2" "fw_run b bd hw t es1 w" "granted b hw w e' p" by blast
    then show "P p \<or> (\<exists>es1 e' es2 w. e # es = es1 @ e' # es2 \<and> fw_run b bd hw s es1 w \<and> granted b hw w e' p)"
    proof cases
      case 1
      then show ?thesis ..
    next
      case 2
      then show ?thesis using fw_run.nil [of b bd hw s] append_Nil by blast
    next
      case 3
      then have "e # es = (e # es1) @ e' # es2" "fw_run b bd hw s (e # es1) w"
        using step.hyps(1) by (auto intro: fw_run.step)
      then show ?thesis using 3(3) by blast
    qed
  qed
qed

lemma layer_inv_main_init:
  assumes "main_init b bd hw s = Some t" "layer_inv b P s"
  shows "layer_inv b P t"
proof -
  have h: "layer_inv b P (harness_init bd s)" using assms(2) by (simp add: harness_init_def)
  obtain u where u: "set_safety_mode b bd hw SAFETY_SILENT 0 (harness_init bd s) = Some u"
    by (simp add: set_safety_mode_eq)
  have "layer_inv b P u" by (rule layer_inv_set_mode [OF u h])
  then show ?thesis using assms u by (auto simp: main_init_def simple_watchdog_init_def Let_def split: if_splits)
qed

lemma frames_granted:
  assumes "fw_start s0" "main_init b bd hw s0 = Some s1" "fw_run b bd hw s1 es s" "(n, i, e) \<in> set (tx_requests s)"
  obtains p fd brs es1 ev es2 u where "es = es1 @ ev # es2" "fw_run b bd hw s1 es1 u" "granted b hw u ev p"
    "can_check_checksum p" "e = element_of fd brs p"
proof -
  have "layer_inv b (\<lambda>_. False) s0"
    using fw_inv_layer [OF fw_inv_start [OF assms(1)], of b] assms(1)
    by (auto simp: layer_inv_def only_sends_def fw_start_def)
  then have "layer_inv b (\<lambda>_. False) s1" by (rule layer_inv_main_init [OF assms(2)])
  from layer_inv_run [OF assms(3) fw_inv_init [OF assms(2) fw_inv_start [OF assms(1)]] this] assms(4)
  obtain p fd brs where p: "\<exists>es1 ev es2 u. es = es1 @ ev # es2 \<and> fw_run b bd hw s1 es1 u \<and> granted b hw u ev p"
      "can_check_checksum p" "e = element_of fd brs p"
    by (fastforce simp: layer_inv_def only_sends_def)
  then show ?thesis using that by blast
qed

end
