(* ===== verification/Heartbeat.thy ===== *)
theory Heartbeat
  imports Firmware
begin

text \<open>
  What the firmware promises about a host that goes silent: while a car is connected and its mode is in
  force, without a request the mode is the silent one again after at most forty ticks of the timer, whatever
  arrives on the buses and in the transfers meanwhile. And what the host cannot change in such a mode.
\<close>

section \<open>What the CAN layer leaves alone\<close>

lemma program_of_more:
  assumes "can_layer.more t = can_layer.more s"
  shows "heartbeat_counter t = heartbeat_counter s" "heartbeat_disabled t = heartbeat_disabled s"
    "loop_counter t = loop_counter s" "harness t = harness s" "prev_harness_status t = prev_harness_status s"
    "power_save_status t = power_save_status s" "heartbeat_lost t = heartbeat_lost s"
    "adc_sbu1 t = adc_sbu1 s" "adc_sbu2 t = adc_sbu2 s"
  using assms by (cases s; cases t; simp)+

lemma program_outside:
  assumes "outside t = outside s"
  shows "heartbeat_counter t = heartbeat_counter s" "heartbeat_disabled t = heartbeat_disabled s"
    "loop_counter t = loop_counter s" "harness t = harness s" "prev_harness_status t = prev_harness_status s"
    "adc_sbu1 t = adc_sbu1 s" "adc_sbu2 t = adc_sbu2 s"
  using program_of_more [of t s] assms by (simp_all add: outside_def)

definition mode_of :: "'a cst \<Rightarrow> u16 \<times> hooks_ref" where
  "mode_of s = dispatch_of (safety_vars s)"

lemma mode_of_fst: "current_safety_mode (safety_vars s) = fst (mode_of s)"
  by (simp add: mode_of_def dispatch_of_def)

lemma layer_checks: "layer_inv b (\<lambda>_. True) s \<Longrightarrow> checks_inv (checks_of (safety_vars s))"
  using safety_inv_reachable by (auto simp: layer_inv_def safety_inv_def)

lemma mode_of_rx_one:
  assumes "layer_inv b (\<lambda>_. True) s" "n < 3"
  shows "mode_of (can_rx_one b hw n bus s) = mode_of s"
proof -
  let ?s = "(upd_health n (\<lambda>h. h\<lparr>total_rx_cnt := total_rx_cnt h + 1\<rparr>) s)\<lparr>pending_can_live := 1\<rparr>"
  have l: "can_ok (upd_health n f ?s)" for f using assms(1) by (simp add: layer_inv_def)
  have o: "can_ok ?s" using assms(1) by (simp add: layer_inv_def)
  show ?thesis
    using l o layer_checks [OF assms(1)] assms(2)
    by (auto simp: can_rx_one_def Let_def mode_of_def forward_packet_vars safety_rx_hook_keeps)
qed

lemma mode_of_rx_loop:
  "can_rx_loop b hw n bus k s = Some t \<Longrightarrow> layer_inv b (\<lambda>_. True) s \<Longrightarrow> n < 3 \<Longrightarrow> mode_of t = mode_of s"
proof (induction k arbitrary: s)
  case 0
  then show ?case by (simp add: can_rx_loop.simps split: if_splits)
next
  case (Suc k)
  then show ?case using layer_inv_rx_one [of b "\<lambda>_. True" s n bus hw] mode_of_rx_one [of b s n hw bus]
    by (auto simp: can_rx_loop.simps [of _ _ _ _ "Suc k"] split: if_splits)
qed

lemma mode_of_rx:
  assumes "can_rx b hw fuel n s = Some t" "layer_inv b (\<lambda>_. True) s" "n < 3"
  shows "mode_of t = mode_of s"
proof -
  let ?s = "upd_can n (\<lambda>c. write_IR hw (IR c OR FDCAN_IR_RF0N) c) s"
  obtain u where u: "can_rx_loop b hw n (BUS_NUM_FROM_CAN_NUM s n) fuel ?s = Some u"
    and t: "t = (if IR (cans s ! unat n) AND error_flags \<noteq> 0
      then update_can_health_pkt hw n (IR (cans s ! unat n)) u else u)"
    using assms(1) by (auto simp: can_rx_def Let_def split: option.splits if_splits)
  have "mode_of u = mode_of ?s" by (rule mode_of_rx_loop [OF u]) (simp_all add: assms)
  then show ?thesis by (simp add: t mode_of_def)
qed

lemma dispatch_of_sends: "dispatch_of (fold (\<lambda>p v. snd (safety_tx_hook b p v)) ps v) = dispatch_of v"
  by (induction ps arbitrary: v) (simp_all add: safety_tx_hook_keeps)

lemma mode_of_write: "buffer_ok (can_write_buffer s) \<Longrightarrow> mode_of (comms_can_write b hw data s) = mode_of s"
  by (simp add: mode_of_def comms_can_write_facts dispatch_of_sends)

lemma more_sends: "outside (fold (send_packet b hw) ps s) = outside s"
  by (induction ps arbitrary: s) (simp_all add: send_packet_def)

lemma more_write:
  assumes "buffer_ok (can_write_buffer s)"
  shows "can_layer.more (comms_can_write b hw data s) = can_layer.more s"
proof -
  let ?t = "refresh_can_tx_slots_available (fold (send_packet b hw) (fst (decode_stream (pending_write s @ data))) s)"
  obtain w where w: "comms_can_write b hw data s = ?t\<lparr>can_write_buffer := w\<rparr>"
    using comms_can_write_eq [OF assms, of b hw data] by blast
  have "outside ?t = outside s" by (simp only: outside_refresh more_sends)
  then show ?thesis by (simp add: w outside_def)
qed

lemma read_loop_more: "can_layer.more (snd (comms_can_read_loop room s)) = can_layer.more s"
proof (induction room s rule: comms_can_read_loop.induct)
  case (1 room s)
  obtain popped q' where pop: "can_pop (can_rx_q s) = (popped, q')" by fastforce
  then show ?case using 1 [OF _ pop [symmetric] refl]
    by (subst comms_can_read_loop.simps) (auto simp: Let_def case_prod_beta split: option.split)
qed

lemma read_loop_vars: "safety_vars (snd (comms_can_read_loop room s)) = safety_vars s"
proof (induction room s rule: comms_can_read_loop.induct)
  case (1 room s)
  obtain popped q' where pop: "can_pop (can_rx_q s) = (popped, q')" by fastforce
  then show ?case using 1 [OF _ pop [symmetric] refl]
    by (subst comms_can_read_loop.simps) (auto simp: Let_def case_prod_beta split: option.split)
qed

lemma read_rest_more: "can_layer.more (snd (comms_can_read k s)) = can_layer.more s"
proof (cases "ab_ptr (can_read_buffer s) = 0")
  case True
  then show ?thesis by (simp add: comms_can_read_def Let_def case_prod_beta read_loop_more)
qed (simp add: comms_can_read_buffered read_loop_more)

lemma read_rest_vars: "safety_vars (snd (comms_can_read k s)) = safety_vars s"
proof (cases "ab_ptr (can_read_buffer s) = 0")
  case True
  then show ?thesis by (simp add: comms_can_read_def Let_def case_prod_beta read_loop_vars)
qed (simp add: comms_can_read_buffered read_loop_vars)

lemmas read_rest = read_rest_more read_rest_vars

section \<open>A car that is connected\<close>

text \<open>
  \<open>driving\<close>: a car mode is in force and the relay is driven, so the orientation is not looked at.
  \<open>patience\<close> bounds the ticks left to the silent mode: five checks, one every eighth tick.
\<close>

definition silent :: "'a cst \<Rightarrow> bool" where
  "silent s \<longleftrightarrow> current_safety_mode (safety_vars s) = SAFETY_SILENT"

definition driving :: "'a fw \<Rightarrow> bool" where
  "driving s \<longleftrightarrow> is_car_safety_mode (current_safety_mode (safety_vars s)) \<and> relay_driven (harness s) \<and>
     prev_harness_status s = status (harness s) \<and> loop_counter s < 8"

definition patience :: "'a fw \<Rightarrow> nat" where
  "patience s = 8 * (4 - min (unat (heartbeat_counter s)) 4) + (8 - unat (loop_counter s)) mod 8 + 1"

lemma patience_le: "patience s \<le> 40"
  by (simp add: patience_def)

definition same_program :: "'a fw \<Rightarrow> 'a fw \<Rightarrow> bool" where
  "same_program t s \<longleftrightarrow> mode_of t = mode_of s \<and> heartbeat_counter t = heartbeat_counter s \<and>
     loop_counter t = loop_counter s \<and> harness t = harness s \<and> prev_harness_status t = prev_harness_status s"

lemma same_program_outside: "outside t = outside s \<Longrightarrow> mode_of t = mode_of s \<Longrightarrow> same_program t s"
  using program_outside [of t s] by (simp add: same_program_def)

lemma same_program_more: "can_layer.more t = can_layer.more s \<Longrightarrow> mode_of t = mode_of s \<Longrightarrow> same_program t s"
  using program_of_more [of t s] by (simp add: same_program_def)

lemma same_program_driving:
  assumes "same_program t s"
  shows "driving t = driving s" "patience t = patience s" "silent t = silent s"
  using assms by (simp_all add: same_program_def driving_def patience_def silent_def mode_of_fst)

section \<open>Between two ticks\<close>

definition is_request :: "fw_event \<Rightarrow> bool" where
  "is_request e \<longleftrightarrow> (case e of Request req \<Rightarrow> True | _ \<Rightarrow> False)"

definition is_tick :: "fw_event \<Rightarrow> bool" where
  "is_tick e \<longleftrightarrow> (case e of Timer sr \<Rightarrow> sr \<noteq> 0 | _ \<Rightarrow> False)"

lemma quiet_step:
  assumes "fw_step b bd hw s e t" "fw_inv b s" "\<not> is_request e" "\<not> is_tick e"
  shows "same_program t s"
  using assms(1)
proof (cases rule: fw_step.cases)
  case (rx_irq n fuel)
  then show ?thesis using fw_inv_layer [OF assms(2)] by (auto intro!: same_program_outside outside_rx mode_of_rx)
next
  case (tx_irq n)
  then show ?thesis by (auto intro!: same_program_outside simp: mode_of_def)
next
  case (host_write data)
  then show ?thesis using assms(2) by (auto intro!: same_program_more more_write mode_of_write simp: fw_inv_def)
next
  case (host_read k)
  then show ?thesis by (auto intro!: same_program_more simp: read_rest mode_of_def)
next
  case (timer sr)
  then show ?thesis using assms(4) by (simp add: is_tick_def tick_handler_eq same_program_def)
next
  case world
  then show ?thesis by (simp add: same_program_def mode_of_def dispatch_of_def)
qed (use assms(3) in \<open>simp add: is_request_def\<close>)

section \<open>A tick\<close>

lemma dispatch_program [simp]:
  "dispatch_of (v\<lparr>heartbeat_engaged := h\<rparr>) = dispatch_of v"
  "dispatch_of (v\<lparr>heartbeat_engaged_mismatches := m\<rparr>) = dispatch_of v"
  "dispatch_of (v\<lparr>alternative_experience := x\<rparr>) = dispatch_of v"
  "dispatch_of (v\<lparr>safety_mode_cnt := k\<rparr>) = dispatch_of v"
  "dispatch_of (v\<lparr>controls_allowed := c\<rparr>) = dispatch_of v"
  "dispatch_of (fault_occurred f v) = dispatch_of v"
  by (simp_all add: dispatch_of_def fault_occurred_def Let_def)

lemma mode_of_fields [simp]:
  "mode_of (s\<lparr>safety_vars := v\<rparr>) = dispatch_of v" "mode_of (upd_vars f s) = dispatch_of (f (safety_vars s))"
  by (simp_all add: mode_of_def upd_vars_def)


lemma same_program_refl: "same_program s s"
  by (simp add: same_program_def)

lemma same_program_trans: "same_program u t \<Longrightarrow> same_program t s \<Longrightarrow> same_program u s"
  by (simp add: same_program_def)

lemma same_program_simple:
  "same_program (simple_watchdog_kick s) s" "same_program (bootkick_tick i r s) s"
  "same_program (controls_timers s) s" "same_program (counters_tick s) s"
  "same_program (upd_vars safety_tick s) s"
  by (simp_all add: same_program_def simple_watchdog_kick_def bootkick_tick_def controls_timers_def
      counters_tick_def Let_def upd_vars_def mode_of_def safety_tick_keeps)

lemma driving_harness_tick:
  assumes "driving s"
  shows "same_program (harness_tick bd s) s"
  using assms by (simp add: driving_def harness_tick_def harness_detect_orientation_def same_program_def mode_of_def)

lemma driving_no_switch: "driving s \<Longrightarrow> harness_switch b bd hw s = s"
  by (simp add: driving_def harness_switch_def harness_changed_def)

lemma give_up_silent: "silent (give_up b bd hw s)"
proof -
  have t: "silent (to_silent b bd hw u)" for u :: "'a fw"
    by (simp add: to_silent_def set_safety_mode_eq silent_def enter_mode_def Let_def mode_vars_facts
        mode_chosen_def silent_registered set_intercept_relay_def sbu_adc_wait_def set_can_mode_def)
  have f: "silent (fan_set_power bd k u) = silent u" "silent (u\<lparr>ir_power := i\<rparr>) = silent u"
    "silent (set_power_save_state st u) = silent u" for k i st and u :: "'a fw"
    by (simp_all add: silent_def fan_set_power_def set_power_save_state_def Let_def)
  show ?thesis by (simp add: give_up_def Let_def f t silent_def [symmetric])
qed

text \<open>The part of the second before the heartbeat is looked at.\<close>

definition second_start :: "'a fw \<Rightarrow> 'a fw" where
  "second_start s =
     (let s = s\<lparr>can_live := pending_can_live s\<rparr>;
          s = (if uptime_cnt s AND 0xF = 0 then s\<lparr>pending_can_live := 0\<rparr> else s);
          s = bootkick_tick (check_started s) (heartbeat_counter s = 0) s
      in controls_timers (heartbeat_age s))"

lemma second_tick_start:
  "second_tick b bd hw s = (let t = second_start s in
     upd_vars safety_tick (counters_tick (if heartbeat_late t then give_up b bd hw t else t)))"
  by (simp only: second_tick_def second_start_def Let_def)

lemma same_program_D:
  assumes "same_program t s"
  shows "mode_of t = mode_of s" "heartbeat_counter t = heartbeat_counter s" "loop_counter t = loop_counter s"
    "harness t = harness s" "prev_harness_status t = prev_harness_status s"
  using assms by (simp_all add: same_program_def)

lemma heartbeat_age_program:
  "mode_of (heartbeat_age s) = mode_of s" "harness (heartbeat_age s) = harness s"
  "loop_counter (heartbeat_age s) = loop_counter s" "prev_harness_status (heartbeat_age s) = prev_harness_status s"
  "is_car_safety_mode (fst (mode_of s)) \<Longrightarrow> \<not> heartbeat_disabled (heartbeat_age s)"
  "heartbeat_counter (heartbeat_age s) =
     (if heartbeat_counter s < 0xFFFFFFFF then heartbeat_counter s + 1 else heartbeat_counter s)"
  by (simp_all add: heartbeat_age_def Let_def mode_of_def dispatch_of_def)

lemma controls_timers_disabled [simp]: "heartbeat_disabled (controls_timers s) = heartbeat_disabled s"
  by (simp add: controls_timers_def Let_def upd_vars_def)

lemma second_start_program:
  assumes "driving s"
  shows "mode_of (second_start s) = mode_of s" "harness (second_start s) = harness s"
    "loop_counter (second_start s) = loop_counter s" "prev_harness_status (second_start s) = prev_harness_status s"
    "\<not> heartbeat_disabled (second_start s)"
    "heartbeat_counter (second_start s) =
       (if heartbeat_counter s < 0xFFFFFFFF then heartbeat_counter s + 1 else heartbeat_counter s)"
proof -
  let ?v = "(let s = s\<lparr>can_live := pending_can_live s\<rparr>
    in if uptime_cnt s AND 0xF = 0 then s\<lparr>pending_can_live := 0\<rparr> else s)"
  let ?u = "bootkick_tick (check_started ?v) (heartbeat_counter ?v = 0) ?v"
  have "same_program ?v s" by (simp add: same_program_def mode_of_def Let_def)
  then have u: "same_program ?u s" by (rule same_program_trans [OF same_program_simple(2)])
  have e: "second_start s = controls_timers (heartbeat_age ?u)" by (simp only: second_start_def Let_def)
  note d = same_program_D [OF same_program_simple(3) [of "heartbeat_age ?u"]]
  have "is_car_safety_mode (fst (mode_of ?u))"
    using assms unfolding driving_def mode_of_fst same_program_D(1) [OF u] by blast
  then show "mode_of (second_start s) = mode_of s" "harness (second_start s) = harness s"
    "loop_counter (second_start s) = loop_counter s" "prev_harness_status (second_start s) = prev_harness_status s"
    "\<not> heartbeat_disabled (second_start s)"
    "heartbeat_counter (second_start s) =
       (if heartbeat_counter s < 0xFFFFFFFF then heartbeat_counter s + 1 else heartbeat_counter s)"
    unfolding e by (simp_all only: d heartbeat_age_program same_program_D [OF u] controls_timers_disabled
        not_False_eq_True)
qed

lemma counter_after:
  assumes "driving s" "\<not> heartbeat_late (second_start s)"
  shows "unat (heartbeat_counter (second_start s)) = Suc (unat (heartbeat_counter s))" "unat (heartbeat_counter s) < 4"
proof -
  have l: "heartbeat_counter (second_start s) < 5"
    using assms second_start_program(5) [OF assms(1)]
    by (auto simp: heartbeat_late_def HEARTBEAT_IGNITION_CNT_ON_def HEARTBEAT_IGNITION_CNT_OFF_def
        word_le_nat_alt word_less_nat_alt split: if_splits)
  moreover have h: "heartbeat_counter (second_start s) =
      (if heartbeat_counter s < 0xFFFFFFFF then heartbeat_counter s + 1 else heartbeat_counter s)"
    by (rule second_start_program(6) [OF assms(1)])
  ultimately have s: "heartbeat_counter s < 0xFFFFFFFF" by (auto simp: word_less_nat_alt split: if_splits)
  then have "unat (heartbeat_counter s + 1) = Suc (unat (heartbeat_counter s))"
    by (simp add: word_less_nat_alt unat_word_ariths)
  then show "unat (heartbeat_counter (second_start s)) = Suc (unat (heartbeat_counter s))" "unat (heartbeat_counter s) < 4"
    using s h l by (simp_all add: word_less_nat_alt)
qed


lemma silent_program: "same_program t s \<Longrightarrow> silent s \<Longrightarrow> silent t"
  by (simp add: same_program_driving(3))

lemma second_silent:
  assumes "silent s"
  shows "silent (second_tick b bd hw s)"
proof -
  have f: "silent (upd_vars safety_tick u) = silent u" "silent (counters_tick u) = silent u"
    "silent (bootkick_tick i r u) = silent u" "silent (controls_timers u) = silent u" for u :: "'a fw" and i r
    using same_program_simple same_program_driving(3) by blast+
  have g: "silent (heartbeat_age u) = silent u" for u :: "'a fw"
    by (simp add: silent_def mode_of_fst heartbeat_age_program)
  show ?thesis using assms
    by (simp add: second_tick_def Let_def f g give_up_silent) (simp add: silent_def)
qed

lemma patience_same: "driving s \<Longrightarrow> loop_counter s \<noteq> 0 \<Longrightarrow>
    patience (s\<lparr>loop_counter := (loop_counter s + 1) mod 8\<rparr>) < patience s"
proof -
  assume d: "driving s" "loop_counter s \<noteq> 0"
  then have "unat (loop_counter s) < 8" "unat (loop_counter s) \<noteq> 0"
    by (simp_all add: driving_def word_less_nat_alt unat_eq_0)
  then obtain k where k: "k < 7" "unat (loop_counter s) = Suc k" by (cases "unat (loop_counter s)") auto
  then have "unat ((loop_counter s + 1) mod 8) = (Suc (Suc k)) mod 8"
    by (simp add: unat_word_ariths unat_mod)
  with k show ?thesis by (cases "k = 6") (auto simp: patience_def)
qed

lemma driving_tick:
  assumes "driving s"
  shows "silent (tick b bd hw s) \<or> driving (tick b bd hw s) \<and> patience (tick b bd hw s) < patience s"
proof -
  let ?s = "s\<lparr>siren := loop_counter s AND 1 \<noteq> 0 \<and> (siren_enabled s \<or> siren_countdown s > 0)\<rparr>"
  define u where "u = simple_watchdog_kick (harness_tick bd ?s)"
  have s: "same_program ?s s" by (simp add: same_program_def mode_of_def)
  then have "driving ?s" using assms by (simp only: same_program_driving)
  then have "same_program u s"
    unfolding u_def by (intro same_program_trans [OF same_program_simple(1)] same_program_trans [OF driving_harness_tick s])
  then have u: "driving u" "patience u = patience s" using assms by (simp_all only: same_program_driving)
  let ?v = "if loop_counter u = 0 then second_tick b bd hw u else u"
  have t: "tick b bd hw s = ?v\<lparr>loop_counter := (loop_counter ?v + 1) mod 8\<rparr>"
    unfolding tick_def Let_def u_def [symmetric] driving_no_switch [OF u(1)] by (rule refl)
  have m: "silent (w\<lparr>loop_counter := k\<rparr>) = silent w" for k and w :: "'a fw" by (simp add: silent_def)
  have b: "(k + 1) mod 8 < (8 :: u8)" for k by (simp add: word_less_nat_alt unat_mod)
  have r: "driving (w\<lparr>loop_counter := (k + 1) mod 8\<rparr>) = driving w" if "driving w" for k and w :: "'a fw"
    using that b by (simp add: driving_def)
  show ?thesis
  proof (cases "loop_counter u = 0")
    case False
    then show ?thesis using t u patience_same [OF u(1) False] r by simp
  next
    case True
    let ?w = "second_start u"
    show ?thesis
    proof (cases "heartbeat_late ?w")
      case True
      then have "silent (second_tick b bd hw u)"
        unfolding second_tick_start Let_def
        by (simp only: True if_True)
          (intro silent_program [OF same_program_simple(5)] silent_program [OF same_program_simple(4)] give_up_silent)
      then show ?thesis using t \<open>loop_counter u = 0\<close> m by simp
    next
      case False
      have v: "same_program (second_tick b bd hw u) ?w"
        unfolding second_tick_start Let_def
        using False by (simp add: same_program_trans [OF same_program_simple(5) same_program_simple(4)])
      note w = second_start_program [OF u(1)] and c = counter_after [OF u(1) False]
      have d: "driving ?w" using u(1) by (simp add: driving_def mode_of_fst w(1-4))
      have "driving (second_tick b bd hw u)" using d same_program_driving(1) [OF v] by simp
      moreover have "patience ((second_tick b bd hw u)\<lparr>loop_counter := 1\<rparr>) < patience u"
        using c \<open>loop_counter u = 0\<close> by (simp add: patience_def same_program_D [OF v])
      ultimately show ?thesis
        using t u(2) r [of "second_tick b bd hw u" 0] \<open>loop_counter u = 0\<close> same_program_D(3) [OF v] w(3) by auto
    qed
  qed
qed


section \<open>The silent mode stays\<close>

lemma silent_set_mode:
  assumes "silent s"
  shows "silent (the (set_safety_mode b bd hw (current_safety_mode (safety_vars s)) p s))"
  using assms
  by (simp add: silent_def set_safety_mode_eq enter_mode_def Let_def mode_vars_facts mode_chosen_def
      silent_registered set_intercept_relay_def sbu_adc_wait_def set_can_mode_def)

lemma silent_fields [simp]:
  "silent (s\<lparr>prev_harness_status := w\<rparr>) = silent s" "silent (s\<lparr>loop_counter := w\<rparr>) = silent s"
  "silent (s\<lparr>siren := c\<rparr>) = silent s"
  by (simp_all add: silent_def)

lemma silent_harness:
  assumes "silent s"
  shows "silent (harness_switch b bd hw s)"
proof (cases "status (harness s) \<noteq> prev_harness_status s")
  case True
  let ?s = "can_init_all hw (has_canfd bd) (can_set_orientation (status (harness s) = HARNESS_STATUS_FLIPPED)
    (s\<lparr>prev_harness_status := status (harness s)\<rparr>))"
  obtain t where t: "set_safety_mode b bd hw (current_safety_mode (safety_vars ?s)) (current_safety_param (safety_vars ?s)) ?s = Some t"
    by (simp add: set_safety_mode_eq)
  have "silent ?s" using assms by (simp add: silent_def)
  then have "silent t" using silent_set_mode [of ?s b bd hw "current_safety_param (safety_vars ?s)"] t by simp
  moreover have "harness_switch b bd hw s = set_power_save_state (power_save_status t) t"
    using True t by (simp add: harness_switch_def harness_changed_def Let_def)
  ultimately show ?thesis by (simp add: silent_def set_power_save_state_def Let_def)
qed (use assms in \<open>simp add: harness_switch_def harness_changed_def\<close>)

lemma silent_tick:
  assumes "silent s"
  shows "silent (tick b bd hw s)"
proof -
  let ?s = "s\<lparr>siren := loop_counter s AND 1 \<noteq> 0 \<and> (siren_enabled s \<or> siren_countdown s > 0)\<rparr>"
  have "silent (simple_watchdog_kick (harness_tick bd ?s))"
    using assms by (intro silent_program [OF same_program_simple(1)])
      (simp add: silent_def harness_tick_def harness_detect_orientation_def Let_def)
  then have "silent (harness_switch b bd hw (simple_watchdog_kick (harness_tick bd ?s)))" by (rule silent_harness)
  then show ?thesis using second_silent by (auto simp: tick_def Let_def)
qed

section \<open>Without requests\<close>

lemma silent_step: "fw_step b bd hw s e t \<Longrightarrow> fw_inv b s \<Longrightarrow> \<not> is_request e \<Longrightarrow> silent s \<Longrightarrow> silent t"
proof (cases "is_tick e")
  case True
  assume "fw_step b bd hw s e t" "silent s"
  with True show ?thesis
    by (cases e) (auto simp: is_tick_def tick_handler_eq silent_tick split: if_splits elim!: fw_step_TimerE)
qed (use quiet_step silent_program in blast)

lemma silent_run:
  "fw_run b bd hw s es t \<Longrightarrow> fw_inv b s \<Longrightarrow> \<forall>e \<in> set es. \<not> is_request e \<Longrightarrow> silent s \<Longrightarrow> silent t"
  by (induction rule: fw_run.induct) (auto intro: fw_inv_step silent_step)

lemma driving_step:
  assumes "fw_step b bd hw s e t" "fw_inv b s" "\<not> is_request e" "driving s"
  shows "silent t \<or> driving t \<and> patience t + (if is_tick e then 1 else 0) \<le> patience s"
proof (cases "is_tick e")
  case True
  with assms(1) have "t = tick b bd hw s"
    by (cases e) (auto simp: is_tick_def tick_handler_eq split: if_splits elim!: fw_step_TimerE)
  then show ?thesis using driving_tick [OF assms(4), of b bd hw] True by auto
next
  case False
  then show ?thesis using same_program_driving [OF quiet_step [OF assms(1-3) False]] assms(4) by simp
qed

lemma driving_run:
  "fw_run b bd hw s es t \<Longrightarrow> fw_inv b s \<Longrightarrow> \<forall>e \<in> set es. \<not> is_request e \<Longrightarrow> driving s \<Longrightarrow>
     patience s \<le> length (filter is_tick es) \<Longrightarrow> silent t"
proof (induction rule: fw_run.induct)
  case (nil s)
  then show ?case by (simp add: patience_def)
next
  case (step s e t es u)
  from step.prems have q: "\<not> is_request e" "\<forall>e \<in> set es. \<not> is_request e" by simp_all
  note inv = fw_inv_step [OF step.hyps(1) step.prems(1)]
  from driving_step [OF step.hyps(1) step.prems(1) q(1) step.prems(3)] show ?case
  proof
    assume "silent t"
    then show ?thesis using silent_run [OF step.hyps(2) inv q(2)] by blast
  next
    assume d: "driving t \<and> patience t + (if is_tick e then 1 else 0) \<le> patience s"
    then show ?thesis using step.IH [OF inv q(2)] step.prems(4) by (auto split: if_splits)
  qed
qed

text \<open>In the silent mode nothing can be sent.\<close>

lemma silent_sends_nothing: "fw_inv b s \<Longrightarrow> silent s \<Longrightarrow> \<not> fst (safety_tx_hook b p (safety_vars s))"
proof -
  assume i: "fw_inv b s" "silent s"
  then have "(current_safety_mode (safety_vars s), current_hooks (safety_vars s)) \<in> set (safety_hook_registry b)"
    using safety_inv_reachable by (fastforce simp: fw_inv_def layer_inv_def safety_inv_def dispatch_of_def)
  then have "current_hooks (safety_vars s) = Nooutput_hooks" using i(2) by (simp add: silent_def registry_hooks)
  then show ?thesis
    by (simp add: safety_tx_hook_def nooutput_hooks_def nooutput_tx_hook_def Let_def)
qed


section \<open>What a request cannot change\<close>

lemma vars_requests [simp]:
  "safety_vars (snd (req_can_health hw p1 s)) = safety_vars s" "safety_vars (req_obd_mode bd p1 s) = safety_vars s"
  "safety_vars (req_loopback bd hw p1 s) = safety_vars s" "safety_vars (req_can_speed hw p1 p2 s) = safety_vars s"
  "safety_vars (req_clear_ring p1 s) = safety_vars s" "safety_vars (req_data_speed bd hw p1 p2 s) = safety_vars s"
  "safety_vars (req_non_iso bd hw p1 p2 s) = safety_vars s" "safety_vars (req_disable_heartbeat s) = safety_vars s"
  by (simp_all add: req_can_health_def req_obd_mode_def req_loopback_def req_can_speed_def req_clear_ring_def
      req_data_speed_def req_non_iso_def req_disable_heartbeat_def set_can_mode_def Let_def)

lemma vars_driven [simp]:
  "safety_vars (set_intercept_relay bd x y s) = safety_vars s" "safety_vars (set_power_save_state st s) = safety_vars s"
  "safety_vars (fan_set_power bd k s) = safety_vars s" "safety_vars (comms_can_reset s) = safety_vars s"
  by (simp_all add: set_intercept_relay_def sbu_adc_wait_def set_power_save_state_def fan_set_power_def comms_can_reset_def Let_def)

lemma request_settings:
  assumes "comms_control_handler b bd hw req s = Response resp t" "request req \<noteq> 0xdc"
    "is_car_safety_mode (current_safety_mode (safety_vars s))"
  shows "safety_vars t = (safety_vars s)\<lparr>heartbeat_engaged := heartbeat_engaged (safety_vars t)\<rparr>"
  using comms_control_effect [OF assms(1)]
  by (cases rule: request_effect.cases)
    (use assms(2,3) in \<open>simp_all add: req_alternative_experience_def req_heartbeat_def upd_vars_def\<close>)

lemma outside_requests [simp]:
  "outside (snd (req_can_health hw p1 s)) = outside s" "outside (req_can_speed hw p1 p2 s) = outside s"
  "outside (req_clear_ring p1 s) = outside s" "outside (req_data_speed bd hw p1 p2 s) = outside s"
  "outside (req_non_iso bd hw p1 p2 s) = outside s" "outside (req_loopback bd hw p1 s) = outside s"
  by (simp_all add: req_can_health_def req_can_speed_def req_clear_ring_def req_data_speed_def req_non_iso_def
      req_loopback_def Let_def)

lemmas program_requests [simp] = outside_requests [THEN program_outside(2)] outside_requests [THEN program_outside(3)]

lemma program_driven [simp]:
  "heartbeat_disabled (req_obd_mode bd p s) = heartbeat_disabled s" "loop_counter (req_obd_mode bd p s) = loop_counter s"
  "heartbeat_disabled (set_intercept_relay bd x y s) = heartbeat_disabled s"
  "loop_counter (set_intercept_relay bd x y s) = loop_counter s"
  "heartbeat_disabled (set_power_save_state st s) = heartbeat_disabled s"
  "loop_counter (set_power_save_state st s) = loop_counter s"
  "heartbeat_disabled (fan_set_power bd k s) = heartbeat_disabled s" "loop_counter (fan_set_power bd k s) = loop_counter s"
  "heartbeat_disabled (comms_can_reset s) = heartbeat_disabled s" "loop_counter (comms_can_reset s) = loop_counter s"
  "heartbeat_disabled (req_alternative_experience p s) = heartbeat_disabled s"
  "loop_counter (req_alternative_experience p s) = loop_counter s"
  "loop_counter (req_heartbeat p s) = loop_counter s" "loop_counter (req_disable_heartbeat s) = loop_counter s"
  by (simp_all add: req_obd_mode_def set_can_mode_def set_intercept_relay_def sbu_adc_wait_def set_power_save_state_def upd_can_def
      fan_set_power_def comms_can_reset_def req_alternative_experience_def req_heartbeat_def
      req_disable_heartbeat_def upd_vars_def Let_def)

lemma request_heartbeat_disabled:
  assumes "comms_control_handler b bd hw req s = Response resp t"
    "is_car_safety_mode (current_safety_mode (safety_vars s))" "heartbeat_disabled t"
  shows "heartbeat_disabled s \<or> request req = 0xdc"
  using comms_control_effect [OF assms(1)]
  by (cases rule: request_effect.cases)
    (use assms(2,3) in \<open>simp_all add: req_heartbeat_def req_disable_heartbeat_def upd_vars_def\<close>)

section \<open>The counter of the ticks\<close>

lemma loop_enter_mode: "loop_counter (enter_mode bd hw m p s) = loop_counter s"
proof -
  have "loop_counter (can_clear_send hw n u) = loop_counter u" for n and u :: "'a fw"
    by (rule program_outside) (rule outside_health)
  then show ?thesis by (simp add: enter_mode_def set_can_mode_def Let_def)
qed

lemma loop_set_mode: "set_safety_mode b bd hw m p s = Some t \<Longrightarrow> loop_counter t = loop_counter s"
  by (auto simp: set_safety_mode_eq loop_enter_mode program_outside(3) [OF outside_init_all])

lemma loop_request:
  assumes "comms_control_handler b bd hw req s = Response resp t"
  shows "loop_counter t = loop_counter s"
  using comms_control_effect [OF assms]
  by (cases rule: request_effect.cases) (simp_all add: loop_set_mode)

lemma loop_step:
  assumes "fw_step b bd hw s e t" "fw_inv b s" "loop_counter s < 8"
  shows "loop_counter t < 8"
proof (cases "is_tick e")
  case True
  have loop_tick: "loop_counter (tick b bd hw s) < 8"
    by (simp add: tick_def Let_def word_less_nat_alt unat_mod)
  show ?thesis using assms(1) True
    by (cases e) (auto simp: is_tick_def tick_handler_eq loop_tick split: if_splits elim!: fw_step_TimerE)
next
  case False
  then show ?thesis
  proof (cases "is_request e")
    case True
    then show ?thesis using assms by (cases e) (auto simp: is_request_def loop_request elim!: fw_step_RequestE)
  qed (use quiet_step [OF assms(1,2)] assms(3) in \<open>simp add: same_program_def\<close>)
qed

lemma loop_run: "fw_run b bd hw s es t \<Longrightarrow> fw_inv b s \<Longrightarrow> loop_counter s < 8 \<Longrightarrow> loop_counter t < 8"
  by (induction rule: fw_run.induct) (auto intro: fw_inv_step loop_step)

lemma loop_init: "main_init b bd hw s = Some t \<Longrightarrow> loop_counter t = loop_counter s"
  by (auto simp: main_init_def harness_init_def set_intercept_relay_def sbu_adc_wait_def harness_tick_def
      harness_detect_orientation_def simple_watchdog_init_def Let_def split: option.splits if_splits dest!: loop_set_mode)

lemma loop_reachable:
  assumes "fw_reachable b bd hw s"
  shows "loop_counter s < 8"
proof -
  obtain s0 s1 es where s: "fw_start s0" "main_init b bd hw s0 = Some s1" "fw_run b bd hw s1 es s"
    using assms by (auto simp: fw_reachable_def)
  have "loop_counter s1 < 8" using loop_init [OF s(2)] s(1) by (simp add: fw_start_def)
  then show ?thesis by (rule loop_run [OF s(3) fw_inv_init [OF s(2) fw_inv_start [OF s(1)]]])
qed


section \<open>Reaching a car mode\<close>

lemma tick_locks:
  fixes s :: "'a fw"
  shows "prev_harness_status (tick b bd hw s) = status (harness (tick b bd hw s))"
    "status (harness (tick b bd hw s)) = fst (harness_detect_orientation bd s)"
proof -
  have h: "status (harness (set_intercept_relay bd x y u)) = status (harness u)"
    "prev_harness_status (set_intercept_relay bd x y u) = prev_harness_status u" for x y and u :: "'a fw"
    by (simp_all add: set_intercept_relay_def sbu_adc_wait_def Let_def)
  have c: "harness (can_clear_send hw n u) = harness u" "prev_harness_status (can_clear_send hw n u) = prev_harness_status u"
    "harness (can_init_all hw fd u) = harness u" "prev_harness_status (can_init_all hw fd u) = prev_harness_status u"
    for n fd and u :: "'a fw"
    by (rule program_outside [OF outside_health(1)] program_outside [OF outside_init_all])+
  have e: "status (harness (enter_mode bd hw m p u)) = status (harness u)"
    "prev_harness_status (enter_mode bd hw m p u) = prev_harness_status u" for m p and u :: "'a fw"
    by (simp_all add: enter_mode_def set_can_mode_def h c Let_def)
  have m: "status (harness t) = status (harness u)" "prev_harness_status t = prev_harness_status u"
    if "set_safety_mode b bd hw m p u = Some t" for m p t and u :: "'a fw"
    using that by (auto simp: set_safety_mode_eq c e)
  have p: "harness (set_power_save_state st u) = harness u"
    "prev_harness_status (set_power_save_state st u) = prev_harness_status u" for st and u :: "'a fw"
    by (simp_all add: set_power_save_state_def Let_def upd_can_def)
  have sw: "prev_harness_status (harness_switch b bd hw u) = status (harness u) \<and>
      status (harness (harness_switch b bd hw u)) = status (harness u)" for u :: "'a fw"
  proof (cases "status (harness u) \<noteq> prev_harness_status u")
    case True
    let ?u = "can_init_all hw (has_canfd bd) (can_set_orientation (status (harness u) = HARNESS_STATUS_FLIPPED)
      (u\<lparr>prev_harness_status := status (harness u)\<rparr>))"
    obtain t where t: "set_safety_mode b bd hw (current_safety_mode (safety_vars ?u)) (current_safety_param (safety_vars ?u)) ?u = Some t"
      by (simp add: set_safety_mode_eq)
    have "harness_switch b bd hw u = set_power_save_state (power_save_status t) t"
      using True t by (simp add: harness_switch_def harness_changed_def Let_def)
    moreover have "harness (can_set_orientation f w) = harness w" "prev_harness_status (can_set_orientation f w) = prev_harness_status w"
      for f and w :: "'a fw" by (rule program_outside [OF outside_setup(3)])+
    ultimately show ?thesis using m [OF t] by (simp add: p c)
  qed (simp add: harness_switch_def harness_changed_def)
  have "status (harness (second_tick b bd hw u)) = status (harness u) \<and>
      prev_harness_status (second_tick b bd hw u) = prev_harness_status u" for u :: "'a fw"
  proof -
    have g: "status (harness (give_up b bd hw w)) = status (harness w) \<and>
        prev_harness_status (give_up b bd hw w) = prev_harness_status w" for w :: "'a fw"
      using m [OF to_silent] by (simp add: give_up_def p fan_set_power_def upd_vars_def Let_def)
    show ?thesis
      by (simp add: second_tick_def Let_def g heartbeat_age_program same_program_D [OF same_program_simple(2)]
          same_program_D [OF same_program_simple(3)] same_program_D [OF same_program_simple(4)]
          same_program_D [OF same_program_simple(5)])
  qed
  moreover have "status (harness (simple_watchdog_kick (harness_tick bd (s\<lparr>siren := c\<rparr>)))) = fst (harness_detect_orientation bd s)" for c
    by (simp add: same_program_D [OF same_program_simple(1)] harness_tick_def harness_detect_orientation_def Let_def)
  ultimately show "prev_harness_status (tick b bd hw s) = status (harness (tick b bd hw s))"
    "status (harness (tick b bd hw s)) = fst (harness_detect_orientation bd s)"
    using sw by (simp_all add: tick_def Let_def)
qed

lemma enter_mode_frame:
  "status (harness (enter_mode bd hw m p s)) = status (harness s)"
  "prev_harness_status (enter_mode bd hw m p s) = prev_harness_status s"
  "adc_sbu1 (enter_mode bd hw m p s) = adc_sbu1 s" "adc_sbu2 (enter_mode bd hw m p s) = adc_sbu2 s"
  "is_car_safety_mode m \<Longrightarrow> has_harness bd \<Longrightarrow> status (harness s) \<noteq> HARNESS_STATUS_NC \<Longrightarrow>
     relay_driven (harness (enter_mode bd hw m p s))"
  "m = SAFETY_SILENT \<Longrightarrow> has_harness bd \<Longrightarrow> \<not> relay_driven (harness (enter_mode bd hw m p s))"
proof -
  note c = program_outside [OF outside_health(1)]
  show "status (harness (enter_mode bd hw m p s)) = status (harness s)"
    "prev_harness_status (enter_mode bd hw m p s) = prev_harness_status s"
    "adc_sbu1 (enter_mode bd hw m p s) = adc_sbu1 s" "adc_sbu2 (enter_mode bd hw m p s) = adc_sbu2 s"
    by (simp_all add: enter_mode_def set_can_mode_def set_intercept_relay_def sbu_adc_wait_def c Let_def)
  show "is_car_safety_mode m \<Longrightarrow> has_harness bd \<Longrightarrow> status (harness s) \<noteq> HARNESS_STATUS_NC \<Longrightarrow>
      relay_driven (harness (enter_mode bd hw m p s))"
    by (simp add: enter_mode_def set_can_mode_def set_intercept_relay_def sbu_adc_wait_def is_car_safety_mode_def
        safety_mode_ids Let_def)
  show "m = SAFETY_SILENT \<Longrightarrow> has_harness bd \<Longrightarrow> \<not> relay_driven (harness (enter_mode bd hw m p s))"
    by (simp add: enter_mode_def set_can_mode_def set_intercept_relay_def sbu_adc_wait_def Let_def)
qed

section \<open>The firmware waits for nothing\<close>

text \<open>
  Nobody holds the lock of the converter when an interrupt or a request comes, and with cores that leave their
  clock stop no wait of the program is without end.
\<close>

lemma lock_driven [simp]:
  "sbu_adc_lock (harness (set_intercept_relay bd x y s)) = sbu_adc_lock (harness s)"
  "sbu_adc_lock (harness (set_can_mode bd m s)) = sbu_adc_lock (harness s)"
  "sbu_adc_lock (harness (set_power_save_state st s)) = sbu_adc_lock (harness s)"
  "sbu_adc_lock (harness (fan_set_power bd k s)) = sbu_adc_lock (harness s)"
  "sbu_adc_lock (harness (upd_vars f s)) = sbu_adc_lock (harness s)"
  by (simp_all add: set_intercept_relay_def sbu_adc_wait_def set_can_mode_def set_power_save_state_def fan_set_power_def
      upd_vars_def upd_can_def Let_def)

lemma harness_layer [simp]:
  "harness (can_clear_send hw n s) = harness s" "harness (can_init_all hw fd s) = harness s"
  "harness (can_set_orientation f s) = harness s" "harness (comms_can_reset s) = harness s"
proof -
  show "harness (comms_can_reset s) = harness s" by (simp add: comms_can_reset_def Let_def)
qed (rule program_outside(4) [OF outside_health(1)] program_outside(4) [OF outside_init_all] program_outside(4) [OF outside_setup(3)])+

lemma lock_set_mode:
  assumes "set_safety_mode b bd hw m p s = Some t"
  shows "sbu_adc_lock (harness t) = sbu_adc_lock (harness s)"
proof -
  have "sbu_adc_lock (harness (enter_mode bd hw mm p u)) = sbu_adc_lock (harness u)" for mm and u :: "'a fw"
    by (simp add: enter_mode_def Let_def)
  then show ?thesis using assms by (auto simp: set_safety_mode_eq)
qed

lemma lock_switch: "sbu_adc_lock (harness (harness_switch b bd hw s)) = sbu_adc_lock (harness s)"
proof (cases "status (harness s) \<noteq> prev_harness_status s")
  case True
  let ?s = "can_init_all hw (has_canfd bd) (can_set_orientation (status (harness s) = HARNESS_STATUS_FLIPPED)
    (s\<lparr>prev_harness_status := status (harness s)\<rparr>))"
  obtain t where t: "set_safety_mode b bd hw (current_safety_mode (safety_vars ?s)) (current_safety_param (safety_vars ?s)) ?s = Some t"
    by (simp add: set_safety_mode_eq)
  have "harness_switch b bd hw s = set_power_save_state (power_save_status t) t"
    using True t by (simp add: harness_switch_def harness_changed_def Let_def)
  then show ?thesis using lock_set_mode [OF t] by simp
qed (simp add: harness_switch_def harness_changed_def)

lemma lock_second: "sbu_adc_lock (harness (second_tick b bd hw s)) = sbu_adc_lock (harness s)"
proof -
  have "sbu_adc_lock (harness (give_up b bd hw u)) = sbu_adc_lock (harness u)" for u :: "'a fw"
    by (simp add: give_up_def Let_def lock_set_mode [OF to_silent])
  then show ?thesis
    by (simp add: second_tick_def Let_def heartbeat_age_program same_program_D [OF same_program_simple(2)]
        same_program_D [OF same_program_simple(3)] same_program_D [OF same_program_simple(4)])
qed

lemma lock_tick: "\<not> sbu_adc_lock (harness s) \<Longrightarrow> \<not> sbu_adc_lock (harness (tick b bd hw s))"
  by (simp add: tick_def Let_def lock_second lock_switch same_program_D [OF same_program_simple(1)] harness_tick_def
      harness_detect_orientation_def)

lemma hung_driven [simp]:
  "hung (set_can_mode bd m s) = hung s" "hung (set_power_save_state st s) = hung s" "hung (fan_set_power bd k s) = hung s"
  "hung (upd_vars f s) = hung s" "hung (harness_tick bd s) = hung s" "hung (simple_watchdog_kick s) = hung s"
  "hung (bootkick_tick i r s) = hung s" "hung (heartbeat_age s) = hung s" "hung (controls_timers s) = hung s"
  "hung (counters_tick s) = hung s"
  by (simp_all add: set_can_mode_def set_power_save_state_def fan_set_power_def upd_vars_def harness_tick_def
      harness_detect_orientation_def simple_watchdog_kick_def bootkick_tick_def heartbeat_age_def controls_timers_def
      counters_tick_def Let_def)

lemma hung_relay: "\<not> sbu_adc_lock (harness s) \<Longrightarrow> hung (set_intercept_relay bd x y s) = hung s"
  by (simp add: set_intercept_relay_def sbu_adc_wait_def Let_def)

lemma hung_set_mode:
  assumes "set_safety_mode b bd hw m p s = Some t" "core_restarts hw" "\<not> sbu_adc_lock (harness s)"
  shows "hung t = hung s"
proof -
  have "hung (enter_mode bd hw mm p u) = hung u" if "\<not> sbu_adc_lock (harness u)" for mm and u :: "'a fw"
    using that by (simp add: enter_mode_def Let_def hung_relay hung_setup [OF assms(2)])
  then show ?thesis using assms by (auto simp: set_safety_mode_eq hung_init_all)
qed

lemma hung_switch:
  assumes "core_restarts hw" "\<not> sbu_adc_lock (harness s)"
  shows "hung (harness_switch b bd hw s) = hung s"
proof (cases "status (harness s) \<noteq> prev_harness_status s")
  case True
  let ?s = "can_init_all hw (has_canfd bd) (can_set_orientation (status (harness s) = HARNESS_STATUS_FLIPPED)
    (s\<lparr>prev_harness_status := status (harness s)\<rparr>))"
  obtain t where t: "set_safety_mode b bd hw (current_safety_mode (safety_vars ?s)) (current_safety_param (safety_vars ?s)) ?s = Some t"
    by (simp add: set_safety_mode_eq)
  have "harness_switch b bd hw s = set_power_save_state (power_save_status t) t"
    using True t by (simp add: harness_switch_def harness_changed_def Let_def)
  then show ?thesis using hung_set_mode [OF t assms(1)] assms by (simp add: hung_init_all)
qed (simp add: harness_switch_def harness_changed_def)

lemma hung_second:
  assumes "core_restarts hw" "\<not> sbu_adc_lock (harness s)"
  shows "hung (second_tick b bd hw s) = hung s"
proof -
  have "hung (give_up b bd hw u) = hung u" if "\<not> sbu_adc_lock (harness u)" for u :: "'a fw"
    using that by (simp add: give_up_def Let_def hung_set_mode [OF to_silent assms(1)])
  then show ?thesis using assms(2)
    by (simp add: second_tick_def Let_def heartbeat_age_program same_program_D [OF same_program_simple(2)]
        same_program_D [OF same_program_simple(3)])
qed

lemma running_tick: "core_restarts hw \<Longrightarrow> running s \<Longrightarrow> running (tick b bd hw s)"
proof -
  assume c: "core_restarts hw" and r: "running s"
  let ?u = "simple_watchdog_kick (harness_tick bd (s\<lparr>siren := loop_counter s AND 1 \<noteq> 0 \<and> (siren_enabled s \<or> siren_countdown s > 0)\<rparr>))"
  have "\<not> sbu_adc_lock (harness ?u)"
    using r by (simp add: running_def same_program_D [OF same_program_simple(1)] harness_tick_def
      harness_detect_orientation_def Let_def)
  then have "\<not> hung (harness_switch b bd hw ?u)" "\<not> sbu_adc_lock (harness (harness_switch b bd hw ?u))"
    using r c by (simp_all add: hung_switch lock_switch running_def)
  then have "\<not> hung (tick b bd hw s)" using c by (simp add: tick_def Let_def hung_second)
  then show ?thesis using r lock_tick [of s b bd hw] by (simp add: running_def)
qed

lemma running_requests [simp]:
  "hung (snd (req_can_health hw p1 s)) = hung s" "hung (req_obd_mode bd p1 s) = hung s"
  "hung (req_alternative_experience p1 s) = hung s" "hung (req_clear_ring p1 s) = hung s"
  "hung (req_heartbeat p1 s) = hung s" "hung (req_disable_heartbeat s) = hung s"
  by (simp_all add: req_can_health_def req_obd_mode_def req_alternative_experience_def req_clear_ring_def
      req_heartbeat_def req_disable_heartbeat_def Let_def)

lemma request_not_hung:
  assumes "comms_control_handler b bd hw req s = Response resp t" "\<not> hung s"
  shows "\<not> hung t"
  using assms unfolding comms_control_handler_def answer_def Let_def
  by (auto simp: case_prod_beta split: if_splits option.splits)

lemma lock_request:
  assumes "comms_control_handler b bd hw req s = Response resp t"
  shows "sbu_adc_lock (harness t) = sbu_adc_lock (harness s)"
  using comms_control_effect [OF assms]
  by (cases rule: request_effect.cases)
    (simp_all add: lock_set_mode outside_requests [THEN program_outside(4)] req_obd_mode_def
      req_alternative_experience_def req_heartbeat_def req_disable_heartbeat_def)

lemma running_step:
  assumes "fw_step b bd hw s e t" "fw_inv b s" "running s"
  shows "running t"
  using assms(1)
proof (cases rule: fw_step.cases)
  case (host_request req resp)
  then show ?thesis using assms(3) request_not_hung lock_request by (fastforce simp: running_def)
next
  case (timer sr)
  then show ?thesis using assms(3) lock_tick by (auto simp: tick_handler_eq running_def split: if_splits)
next
  case (rx_irq n fuel)
  then show ?thesis using assms(3) hung_rx [OF rx_irq(3)] program_outside(4) [OF outside_rx [OF rx_irq(3)]] by (simp add: running_def)
next
  case (tx_irq n)
  then show ?thesis using assms(3) by (simp add: running_def program_outside(4) [OF outside_process])
next
  case (host_write data)
  then show ?thesis using assms(2,3) by (simp add: running_def fw_inv_def program_of_more(4) [OF more_write])
next
  case (host_read k)
  then show ?thesis using assms(3) by (simp add: running_def program_of_more(4) [OF read_rest_more])
next
  case world
  then show ?thesis using assms(3) by (simp add: running_def)
qed

lemma running_run: "fw_run b bd hw s es t \<Longrightarrow> fw_inv b s \<Longrightarrow> running s \<Longrightarrow> running t"
  by (induction rule: fw_run.induct) (auto intro: fw_inv_step running_step)

lemma running_init: "main_init b bd hw s = Some t \<Longrightarrow> running s \<Longrightarrow> running t"
  by (auto simp: main_init_def harness_init_def harness_tick_def harness_detect_orientation_def running_def
      simple_watchdog_init_def Let_def split: option.splits if_splits dest!: lock_set_mode)

lemma running_reachable:
  assumes "fw_reachable b bd hw s"
  shows "running s"
proof -
  obtain s0 s1 es where s: "fw_start s0" "main_init b bd hw s0 = Some s1" "fw_run b bd hw s1 es s"
    using assms by (auto simp: fw_reachable_def)
  have "running s1" using running_init [OF s(2)] s(1) by (simp add: fw_start_def)
  then show ?thesis by (rule running_run [OF s(3) fw_inv_init [OF s(2) fw_inv_start [OF s(1)]]])
qed

text \<open>Every request is carried out.\<close>

lemma running_mode:
  "core_restarts hw \<Longrightarrow> running s \<Longrightarrow> set_safety_mode b bd hw m p s = Some t \<Longrightarrow> running t"
  using hung_set_mode [of b bd hw m p s t] lock_set_mode [of b bd hw m p s t] by (simp add: running_def)

lemma control_ends:
  assumes "core_restarts hw" "running s"
  shows "comms_control_handler b bd hw req s \<noteq> Hangs"
proof -
  have m: "\<exists>t. set_safety_mode b bd hw m p s = Some t \<and> \<not> hung t" for m p
    using running_mode [OF assms] by (auto simp: set_safety_mode_eq running_def)
  have r: "\<not> hung s" "\<not> sbu_adc_lock (harness s)" using assms(2) by (simp_all add: running_def)
  have i: "\<not> hung (set_intercept_relay bd x y s)" "\<not> hung (req_loopback bd hw k s)" "\<not> hung (req_can_speed hw k l s)"
    "\<not> hung (req_data_speed bd hw k l s)" "\<not> hung (req_non_iso bd hw k l s)" for x y k l
    using r by (simp_all add: hung_relay req_loopback_def req_can_speed_def req_data_speed_def req_non_iso_def
        hung_init_all [OF assms(1)] hung_setup(1) [OF assms(1)] Let_def)
  have "(case set_safety_mode b bd hw k l s of None \<Rightarrow> Hangs | Some s \<Rightarrow> answer [] s) \<noteq> Hangs" for k l
    using m [of k l] by (auto simp: answer_def)
  then show ?thesis
    unfolding comms_control_handler_def Let_def by (simp add: answer_def i case_prod_beta)
qed

end
