(* ===== verification/Requests.thy ===== *)
theory Requests
  imports Flasher Uart Heartbeat
begin

text \<open>
  The rest of \<^verbatim>\<open>main_comms.h\<close>: the requests that \<open>Control\<close> leaves to others. They read the health of the
  device and the identity of the chip, drive the serial ports, and reset the chip. The state of the
  device is that of the firmware with what they touch; \<open>comms_control_all\<close> is the whole switch. The voltage, the
  current, the interrupt statistics and the speed of the fan are read from outside; \<open>interrupt_load\<close> is
  the float as it lies in memory. The flash is a function from the offset within the application, whose
  length word is positive, as the boot loader has checked. An answer is \<open>Reply\<close>; \<open>Stuck\<close> is a wait without
  end, \<open>Undefined\<close> a division by zero.
\<close>

record panda =
  fw :: firmware
  uart_ring_debug :: uart_ring
  uart_ring_som_debug :: uart_ring
  spi_checksum_error_count :: u16
  voltage_mV :: u32
  current_mA :: u32
  interrupt_load :: u32
  interrupts_call_rate :: "u32 list"
  fan_state_rpm :: u16
  fan_state_power :: u8
  fan_state_total_stall_count :: u8
  TIM1_ARR :: u32
  enter_bootloader_mode :: u32

datatype 's reply = Reply (reply_bytes: "u8 list") (reply_state: 's) | Chip_reset 's | Stuck | Undefined

definition NUM_INTERRUPTS :: nat where "NUM_INTERRUPTS = 163"
definition USBPACKET_MAX_SIZE :: nat where "USBPACKET_MAX_SIZE = 64"

section \<open>Health\<close>

definition get_health_pkt :: "panda \<Rightarrow> u8 list" where
  "get_health_pkt s =
     (let f = fw s; v = safety_vars f
      in word_bytes (uptime_cnt f) @ word_bytes (voltage_mV s) @ word_bytes (current_mA s) @
         word_bytes (safety_tx_blocked f) @ word_bytes (safety_rx_invalid f) @
         word_bytes (tx_buffer_overflow f) @ word_bytes (rx_buffer_overflow f) @ word_bytes (faults v) @
         [of_bool (ignition_line f), of_bool (ignition_can f), of_bool (controls_allowed v),
          status (harness f), ucast (current_safety_mode v)] @ le_bytes16 (current_safety_param v) @
         [fault_status v, of_bool (power_save_status f = POWER_SAVE_STATUS_ENABLED), of_bool (heartbeat_lost f)] @
         le_bytes16 (word_of_int (alternative_experience v)) @ word_bytes (interrupt_load s) @
         [fan_state_power s, of_bool (safety_rx_checks_invalid v)] @ le_bytes16 (spi_checksum_error_count s) @
         [fan_state_total_stall_count s] @ le_bytes16 (sbu1_voltage_mV (harness f)) @
         le_bytes16 (sbu2_voltage_mV (harness f)) @ [of_bool (bootkick_reset_triggered (bootkick f))])"

section \<open>Serial ports\<close>

definition get_ring_by_number :: "int \<Rightarrow> panda \<Rightarrow> uart_ring option" where
  "get_ring_by_number a s =
     (if a = 0 then Some (uart_ring_debug s) else if a = 4 then Some (uart_ring_som_debug s) else None)"

definition set_ring :: "int \<Rightarrow> uart_ring \<Rightarrow> panda \<Rightarrow> panda" where
  "set_ring a q s = (if a = 0 then s\<lparr>uart_ring_debug := q\<rparr> else s\<lparr>uart_ring_som_debug := q\<rparr>)"

definition upd_ring :: "u16 \<Rightarrow> (uart_ring \<Rightarrow> uart_ring) \<Rightarrow> panda \<Rightarrow> panda" where
  "upd_ring a f s = (case get_ring_by_number (uint a) s of None \<Rightarrow> s | Some ur \<Rightarrow> set_ring (uint a) (f ur) s)"

text \<open>The loop of the read request; at most \<open>n\<close> bytes are asked for.\<close>

fun uart_read :: "nat \<Rightarrow> uart_ring \<Rightarrow> u8 list \<times> uart_ring" where
  "uart_read 0 q = ([], q)"
| "uart_read (Suc n) q =
     (case get_char q of (None, q) \<Rightarrow> ([], q)
      | (Some c, q) \<Rightarrow> (let (cs, q) = uart_read n q in (c # cs, q)))"

definition req_uart_read :: "u16 \<Rightarrow> u16 \<Rightarrow> panda \<Rightarrow> u8 list \<times> panda" where
  "req_uart_read p1 len s =
     (case get_ring_by_number (uint p1) s of None \<Rightarrow> ([], s)
      | Some ur \<Rightarrow> (let (resp, ur) = uart_read (min (unat len) USBPACKET_MAX_SIZE) ur in (resp, set_ring (uint p1) ur s)))"

definition USART_CR1_PS :: u32 where "USART_CR1_PS = push_bit 9 1"
definition USART_CR1_PCE :: u32 where "USART_CR1_PCE = push_bit 10 1"
definition USART_CR1_M :: u32 where "USART_CR1_M = push_bit 12 0x10001"

definition uart_set_parity :: "u16 \<Rightarrow> uart_ring \<Rightarrow> uart_ring" where
  "uart_set_parity p2 q =
     (if p2 = 0 then q\<lparr>uart_CR1 := uart_CR1 q AND NOT (USART_CR1_PCE OR USART_CR1_M)\<rparr>
      else if p2 = 1
      then let q = q\<lparr>uart_CR1 := uart_CR1 q AND NOT USART_CR1_PS\<rparr>
           in q\<lparr>uart_CR1 := uart_CR1 q OR (USART_CR1_PCE OR USART_CR1_M)\<rparr>
      else if p2 = 2
      then let q = q\<lparr>uart_CR1 := uart_CR1 q OR USART_CR1_PS\<rparr>
           in q\<lparr>uart_CR1 := uart_CR1 q OR (USART_CR1_PCE OR USART_CR1_M)\<rparr>
      else q)"

text \<open>A transfer to a serial port: the first byte selects it. \<open>None\<close>: it waits forever.\<close>

definition comms_endpoint2_write :: "(nat \<Rightarrow> bool) \<Rightarrow> u8 list \<Rightarrow> panda \<Rightarrow> panda option" where
  "comms_endpoint2_write txe data s =
     (if data = [] then Some s
      else case get_ring_by_number (uint (hd data)) s of None \<Rightarrow> Some s
        | Some ur \<Rightarrow>
            if hd data < 2 \<or> hd data \<ge> 4
            then case put_chars txe (tl data) ur of None \<Rightarrow> None
              | Some ur \<Rightarrow> Some (set_ring (uint (hd data)) ur s)
            else Some s)"

section \<open>The whole switch\<close>

definition clock_source_set_period :: "u8 \<Rightarrow> panda \<Rightarrow> panda" where
  "clock_source_set_period period s =
     s\<lparr>TIM1_ARR := TIM1_ARR s AND NOT 0xFFFF OR ((ucast period * 10 - 1) AND 0xFFFF)\<rparr>"

text \<open>Sixty-four bytes of the signature that follows the application.\<close>

definition req_signature :: "(nat \<Rightarrow> u8) \<Rightarrow> nat \<Rightarrow> u8 list" where
  "req_signature flash off = map flash [nat (sint (le_word_at flash 0)) + off..<nat (sint (le_word_at flash 0)) + off + 64]"

text \<open>The two requests for a baud rate.\<close>

definition req_baud :: "u16 \<Rightarrow> u32 \<Rightarrow> panda \<Rightarrow> panda reply" where
  "req_baud p1 baud s =
     (case get_ring_by_number (uint p1) s of
        None \<Rightarrow> Reply [] s
      | Some ur \<Rightarrow>
          (case uart_set_baud baud ur of
             None \<Rightarrow> Undefined
           | Some ur \<Rightarrow> Reply [] (set_ring (uint p1) ur s)))"

definition comms_control_rest ::
  "build_flags \<Rightarrow> board_identity \<Rightarrow> (nat \<Rightarrow> u8) \<Rightarrow> ControlPacket_t \<Rightarrow> panda \<Rightarrow> panda reply" where
  "comms_control_rest b bi flash req s =
     (let r = request req; p1 = param1 req; p2 = param2 req
      in if r = 0xb2 then Reply (le_bytes16 (fan_state_rpm s)) s
         else if r = 0xc3 then Reply (take 12 (fl_uid bi)) s
         else if r = 0xc4
         then Reply (if unat p1 < NUM_INTERRUPTS then word_bytes (interrupts_call_rate s ! unat p1) else []) s
         else if r = 0xd0
         then Reply (if p1 = 1 then take 16 (fl_serial bi) else get_provision_chunk bi) s
         else if r = 0xd1
         then if p1 = 0 \<and> ALLOW_DEBUG b then Chip_reset (s\<lparr>enter_bootloader_mode := ENTER_BOOTLOADER_MAGIC\<rparr>)
              else if p1 = 1 then Chip_reset (s\<lparr>enter_bootloader_mode := ENTER_SOFTLOADER_MAGIC\<rparr>)
              else Reply [] s
         else if r = 0xd2 then Reply (get_health_pkt s) s
         else if r = 0xd3 then Reply (req_signature flash 0) s
         else if r = 0xd4 then Reply (req_signature flash 64) s
         else if r = 0xd6 then Reply (fl_gitversion bi) s
         else if r = 0xd8 then Chip_reset s
         else if r = 0xe0 then (let (resp, s) = req_uart_read p1 (cp_length req) s in Reply resp s)
         else if r = 0xe1 then req_baud p1 (ucast p2) s
         else if r = 0xe2 then Reply [] (upd_ring p1 (uart_set_parity p2) s)
         else if r = 0xe4 then req_baud p1 (ucast p2 * 300) s
         else if r = 0xe6 then Reply [] (clock_source_set_period (ucast p1) s)
         else if r = 0xf2 then Reply [] (upd_ring p1 clear_uart_buff s)
         else Reply [] s)"

definition comms_control_all ::
  "build_flags \<Rightarrow> board \<Rightarrow> core_behaviour \<Rightarrow> board_identity \<Rightarrow> (nat \<Rightarrow> u8) \<Rightarrow> ControlPacket_t \<Rightarrow> panda \<Rightarrow> panda reply" where
  "comms_control_all b bd hw bi flash req s =
     (case comms_control_handler b bd hw req (fw s) of
        Response resp f \<Rightarrow> Reply resp (s\<lparr>fw := f\<rparr>)
      | Hangs \<Rightarrow> Stuck
      | Elsewhere \<Rightarrow> comms_control_rest b bi flash req s)"

section \<open>What a request does\<close>

definition pd_ok :: "panda \<Rightarrow> bool" where
  "pd_ok s \<longleftrightarrow> uart_ok (uart_ring_debug s) \<and> uart_ok (uart_ring_som_debug s)"

text \<open>The chip and the build have what the code copies, in the sizes it copies.\<close>

definition identity_ok :: "board_identity \<Rightarrow> bool" where
  "identity_ok bi \<longleftrightarrow> length (fl_uid bi) = 12 \<and> length (fl_serial bi) = 16 \<and> length (fl_provision bi) = 32 \<and>
     length (fl_gitversion bi) < USBPACKET_MAX_SIZE"

lemma set_ring_ok [simp]: "pd_ok s \<Longrightarrow> uart_ok q \<Longrightarrow> pd_ok (set_ring a q s)" "fw (set_ring a q s) = fw s"
  by (simp_all add: pd_ok_def set_ring_def)

lemma get_ring_ok: "pd_ok s \<Longrightarrow> get_ring_by_number a s = Some q \<Longrightarrow> uart_ok q"
  by (auto simp: pd_ok_def get_ring_by_number_def split: if_splits)

lemma upd_ring_ok: "pd_ok s \<Longrightarrow> (\<And>q. uart_ok q \<Longrightarrow> uart_ok (f q)) \<Longrightarrow> pd_ok (upd_ring a f s)"
  by (cases "get_ring_by_number (uint a) s") (simp_all add: upd_ring_def get_ring_ok)

lemma upd_ring_fw [simp]: "fw (upd_ring a f s) = fw s"
  by (simp add: upd_ring_def split: option.split)

fun_cases uart_read_SucE: "uart_read (Suc n) q = (cs, t)"

lemma uart_read_ok: "uart_ok q \<Longrightarrow> uart_read n q = (cs, t) \<Longrightarrow> uart_ok t \<and> length cs \<le> n"
proof (induction n arbitrary: q cs)
  case (Suc n)
  show ?case
  proof (rule uart_read_SucE [OF Suc.prems(2)])
    assume "(cs, t) = (case get_char q of (None, q) \<Rightarrow> ([], q)
      | (Some c, q) \<Rightarrow> let (cs, q) = uart_read n q in (c # cs, q))"
    then show ?thesis
      using get_char_view(3) [OF Suc.prems(1)] Suc.IH by (auto split: option.splits prod.splits)
  qed
qed simp

lemma uart_line_ok:
  assumes "uart_ok q"
  shows "uart_set_baud k q = Some u \<Longrightarrow> uart_ok u" "uart_ok (uart_set_parity p q)" "uart_ok (clear_uart_buff q)"
proof -
  show "uart_set_baud k q = Some u \<Longrightarrow> uart_ok u" "uart_ok (uart_set_parity p q)"
    using assms by (auto simp: uart_ok_def rx_view_def tx_view_def uart_set_baud_def uart_set_parity_def Let_def split: if_splits)
  show "uart_ok (clear_uart_buff q)"
    using assms by (auto simp: uart_ok_def rx_view_def tx_view_def clear_uart_buff_def ring_ok_def intro: le_less_trans [of 0 1])
qed

lemma endpoint2_write_ok:
  assumes "pd_ok s"
  shows "\<exists>t. comms_endpoint2_write txe data s = Some t \<and> pd_ok t \<and> fw t = fw s"
proof (cases "get_ring_by_number (uint (hd data)) s")
  case (Some q)
  then obtain u where "put_chars txe (tl data) q = Some u" "uart_ok u"
    using put_chars_ok [OF get_ring_ok [OF assms Some]] by blast
  then show ?thesis using Some assms by (simp add: comms_endpoint2_write_def)
qed (use assms in \<open>simp add: comms_endpoint2_write_def\<close>)

lemma req_uart_read_ok:
  assumes "req_uart_read p1 len s = (resp, t)"
  shows "pd_ok s \<Longrightarrow> pd_ok t \<and> length resp \<le> 64" "fw t = fw s"
proof -
  show "fw t = fw s" using assms by (auto simp: req_uart_read_def split: option.splits prod.splits)
  assume ok: "pd_ok s"
  show "pd_ok t \<and> length resp \<le> 64"
  proof (cases "get_ring_by_number (uint p1) s")
    case (Some q)
    then show ?thesis
      using assms ok uart_read_ok [OF get_ring_ok [OF ok Some], of "min (unat len) USBPACKET_MAX_SIZE"]
      by (auto simp: req_uart_read_def USBPACKET_MAX_SIZE_def split: prod.splits)
  qed (use assms ok in \<open>simp add: req_uart_read_def\<close>)
qed

text \<open>A request for a baud rate of zero on a port that there is.\<close>

definition zero_baud :: "ControlPacket_t \<Rightarrow> bool" where
  "zero_baud req \<longleftrightarrow> (request req = 0xe1 \<or> request req = 0xe4) \<and> param2 req = 0 \<and> (param1 req = 0 \<or> param1 req = 4)"

lemma baud_word: "(ucast p2 :: u32) = 0 \<longleftrightarrow> p2 = (0 :: u16)" "(ucast p2 :: u32) * 300 = 0 \<longleftrightarrow> p2 = (0 :: u16)"
proof -
  have u: "unat (ucast p2 :: u32) = unat p2"
    using unsigned_less [of p2] by (simp add: unsigned_ucast_eq take_bit_nat_eq_self)
  then show "(ucast p2 :: u32) = 0 \<longleftrightarrow> p2 = 0" by (simp add: word_unat_eq_iff)
  have "unat p2 < 65536" using unsigned_less [of p2] by simp
  then have "unat ((ucast p2 :: u32) * 300) = unat p2 * 300"
    using u by (simp add: unat_word_ariths)
  then show "(ucast p2 :: u32) * 300 = 0 \<longleftrightarrow> p2 = 0" by (simp add: word_unat_eq_iff)
qed

lemma req_baud_cases:
  "req_baud p1 k s = Reply resp t \<Longrightarrow> resp = [] \<and> fw t = fw s \<and> (pd_ok s \<longrightarrow> pd_ok t)"
  "req_baud p1 k s = Undefined \<longleftrightarrow> k = 0 \<and> (p1 = 0 \<or> p1 = 4)"
  "req_baud p1 k s \<noteq> Stuck" "req_baud p1 k s \<noteq> Chip_reset t"
proof -
  have p: "uint p1 = 0 \<longleftrightarrow> p1 = 0" "uint p1 = 4 \<longleftrightarrow> p1 = 4"
    by (simp_all add: word_uint_eq_iff)
  show "req_baud p1 k s = Reply resp t \<Longrightarrow> resp = [] \<and> fw t = fw s \<and> (pd_ok s \<longrightarrow> pd_ok t)"
    by (auto simp: req_baud_def intro: set_ring_ok(1) uart_line_ok(1) get_ring_ok split: option.splits)
  show "req_baud p1 k s = Undefined \<longleftrightarrow> k = 0 \<and> (p1 = 0 \<or> p1 = 4)"
    by (auto simp: req_baud_def get_ring_by_number_def uart_set_baud_def p split: option.splits)
  show "req_baud p1 k s \<noteq> Stuck" "req_baud p1 k s \<noteq> Chip_reset t"
    by (simp_all add: req_baud_def split: option.split)
qed

text \<open>The rest of the switch leaves the firmware alone, and its answers fit a packet of the bus.\<close>

lemma provision_chunk_length: "identity_ok bi \<Longrightarrow> length (get_provision_chunk bi) = 32"
  by (simp add: get_provision_chunk_def UNPROVISIONED_def identity_ok_def Let_def)

lemma health_pkt_length: "length (get_health_pkt s) = 58"
  by (simp add: get_health_pkt_def word_bytes_def le_bytes16_def Let_def)

lemma pd_ok_clock [simp]: "pd_ok (s\<lparr>TIM1_ARR := x\<rparr>) = pd_ok s" "pd_ok (s\<lparr>fw := f\<rparr>) = pd_ok s"
  by (simp_all add: pd_ok_def)

lemma rest_reply:
  assumes "comms_control_rest b bi flash req s = Reply resp t"
  shows "fw t = fw s" "pd_ok s \<Longrightarrow> pd_ok t" "pd_ok s \<Longrightarrow> identity_ok bi \<Longrightarrow> length resp \<le> 64"
proof -
  show "fw t = fw s"
    using assms by (auto simp: comms_control_rest_def Let_def clock_source_set_period_def req_uart_read_ok(2)
        dest: req_baud_cases(1) split: if_splits prod.splits)
  show "pd_ok t" if "pd_ok s"
    using assms that by (auto simp: comms_control_rest_def Let_def clock_source_set_period_def req_uart_read_ok(1)
        upd_ring_ok uart_line_ok dest: req_baud_cases(1) split: if_splits prod.splits)
  show "length resp \<le> 64" if "pd_ok s" "identity_ok bi"
    using assms that provision_chunk_length [OF that(2)]
    by (auto simp: comms_control_rest_def Let_def identity_ok_def le_bytes16_def word_bytes_def health_pkt_length
        req_signature_def USBPACKET_MAX_SIZE_def req_uart_read_ok(1) dest: req_baud_cases(1) split: if_splits prod.splits)
qed

lemma control_response_length:
  assumes "comms_control_handler b bd hw req s = Response resp t"
  shows "length resp \<le> 64"
  using assms
  by (auto simp: comms_control_handler_def answer_def req_timer_def req_can_health_def can_health_bytes_def word_bytes_def
      le_bytes16_def Let_def split: if_splits option.splits)

lemma rest_not_stuck: "comms_control_rest b bi flash req s \<noteq> Stuck"
  by (simp add: comms_control_rest_def Let_def case_prod_beta req_baud_cases(3))

lemma rest_undefined: "comms_control_rest b bi flash req s = Undefined \<Longrightarrow> zero_baud req"
  by (auto simp: comms_control_rest_def Let_def case_prod_beta req_baud_cases(2) zero_baud_def baud_word split: if_splits)

lemma rest_reset:
  "comms_control_rest b bi flash req s = Chip_reset t \<Longrightarrow>
     fw t = fw s \<and> (request req = 0xd8 \<or> request req = 0xd1 \<and> (param1 req = 1 \<or> param1 req = 0 \<and> ALLOW_DEBUG b))"
  by (auto simp: comms_control_rest_def Let_def case_prod_beta req_baud_cases(4) split: if_splits)

text \<open>Every request is a step of the firmware or leaves it as it is.\<close>

lemma control_all_reply:
  assumes "comms_control_all b bd hw bi flash req s = Reply resp t"
  shows "fw t = fw s \<or> comms_control_handler b bd hw req (fw s) = Response resp (fw t)"
    "pd_ok s \<Longrightarrow> pd_ok t" "pd_ok s \<Longrightarrow> identity_ok bi \<Longrightarrow> length resp \<le> 64"
  using assms rest_reply [of b bi flash req s resp t] control_response_length [of b bd hw req "fw s" resp]
  by (auto simp: comms_control_all_def split: outcome.splits)

text \<open>The other outcomes.\<close>

lemma zero_baud_elsewhere: "zero_baud req \<Longrightarrow> comms_control_handler b bd hw req f = Elsewhere"
  by (auto simp: zero_baud_def comms_control_handler_def requests_elsewhere_def Let_def)

lemma control_all_undefined: "comms_control_all b bd hw bi flash req s = Undefined \<longleftrightarrow> zero_baud req"
proof
  assume "comms_control_all b bd hw bi flash req s = Undefined"
  then show "zero_baud req" using rest_undefined by (auto simp: comms_control_all_def split: outcome.splits)
next
  assume z: "zero_baud req"
  then show "comms_control_all b bd hw bi flash req s = Undefined"
    by (simp add: comms_control_all_def zero_baud_elsewhere)
      (auto simp: zero_baud_def comms_control_rest_def req_baud_cases(2) baud_word Let_def)
qed

lemma control_all_not_stuck:
  "core_restarts hw \<Longrightarrow> running (fw s) \<Longrightarrow> comms_control_all b bd hw bi flash req s \<noteq> Stuck"
  using control_ends [of hw "fw s" b bd req] rest_not_stuck by (simp add: comms_control_all_def split: outcome.split)

lemma control_all_reset:
  "comms_control_all b bd hw bi flash req s = Chip_reset t \<Longrightarrow>
     fw t = fw s \<and> (request req = 0xd8 \<or> request req = 0xd1 \<and> (param1 req = 1 \<or> param1 req = 0 \<and> ALLOW_DEBUG b))"
  using rest_reset [of b bi flash req s t] by (auto simp: comms_control_all_def split: outcome.splits)

end
