(* ===== verification/Engagement.thy ===== *)
theory Engagement
  imports Safety_System
begin

text \<open>
  When the permission is granted and when it is withdrawn: the common receive checks
  as exact conditions, and what a driver's input does in the modes.
\<close>

section \<open>The common checks\<close>

lemma generic_rx_checks_spec:
  "controls_allowed (generic_rx_checks d s) \<longleftrightarrow> controls_allowed s \<and>
     \<not> (gas_pressed s \<and> \<not> gas_pressed_prev s \<and> alternative_experience s AND ALT_EXP_DISABLE_DISENGAGE_ON_GAS = 0) \<and>
     \<not> (brake_pressed s \<and> (\<not> brake_pressed_prev s \<or> vehicle_moving s)) \<and>
     \<not> (regen_braking s \<and> (\<not> regen_braking_prev s \<or> vehicle_moving s))"
  "relay_malfunction (generic_rx_checks d s) \<longleftrightarrow> relay_malfunction s \<or> d \<and> 1 < safety_mode_cnt s"
  "gas_pressed_prev (generic_rx_checks d s) = gas_pressed s"
  "brake_pressed_prev (generic_rx_checks d s) = brake_pressed s"
  "regen_braking_prev (generic_rx_checks d s) = regen_braking s"
  by (auto simp: generic_rx_checks_def Let_def relay_malfunction_set_def fault_occurred_def)

lemma pcm_cruise_check_spec:
  "controls_allowed (pcm_cruise_check c s) \<longleftrightarrow> c \<and> (controls_allowed s \<or> \<not> cruise_engaged_prev s)"
  "cruise_engaged_prev (pcm_cruise_check c s) = c"
  by (auto simp: pcm_cruise_check_def Let_def)

section \<open>What a receive hook does to the permission\<close>

text \<open>
  \<open>overridden s t\<close>: the state \<open>t\<close> a receive hook leaves is either
  that of \<open>s\<close> as far as the driver's inputs and the permission go, or the
  common checks ran on it last. Then a press of the brake or of the regen paddle since
  \<open>s\<close>, and either of them while moving, leaves no permission.
\<close>

definition inputs_of :: "'a safety_scheme \<Rightarrow> bool \<times> bool \<times> bool \<times> int" where
  "inputs_of s = (gas_pressed_prev s, brake_pressed_prev s, regen_braking_prev s, alternative_experience s)"

definition overridden :: "'a safety_scheme \<Rightarrow> 'a safety_scheme \<Rightarrow> bool" where
  "overridden s t \<longleftrightarrow> t = s \<or> (\<exists>d u. t = generic_rx_checks d u \<and> inputs_of u = inputs_of s)"

named_theorems input_simps

lemma inputs_If [input_simps]:
  "gas_pressed_prev (if c then a else b) = (if c then gas_pressed_prev a else gas_pressed_prev b)"
  "brake_pressed_prev (if c then a else b) = (if c then brake_pressed_prev a else brake_pressed_prev b)"
  "regen_braking_prev (if c then a else b) = (if c then regen_braking_prev a else regen_braking_prev b)"
  "alternative_experience (if c then a else b) = (if c then alternative_experience a else alternative_experience b)"
  by simp_all

lemma inputs_Let [input_simps]:
  "(\<And>x. gas_pressed_prev (f x) = gas_pressed_prev x) \<Longrightarrow> gas_pressed_prev (let s = t in f s) = gas_pressed_prev t"
  "(\<And>x. brake_pressed_prev (f x) = brake_pressed_prev x) \<Longrightarrow> brake_pressed_prev (let s = t in f s) = brake_pressed_prev t"
  "(\<And>x. regen_braking_prev (f x) = regen_braking_prev x) \<Longrightarrow> regen_braking_prev (let s = t in f s) = regen_braking_prev t"
  "(\<And>x. alternative_experience (f x) = alternative_experience x) \<Longrightarrow> alternative_experience (let s = t in f s) = alternative_experience t"
  by (simp_all add: Let_def)

lemma inputs_pcm_cruise_check [input_simps]:
  "gas_pressed_prev (pcm_cruise_check c s) = gas_pressed_prev s"
  "brake_pressed_prev (pcm_cruise_check c s) = brake_pressed_prev s"
  "regen_braking_prev (pcm_cruise_check c s) = regen_braking_prev s"
  "alternative_experience (pcm_cruise_check c s) = alternative_experience s"
  by (simp_all add: pcm_cruise_check_def Let_def)

lemma inputs_UPDATE_VEHICLE_SPEED [input_simps]:
  "gas_pressed_prev (UPDATE_VEHICLE_SPEED v s) = gas_pressed_prev s"
  "brake_pressed_prev (UPDATE_VEHICLE_SPEED v s) = brake_pressed_prev s"
  "regen_braking_prev (UPDATE_VEHICLE_SPEED v s) = regen_braking_prev s"
  "alternative_experience (UPDATE_VEHICLE_SPEED v s) = alternative_experience s"
  by (simp_all add: UPDATE_VEHICLE_SPEED_def Let_def)

lemma inputs_hyundai_common_cruise_state_check [input_simps]:
  "gas_pressed_prev (hyundai_common_cruise_state_check c s) = gas_pressed_prev s"
  "brake_pressed_prev (hyundai_common_cruise_state_check c s) = brake_pressed_prev s"
  "regen_braking_prev (hyundai_common_cruise_state_check c s) = regen_braking_prev s"
  "alternative_experience (hyundai_common_cruise_state_check c s) = alternative_experience s"
  by (simp_all add: hyundai_common_cruise_state_check_def Let_def)

lemma inputs_hyundai_common_cruise_buttons_check [input_simps]:
  "gas_pressed_prev (hyundai_common_cruise_buttons_check btn m s) = gas_pressed_prev s"
  "brake_pressed_prev (hyundai_common_cruise_buttons_check btn m s) = brake_pressed_prev s"
  "regen_braking_prev (hyundai_common_cruise_buttons_check btn m s) = regen_braking_prev s"
  "alternative_experience (hyundai_common_cruise_buttons_check btn m s) = alternative_experience s"
  by (simp_all add: hyundai_common_cruise_buttons_check_def Let_def)

lemma overridden_Let:
  "inputs_of t = inputs_of s \<Longrightarrow> (\<And>x. inputs_of x = inputs_of s \<Longrightarrow> overridden s (f x)) \<Longrightarrow>
    overridden s (Let t f)"
  by (simp add: Let_def)

lemma overridden_Let_other: "(\<And>x. overridden s (f x)) \<Longrightarrow> overridden s (Let t f)"
  by (simp add: Let_def)

lemma overridden_If: "(c \<Longrightarrow> overridden s a) \<Longrightarrow> (\<not> c \<Longrightarrow> overridden s b) \<Longrightarrow> overridden s (if c then a else b)"
  by simp

lemma overridden_same: "overridden s s"
  by (simp add: overridden_def)

lemma overridden_generic: "inputs_of u = inputs_of s \<Longrightarrow> overridden s (generic_rx_checks d u)"
  by (auto simp: overridden_def)

lemmas overridden_intros = overridden_same overridden_generic overridden_Let overridden_Let_other overridden_If

text \<open>Every mode of a car ends its receive hook with the common checks.\<close>

lemmas overridden_simps = input_simps let_values let_floats inputs_of_def

lemma toyota_overridden: "overridden s (toyota_rx_hook p s)"
  unfolding toyota_rx_hook_def by (intro overridden_intros) (simp_all add: overridden_simps)

lemma honda_overridden: "overridden s (honda_rx_hook p s)"
  unfolding honda_rx_hook_def by (intro overridden_intros) (simp_all add: overridden_simps)

lemma gm_overridden: "overridden s (gm_rx_hook p s)"
  unfolding gm_rx_hook_def by (intro overridden_intros) (simp_all add: overridden_simps)

lemma ford_overridden: "overridden s (ford_rx_hook p s)"
  unfolding ford_rx_hook_def by (intro overridden_intros) (simp_all add: overridden_simps)

lemma chrysler_overridden: "overridden s (chrysler_rx_hook p s)"
  unfolding chrysler_rx_hook_def by (intro overridden_intros) (simp_all add: overridden_simps)

lemma nissan_overridden: "overridden s (nissan_rx_hook p s)"
  unfolding nissan_rx_hook_def by (intro overridden_intros) (simp_all add: overridden_simps)

lemma tesla_overridden: "overridden s (tesla_rx_hook p s)"
  unfolding tesla_rx_hook_def by (intro overridden_intros) (simp_all add: overridden_simps)

lemma subaru_overridden: "overridden s (subaru_rx_hook p s)"
  unfolding subaru_rx_hook_def by (intro overridden_intros) (simp_all add: overridden_simps)

lemma subaru_preglobal_overridden: "overridden s (subaru_preglobal_rx_hook p s)"
  unfolding subaru_preglobal_rx_hook_def by (intro overridden_intros) (simp_all add: overridden_simps)

lemma mazda_overridden: "overridden s (mazda_rx_hook p s)"
  unfolding mazda_rx_hook_def by (intro overridden_intros) (simp_all add: overridden_simps)

lemma volkswagen_mqb_overridden: "overridden s (volkswagen_mqb_rx_hook p s)"
  unfolding volkswagen_mqb_rx_hook_def by (intro overridden_intros) (simp_all add: overridden_simps)

lemma volkswagen_pq_overridden: "overridden s (volkswagen_pq_rx_hook p s)"
  unfolding volkswagen_pq_rx_hook_def by (intro overridden_intros) (simp_all add: overridden_simps)

text \<open>
  On a Hyundai with the camera's cruise control the state of the cruise control comes on bus 2,
  and the common checks run on bus 0 only.
\<close>

lemma hyundai_bus0_overridden:
  assumes "GET_BUS p = 0"
  shows "overridden s (hyundai_rx_hook p s)"
  unfolding hyundai_rx_hook_def let_values assms simp_thms if_True
  by (intro overridden_intros) (simp_all add: overridden_simps)

lemma hyundai_elsewhere:
  assumes "GET_BUS p \<noteq> 0"
  shows "hyundai_rx_hook p s = s \<or> (\<exists>c. hyundai_rx_hook p s = hyundai_common_cruise_state_check c s)"
  using assms by (auto simp: hyundai_rx_hook_def let_values)

lemma hyundai_canfd_overridden: "overridden s (hyundai_canfd_rx_hook p s)"
  unfolding hyundai_canfd_rx_hook_def by (intro overridden_intros) (simp_all add: overridden_simps)

section \<open>The driver overrides\<close>

definition prevs_current :: "'a safety_scheme \<Rightarrow> bool" where
  "prevs_current s \<longleftrightarrow> gas_pressed_prev s = gas_pressed s \<and> brake_pressed_prev s = brake_pressed s \<and>
     regen_braking_prev s = regen_braking s"

definition braking :: "'a safety_scheme \<Rightarrow> bool" where
  "braking s \<longleftrightarrow> brake_pressed s \<or> regen_braking s"

definition settled :: "'a safety_scheme \<Rightarrow> bool" where
  "settled s \<longleftrightarrow> prevs_current s \<and> \<not> (controls_allowed s \<and> braking s \<and> vehicle_moving s)"

lemma generic_rx_checks_inputs [simp]:
  "gas_pressed (generic_rx_checks d s) = gas_pressed s" "brake_pressed (generic_rx_checks d s) = brake_pressed s"
  "regen_braking (generic_rx_checks d s) = regen_braking s" "vehicle_moving (generic_rx_checks d s) = vehicle_moving s"
  by (simp_all add: generic_rx_checks_def Let_def relay_malfunction_set_def fault_occurred_def)

lemma prevs_generic: "prevs_current (generic_rx_checks d s)"
  by (simp add: prevs_current_def generic_rx_checks_spec)

lemma settled_generic: "settled (generic_rx_checks d s)"
  by (auto simp: settled_def prevs_current_def braking_def generic_rx_checks_spec)

lemma overridden_settled: "overridden s t \<Longrightarrow> settled s \<Longrightarrow> settled t"
  by (auto simp: overridden_def settled_generic)

definition pressed :: "'a safety_scheme \<Rightarrow> 'a safety_scheme \<Rightarrow> bool" where
  "pressed s t \<longleftrightarrow> brake_pressed t \<and> \<not> brake_pressed s \<or> regen_braking t \<and> \<not> regen_braking s \<or>
     gas_pressed t \<and> \<not> gas_pressed s \<and> alternative_experience s AND ALT_EXP_DISABLE_DISENGAGE_ON_GAS = 0"

lemma pressed_same: "\<not> pressed s s"
  by (auto simp: pressed_def)

lemma overridden_pressed:
  assumes "overridden s t" "prevs_current s" "pressed s t"
  shows "\<not> controls_allowed t"
  using assms by (auto simp: overridden_def pressed_def prevs_current_def inputs_of_def generic_rx_checks_spec)

lemma hyundai_state_check_keeps:
  "prevs_current (hyundai_common_cruise_state_check c s) = prevs_current s"
  "pressed s (hyundai_common_cruise_state_check c s) = False"
  by (auto simp: prevs_current_def pressed_def hyundai_common_cruise_state_check_def Let_def)

section \<open>In every reachable state\<close>

text \<open>The modes whose receive hook reads no driver input.\<close>

definition passive_hooks :: "hooks_ref set" where
  "passive_hooks = {Nooutput_hooks, Alloutput_hooks, Elm327_hooks, Body_hooks}"

definition hyundai_family :: "hooks_ref set" where
  "hyundai_family = {Hyundai_hooks, Hyundai_legacy_hooks}"

lemma passive_rx:
  assumes "r \<in> passive_hooks"
  shows "gas_pressed_prev (h_rx (hooks_of b r) p s) = gas_pressed_prev s"
    "brake_pressed_prev (h_rx (hooks_of b r) p s) = brake_pressed_prev s"
    "regen_braking_prev (h_rx (hooks_of b r) p s) = regen_braking_prev s"
    "gas_pressed (h_rx (hooks_of b r) p s) = gas_pressed s"
    "brake_pressed (h_rx (hooks_of b r) p s) = brake_pressed s"
    "regen_braking (h_rx (hooks_of b r) p s) = regen_braking s"
  using assms unfolding passive_hooks_def
  by (elim insertE emptyE; simp add: nooutput_hooks_def alloutput_hooks_def elm327_hooks_def
      body_hooks_def default_rx_hook_def body_rx_hook_def Let_def)+

lemma active_rx:
  assumes "r \<notin> passive_hooks" "r \<notin> hyundai_family"
  shows "overridden s (h_rx (hooks_of b r) p s)"
  using assms
  by (cases r)
    (simp_all add: passive_hooks_def hyundai_family_def toyota_hooks_def honda_nidec_hooks_def
      honda_bosch_hooks_def gm_hooks_def ford_hooks_def hyundai_canfd_hooks_def chrysler_hooks_def
      tesla_hooks_def subaru_hooks_def subaru_preglobal_hooks_def mazda_hooks_def nissan_hooks_def
      volkswagen_mqb_hooks_def volkswagen_pq_hooks_def toyota_overridden honda_overridden gm_overridden
      ford_overridden hyundai_canfd_overridden chrysler_overridden tesla_overridden subaru_overridden
      subaru_preglobal_overridden mazda_overridden nissan_overridden volkswagen_mqb_overridden
      volkswagen_pq_overridden)

lemma hyundai_rx:
  assumes "r \<in> hyundai_family"
  shows "h_rx (hooks_of b r) = hyundai_rx_hook"
  using assms by (auto simp: hyundai_family_def hyundai_hooks_def hyundai_legacy_hooks_def)

lemma selected_rx_prevs: "prevs_current s \<Longrightarrow> prevs_current (h_rx (hooks_of b r) p s)"
proof (cases "r \<in> hyundai_family")
  case True
  assume "prevs_current s"
  then show ?thesis using hyundai_bus0_overridden [of p s] hyundai_elsewhere [of p s]
    unfolding hyundai_rx [OF True]
    by (cases "GET_BUS p = 0") (auto simp: overridden_def hyundai_state_check_keeps prevs_generic)
next
  case False
  assume prevs: "prevs_current s"
  show ?thesis
  proof (cases "r \<in> passive_hooks")
    case True
    then show ?thesis using prevs by (simp add: prevs_current_def passive_rx)
  next
    case n: False
    show ?thesis using active_rx [OF n False, of s b p] prevs by (auto simp: overridden_def prevs_generic)
  qed
qed

lemma selected_rx_pressed:
  assumes "prevs_current s" "pressed s (h_rx (hooks_of b r) p s)"
  shows "\<not> controls_allowed (h_rx (hooks_of b r) p s)"
proof (cases "r \<in> hyundai_family")
  case True
  show ?thesis
    using assms overridden_pressed [OF hyundai_bus0_overridden] hyundai_elsewhere [of p s]
    unfolding hyundai_rx [OF True]
    by (cases "GET_BUS p = 0") (auto simp: hyundai_state_check_keeps pressed_same)
next
  case False
  show ?thesis
  proof (cases "r \<in> passive_hooks")
    case True
    then show ?thesis using assms(2) by (auto simp: pressed_def passive_rx)
  next
    case n: False
    show ?thesis using overridden_pressed [OF active_rx [OF n False] assms] .
  qed
qed

text \<open>
  The previous values are current, the passive modes see no pedal, and nobody is in
  control with a pedal pressed in motion, a Hyundai's camera apart.
\<close>

definition override_inv :: "'a st \<Rightarrow> bool" where
  "override_inv s \<longleftrightarrow> prevs_current s \<and> (current_hooks s \<in> passive_hooks \<longrightarrow> \<not> braking s) \<and>
     (current_hooks s \<notin> hyundai_family \<longrightarrow> settled s)"

lemma set_checks_inputs [simp]:
  "prevs_current (set_checks cs s) = prevs_current s" "braking (set_checks cs s) = braking s"
  "vehicle_moving (set_checks cs s) = vehicle_moving s"
  by (simp_all add: set_checks_def prevs_current_def braking_def)

lemma pressed_cong:
  "pressed (set_checks cs s) t = pressed s t"
  "pressed s (t\<lparr>heartbeat_engaged_mismatches := hm\<rparr>) = pressed s t"
  by (simp_all add: set_checks_def pressed_def)

lemma inputs_update [simp]:
  "prevs_current (s\<lparr>heartbeat_engaged_mismatches := hm\<rparr>) = prevs_current s"
  "prevs_current (s\<lparr>controls_allowed := c\<rparr>) = prevs_current s"
  "braking (s\<lparr>heartbeat_engaged_mismatches := hm\<rparr>) = braking s"
  "braking (s\<lparr>controls_allowed := c\<rparr>) = braking s"
  "prevs_current (s\<lparr>current_safety_config := cfg\<rparr>) = prevs_current s"
  "braking (s\<lparr>current_safety_config := cfg\<rparr>) = braking s"
  by (simp_all add: prevs_current_def braking_def)

lemma passive_rx_braking: "r \<in> passive_hooks \<Longrightarrow> braking (h_rx (hooks_of b r) p s) = braking s"
  by (simp add: braking_def passive_rx)

lemma selected_rx_settled:
  assumes "settled s" "r \<notin> hyundai_family" "r \<in> passive_hooks \<Longrightarrow> \<not> braking s"
  shows "settled (h_rx (hooks_of b r) p s)"
proof (cases "r \<in> passive_hooks")
  case True
  then show ?thesis using assms selected_rx_prevs [of s b r p] by (simp add: settled_def passive_rx_braking)
next
  case False
  show ?thesis by (rule overridden_settled [OF active_rx [OF False assms(2)] assms(1)])
qed

lemma override_inv_rx:
  assumes "safety_inv b s" "override_inv s"
  shows "override_inv (snd (safety_rx_hook b p s))"
proof -
  let ?H = "hooks_of b (current_hooks s)"
  let ?t = "set_checks (checks_after ?H s p) s"
  have inv: "checks_inv (rx_checks (current_safety_config s))"
    using assms(1) by (simp add: safety_inv_def checks_of_def)
  show ?thesis
  proof (cases "valid_packet ?H s p")
    case False
    then show ?thesis using rx_gate_invalid [OF inv False] assms(2)
      by (auto simp: safety_rx_hook_def override_inv_def settled_def)
  next
    case True
    have pre: "prevs_current ?t" "current_hooks s \<in> passive_hooks \<Longrightarrow> \<not> braking ?t"
      "current_hooks s \<notin> hyundai_family \<Longrightarrow> settled ?t"
      using assms(2) by (auto simp: override_inv_def settled_def)
    have "override_inv (h_rx ?H p ?t)"
      using selected_rx_prevs [OF pre(1), of b "current_hooks s" p]
        selected_rx_settled [of ?t "current_hooks s" b p] passive_rx_braking [of "current_hooks s" b p ?t] pre(3) pre(2)
      by (auto simp: override_inv_def selected_rx_D)
    then show ?thesis using rx_gate_valid [OF inv True]
      by (auto simp: safety_rx_hook_def Let_def override_inv_def settled_def)
  qed
qed

lemma selected_init_inputs:
  "prevs_current (snd (h_init (hooks_of b r) prm s)) = prevs_current s"
  "braking (snd (h_init (hooks_of b r) prm s)) = braking s"
  by (cases r; simp add: init_defs Let_def prevs_current_def braking_def)+

lemma override_inv_mode:
  assumes "override_inv s"
  shows "override_inv (snd (set_safety_hooks b m prm s))"
proof -
  have r: "prevs_current (reset_mode_state s)" "\<not> braking (reset_mode_state s)"
    by (simp_all add: reset_mode_state_def relay_malfunction_reset_def fault_recovered_def Let_def
        prevs_current_def braking_def)
  have idle: "override_inv t" if "prevs_current t" "\<not> braking t" for t :: "'a st"
    using that by (simp add: override_inv_def settled_def)
  have sel: "prevs_current (snd (select_hooks reg m prm st u)) = prevs_current u"
    "braking (snd (select_hooks reg m prm st u)) = braking u" for reg st and u :: "'a st"
    using select_hooks_keeps(4) [of reg m prm st u]
    by (simp_all add: signals_of_def prevs_current_def braking_def)
  show ?thesis
    by (rule idle)
      (simp_all add: set_safety_hooks_def Let_def case_prod_beta r sel selected_init_inputs)
qed

lemma override_inv_cong:
  assumes "prevs_current t = prevs_current s" "braking t = braking s" "vehicle_moving t = vehicle_moving s"
    "current_hooks t = current_hooks s" "controls_allowed t \<longrightarrow> controls_allowed s" "override_inv s"
  shows "override_inv t"
  using assms by (auto simp: override_inv_def settled_def)

lemma tick_inputs:
  "prevs_current (snd (tick_loop ts i n iv s)) = prevs_current s"
  "braking (snd (tick_loop ts i n iv s)) = braking s"
  "vehicle_moving (snd (tick_loop ts i n iv s)) = vehicle_moving s"
  by (induction n arbitrary: i iv s) (simp_all add: Let_def is_msg_valid_def)

lemma override_inv_step:
  assumes "safety_step b s e t" "safety_inv b s" "override_inv s"
  shows "override_inv t"
  using assms(1)
proof (cases rule: safety_step.cases)
  case (rx p)
  then show ?thesis using override_inv_rx [OF assms(2,3)] by simp
next
  case (tx p)
  have "tx_frame (snd (h_tx (hooks_of b (current_hooks s)) p s)) = tx_frame s"
    by (rule selected.tx_frame_kept)
  then show ?thesis using assms(3) tx
    by (simp add: tx_frame_def signals_of_def config_of_def safety_tx_hook_def Let_def case_prod_beta
        override_inv_def settled_def prevs_current_def braking_def)
next
  case tick
  show ?thesis
  proof (rule override_inv_cong [OF _ _ _ _ _ assms(3)])
    show "prevs_current t = prevs_current s" "braking t = braking s" "vehicle_moving t = vehicle_moving s"
      using tick tick_inputs [of "microsecond_timer s" 0 "length (checks_of s)" False s]
      by (simp_all add: safety_tick_def Let_def case_prod_beta checks_of_def prevs_current_def braking_def)
    show "current_hooks t = current_hooks s" using tick safety_tick_keeps(2) [of s] by (simp add: dispatch_of_def)
    show "controls_allowed t \<longrightarrow> controls_allowed s" using tick by (simp add: safety_tick_spec)
  qed
next
  case mode
  then show ?thesis using override_inv_mode [OF assms(3)] by simp
next
  case env
  then show ?thesis using assms(3)
    by (auto simp: override_inv_def settled_def prevs_current_def braking_def)
qed

lemma override_inv_run:
  "safety_run b s es t \<Longrightarrow> safety_inv b s \<Longrightarrow> override_inv s \<Longrightarrow> override_inv t"
  by (induction rule: safety_run.induct) (auto intro: override_inv_step safety_inv_step)

lemma override_inv_start: "safety_start s \<Longrightarrow> override_inv s"
  by (simp add: safety_start_def override_inv_def prevs_current_def settled_def braking_def)

lemma override_inv_reachable: "safety_reachable b s \<Longrightarrow> override_inv s"
  by (auto simp: safety_reachable_def intro: override_inv_run safety_inv_start override_inv_start)

lemma rx_pressed:
  assumes "safety_inv b s" "override_inv s" "pressed s (snd (safety_rx_hook b p s))"
  shows "\<not> controls_allowed (snd (safety_rx_hook b p s))"
proof -
  let ?H = "hooks_of b (current_hooks s)"
  let ?t = "set_checks (checks_after ?H s p) s"
  have inv: "checks_inv (rx_checks (current_safety_config s))"
    using assms(1) by (simp add: safety_inv_def checks_of_def)
  show ?thesis
  proof (cases "valid_packet ?H s p")
    case False
    then show ?thesis using rx_gate_invalid [OF inv False] by (simp add: safety_rx_hook_def)
  next
    case True
    have "prevs_current ?t" using assms(2) by (simp add: override_inv_def)
    from selected_rx_pressed [OF this, of b "current_hooks s" p] show ?thesis
      using rx_gate_valid [OF inv True] assms(3)
      by (auto simp: safety_rx_hook_def Let_def pressed_cong split: if_splits)
  qed
qed

end
