(* ===== verification/Scenarios.thy ===== *)
theory Scenarios
  imports Engagement
begin

text \<open>
  Concrete executions at which the theorems are applied: frames, a release build, and the
  states of a Toyota and of the body as the entry points leave them.
\<close>

definition can_frame :: "3 word \<Rightarrow> 29 word \<Rightarrow> u8 list \<Rightarrow> CANPacket_t" where
  "can_frame bus a d =
     \<lparr>p_reserved = False, p_bus = bus, p_data_len_code = word_of_nat (length d), p_rejected = False,
      p_returned = False, p_extended = False, p_addr = a, p_checksum = 0,
      p_data = d @ replicate (64 - length d) 0\<rparr>"

definition release :: build_flags where "release = \<lparr>ALLOW_DEBUG = False, CANFD = True\<rparr>"

lemmas reset_eval = set_safety_hooks_def reset_mode_state_def Let_def safety_hook_registry_def
  release_def safety_mode_ids relay_malfunction_reset_def fault_recovered_def BUILD_SAFETY_CFG_def
  statics_init_def safety_init_def PERMANENT_FAULTS_def statics.defs safety.defs RX_def CHK_def
  RxStatus_0_def sample_0_def

section \<open>The body\<close>

definition body_idle :: statics where
  "body_idle = snd (set_safety_hooks release SAFETY_BODY 0 statics_init)"

lemma body_idle_eq [code]:
  "body_idle = statics_init\<lparr>current_hooks := Body_hooks, current_safety_mode := 27,
     current_safety_config := \<lparr>rx_checks = body_rx_checks, tx_msgs = BODY_TX_MSGS\<rparr>\<rparr>"
  by (simp add: body_idle_def reset_eval body_hooks_def body_init_def body_rx_checks_def)

section \<open>A Toyota\<close>

definition toyota_idle :: statics where
  "toyota_idle = snd (set_safety_hooks release SAFETY_TOYOTA 73 statics_init)"

lemma toyota_idle_eq [code]:
  "toyota_idle = statics_init\<lparr>current_hooks := Toyota_hooks, current_safety_mode := 2,
     current_safety_param := 73, toyota_dbc_eps_torque_factor := 73,
     current_safety_config := \<lparr>rx_checks = TOYOTA_COMMON_RX_CHECKS False,
        tx_msgs = TOYOTA_COMMON_LONG_TX_MSGS\<rparr>\<rparr>"
  by (simp add: toyota_idle_def reset_eval toyota_hooks_def toyota_init_def
      TOYOTA_COMMON_RX_CHECKS_def GET_FLAG_def empty_cfg_def)

text \<open>The stock cruise control engages: address 0x1D2, bit 5, with its checksum.\<close>

definition cruise_frame :: CANPacket_t where
  "cruise_frame = can_frame 0 0x1D2 [0x30, 0, 0, 0, 0, 0, 0, 0x0B]"

lemma cruise_frame_facts [simp]:
  "GET_ADDR cruise_frame = 0x1D2" "GET_BUS cruise_frame = 0" "GET_BIT cruise_frame 5" "GET_BIT cruise_frame 4"
  by code_simp+

lemma cruise_frame_checksum [simp]:
  "toyota_compute_checksum s cruise_frame = toyota_get_checksum cruise_frame"
proof -
  have "toyota_compute_checksum (undefined :: statics) cruise_frame = toyota_get_checksum cruise_frame"
    by code_simp
  then show ?thesis by (simp add: toyota_compute_checksum_def)
qed

lemma cruise_frame_index [simp]:
  "fst (get_addr_check_index cruise_frame 0 (TOYOTA_COMMON_RX_CHECKS False)) = Some 2"
  "quality_flag (rc_cur (snd (get_addr_check_index cruise_frame 0 (TOYOTA_COMMON_RX_CHECKS False)) ! 2)) = False"
  "max_counter (rc_cur (snd (get_addr_check_index cruise_frame 0 (TOYOTA_COMMON_RX_CHECKS False)) ! 2)) = 0"
  by code_simp+

lemma cruise_frame_valid:
  "checks_of s = TOYOTA_COMMON_RX_CHECKS False \<Longrightarrow> valid_packet toyota_hooks s cruise_frame"
  using surjective_pairing [of "get_addr_check_index cruise_frame 0 (TOYOTA_COMMON_RX_CHECKS False)"]
  by (simp add: valid_packet_def checks_of_def split_def checksum_ok_def quality_ok_def wrong_after_def
      counter_checked_def toyota_hooks_def MAX_WRONG_COUNTERS_def)

definition toyota_engaged :: statics where
  "toyota_engaged = snd (safety_rx_hook release cruise_frame toyota_idle)"

lemma toyota_idle_facts:
  "checks_of toyota_idle = TOYOTA_COMMON_RX_CHECKS False" "current_hooks toyota_idle = Toyota_hooks"
  "\<not> controls_allowed toyota_idle" "\<not> cruise_engaged_prev toyota_idle" "safety_mode_cnt toyota_idle = 0"
  "\<not> gas_pressed toyota_idle" "\<not> brake_pressed toyota_idle" "\<not> regen_braking toyota_idle"
  "\<not> relay_malfunction toyota_idle" "\<not> toyota_lta toyota_idle" "\<not> toyota_stock_longitudinal toyota_idle"
  "torque_meas toyota_idle = sample_0" "desired_torque_last toyota_idle = 0" "rt_torque_last toyota_idle = 0"
  "tx_msgs (current_safety_config toyota_idle) = TOYOTA_COMMON_LONG_TX_MSGS" "microsecond_timer toyota_idle = 0"
  "\<not> toyota_alt_brake toyota_idle"
  by (simp_all add: toyota_idle_eq statics_init_def safety_init_def statics.defs safety.defs checks_of_def)

lemma toyota_checks_inv: "checks_inv (TOYOTA_COMMON_RX_CHECKS l)"
  unfolding checks_inv_def
  by (auto simp: TOYOTA_COMMON_RX_CHECKS_def intro!: check_inv_init)

lemma common_keeps [simp]:
  "torque_meas (generic_rx_checks d s) = torque_meas s" "torque_meas (pcm_cruise_check c s) = torque_meas s"
  "brake_pressed (pcm_cruise_check c s) = brake_pressed s"
  "relay_malfunction (pcm_cruise_check c s) = relay_malfunction s"
  "safety_mode_cnt (pcm_cruise_check c s) = safety_mode_cnt s"
  by (simp_all add: generic_rx_checks_def pcm_cruise_check_def relay_malfunction_set_def fault_occurred_def Let_def)

lemma common_keeps_toyota [simp]:
  "toyota_lta (generic_rx_checks d s) = toyota_lta s" "toyota_lta (pcm_cruise_check c s) = toyota_lta s"
  "toyota_alt_brake (generic_rx_checks d s) = toyota_alt_brake s"
  "toyota_alt_brake (pcm_cruise_check c s) = toyota_alt_brake s"
  by (simp_all add: generic_rx_checks_def pcm_cruise_check_def relay_malfunction_set_def fault_occurred_def Let_def)

lemma cruise_frame_keeps:
  "torque_meas (toyota_rx_hook cruise_frame s) = torque_meas s"
  "toyota_lta (toyota_rx_hook cruise_frame s) = toyota_lta s"
  "toyota_alt_brake (toyota_rx_hook cruise_frame s) = toyota_alt_brake s"
  "brake_pressed (toyota_rx_hook cruise_frame s) = brake_pressed s"
  "relay_malfunction (toyota_rx_hook cruise_frame s) = relay_malfunction s"
  by (simp_all add: toyota_rx_hook_def Let_def generic_rx_checks_spec(2))

lemma cruise_frame_engages:
  assumes "\<not> brake_pressed s" "\<not> regen_braking s" "\<not> cruise_engaged_prev s"
  shows "controls_allowed (toyota_rx_hook cruise_frame s)"
  using assms by (simp add: toyota_rx_hook_def Let_def generic_rx_checks_spec pcm_cruise_check_def)

lemma toyota_h_rx: "h_rx toyota_hooks = toyota_rx_hook"
  by (simp add: toyota_hooks_def)

lemma toyota_engaged_eq:
  "toyota_engaged = (let t = toyota_rx_hook cruise_frame
       (set_checks (checks_after toyota_hooks toyota_idle cruise_frame) toyota_idle)
     in t\<lparr>heartbeat_engaged_mismatches := 0\<rparr>)"
proof -
  have inv: "checks_inv (rx_checks (current_safety_config toyota_idle))"
    using toyota_idle_facts(1) toyota_checks_inv by (simp add: checks_of_def)
  have "controls_allowed (toyota_rx_hook cruise_frame
      (set_checks (checks_after toyota_hooks toyota_idle cruise_frame) toyota_idle))"
    by (rule cruise_frame_engages) (simp_all add: set_checks_def toyota_idle_facts)
  then show ?thesis
    using rx_gate_valid [OF inv cruise_frame_valid [OF toyota_idle_facts(1)]] toyota_idle_facts(2,3)
    by (simp add: toyota_engaged_def safety_rx_hook_def Let_def toyota_h_rx)
qed

lemma toyota_engaged_allowed: "controls_allowed toyota_engaged"
  unfolding toyota_engaged_eq Let_def
  by (simp add: cruise_frame_engages set_checks_def toyota_idle_facts)

text \<open>A steering command of 15 units with the request bit.\<close>

definition steer_frame :: CANPacket_t where
  "steer_frame = can_frame 0 0x2E4 [1, 0, 15, 0, 0]"

lemma steer_frame_facts [simp]:
  "GET_ADDR steer_frame = 0x2E4" "GET_BUS steer_frame = 0" "GET_LEN steer_frame = 5" "GET_BIT steer_frame 0"
  "BYTE steer_frame (Suc 0) = 0" "BYTE steer_frame 2 = 15"
  by code_simp+

lemma toyota_engaged_rx:
  "toyota_engaged = (toyota_rx_hook cruise_frame
     (set_checks (checks_after toyota_hooks toyota_idle cruise_frame) toyota_idle))\<lparr>heartbeat_engaged_mismatches := 0\<rparr>"
  by (simp add: toyota_engaged_eq Let_def)

lemma toyota_engaged_facts:
  "history_of toyota_engaged = (0, 0, 0, 0, 0, 0, 0)" "current_hooks toyota_engaged = Toyota_hooks"
  "tx_msgs (current_safety_config toyota_engaged) = TOYOTA_COMMON_LONG_TX_MSGS"
  "torque_meas toyota_engaged = sample_0" "\<not> toyota_lta toyota_engaged" "\<not> relay_malfunction toyota_engaged"
proof -
  let ?s = "set_checks (checks_after toyota_hooks toyota_idle cruise_frame) toyota_idle"
  have h: "history_of ?s = (0, 0, 0, 0, 0, 0, 0)"
    by (simp add: set_checks_def history_of_def toyota_idle_eq statics_init_def safety_init_def statics.defs safety.defs)
  have c: "current_hooks ?s = Toyota_hooks" "tx_msgs (current_safety_config ?s) = TOYOTA_COMMON_LONG_TX_MSGS"
    by (simp_all add: toyota_idle_facts)
  show "history_of toyota_engaged = (0, 0, 0, 0, 0, 0, 0)"
    using rx_frame_D(2) [OF toyota_rx_frame [of cruise_frame ?s]] h
    by (simp add: toyota_engaged_rx history_of_def)
  show "current_hooks toyota_engaged = Toyota_hooks"
    "tx_msgs (current_safety_config toyota_engaged) = TOYOTA_COMMON_LONG_TX_MSGS"
    using config_of_D [OF rx_frame_D(1) [OF toyota_rx_frame [of cruise_frame ?s]]] c
    by (simp_all add: toyota_engaged_rx)
  show "torque_meas toyota_engaged = sample_0" "\<not> toyota_lta toyota_engaged" "\<not> relay_malfunction toyota_engaged"
    by (simp_all add: toyota_engaged_rx cruise_frame_keeps set_checks_def toyota_idle_facts)
qed

lemma steer_frame_accepted:
  "fst (safety_tx_hook release steer_frame toyota_engaged)"
  "snd (safety_tx_hook release steer_frame toyota_engaged) =
     snd (steer_torque_cmd_checks 15 1 TOYOTA_STEERING_LIMITS toyota_engaged)"
proof -
  have t: "to_signed 15 16 = 15" by (simp add: to_signed_def)
  have adm: "torque_admissible TOYOTA_STEERING_LIMITS toyota_engaged 15"
    using toyota_engaged_facts(1,4)
    by (simp add: torque_admissible_def between_def meas_window_def TOYOTA_STEERING_LIMITS_def
        SteeringLimits_0_def history_of_def sample_0_def)
  have ok: "\<not> fst (steer_torque_cmd_checks 15 1 TOYOTA_STEERING_LIMITS toyota_engaged)"
    using adm toyota_engaged_allowed by (simp add: fst_steer_torque_cmd_checks)
  have hook: "toyota_tx_hook steer_frame toyota_engaged =
      (True, snd (steer_torque_cmd_checks 15 1 TOYOTA_STEERING_LIMITS toyota_engaged))"
    using ok by (simp add: toyota_tx_hook_def toyota_tx_lka_def Let_def toyota_engaged_facts t
        int_of_bool_def case_prod_beta)
  have tbl: "h_tx toyota_hooks = toyota_tx_hook" by (simp add: toyota_hooks_def)
  have wl: "msg_allowed steer_frame TOYOTA_COMMON_LONG_TX_MSGS"
    by (simp add: TOYOTA_COMMON_LONG_TX_MSGS_def TOYOTA_COMMON_TX_MSGS_def MSG_def)
  show "fst (safety_tx_hook release steer_frame toyota_engaged)"
    "snd (safety_tx_hook release steer_frame toyota_engaged) =
     snd (steer_torque_cmd_checks 15 1 TOYOTA_STEERING_LIMITS toyota_engaged)"
    using safety_tx_hook_keeps(4) [of release steer_frame toyota_engaged] toyota_engaged_facts
    by (simp_all add: safety_tx_hook_def Let_def hook tbl wl)
qed

text \<open>The driver presses the brake: address 0x226, bit 37.\<close>

definition brake_frame :: CANPacket_t where
  "brake_frame = can_frame 0 0x226 [0, 0, 0, 0, 0x20, 0, 0, 0]"

definition toyota_checks_seen :: "RxCheck list" where
  "toyota_checks_seen = (TOYOTA_COMMON_RX_CHECKS False)[2 := (TOYOTA_COMMON_RX_CHECKS False ! 2)
     \<lparr>rc_status := RxStatus_0\<lparr>msg_seen := True, valid_checksum := True, valid_quality_flag := True\<rparr>\<rparr>]"

lemma brake_frame_facts [simp]:
  "GET_ADDR brake_frame = 0x226" "GET_BUS brake_frame = 0" "GET_BIT brake_frame 37"
  by code_simp+

lemma cruise_frame_status:
  "snd (get_addr_check_index cruise_frame 0 (TOYOTA_COMMON_RX_CHECKS False)) =
     (TOYOTA_COMMON_RX_CHECKS False)[2 := (TOYOTA_COMMON_RX_CHECKS False ! 2)
        \<lparr>rc_status := RxStatus_0\<lparr>msg_seen := True\<rparr>\<rparr>]"
  by code_simp

lemma toyota_engaged_checks: "checks_of toyota_engaged = toyota_checks_seen"
proof -
  have inv: "checks_inv (checks_of toyota_idle)" using toyota_checks_inv by (simp add: toyota_idle_facts)
  let ?i = "get_addr_check_index cruise_frame 0 (TOYOTA_COMMON_RX_CHECKS False)"
  have "checks_of toyota_engaged = checks_after toyota_hooks toyota_idle cruise_frame"
    using safety_rx_hook_keeps(1) [OF inv, of release cruise_frame]
    by (simp add: toyota_engaged_def toyota_idle_facts)
  also have "\<dots> = check_entry cruise_frame toyota_hooks toyota_idle 2 (update_addr_timestamp 0 2 (snd ?i))"
    using toyota_idle_facts(1)
    by (simp add: checks_after_def checks_of_def case_prod_beta toyota_idle_facts(16))
  also have "\<dots> = toyota_checks_seen"
    unfolding cruise_frame_status
    by (simp add: check_entry_def update_addr_timestamp_def upd_status_def toyota_hooks_def rc_cur_def
        toyota_checks_seen_def TOYOTA_COMMON_RX_CHECKS_def RX_def CHK_def CHK_0_def RxStatus_0_def
        MAX_ADDR_CHECK_MSGS_def)
  finally show ?thesis .
qed

lemma brake_frame_index [simp]:
  "fst (get_addr_check_index brake_frame 0 toyota_checks_seen) = Some 3"
  "check_checksum (rc_cur (snd (get_addr_check_index brake_frame 0 toyota_checks_seen) ! 3)) = False"
  "quality_flag (rc_cur (snd (get_addr_check_index brake_frame 0 toyota_checks_seen) ! 3)) = False"
  "max_counter (rc_cur (snd (get_addr_check_index brake_frame 0 toyota_checks_seen) ! 3)) = 0"
  by code_simp+

lemma brake_frame_valid: "valid_packet toyota_hooks toyota_engaged brake_frame"
  using toyota_engaged_checks
  by (simp add: valid_packet_def checks_of_def case_prod_beta checksum_ok_def quality_ok_def wrong_after_def
      counter_checked_def toyota_hooks_def MAX_WRONG_COUNTERS_def)

lemma toyota_checks_seen_inv: "checks_inv (checks_of toyota_engaged)"
  unfolding toyota_engaged_checks checks_inv_def toyota_checks_seen_def
  by (simp add: TOYOTA_COMMON_RX_CHECKS_def check_inv_def RX_def CHK_def CHK_0_def RxStatus_0_def rc_cur_def
      MAX_ADDR_CHECK_MSGS_def MAX_WRONG_COUNTERS_def)

lemma brake_frame_presses:
  "\<not> toyota_alt_brake s \<Longrightarrow> brake_pressed (toyota_rx_hook brake_frame s)"
  by (simp add: toyota_rx_hook_def Let_def)

lemma toyota_engaged_brake:
  "\<not> brake_pressed toyota_engaged" "\<not> toyota_alt_brake toyota_engaged"
  by (simp_all add: toyota_engaged_rx cruise_frame_keeps set_checks_def toyota_idle_facts)

lemma toyota_braked: "brake_pressed (snd (safety_rx_hook release brake_frame toyota_engaged))"
proof -
  have inv: "checks_inv (rx_checks (current_safety_config toyota_engaged))"
    using toyota_checks_seen_inv by (simp add: checks_of_def)
  have "brake_pressed (toyota_rx_hook brake_frame (set_checks (checks_after toyota_hooks toyota_engaged brake_frame) toyota_engaged))"
    by (rule brake_frame_presses) (simp add: set_checks_def toyota_engaged_brake)
  then show ?thesis using rx_gate_valid [OF inv brake_frame_valid]
    by (simp add: safety_rx_hook_def toyota_engaged_facts Let_def toyota_h_rx)
qed

section \<open>Reachability\<close>

lemma toyota_idle_reachable: "safety_reachable release toyota_idle"
  unfolding safety_reachable_def toyota_idle_def
  using statics_init_start safety_run.step [OF safety_step.mode safety_run.nil] by blast

lemma toyota_engaged_reachable: "safety_reachable release toyota_engaged"
  unfolding toyota_engaged_def by (rule safety_reachable_step [OF toyota_idle_reachable safety_step.rx])

section \<open>A relay malfunction\<close>

text \<open>Two seconds after the switch the stock steering command still comes on bus 0.\<close>

definition toyota_settled :: statics where
  "toyota_settled = toyota_idle\<lparr>fault_status := 0, faults := 0, microsecond_timer := 0, safety_mode_cnt := 2, alternative_experience := 0,
     heartbeat_engaged := False, heartbeat_engaged_mismatches := 0,
     controls_allowed := controls_allowed toyota_idle \<and> True\<rparr>"

definition toyota_broken :: statics where
  "toyota_broken = snd (safety_rx_hook release steer_frame toyota_settled)"

lemma toyota_broken_reachable: "safety_reachable release toyota_broken"
  unfolding toyota_broken_def toyota_settled_def
  by (intro safety_reachable_step [OF safety_reachable_step [OF toyota_idle_reachable safety_step.env] safety_step.rx])

lemma steer_frame_unmonitored [simp]:
  "fst (get_addr_check_index steer_frame 0 (TOYOTA_COMMON_RX_CHECKS False)) = None"
  by code_simp

lemma steer_frame_relay:
  "relay_malfunction (toyota_rx_hook steer_frame s) \<longleftrightarrow> relay_malfunction s \<or> 1 < safety_mode_cnt s"
  by (simp add: toyota_rx_hook_def Let_def generic_rx_checks_spec(2))

lemma toyota_broken_relay: "relay_malfunction toyota_broken"
proof -
  have cs: "checks_of toyota_settled = TOYOTA_COMMON_RX_CHECKS False" "current_hooks toyota_settled = Toyota_hooks"
    by (simp_all add: toyota_settled_def checks_of_def toyota_idle_facts(1) [unfolded checks_of_def] toyota_idle_facts(2))
  then have inv: "checks_inv (rx_checks (current_safety_config toyota_settled))"
    using toyota_checks_inv by (simp add: checks_of_def)
  have v: "valid_packet toyota_hooks toyota_settled steer_frame"
    using cs(1) by (simp add: valid_packet_def checks_of_def case_prod_beta)
  have "relay_malfunction (toyota_rx_hook steer_frame
      (set_checks (checks_after toyota_hooks toyota_settled steer_frame) toyota_settled))"
    by (simp add: steer_frame_relay set_checks_def toyota_settled_def)
  then show ?thesis using rx_gate_valid [OF inv v]
    by (simp add: toyota_broken_def safety_rx_hook_def cs(2) Let_def toyota_h_rx)
qed

end
