(* ===== verification/Delivery.thy ===== *)
theory Delivery
  imports Heartbeat Scenarios
begin

text \<open>
  An accepted packet on an idle bus is handed to the controller at once, and a rejected one goes back to
  the host, marked. Then a firmware that runs: a board, cores that accept every command, the states it
  reaches; the witnesses of the properties are taken from it.
\<close>

lemma tx_ready_frame:
  "tx_ready hw n (push_tx bus p s) = tx_ready hw n s" "tx_ready hw n (s\<lparr>safety_vars := v\<rparr>) = tx_ready hw n s"
  by (simp_all add: tx_ready_def)

lemma can_send_idle:
  assumes "can_ok s" "packet_ok p" "bus < 3" "skip \<or> fst (safety_tx_hook b p (safety_vars s))"
    "tx_content s bus = []" "can_check_checksum p"
    "BUS_NUM_FROM_CAN_NUM s (CAN_NUM_FROM_BUS_NUM s bus) = bus" "tx_ready hw (CAN_NUM_FROM_BUS_NUM s bus) s"
  shows "\<exists>i fd brs. tx_requests (can_send b hw p bus skip s) =
      tx_requests s @ [(CAN_NUM_FROM_BUS_NUM s bus, i, element_of fd brs p)]"
    "tx_content (can_send b hw p bus skip s) bus = []"
proof -
  let ?n = "CAN_NUM_FROM_BUS_NUM s bus"
  let ?v = "s\<lparr>safety_vars := if skip then safety_vars s else snd (safety_tx_hook b p (safety_vars s))\<rparr>"
  let ?q = "snd (can_push (can_queues s ! unat bus) p)"
  let ?u = "push_tx bus p ?v"
  have n: "?n < 3" by (rule can_number_ok(1) [OF assms(1,3)])
  have l: "unat bus < length (can_queues s)" using assms(1,3) by (simp add: can_ok_def word_less_nat_alt)
  have q: "queue_ok CAN_TX_BUFFER_SIZE (can_queues s ! unat bus)" by (rule can_ok_queue [OF assms(1,3)])
  have e: "ring_content (can_queues s ! unat bus) = []" using assms(5) by (simp add: tx_content_def)
  have c: "0 < ring_capacity (can_queues s ! unat bus)"
    using q by (simp add: queue_ok_def ring_capacity_def CAN_TX_BUFFER_SIZE_def)
  have ok: "ring_ok (can_queues s ! unat bus)" using q by (simp add: queue_ok_def)
  have r: "ring_content ?q = [p]" "ring_ok ?q"
    using ring.push_accepts [OF ok, of p] ring.push_content [OF ok, of p] ring.push_ok [OF ok, of p] e c by simp_all
  have pop: "fst (can_pop ?q) = Some p" "ring_content (snd (can_pop ?q)) = []"
    using ring.pop_content [OF r(2)] r(1) by (auto split: option.splits)
  have u: "can_ok ?u" using assms(1-3) by (intro can_ok_push_tx) simp_all
  have b: "BUS_NUM_FROM_CAN_NUM ?u ?n = bus" using assms(7) by (simp add: BUS_NUM_FROM_CAN_NUM_def)
  have np: "next_packet hw ?n ?u = Some p"
    using pop(1) assms(8) core_numbers [OF n] l by (simp add: next_packet_def b tx_ready_frame)
  have s: "can_send b hw p bus skip s = process_can hw ?n ?u" by (rule can_send_accepted [OF assms(3,4)])
  define w where "w = (upd_can ?n (\<lambda>c. write_IR hw (IR c OR FDCAN_IR_TFE) c) ?u)
    \<lparr>can_queues := (can_queues ?u)[unat bus := snd (can_pop (can_queues ?u ! unat bus))]\<rparr>"
  have t: "process_can hw ?n ?u = transmit_packet hw ?n bus p w"
    unfolding w_def process_can_eq [OF u n] np b by simp
  have "tx_requests w = tx_requests s" by (simp add: w_def)
  then show "\<exists>i fd brs. tx_requests (can_send b hw p bus skip s) = tx_requests s @ [(?n, i, element_of fd brs p)]"
    using transmit_packet_requests [of hw ?n bus p w] assms(6) by (simp add: s t)
  have "tx_content w bus = []" using l pop(2) by (simp add: w_def tx_content_def)
  then show "tx_content (can_send b hw p bus skip s) bus = []" by (simp add: s t tx_content_def)
qed


section \<open>A firmware that runs\<close>

definition demo_core :: fdcan where
  "demo_core = \<lparr>CCCR = 0, TEST = 0, NBTP = 0, DBTP = 0, TXBC = 0, TXESC = 0, RXESC = 0, XIDFC = 0, SIDFC = 0,
     GFC = 0, RXF0C = 0, ILE = 0, ILS = 0, IE = 0, IR = 0, PSR = 0, ECR = 0, TXFQS = 0, RXF0S = 0,
     rx_elements = [], irq_enabled = False\<rparr>"

text \<open>Cores that acknowledge every command at once and always have room to send.\<close>

definition demo_hw :: core_behaviour where
  "demo_hw = \<lparr>write_IR = (\<lambda>v c. c\<lparr>IR := 0, TXFQS := 0\<rparr>), write_TXBAR = (\<lambda>v c. c), write_RXF0A = (\<lambda>v c. c\<lparr>RXF0S := 0\<rparr>),
     csa_clear_at = (\<lambda>c i. True), init_set_at = (\<lambda>c i. True), init_clear_at = (\<lambda>c i. True)\<rparr>"

lemma demo_restarts: "core_restarts demo_hw"
  by (simp add: core_restarts_def demo_hw_def)

definition demo_board :: board where
  "demo_board = \<lparr>hw_type = 7, has_harness = True, has_obd = True, has_canfd = True, avdd_mV = 3300, fan_max_rpm = 0\<rparr>"

definition demo_start :: firmware where
  "demo_start = can_layer.extend (can_layer_init (replicate 3 demo_core) can_packet_0)
     (firmware.fields 0 0 False False False False 0
        \<lparr>status = HARNESS_STATUS_NC, sbu1_voltage_mV = 0, sbu2_voltage_mV = 0, relay_driven = False, sbu_adc_lock = False\<rparr>
        \<lparr>wd_fault = 0, wd_last_ts = 0, wd_threshold = 0\<rparr> 0 0 HARNESS_STATUS_NC 0 bootkick_0
        False 3000 0 False 0 False False False 0 False 0 0 False BOOT_BOOTKICK)"

lemma demo_start_fields [simp]:
  "safety_vars demo_start = statics_init" "cans demo_start = replicate 3 demo_core" "tx_requests demo_start = []"
  "can_queues demo_start = replicate 3 (can_buffer can_packet_0 CAN_TX_BUFFER_SIZE)"
  "can_rx_q demo_start = can_buffer can_packet_0 CAN_RX_BUFFER_SIZE" "bus_config demo_start = bus_config_init"
  "can_health demo_start = replicate 3 can_health_0" "stack_packet demo_start = can_packet_0"
  "can_write_buffer demo_start = asm_buffer_0" "can_read_buffer demo_start = asm_buffer_0"
  "loop_counter demo_start = 0" "adc_sbu1 demo_start = 3000" "adc_sbu2 demo_start = 0"
  "relay_driven (harness demo_start) = False" "sbu_adc_lock (harness demo_start) = False" "hung demo_start = False"
  by (simp_all add: demo_start_def can_layer.defs firmware.defs can_layer_init_def)

lemma silent_rejects [simp]: "fst (safety_tx_hook b p statics_init) \<longleftrightarrow> False"
  by (simp add: safety_tx_hook_def statics_init_def safety_init_def statics.defs safety.defs nooutput_hooks_def
      nooutput_tx_hook_def Let_def)

lemma demo_start_ok: "fw_start demo_start"
proof -
  have p: "packet_ok can_packet_0" by (simp add: can_packet_0_def)
  have q: "queue_ok n (can_buffer can_packet_0 n)" if "0 < n" for n using queue_ok_buffer [OF that p] .
  have b: "bus_ok (bus_config_init ! i)" if "i < 3" for i
  proof -
    have "i = 0 \<or> i = 1 \<or> i = 2" using that by auto
    then show ?thesis by (elim disjE) (simp_all add: bus_config_init_def bus_ok_def)
  qed
  have "length bus_config_init = 4" by (simp add: bus_config_init_def)
  then have "can_ok demo_start"
    using p q [of CAN_RX_BUFFER_SIZE] q [of CAN_TX_BUFFER_SIZE] b
    by (simp add: can_ok_def CAN_RX_BUFFER_SIZE_def CAN_TX_BUFFER_SIZE_def)
  moreover have "tx_content demo_start m = []" if "m < 3" for m
    using that by (simp add: tx_content_def word_less_nat_alt can_buffer_content)
  ultimately show ?thesis by (simp add: fw_start_def statics_init_start bufs_def running_def)
qed

definition demo_up :: firmware where
  "demo_up = the (main_init release demo_board demo_hw demo_start)"

text \<open>A running firmware with cores that restart comes up, ticks and changes its mode.\<close>

lemma main_init_ends:
  assumes "core_restarts hw" "running s"
  shows "main_init b bd hw s \<noteq> None"
proof -
  obtain t where t: "set_safety_mode b bd hw SAFETY_SILENT 0 (harness_init bd s) = Some t"
    by (simp add: set_safety_mode_eq)
  have "running (harness_init bd s)"
    using assms(2) by (simp add: running_def harness_init_def hung_relay harness_tick_def harness_detect_orientation_def Let_def)
  then have "\<not> hung t" using running_mode [OF assms(1) _ t] by (simp add: running_def)
  then show ?thesis using t by (simp add: main_init_def)
qed

lemma tick_ends: "core_restarts hw \<Longrightarrow> running s \<Longrightarrow> fw_step b bd hw s (Timer 1) (tick b bd hw s)"
  using running_tick [of hw s b bd] by (intro fw_step.timer) (simp add: tick_handler_eq running_def)

lemma mode_ends:
  assumes "core_restarts hw" "running s"
  shows "fw_step b bd hw s (Request \<lparr>request = 0xdc, param1 = m, param2 = p, cp_length = 0\<rparr>)
    (the (set_safety_mode b bd hw m p s))"
proof -
  obtain t where t: "set_safety_mode b bd hw m p s = Some t" by (simp add: set_safety_mode_eq)
  have "\<not> hung t" using running_mode [OF assms t] by (simp add: running_def)
  then show ?thesis
    by (intro fw_step.host_request [of _ _ _ _ _ "[]"]) (simp add: comms_control_handler_def answer_def t)
qed

lemma demo_up: "main_init release demo_board demo_hw demo_start = Some demo_up"
  using main_init_ends [OF demo_restarts, of demo_start release demo_board]
  by (auto simp: demo_up_def running_def)

lemma reachable_step: "fw_reachable b bd hw s \<Longrightarrow> fw_step b bd hw s e t \<Longrightarrow> fw_reachable b bd hw t"
proof -
  assume r: "fw_reachable b bd hw s" and e: "fw_step b bd hw s e t"
  obtain s0 s1 es where s: "fw_start s0" "main_init b bd hw s0 = Some s1" "fw_run b bd hw s1 es s"
    using r by (auto simp: fw_reachable_def)
  from s(3) e have "fw_run b bd hw s1 (es @ [e]) t"
    by (induction rule: fw_run.induct) (auto intro: fw_run.intros)
  with s(1,2) show ?thesis by (auto simp: fw_reachable_def)
qed

lemma demo_up_reachable: "fw_reachable release demo_board demo_hw demo_up"
  unfolding fw_reachable_def using demo_start_ok demo_up fw_run.nil by blast

text \<open>The first tick finds the harness; then the host asks for the mode of a car.\<close>

definition demo_plugged :: firmware where
  "demo_plugged = tick release demo_board demo_hw demo_up"

definition demo_driving :: firmware where
  "demo_driving = the (set_safety_mode release demo_board demo_hw SAFETY_TOYOTA 73 demo_plugged)"

lemma demo_plugged_step: "fw_step release demo_board demo_hw demo_up (Timer 1) demo_plugged"
  unfolding demo_plugged_def by (rule tick_ends [OF demo_restarts running_reachable [OF demo_up_reachable]])

lemma demo_driving_step:
  "fw_step release demo_board demo_hw demo_plugged (Request \<lparr>request = 0xdc, param1 = 2, param2 = 73, cp_length = 0\<rparr>) demo_driving"
  using mode_ends [OF demo_restarts running_reachable [OF reachable_step [OF demo_up_reachable demo_plugged_step]],
      of release demo_board 2 73]
  by (simp add: demo_driving_def SAFETY_TOYOTA_def)

lemma init_all_frame:
  "harness (can_init_all hw fd s) = harness s" "prev_harness_status (can_init_all hw fd s) = prev_harness_status s"
  by (rule program_outside [OF outside_init_all])+

lemma init_all_adc: "adc_sbu1 (can_init_all hw fd s) = adc_sbu1 s" "adc_sbu2 (can_init_all hw fd s) = adc_sbu2 s"
proof -
  have "can_layer.more (can_init_all hw fd s) = can_layer.more s" using outside_init_all [of hw fd s] by (simp add: outside_def)
  then show "adc_sbu1 (can_init_all hw fd s) = adc_sbu1 s" "adc_sbu2 (can_init_all hw fd s) = adc_sbu2 s"
    by (cases s; cases "can_init_all hw fd s"; simp)+
qed

lemma demo_up_facts: "\<not> relay_driven (harness demo_up)" "adc_sbu1 demo_up = 3000" "adc_sbu2 demo_up = 0"
proof -
  obtain t where t: "set_safety_mode release demo_board demo_hw SAFETY_SILENT 0 (harness_init demo_board demo_start) = Some t"
    by (simp add: set_safety_mode_eq)
  have e: "demo_up = simple_watchdog_init FAULT_HEARTBEAT_LOOP_WATCHDOG (3 * 1000000 div 8) (t\<lparr>transceivers := True\<rparr>)"
    using demo_up t by (simp add: main_init_def split: if_splits)
  have "\<not> relay_driven (harness t)" "adc_sbu1 t = 3000" "adc_sbu2 t = 0"
    using t by (auto simp: set_safety_mode_eq mode_chosen_def silent_registered init_all_frame init_all_adc enter_mode_frame
        demo_board_def harness_init_def harness_tick_def harness_detect_orientation_def set_intercept_relay_def
        sbu_adc_wait_def Let_def)
  then show "\<not> relay_driven (harness demo_up)" "adc_sbu1 demo_up = 3000" "adc_sbu2 demo_up = 0"
    by (simp_all add: e simple_watchdog_init_def Let_def)
qed

lemma demo_plugged_status: "status (harness demo_plugged) = HARNESS_STATUS_NORMAL"
  using demo_up_facts
  by (simp add: demo_plugged_def tick_locks(2) harness_detect_orientation_def demo_board_def Let_def)

lemma demo_driving_facts:
  "is_car_safety_mode (current_safety_mode (safety_vars demo_driving))" "relay_driven (harness demo_driving)"
  "prev_harness_status demo_driving = status (harness demo_driving)"
proof -
  have m: "mode_chosen release SAFETY_TOYOTA = SAFETY_TOYOTA"
    by (simp add: mode_chosen_def safety_hook_registry_def)
  have n: "status (harness demo_plugged) \<noteq> HARNESS_STATUS_NC" "prev_harness_status demo_plugged = HARNESS_STATUS_NORMAL"
    using tick_locks(1) [of release demo_board demo_hw demo_up] demo_plugged_status
    by (simp_all add: demo_plugged_def HARNESS_STATUS_NC_def HARNESS_STATUS_NORMAL_def)
  have c: "is_car_safety_mode SAFETY_TOYOTA" by (simp add: is_car_safety_mode_def safety_mode_ids)
  have v: "safety_vars (enter_mode bd hw mm p w) = safety_vars w" for bd hw mm p and w :: firmware
    by (simp add: enter_mode_def set_can_mode_def Let_def)
  show "is_car_safety_mode (current_safety_mode (safety_vars demo_driving))" "relay_driven (harness demo_driving)"
    "prev_harness_status demo_driving = status (harness demo_driving)"
    using n c demo_plugged_status
    by (simp_all add: demo_driving_def set_safety_mode_eq m init_all_frame enter_mode_frame v mode_vars_facts demo_board_def)
qed

lemma demo_driving_reachable: "fw_reachable release demo_board demo_hw demo_driving"
  by (rule reachable_step [OF reachable_step [OF demo_up_reachable demo_plugged_step] demo_driving_step])

lemma ticks_run: "core_restarts hw \<Longrightarrow> running s \<Longrightarrow> \<exists>t. fw_run b bd hw s (replicate k (Timer 1)) t"
proof (induction k arbitrary: s)
  case (Suc k)
  then obtain t where "fw_run b bd hw (tick b bd hw s) (replicate k (Timer 1)) t"
    using running_tick by blast
  moreover have "fw_step b bd hw s (Timer 1) (tick b bd hw s)" using Suc.prems by (rule tick_ends)
  ultimately show ?case by (auto intro: fw_run.step)
qed (auto intro: fw_run.nil)


section \<open>A diagnostic request on its way\<close>

text \<open>Setting up the buses empties their queues.\<close>

lemma clear_tx_content: "tx_content (can_clear_tx n s) m = (if m = n \<and> unat n < length (can_queues s) then [] else tx_content s m)"
  by (auto simp: can_clear_tx_def tx_content_def clear_ptrs_content nth_list_update list_update_beyond word_unat_eq_iff)

lemma init_ok: "can_ok s \<Longrightarrow> n < 3 \<Longrightarrow> can_ok (snd (can_init hw n s))"
  by (simp add: can_init_def can_set_speed_def Let_def case_prod_beta process_can_ok)

lemma init_content:
  assumes "can_ok s" "n < 3" "m < 3" "tx_content s m = []"
  shows "tx_content (snd (can_init hw n s)) m = []"
proof -
  let ?t = "snd (on_core n (llcan_init hw n) (snd (can_set_speed hw n s)))"
  have e: "snd (can_init hw n s) = process_can hw n ?t"
    using core_numbers [OF assms(2)] by (simp add: can_init_def Let_def case_prod_beta)
  have t: "can_ok ?t" "tx_content ?t m = []"
    using assms(1,4) by (simp_all add: can_set_speed_def Let_def case_prod_beta tx_content_def)
  show ?thesis using process_can_content [OF t(1) assms(2,3), of hw] t(2) by (simp add: e)
qed

lemma init_bus_config: "bus_config (snd (can_init hw n s)) = bus_config s"
  by (simp add: can_init_def can_set_speed_def Let_def case_prod_beta)

lemma clear_tx_bus_config: "bus_config (can_clear_tx n s) = bus_config s"
  by (simp add: can_clear_tx_def)

lemma clear_tx_ok:
  assumes "can_ok s" "n < 3"
  shows "can_ok (can_clear_tx n s)"
  using can_ok_set_queue [OF assms(1) queue_ok_clear [OF can_ok_queue [OF assms]], of "unat n"]
  by (simp add: can_clear_tx_def)

lemma init_loop_empty:
  assumes "can_ok s" "\<forall>i \<in> set is. i < 3" "m < 3" "m \<in> set is \<or> tx_content s m = []"
  shows "tx_content (can_init_loop hw True is s) m = [] \<and> can_ok (can_init_loop hw True is s) \<and>
    bus_config (can_init_loop hw True is s) = bus_config s"
  using assms
proof (induction "is" arbitrary: s)
  case (Cons i "is")
  let ?t = "can_clear_tx i s"
  have t: "can_ok ?t" "i < 3" using Cons.prems by (simp_all add: clear_tx_ok)
  have l: "unat i < length (can_queues s)" using Cons.prems(1,2) by (simp add: can_ok_def word_less_nat_alt)
  have "m \<in> set is \<or> tx_content (snd (can_init hw i ?t)) m = []"
    using Cons.prems(4) l init_content [OF t Cons.prems(3)] by (auto simp: clear_tx_content)
  moreover have "can_ok (snd (can_init hw i ?t))" using t by (rule init_ok)
  ultimately show ?case using Cons.IH [of "snd (can_init hw i ?t)"] Cons.prems(2,3)
    by (simp add: init_bus_config clear_tx_bus_config Let_def)
qed simp


definition demo_elm :: firmware where
  "demo_elm = the (set_safety_mode release demo_board demo_hw SAFETY_ELM327 1 demo_up)"

lemma demo_elm_step:
  "fw_step release demo_board demo_hw demo_up (Request \<lparr>request = 0xdc, param1 = 3, param2 = 1, cp_length = 0\<rparr>) demo_elm"
  using mode_ends [OF demo_restarts running_reachable [OF demo_up_reachable], of release demo_board 3 1]
  by (simp add: demo_elm_def SAFETY_ELM327_def)

lemma demo_elm_reachable: "fw_reachable release demo_board demo_hw demo_elm"
  by (rule reachable_step [OF demo_up_reachable demo_elm_step])

lemma mode_setup:
  assumes "set_safety_mode b bd hw m p s = Some t" "has_canfd bd" "can_ok s"
  shows "n < 3 \<Longrightarrow> tx_content t n = []" "bus_config t = bus_config s"
    "can_write_buffer t = can_write_buffer s" "safety_vars t = mode_vars b m p (safety_vars s)"
proof -
  let ?u = "enter_mode bd hw (mode_chosen b m) p
     (s\<lparr>safety_vars := mode_vars b m p (safety_vars s), safety_tx_blocked := 0, safety_rx_invalid := 0\<rparr>)"
  have t: "t = can_init_loop hw True [0, 1, 2] ?u" using assms(1,2) by (simp add: set_safety_mode_eq can_init_all_def)
  have c: "can_ok (set_intercept_relay bd x y w) = can_ok w" "can_ok (can_clear_send hw k w) = can_ok w"
    "can_ok (set_can_mode bd i w) = can_ok w" "can_ok (w\<lparr>heartbeat_counter := h\<rparr>) = can_ok w"
    "can_ok (w\<lparr>heartbeat_lost := q\<rparr>) = can_ok w" "bus_config (set_intercept_relay bd x y w) = bus_config w"
    "bus_config (can_clear_send hw k w) = bus_config w" for x y k i h q and w :: "'a fw"
    by (simp_all add: can_ok_def set_intercept_relay_def sbu_adc_wait_def can_clear_send_def set_can_mode_def Let_def split: option.split)
  have "can_ok ?u" using assms(3) by (simp add: enter_mode_def Let_def c)
  then show "n < 3 \<Longrightarrow> tx_content t n = []"
    unfolding t by (intro conjunct1 [OF init_loop_empty]) (auto simp: word_less_nat_alt word_unat_eq_iff)
  have "bus_config t = bus_config ?u" unfolding t using \<open>can_ok ?u\<close> init_loop_empty [of ?u "[0, 1, 2]" 0 hw] by simp
  also have "\<dots> = bus_config s" by (simp add: enter_mode_def set_can_mode_def c Let_def)
  finally show "bus_config t = bus_config s" .
  show "can_write_buffer t = can_write_buffer s" using bufs_set_mode [OF assms(1)] by (simp add: bufs_def)
  have "safety_vars ?u = mode_vars b m p (safety_vars s)" by (simp add: enter_mode_def set_can_mode_def Let_def)
  then show "safety_vars t = mode_vars b m p (safety_vars s)" using assms(1) by (auto simp: set_safety_mode_eq)
qed

text \<open>A request to all modules, on the second bus.\<close>

definition diag_frame :: CANPacket_t where
  "diag_frame = can_set_checksum (bytes_packet ([0x82, 0xf8, 0x3e, 0, 0, 0, 2, 1, 12] @ replicate 5 0))"

lemma diag_frame_facts [simp]:
  "GET_ADDR diag_frame = 0x7df" "GET_LEN diag_frame = 8" "p_bus diag_frame = 1"
  by (simp_all add: diag_frame_def GET_ADDR_def GET_LEN_def bytes_packet_def nth_default_def bytes_word_def dlc_to_len_def Let_def)

lemma diag_frame_ok [simp]: "packet_ok diag_frame" "can_check_checksum diag_frame"
  by (simp_all add: diag_frame_def can_check_set_checksum)

lemma diag_frame_accepted:
  "current_hooks v = Elm327_hooks \<Longrightarrow> \<not> relay_malfunction v \<Longrightarrow> current_safety_mode v = SAFETY_ELM327 \<Longrightarrow>
     fst (safety_tx_hook release diag_frame v)"
  by (simp add: safety_tx_hook_def elm327_hooks_def elm327_tx_hook_def Let_def)

lemma demo_up_ok: "can_ok demo_up" "can_ok demo_elm"
  using fw_inv_reachable [OF demo_up_reachable] fw_inv_reachable [OF demo_elm_reachable]
  by (simp_all add: fw_inv_def layer_inv_def)

lemma demo_elm_setup: "set_safety_mode release demo_board demo_hw SAFETY_ELM327 1 demo_up = Some demo_elm"
  by (simp add: demo_elm_def set_safety_mode_eq)

lemma demo_elm_vars: "current_hooks (safety_vars demo_elm) = Elm327_hooks" "\<not> relay_malfunction (safety_vars demo_elm)"
  "current_safety_mode (safety_vars demo_elm) = SAFETY_ELM327"
proof -
  have r: "SAFETY_ELM327 \<in> fst ` set (safety_hook_registry release)" by (simp add: safety_hook_registry_def)
  have v: "safety_vars demo_elm = mode_vars release SAFETY_ELM327 1 (safety_vars demo_up)"
    using mode_setup(4) [OF demo_elm_setup _ demo_up_ok(1)] by (simp add: demo_board_def)
  show "current_safety_mode (safety_vars demo_elm) = SAFETY_ELM327" "\<not> relay_malfunction (safety_vars demo_elm)"
    using r by (simp_all add: v mode_vars_facts mode_chosen_def)
  have "dispatch_of (safety_vars demo_elm) \<in> set (safety_hook_registry release)"
    using set_safety_hooks_known(4) [OF r] r by (simp add: v mode_vars_def Let_def)
  then show "current_hooks (safety_vars demo_elm) = Elm327_hooks"
    using \<open>current_safety_mode (safety_vars demo_elm) = SAFETY_ELM327\<close> by (simp add: dispatch_of_def registry_hooks)
qed

lemma demo_up_config: "bus_config demo_up = bus_config_init"
proof -
  let ?h = "harness_init demo_board demo_start"
  have h: "can_ok ?h" "bus_config ?h = bus_config_init"
    using demo_start_ok
    by (simp_all add: fw_start_def harness_init_def harness_tick_def harness_detect_orientation_def demo_board_def
        set_intercept_relay_def sbu_adc_wait_def can_ok_def Let_def)
  obtain u where u: "set_safety_mode release demo_board demo_hw SAFETY_SILENT 0 ?h = Some u" by (simp add: set_safety_mode_eq)
  have "bus_config u = bus_config_init" using mode_setup(2) [OF u _ h(1)] h(2) by (simp add: demo_board_def)
  moreover have "bus_config demo_up = bus_config
      (simple_watchdog_init FAULT_HEARTBEAT_LOOP_WATCHDOG (3 * 1000000 div 8) (u\<lparr>transceivers := True\<rparr>))"
    using demo_up u by (intro arg_cong [of _ _ bus_config]) (simp add: main_init_def split: if_splits)
  moreover have "bus_config (simple_watchdog_init f k w) = bus_config w" for f k and w :: firmware
    by (simp add: simple_watchdog_init_def Let_def)
  ultimately show ?thesis by simp
qed

lemma demo_up_bufs: "bufs demo_up = (asm_buffer_0, asm_buffer_0)"
proof -
  obtain u where u: "set_safety_mode release demo_board demo_hw SAFETY_SILENT 0 (harness_init demo_board demo_start) = Some u"
    by (simp add: set_safety_mode_eq)
  have "bufs u = (asm_buffer_0, asm_buffer_0)"
    using bufs_set_mode [OF u] demo_start_ok by (simp add: harness_init_def fw_start_def)
  moreover have "bufs demo_up = bufs (simple_watchdog_init FAULT_HEARTBEAT_LOOP_WATCHDOG (3 * 1000000 div 8) (u\<lparr>transceivers := True\<rparr>))"
    using demo_up u by (intro arg_cong [of _ _ bufs]) (simp add: main_init_def split: if_splits)
  ultimately show ?thesis by (simp add: simple_watchdog_init_def Let_def)
qed

lemma diag_frame_sent:
  "\<exists>i fd brs. tx_requests (can_send release demo_hw diag_frame 1 False demo_elm) =
     tx_requests demo_elm @ [(1, i, element_of fd brs diag_frame)]"
proof -
  have c: "bus_config demo_elm = bus_config_init"
    using mode_setup(2) [OF demo_elm_setup _ demo_up_ok(1)] demo_up_config by (simp add: demo_board_def)
  have n: "CAN_NUM_FROM_BUS_NUM demo_elm 1 = 1" "BUS_NUM_FROM_CAN_NUM demo_elm 1 = 1"
    by (simp_all add: CAN_NUM_FROM_BUS_NUM_def BUS_NUM_FROM_CAN_NUM_def c bus_config_init_def)
  have "tx_ready demo_hw k demo_elm" for k by (simp add: tx_ready_def demo_hw_def)
  then show ?thesis
    using can_send_idle(1) [OF demo_up_ok(2) diag_frame_ok(1), of 1 False release demo_hw]
      diag_frame_accepted [OF demo_elm_vars] mode_setup(1) [OF demo_elm_setup _ demo_up_ok(1), of 1] n
    by (simp add: demo_board_def)
qed


definition diag_sent :: firmware where
  "diag_sent = comms_can_write release demo_hw (packet_wire diag_frame) demo_elm"

lemma diag_frame_clear [simp]: "clear_tail diag_frame = diag_frame"
proof -
  have "p_data diag_frame = map (nth_default 0 [2, 1, 12, 0, 0, 0, 0, 0]) [0..<64]"
    by (simp add: diag_frame_def bytes_packet_def CANPACKET_DATA_SIZE_MAX_def upt_conv_Cons nth_default_def Let_def)
  then have "take 8 (p_data diag_frame) @ replicate (CANPACKET_DATA_SIZE_MAX - 8) 0 = p_data diag_frame"
    by (simp add: CANPACKET_DATA_SIZE_MAX_def upt_conv_Cons nth_default_def numeral_eq_Suc)
  then show ?thesis by (simp add: clear_tail_def)
qed

lemma diag_sent_request: "\<exists>i e. (1, i, e) \<in> set (tx_requests diag_sent)"
proof -
  have w: "can_write_buffer demo_elm = asm_buffer_0"
    using bufs_set_mode [OF demo_elm_setup] demo_up_bufs by (simp add: bufs_def)
  then have b: "buffer_ok (can_write_buffer demo_elm)" "pending_write demo_elm = []"
    by (simp_all add: buffer_ok_def asm_buffer_0_def pending_write_def)
  have d: "decode_stream (packet_wire diag_frame) = ([diag_frame], [])"
    using decode_wire [of "[diag_frame]"] by simp
  obtain v where v: "diag_sent = (refresh_can_tx_slots_available (send_packet release demo_hw diag_frame demo_elm))\<lparr>can_write_buffer := v\<rparr>"
    using comms_can_write_eq [OF b(1), of release demo_hw "packet_wire diag_frame"] by (auto simp: diag_sent_def b(2) d)
  have "tx_requests diag_sent = tx_requests (can_send release demo_hw diag_frame 1 False demo_elm)"
    unfolding v by (simp add: send_packet_def)
  moreover obtain i fd brs where "tx_requests (can_send release demo_hw diag_frame 1 False demo_elm) =
      tx_requests demo_elm @ [(1, i, element_of fd brs diag_frame)]" using diag_frame_sent by blast
  ultimately have "(1, i, element_of fd brs diag_frame) \<in> set (tx_requests diag_sent)" by simp
  then show ?thesis by blast
qed

end
