(* ===== verification/Spi.thy ===== *)
theory Spi
  imports Requests Delivery
begin

text \<open>
  The protocol on the SPI bus, \<^verbatim>\<open>drivers/spi.h\<close> with \<^verbatim>\<open>crc.h\<close>: a header with a checksum, its
  acknowledgement, the data with a checksum, the response. The buffers are lists of
  \<open>SPI_BUF_SIZE\<close> bytes; an access past their end is the outcome \<open>Overrun\<close>, since C leaves
  open what it does; so is a division by zero, \<open>Spi_undefined\<close>. The two DMA channels are what was given to
  them last: a slice of the receive buffer to fill, the bytes to send. The text printed and the loop that empties
  the bus are left out.
\<close>

datatype spi_states = SPI_STATE_HEADER | SPI_STATE_HEADER_ACK | SPI_STATE_HEADER_NACK | SPI_STATE_DATA_RX |
  SPI_STATE_DATA_RX_ACK | SPI_STATE_DATA_TX

record spi_panda =
  dev :: panda
  spi_state :: spi_states
  spi_data_len_mosi :: u16
  spi_data_len_miso :: u16
  spi_endpoint :: u8
  spi_buf_rx :: "u8 list"
  spi_buf_tx :: "u8 list"
  spi_mosi :: "nat \<times> nat"
  spi_miso :: "u8 list"

datatype 's spi_outcome = Sent 's | Spi_reset 's | Spi_stuck | Spi_undefined | Overrun

definition SPI_BUF_SIZE :: nat where "SPI_BUF_SIZE = 2048"
definition SPI_HEADER_SIZE :: nat where "SPI_HEADER_SIZE = 7"
definition SPI_CHECKSUM_START :: u8 where "SPI_CHECKSUM_START = 0xAB"
definition SPI_SYNC_BYTE :: u8 where "SPI_SYNC_BYTE = 0x5A"
definition SPI_HACK :: u8 where "SPI_HACK = 0x79"
definition SPI_DACK :: u8 where "SPI_DACK = 0x85"
definition SPI_NACK :: u8 where "SPI_NACK = 0x1F"

definition version_text :: "u8 list" where
  "version_text = map (of_nat \<circ> of_char) ''VERSION''"

section \<open>Checksums\<close>

definition crc_bit :: "u8 \<Rightarrow> u8 \<Rightarrow> u8" where
  "crc_bit poly crc = (if crc AND 0x80 \<noteq> 0 then push_bit 1 crc XOR poly else push_bit 1 crc)"

text \<open>The bytes are taken from the last to the first.\<close>

definition crc_checksum :: "u8 list \<Rightarrow> u8 \<Rightarrow> u8" where
  "crc_checksum dat poly = fold (\<lambda>d crc. (crc_bit poly ^^ 8) (crc XOR d)) (rev dat) 0xFF"

definition spi_checksum :: "u8 list \<Rightarrow> u8" where
  "spi_checksum data = fold (\<lambda>d checksum. checksum XOR d) data SPI_CHECKSUM_START"

definition validate_checksum :: "u8 list \<Rightarrow> bool" where
  "validate_checksum data \<longleftrightarrow> spi_checksum data = 0"

section \<open>Responses\<close>

definition spi_version_packet :: "board \<Rightarrow> board_identity \<Rightarrow> u8 list" where
  "spi_version_packet bd bi =
     (let data = take 12 (fl_uid bi) @ [hw_type bd, 0xCC, 0x2];
          out = version_text @ le_bytes16 (of_nat (length data)) @ data
      in out @ [crc_checksum out 0xD5])"

definition upd_dev :: "(panda \<Rightarrow> panda) \<Rightarrow> spi_panda \<Rightarrow> spi_panda" where
  "upd_dev f s = s\<lparr>dev := f (dev s)\<rparr>"

definition upd_fw :: "(firmware \<Rightarrow> firmware) \<Rightarrow> spi_panda \<Rightarrow> spi_panda" where
  "upd_fw f = upd_dev (\<lambda>d. d\<lparr>fw := f (fw d)\<rparr>)"

definition write_tx :: "nat \<Rightarrow> u8 list \<Rightarrow> spi_panda \<Rightarrow> spi_panda" where
  "write_tx off data s = s\<lparr>spi_buf_tx := copy_to off data (spi_buf_tx s)\<rparr>"

definition llspi_mosi_dma :: "nat \<Rightarrow> nat \<Rightarrow> spi_panda \<Rightarrow> spi_panda" where
  "llspi_mosi_dma off len s = s\<lparr>spi_mosi := (off, len)\<rparr>"

definition llspi_miso_dma :: "nat \<Rightarrow> spi_panda \<Rightarrow> spi_panda" where
  "llspi_miso_dma len s = s\<lparr>spi_miso := take len (spi_buf_tx s)\<rparr>"

text \<open>The end of \<open>spi_rx_done\<close>.\<close>

definition spi_respond :: "nat \<Rightarrow> spi_states \<Rightarrow> bool \<Rightarrow> spi_panda \<Rightarrow> spi_panda" where
  "spi_respond response_len next_rx_state checksum_valid s =
     (let (response_len, s) =
            (if response_len = 0
             then (1, (write_tx 0 [SPI_NACK] s)\<lparr>spi_state := SPI_STATE_HEADER_NACK\<rparr>) else (response_len, s));
          s = llspi_miso_dma response_len s;
          s = s\<lparr>spi_state := next_rx_state\<rparr>
      in if \<not> checksum_valid \<and> spi_checksum_error_count (dev s) < 0xFFFF
         then upd_dev (\<lambda>d. d\<lparr>spi_checksum_error_count := spi_checksum_error_count d + 1\<rparr>) s else s)"

text \<open>The data are acknowledged, with \<open>response_len\<close> bytes that lie behind the header of the response.\<close>

definition spi_data_ack :: "nat \<Rightarrow> spi_panda \<Rightarrow> spi_panda spi_outcome" where
  "spi_data_ack response_len s =
     (if response_len + 3 \<ge> SPI_BUF_SIZE then Overrun
      else let s = write_tx 0 ([SPI_DACK] @ le_bytes16 (of_nat response_len)) s;
               s = write_tx (response_len + 3) [spi_checksum (take (response_len + 3) (spi_buf_tx s))] s
           in Sent (spi_respond (response_len + 4) SPI_STATE_DATA_TX True s))"

definition spi_data_nack :: "bool \<Rightarrow> spi_panda \<Rightarrow> spi_panda spi_outcome" where
  "spi_data_nack checksum_valid s =
     Sent (spi_respond 1 SPI_STATE_HEADER_NACK checksum_valid (write_tx 0 [SPI_NACK] s))"

section \<open>A transfer is complete\<close>

definition le_word16 :: "u8 \<Rightarrow> u8 \<Rightarrow> u16" where
  "le_word16 lo hi = push_bit 8 (ucast hi) OR ucast lo"

definition control_packet :: "u8 list \<Rightarrow> ControlPacket_t" where
  "control_packet d =
     \<lparr>request = d ! 0, param1 = le_word16 (d ! 1) (d ! 2), param2 = le_word16 (d ! 3) (d ! 4),
      cp_length = le_word16 (d ! 5) (d ! 6)\<rparr>"

text \<open>The handlers of the endpoints; \<open>data\<close> is what follows the header.\<close>

definition spi_control ::
  "build_flags \<Rightarrow> board \<Rightarrow> core_behaviour \<Rightarrow> board_identity \<Rightarrow> (nat \<Rightarrow> u8) \<Rightarrow> u8 list \<Rightarrow>
     spi_panda \<Rightarrow> spi_panda spi_outcome" where
  "spi_control b bd hw bi flash data s =
     (case comms_control_all b bd hw bi flash (control_packet data) (dev s) of
        Reply resp d \<Rightarrow> spi_data_ack (length resp) (write_tx 3 resp (s\<lparr>dev := d\<rparr>))
      | Chip_reset d \<Rightarrow> Spi_reset (s\<lparr>dev := d\<rparr>)
      | Stuck \<Rightarrow> Spi_stuck
      | Undefined \<Rightarrow> Spi_undefined)"

definition spi_can_read :: "spi_panda \<Rightarrow> spi_panda spi_outcome" where
  "spi_can_read s =
     (let (out, f) = comms_can_read (unat (spi_data_len_miso s)) (fw (dev s));
          s = upd_fw (\<lambda>_. f) s
      in if length out + 3 > SPI_BUF_SIZE then Overrun
         else spi_data_ack (length out) (write_tx 3 out s))"

definition spi_serial_write :: "(nat \<Rightarrow> bool) \<Rightarrow> u8 list \<Rightarrow> spi_panda \<Rightarrow> spi_panda spi_outcome" where
  "spi_serial_write txe data s =
     (case comms_endpoint2_write txe data (dev s) of
        None \<Rightarrow> Spi_stuck | Some d \<Rightarrow> spi_data_ack 0 (s\<lparr>dev := d\<rparr>))"

definition spi_can_write :: "build_flags \<Rightarrow> core_behaviour \<Rightarrow> u8 list \<Rightarrow> spi_panda \<Rightarrow> spi_panda spi_outcome" where
  "spi_can_write b hw data s =
     (if spi_can_tx_ready (fw (dev s))
      then let s = upd_fw (\<lambda>f. f\<lparr>spi_can_tx_ready := False\<rparr>) s
           in spi_data_ack 0 (upd_fw (comms_can_write b hw data) s)
      else spi_data_nack True s)"

definition spi_dispatch ::
  "(nat \<Rightarrow> bool) \<Rightarrow> build_flags \<Rightarrow> board \<Rightarrow> core_behaviour \<Rightarrow> board_identity \<Rightarrow> (nat \<Rightarrow> u8) \<Rightarrow>
     spi_panda \<Rightarrow> spi_panda spi_outcome" where
  "spi_dispatch txe b bd hw bi flash s =
     (let n = unat (spi_data_len_mosi s);
          ep = spi_endpoint s;
          data = drop SPI_HEADER_SIZE (spi_buf_rx s)
      in if ep = 0
         then if n \<ge> 7 then spi_control b bd hw bi flash data s else spi_data_nack True s
         else if ep = 1 \<or> ep = 0x81
         then if n = 0 then spi_can_read s else spi_data_nack True s
         else if ep = 2 then spi_serial_write txe (take n data) s
         else if ep = 3
         then if n > 0 then spi_can_write b hw (take n data) s else spi_data_nack True s
         else if ep = 0xAB then spi_data_ack (unat (spi_data_len_miso s)) s
         else spi_data_nack True s)"

definition spi_rx_done ::
  "(nat \<Rightarrow> bool) \<Rightarrow> build_flags \<Rightarrow> board \<Rightarrow> core_behaviour \<Rightarrow> board_identity \<Rightarrow> (nat \<Rightarrow> u8) \<Rightarrow>
     spi_panda \<Rightarrow> spi_panda spi_outcome" where
  "spi_rx_done txe b bd hw bi flash s =
     (let rx = spi_buf_rx s;
          s = s\<lparr>spi_endpoint := rx ! 1\<rparr>;
          s = s\<lparr>spi_data_len_mosi := le_word16 (rx ! 2) (rx ! 3)\<rparr>;
          s = s\<lparr>spi_data_len_miso := le_word16 (rx ! 4) (rx ! 5)\<rparr>
      in if take 7 rx = version_text
         then let out = spi_version_packet bd bi
              in Sent (spi_respond (length out) SPI_STATE_HEADER_NACK False (write_tx 0 out s))
         else if spi_state s = SPI_STATE_HEADER
         then let checksum_valid = validate_checksum (take SPI_HEADER_SIZE rx)
              in if rx ! 0 = SPI_SYNC_BYTE \<and> checksum_valid
                 then Sent (spi_respond 1 SPI_STATE_HEADER_ACK checksum_valid (write_tx 0 [SPI_HACK] s))
                 else Sent (spi_respond 1 SPI_STATE_HEADER_NACK checksum_valid (write_tx 0 [SPI_NACK] s))
         else if spi_state s = SPI_STATE_DATA_RX
         then let len = unat (spi_data_len_mosi s + 1)
              in if SPI_HEADER_SIZE + len > SPI_BUF_SIZE then Overrun
                 else if validate_checksum (take len (drop SPI_HEADER_SIZE rx)) then spi_dispatch txe b bd hw bi flash s
                 else spi_data_nack False s
         else Sent (spi_respond 0 SPI_STATE_HEADER_NACK False s))"

definition spi_tx_done :: "bool \<Rightarrow> spi_panda \<Rightarrow> spi_panda" where
  "spi_tx_done reset s =
     (if spi_state s = SPI_STATE_HEADER_NACK \<or> reset
      then llspi_mosi_dma 0 SPI_HEADER_SIZE (s\<lparr>spi_state := SPI_STATE_HEADER\<rparr>)
      else if spi_state s = SPI_STATE_HEADER_ACK
      then llspi_mosi_dma SPI_HEADER_SIZE (unat (spi_data_len_mosi s) + 1) (s\<lparr>spi_state := SPI_STATE_DATA_RX\<rparr>)
      else llspi_mosi_dma 0 SPI_HEADER_SIZE (s\<lparr>spi_state := SPI_STATE_HEADER\<rparr>))"

definition spi_init :: "spi_panda \<Rightarrow> spi_panda" where
  "spi_init s = llspi_mosi_dma 0 SPI_HEADER_SIZE (s\<lparr>spi_state := SPI_STATE_HEADER\<rparr>)"

section \<open>What the pieces keep\<close>

definition spi_ok :: "spi_panda \<Rightarrow> bool" where
  "spi_ok s \<longleftrightarrow> length (spi_buf_rx s) = SPI_BUF_SIZE \<and> length (spi_buf_tx s) = SPI_BUF_SIZE \<and> pd_ok (dev s)"

definition same_but_count :: "panda \<Rightarrow> panda \<Rightarrow> bool" where
  "same_but_count d e \<longleftrightarrow> e\<lparr>spi_checksum_error_count := spi_checksum_error_count d\<rparr> = d"

lemma same_but_count_fw: "same_but_count d e \<Longrightarrow> fw e = fw d" "same_but_count d e \<Longrightarrow> pd_ok e = pd_ok d"
  by (cases d; cases e; simp add: same_but_count_def pd_ok_def)+

lemma length_write_tx [simp]:
  "off + length data \<le> length (spi_buf_tx s) \<Longrightarrow> length (spi_buf_tx (write_tx off data s)) = length (spi_buf_tx s)"
  by (simp add: write_tx_def copy_to_def)

lemma write_tx_fields [simp]:
  "dev (write_tx off data s) = dev s" "spi_buf_rx (write_tx off data s) = spi_buf_rx s"
  "spi_state (write_tx off data s) = spi_state s" "spi_mosi (write_tx off data s) = spi_mosi s"
  "spi_data_len_mosi (write_tx off data s) = spi_data_len_mosi s"
  "spi_data_len_miso (write_tx off data s) = spi_data_len_miso s" "spi_endpoint (write_tx off data s) = spi_endpoint s"
  by (simp_all add: write_tx_def)

lemma spi_respond_fields [simp]:
  "spi_state (spi_respond n st v s) = st" "spi_buf_rx (spi_respond n st v s) = spi_buf_rx s"
  "spi_mosi (spi_respond n st v s) = spi_mosi s" "spi_data_len_mosi (spi_respond n st v s) = spi_data_len_mosi s"
  "spi_data_len_miso (spi_respond n st v s) = spi_data_len_miso s" "spi_endpoint (spi_respond n st v s) = spi_endpoint s"
  by (simp_all add: spi_respond_def Let_def llspi_miso_dma_def upd_dev_def)

lemma below_max: "(x :: u16) < 0xFFFF \<longleftrightarrow> x \<noteq> 0xFFFF"
proof -
  have m: "(0xFFFF :: u16) = - 1" by simp
  show ?thesis unfolding m using word_order.not_eq_extremum [of x] by auto
qed

lemma spi_respond_dev:
  "dev (spi_respond n st v s) = (if v \<or> spi_checksum_error_count (dev s) = 0xFFFF then dev s
     else (dev s)\<lparr>spi_checksum_error_count := spi_checksum_error_count (dev s) + 1\<rparr>)"
  unfolding spi_respond_def Let_def llspi_miso_dma_def upd_dev_def below_max
  by (cases "n = 0"; cases v; cases "spi_checksum_error_count (dev s) = 0xFFFF") simp_all

lemma spi_respond_same: "same_but_count (dev s) (dev (spi_respond n st v s))"
  by (simp add: spi_respond_dev same_but_count_def)

lemma spi_respond_ok: "spi_ok s \<Longrightarrow> spi_ok (spi_respond n st v s)"
  using same_but_count_fw(2) [OF spi_respond_same [of s n st v]]
  by (simp add: spi_ok_def SPI_BUF_SIZE_def)
    (simp add: spi_respond_def Let_def llspi_miso_dma_def upd_dev_def SPI_BUF_SIZE_def split: if_split)

lemma spi_respond_miso: "0 < n \<Longrightarrow> spi_miso (spi_respond n st v s) = take n (spi_buf_tx s)"
  by (simp add: spi_respond_def Let_def llspi_miso_dma_def upd_dev_def)

lemma spi_respond_nothing: "spi_miso (spi_respond 0 st v s) = [SPI_NACK]"
  by (simp add: spi_respond_def Let_def llspi_miso_dma_def upd_dev_def write_tx_def copy_to_def)

text \<open>The frame of a response.\<close>

definition spi_frame :: "u8 list \<Rightarrow> u8 list" where
  "spi_frame payload =
     (let head = [SPI_DACK] @ le_bytes16 (of_nat (length payload)) @ payload in head @ [spi_checksum head])"

lemma length_le_bytes16 [simp]: "length (le_bytes16 w) = 2"
  by (simp add: le_bytes16_def)

lemma data_ack_frame:
  assumes "spi_ok s" "n + 4 \<le> SPI_BUF_SIZE"
  shows "\<exists>t. spi_data_ack n s = Sent t \<and> spi_ok t \<and> dev t = dev s \<and> spi_state t = SPI_STATE_DATA_TX \<and>
    spi_buf_rx t = spi_buf_rx s \<and> spi_miso t = spi_frame (take n (drop 3 (spi_buf_tx s)))"
proof -
  let ?h = "[SPI_DACK] @ le_bytes16 (of_nat n)"
  define u where "u = write_tx 0 ?h s"
  define c where "c = spi_checksum (take (n + 3) (spi_buf_tx u))"
  have l: "length (spi_buf_tx s) = SPI_BUF_SIZE" using assms(1) by (simp add: spi_ok_def)
  have lu: "length (spi_buf_tx u) = SPI_BUF_SIZE" using l by (simp add: u_def SPI_BUF_SIZE_def)
  have t3: "take (n + 3) (spi_buf_tx u) = ?h @ take n (drop 3 (spi_buf_tx s))"
    by (simp add: u_def write_tx_def copy_to_def numeral_3_eq_3)
  have "spi_data_ack n s = Sent (spi_respond (n + 4) SPI_STATE_DATA_TX True (write_tx (n + 3) [c] u))"
    using assms(2) by (simp add: spi_data_ack_def u_def c_def Let_def del: One_nat_def)
  moreover have "spi_ok (write_tx (n + 3) [c] u)"
    using assms lu by (simp add: spi_ok_def) (simp add: u_def)
  moreover have "take (n + 4) (spi_buf_tx (write_tx (n + 3) [c] u)) = spi_frame (take n (drop 3 (spi_buf_tx s)))"
    using assms(2) lu l t3 by (simp add: write_tx_def [of "n + 3"] take_copy_to spi_frame_def c_def Let_def)
  ultimately show ?thesis
    using assms(2) by (simp add: spi_respond_ok spi_respond_miso spi_respond_dev) (simp add: u_def)
qed

lemma data_ack_overrun: "SPI_BUF_SIZE \<le> n + 3 \<Longrightarrow> spi_data_ack n s = Overrun"
  by (simp add: spi_data_ack_def)

lemma drop_write_tx:
  "3 + length data \<le> length (spi_buf_tx s) \<Longrightarrow> take (length data) (drop 3 (spi_buf_tx (write_tx 3 data s))) = data"
  by (simp add: write_tx_def copy_to_def)

section \<open>Every transfer is answered\<close>

definition fw_progress :: "build_flags \<Rightarrow> board \<Rightarrow> core_behaviour \<Rightarrow> firmware \<Rightarrow> firmware \<Rightarrow> bool" where
  "fw_progress b bd hw f g \<longleftrightarrow> (\<exists>es. fw_run b bd hw f es g)"

lemma fw_progress_refl [simp]: "fw_progress b bd hw f f"
  unfolding fw_progress_def by (blast intro: fw_run.nil)

lemma fw_progress_step: "fw_step b bd hw f e g \<Longrightarrow> fw_progress b bd hw f g"
  unfolding fw_progress_def by (blast intro: fw_run.intros)

lemma fw_run_append: "fw_run b bd hw f es g \<Longrightarrow> fw_run b bd hw g es' h \<Longrightarrow> fw_run b bd hw f (es @ es') h"
  by (induction rule: fw_run.induct) (auto intro: fw_run.step)

lemma fw_progress_trans: "fw_progress b bd hw f g \<Longrightarrow> fw_progress b bd hw g h \<Longrightarrow> fw_progress b bd hw f h"
  unfolding fw_progress_def by (blast intro: fw_run_append)

lemma fw_progress_reachable: "fw_reachable b bd hw f \<Longrightarrow> fw_progress b bd hw f g \<Longrightarrow> fw_reachable b bd hw g"
  unfolding fw_reachable_def fw_progress_def by (blast intro: fw_run_append)

lemma fw_progress_inv: "fw_progress b bd hw f g \<Longrightarrow> fw_inv b f \<Longrightarrow> fw_inv b g"
  unfolding fw_progress_def by (blast intro: fw_inv_run)

text \<open>The flag of the transmission is one of those that change from outside.\<close>

lemma fw_progress_not_ready:
  assumes "fw_inv b f"
  shows "fw_progress b bd hw f (f\<lparr>spi_can_tx_ready := False\<rparr>)"
proof (rule fw_progress_step)
  have "length (cans f) = 3" "packet_ok (stack_packet f)"
    using assms by (simp_all add: fw_inv_def layer_inv_def can_ok_def)
  from fw_step.world [OF this, where s = f and ts = "microsecond_timer (safety_vars f)" and ?o3.0 = "outep3_processing f"
      and ?d3.0 = "DOEPCTL3 f" and rdy = False and rates = "irq_call_rates f" and ign = "ignition_line f"
      and ?a1.0 = "adc_sbu1 f" and ?a2.0 = "adc_sbu2 f" and g = "som_gpio f" and sp = "som_serial_ptr f"
      and ue = "usb_enumerated f"]
  show "fw_step b bd hw f World (f\<lparr>spi_can_tx_ready := False\<rparr>)" by simp
qed

text \<open>
  The outcome of a transfer: an answer in a good state, or the reset the host asked for with the firmware as
  it was, \<open>f\<close>; an overrun only when more is asked for than the buffer holds, a division by zero only if
  \<open>z\<close>, a wait without end only if \<open>c\<close> does not hold.
\<close>

definition spi_answered :: "bool \<Rightarrow> bool \<Rightarrow> firmware \<Rightarrow> nat \<Rightarrow> (spi_panda \<Rightarrow> bool) \<Rightarrow> spi_panda spi_outcome \<Rightarrow> bool" where
  "spi_answered c z f n P out = (case out of Sent t \<Rightarrow> P t | Spi_reset t \<Rightarrow> fw (dev t) = f | Spi_stuck \<Rightarrow> \<not> c
     | Spi_undefined \<Rightarrow> z | Overrun \<Rightarrow> SPI_BUF_SIZE < n + 4)"

definition spi_after ::
  "build_flags \<Rightarrow> board \<Rightarrow> core_behaviour \<Rightarrow> spi_panda \<Rightarrow> spi_panda \<Rightarrow> bool" where
  "spi_after b bd hw s t \<longleftrightarrow> spi_ok t \<and> spi_buf_rx t = spi_buf_rx s \<and>
     (spi_state t = SPI_STATE_HEADER_NACK \<or> spi_state t = SPI_STATE_DATA_TX) \<and>
     fw_progress b bd hw (fw (dev s)) (fw (dev t))"

lemma answered_nack:
  assumes "spi_ok s"
  shows "spi_answered c z f n (spi_after b bd hw s) (spi_data_nack v s)"
proof -
  have "spi_ok (write_tx 0 [SPI_NACK] s)" using assms by (simp add: spi_ok_def SPI_BUF_SIZE_def)
  then show ?thesis
    using same_but_count_fw(1) [OF spi_respond_same [of "write_tx 0 [SPI_NACK] s" 1 SPI_STATE_HEADER_NACK v]]
    by (simp add: spi_answered_def spi_data_nack_def spi_after_def spi_respond_ok)
qed

lemma answered_ack:
  assumes "spi_ok u" "spi_buf_rx u = spi_buf_rx s" "fw_progress b bd hw (fw (dev s)) (fw (dev u))" "k \<le> n"
  shows "spi_answered c z f n (spi_after b bd hw s) (spi_data_ack k u)"
proof (cases "k + 4 \<le> SPI_BUF_SIZE")
  case True
  then show ?thesis using data_ack_frame [OF assms(1) True] assms(2,3) by (auto simp: spi_answered_def spi_after_def)
next
  case False
  then show ?thesis using data_ack_overrun [of k u] assms(4) by (simp add: spi_answered_def)
qed

lemma spi_ok_dev [simp]: "pd_ok d \<Longrightarrow> spi_ok s \<Longrightarrow> spi_ok (s\<lparr>dev := d\<rparr>)" "spi_ok s \<Longrightarrow> spi_ok (upd_fw f s)"
  "spi_buf_rx (upd_fw f s) = spi_buf_rx s" "fw (dev (upd_fw f s)) = f (fw (dev s))"
  "spi_buf_tx (upd_fw f s) = spi_buf_tx s"
  by (simp_all add: spi_ok_def upd_fw_def upd_dev_def)

lemma spi_ok_write: "spi_ok s \<Longrightarrow> off + length data \<le> SPI_BUF_SIZE \<Longrightarrow> spi_ok (write_tx off data s)"
  by (simp add: spi_ok_def)

lemma answered_control:
  assumes "spi_ok s" "identity_ok bi" "fw_inv b (fw (dev s))" "running (fw (dev s))"
  shows "spi_answered (core_restarts hw) (zero_baud (control_packet data)) (fw (dev s)) 64 (spi_after b bd hw s)
    (spi_control b bd hw bi flash data s)"
proof (cases "comms_control_all b bd hw bi flash (control_packet data) (dev s)")
  case (Reply resp d)
  have p: "pd_ok (dev s)" using assms(1) by (simp add: spi_ok_def)
  note r = control_all_reply [OF Reply]
  have "fw_progress b bd hw (fw (dev s)) (fw d)"
    using r(1) fw_step.host_request [of b bd hw "control_packet data" "fw (dev s)" resp "fw d"]
    by (auto intro: fw_progress_step)
  moreover have "spi_ok (write_tx 3 resp (s\<lparr>dev := d\<rparr>))"
    using r(2) [OF p] r(3) [OF p assms(2)] assms(1) by (intro spi_ok_write) (simp_all add: SPI_BUF_SIZE_def)
  ultimately show ?thesis
    using answered_ack [of "write_tx 3 resp (s\<lparr>dev := d\<rparr>)" s b bd hw "length resp" 64 "core_restarts hw"
        "zero_baud (control_packet data)" "fw (dev s)"] r(3) [OF p assms(2)]
    by (simp add: spi_control_def Reply)
next
  case Stuck
  then show ?thesis using control_all_not_stuck [OF _ assms(4)] by (auto simp: spi_control_def spi_answered_def)
next
  case (Chip_reset d)
  then show ?thesis using control_all_reset [OF Chip_reset] by (simp add: spi_control_def spi_answered_def)
next
  case Undefined
  then show ?thesis using control_all_undefined [of b bd hw bi flash "control_packet data" "dev s"]
    by (simp add: spi_control_def spi_answered_def)
qed

lemma answered_can_read:
  assumes "spi_ok s" "fw_inv b (fw (dev s))"
  shows "spi_answered c z g (unat (spi_data_len_miso s)) (spi_after b bd hw s) (spi_can_read s)"
proof -
  let ?k = "unat (spi_data_len_miso s)"
  obtain out f where r: "comms_can_read ?k (fw (dev s)) = (out, f)" by (rule prod.exhaust)
  have "read_ok (fw (dev s))" using assms(2) by (simp add: fw_inv_def)
  from comms_can_read_spec [OF this r] have "length out = min ?k (length (readable (fw (dev s))))" by blast
  then have k: "length out \<le> ?k" by simp
  have "fw_progress b bd hw (fw (dev s)) f"
    using fw_step.host_read [of b bd hw "fw (dev s)" ?k] r by (auto intro: fw_progress_step)
  then show ?thesis
    using k assms(1) r answered_ack [of "write_tx 3 out (upd_fw (\<lambda>_. f) s)" s b bd hw "length out" ?k]
    by (auto simp: spi_can_read_def Let_def spi_ok_write spi_answered_def [of _ _ _ _ _ Overrun])
qed

lemma answered_serial:
  assumes "spi_ok s"
  shows "spi_answered c z f n (spi_after b bd hw s) (spi_serial_write txe data s)"
proof -
  have "pd_ok (dev s)" using assms by (simp add: spi_ok_def)
  then obtain d where "comms_endpoint2_write txe data (dev s) = Some d" "pd_ok d" "fw d = fw (dev s)"
    using endpoint2_write_ok by blast
  then show ?thesis
    using answered_ack [of "s\<lparr>dev := d\<rparr>" s b bd hw 0 n] assms by (simp add: spi_serial_write_def)
qed

lemma answered_can_write:
  assumes "spi_ok s" "fw_inv b (fw (dev s))"
  shows "spi_answered c z g n (spi_after b bd hw s) (spi_can_write b hw data s)"
proof (cases "spi_can_tx_ready (fw (dev s))")
  case True
  let ?f = "(fw (dev s))\<lparr>spi_can_tx_ready := False\<rparr>"
  let ?u = "upd_fw (comms_can_write b hw data) (upd_fw (\<lambda>f. f\<lparr>spi_can_tx_ready := False\<rparr>) s)"
  have "fw_progress b bd hw (fw (dev s)) ?f" by (rule fw_progress_not_ready [OF assms(2)])
  also have "fw_progress b bd hw ?f (comms_can_write b hw data ?f)"
    by (rule fw_progress_step) (rule fw_step.host_write)
  finally (fw_progress_trans) have "fw_progress b bd hw (fw (dev s)) (fw (dev ?u))" by simp
  then show ?thesis
    using True assms(1) answered_ack [of ?u s b bd hw 0 n] by (simp add: spi_can_write_def)
qed (simp add: spi_can_write_def answered_nack assms)

lemma answered_weaken: "spi_answered c y f m P out \<Longrightarrow> m \<le> n \<Longrightarrow> (y \<Longrightarrow> z) \<Longrightarrow> spi_answered c z f n P out"
  by (auto simp: spi_answered_def split: spi_outcome.splits)

text \<open>The header asks the control endpoint for a baud rate of zero.\<close>

definition spi_zero_baud :: "spi_panda \<Rightarrow> bool" where
  "spi_zero_baud s \<longleftrightarrow> spi_buf_rx s ! 1 = 0 \<and> zero_baud (control_packet (drop SPI_HEADER_SIZE (spi_buf_rx s)))"

lemma answered_dispatch:
  assumes "spi_ok s" "identity_ok bi" "fw_inv b (fw (dev s))" "running (fw (dev s))" "spi_endpoint s = spi_buf_rx s ! 1"
  shows "spi_answered (core_restarts hw) (spi_zero_baud s) (fw (dev s)) (max 64 (unat (spi_data_len_miso s)))
    (spi_after b bd hw s) (spi_dispatch txe b bd hw bi flash s)"
proof -
  let ?ok = "\<lambda>out. spi_answered (core_restarts hw) (spi_zero_baud s) (fw (dev s)) (max 64 (unat (spi_data_len_miso s)))
    (spi_after b bd hw s) out"
  let ?data = "drop SPI_HEADER_SIZE (spi_buf_rx s)" and ?n = "unat (spi_data_len_mosi s)"
  have "?ok (spi_control b bd hw bi flash ?data s)" if "spi_buf_rx s ! 1 = 0"
    using answered_weaken [OF answered_control [OF assms(1-4), of hw ?data bd flash]] that by (simp add: spi_zero_baud_def)
  moreover have "?ok (spi_can_read s)"
    using answered_can_read [OF assms(1,3)] by (rule answered_weaken) simp_all
  moreover have "?ok (spi_serial_write txe data s)" "?ok (spi_can_write b hw data s)"
    "?ok (spi_data_nack True s)" "?ok (spi_data_ack (unat (spi_data_len_miso s)) s)" for data
    using answered_serial [OF assms(1)] answered_can_write [OF assms(1,3)] answered_nack [OF assms(1)]
      answered_ack [OF assms(1)] by simp_all
  ultimately show ?thesis using assms(5) by (simp add: spi_dispatch_def Let_def)
qed

section \<open>The machine\<close>

text \<open>
  \<open>Halted\<close>: in a handler that never returns. \<open>Rebooting\<close>: the chip resets. \<open>Corrupted\<close>: something happened
  of which C leaves open what it does, and nothing is claimed of the state from then on.
\<close>

datatype spi_phase = Receiving | Responding | Halted | Rebooting | Corrupted

datatype spi_event = Mosi "u8 list" | Tx_done bool | Fw fw_event | Around | Restart

text \<open>
  The slice given to the receive channel is filled and \<open>spi_rx_done\<close> runs to one of its outcomes; a slice that
  does not fit the buffer overwrites what lies behind it. The response is out and \<open>spi_tx_done\<close> runs; between
  them, the firmware does anything it can, and what is read from outside changes.
\<close>

definition spi_start :: "build_flags \<Rightarrow> board \<Rightarrow> core_behaviour \<Rightarrow> spi_panda \<Rightarrow> bool" where
  "spi_start b bd hw s \<longleftrightarrow> spi_ok s \<and> fw_reachable b bd hw (fw (dev s))"

definition spi_filled :: "u8 list \<Rightarrow> spi_panda \<Rightarrow> spi_panda" where
  "spi_filled bytes s = s\<lparr>spi_buf_rx := copy_to (fst (spi_mosi s)) bytes (spi_buf_rx s)\<rparr>"

definition spi_fits :: "u8 list \<Rightarrow> spi_panda \<Rightarrow> bool" where
  "spi_fits bytes s \<longleftrightarrow> fst (spi_mosi s) + length bytes \<le> SPI_BUF_SIZE"

definition spi_alive :: "spi_phase \<Rightarrow> bool" where
  "spi_alive ph \<longleftrightarrow> ph = Receiving \<or> ph = Responding"

inductive spi_step ::
  "(nat \<Rightarrow> bool) \<Rightarrow> build_flags \<Rightarrow> board \<Rightarrow> core_behaviour \<Rightarrow> board_identity \<Rightarrow> (nat \<Rightarrow> u8) \<Rightarrow>
     spi_phase \<times> spi_panda \<Rightarrow> spi_event \<Rightarrow> spi_phase \<times> spi_panda \<Rightarrow> bool" for txe b bd hw bi flash where
  received: "length bytes = snd (spi_mosi s) \<Longrightarrow> spi_fits bytes s \<Longrightarrow>
    spi_rx_done txe b bd hw bi flash (spi_filled bytes s) = Sent t \<Longrightarrow>
    spi_step txe b bd hw bi flash (Receiving, s) (Mosi bytes) (Responding, t)"
| resets: "length bytes = snd (spi_mosi s) \<Longrightarrow> spi_fits bytes s \<Longrightarrow>
    spi_rx_done txe b bd hw bi flash (spi_filled bytes s) = Spi_reset t \<Longrightarrow>
    spi_step txe b bd hw bi flash (Receiving, s) (Mosi bytes) (Rebooting, t)"
| sticks: "length bytes = snd (spi_mosi s) \<Longrightarrow> spi_fits bytes s \<Longrightarrow>
    spi_rx_done txe b bd hw bi flash (spi_filled bytes s) = Spi_stuck \<Longrightarrow>
    spi_step txe b bd hw bi flash (Receiving, s) (Mosi bytes) (Halted, s)"
| overruns: "length bytes = snd (spi_mosi s) \<Longrightarrow>
    \<not> spi_fits bytes s \<or> spi_rx_done txe b bd hw bi flash (spi_filled bytes s) \<in> {Overrun, Spi_undefined} \<Longrightarrow>
    spi_step txe b bd hw bi flash (Receiving, s) (Mosi bytes) (Corrupted, t)"
| corrupted: "spi_step txe b bd hw bi flash (Corrupted, s) e (Corrupted, t)"
| restarts: "spi_start b bd hw t \<Longrightarrow> spi_step txe b bd hw bi flash (Rebooting, s) Restart (Receiving, spi_init t)"
| sent: "spi_step txe b bd hw bi flash (Responding, s) (Tx_done reset) (Receiving, spi_tx_done reset s)"
| elsewhere: "spi_alive ph \<Longrightarrow> fw_step b bd hw (fw (dev s)) e f \<Longrightarrow>
    spi_step txe b bd hw bi flash (ph, s) (Fw e) (ph, upd_fw (\<lambda>_. f) s)"
| around: "spi_alive ph \<Longrightarrow> fw d = fw (dev s) \<Longrightarrow> pd_ok d \<Longrightarrow>
    spi_step txe b bd hw bi flash (ph, s) Around (ph, s\<lparr>dev := d\<rparr>)"

text \<open>Whatever arrives in a slice, there is a step for it.\<close>

lemma spi_step_total:
  assumes "length bytes = snd (spi_mosi s)"
  shows "\<exists>y. spi_step txe b bd hw bi flash (Receiving, s) (Mosi bytes) y"
proof (cases "spi_fits bytes s")
  case True
  note r = spi_step.received [OF assms True] spi_step.resets [OF assms True] spi_step.sticks [OF assms True]
    spi_step.overruns [OF assms]
  show ?thesis
  proof (cases "spi_rx_done txe b bd hw bi flash (spi_filled bytes s)")
    case (Sent t)
    then show ?thesis using r(1) by blast
  next
    case (Spi_reset t)
    then show ?thesis using r(2) by blast
  next
    case Spi_stuck
    then show ?thesis using r(3) by blast
  next
    case Spi_undefined
    then show ?thesis using r(4) by fast
  next
    case Overrun
    then show ?thesis using r(4) by fast
  qed
next
  case False
  then show ?thesis using spi_step.overruns [OF assms] by blast
qed

text \<open>The interrupts of the serial ports are among what happens around.\<close>

lemma uart_irq_around:
  assumes "pd_ok (dev s)" "get_ring_by_number a (dev s) = Some q" "spi_alive ph"
  shows "spi_step txe b bd hw bi flash (ph, s) Around
    (ph, s\<lparr>dev := set_ring a (uart_interrupt_handler txe status_v c q) (dev s)\<rparr>)"
  by (rule spi_step.around) (simp_all add: assms(1,3) uart_interrupt_ok [OF get_ring_ok [OF assms(1,2)]])

inductive_cases spi_step_MosiE: "spi_step txe b bd hw bi flash x (Mosi bytes) y"
inductive_cases spi_step_TxE: "spi_step txe b bd hw bi flash x (Tx_done r) y"

inductive spi_reachable ::
  "(nat \<Rightarrow> bool) \<Rightarrow> build_flags \<Rightarrow> board \<Rightarrow> core_behaviour \<Rightarrow> board_identity \<Rightarrow> (nat \<Rightarrow> u8) \<Rightarrow>
     spi_phase \<times> spi_panda \<Rightarrow> bool" for txe b bd hw bi flash where
  start: "spi_start b bd hw s \<Longrightarrow> spi_reachable txe b bd hw bi flash (Receiving, spi_init s)"
| step: "spi_reachable txe b bd hw bi flash x \<Longrightarrow> spi_step txe b bd hw bi flash x e y \<Longrightarrow>
    spi_reachable txe b bd hw bi flash y"

text \<open>What holds in each phase: the state is one the handler expects, and the channel waits for the right slice.\<close>

fun spi_phase_ok :: "spi_phase \<times> spi_panda \<Rightarrow> bool" where
  "spi_phase_ok (Receiving, s) \<longleftrightarrow>
     spi_state s = SPI_STATE_HEADER \<and> spi_mosi s = (0, SPI_HEADER_SIZE) \<or>
     spi_state s = SPI_STATE_DATA_RX \<and> spi_mosi s = (SPI_HEADER_SIZE, unat (spi_data_len_mosi s) + 1) \<and>
     validate_checksum (take SPI_HEADER_SIZE (spi_buf_rx s)) \<and> spi_buf_rx s ! 0 = SPI_SYNC_BYTE \<and>
     spi_data_len_mosi s = le_word16 (spi_buf_rx s ! 2) (spi_buf_rx s ! 3)"
| "spi_phase_ok (Responding, s) \<longleftrightarrow>
     spi_state s = SPI_STATE_HEADER_NACK \<or> spi_state s = SPI_STATE_DATA_TX \<or>
     spi_state s = SPI_STATE_HEADER_ACK \<and>
     validate_checksum (take SPI_HEADER_SIZE (spi_buf_rx s)) \<and> spi_buf_rx s ! 0 = SPI_SYNC_BYTE \<and>
     spi_data_len_mosi s = le_word16 (spi_buf_rx s ! 2) (spi_buf_rx s ! 3)"
| "spi_phase_ok (Halted, s) \<longleftrightarrow> True"
| "spi_phase_ok (Rebooting, s) \<longleftrightarrow> True"
| "spi_phase_ok (Corrupted, s) \<longleftrightarrow> True"

text \<open>The fields parsed from the header.\<close>

definition parse_header :: "spi_panda \<Rightarrow> spi_panda" where
  "parse_header s =
     (let rx = spi_buf_rx s
      in s\<lparr>spi_endpoint := rx ! 1, spi_data_len_mosi := le_word16 (rx ! 2) (rx ! 3),
           spi_data_len_miso := le_word16 (rx ! 4) (rx ! 5)\<rparr>)"

lemma parse_header_fields [simp]:
  "dev (parse_header s) = dev s" "spi_buf_rx (parse_header s) = spi_buf_rx s" "spi_state (parse_header s) = spi_state s"
  "spi_buf_tx (parse_header s) = spi_buf_tx s" "spi_ok (parse_header s) = spi_ok s" "spi_mosi (parse_header s) = spi_mosi s"
  "spi_endpoint (parse_header s) = spi_buf_rx s ! 1"
  "spi_data_len_mosi (parse_header s) = le_word16 (spi_buf_rx s ! 2) (spi_buf_rx s ! 3)"
  "spi_data_len_miso (parse_header s) = le_word16 (spi_buf_rx s ! 4) (spi_buf_rx s ! 5)"
  by (simp_all add: parse_header_def spi_ok_def Let_def)

lemma version_packet_length: "identity_ok bi \<Longrightarrow> length (spi_version_packet bd bi) = 25"
  by (simp add: spi_version_packet_def identity_ok_def version_text_def Let_def)

lemma spi_rx_done_eq:
  "spi_rx_done txe b bd hw bi flash s =
     (let rx = spi_buf_rx s; u = parse_header s
      in if take 7 rx = version_text
         then Sent (spi_respond 25 SPI_STATE_HEADER_NACK False (write_tx 0 (spi_version_packet bd bi) u))
         else if spi_state s = SPI_STATE_HEADER
         then if rx ! 0 = SPI_SYNC_BYTE \<and> validate_checksum (take SPI_HEADER_SIZE rx)
              then Sent (spi_respond 1 SPI_STATE_HEADER_ACK True (write_tx 0 [SPI_HACK] u))
              else Sent (spi_respond 1 SPI_STATE_HEADER_NACK (validate_checksum (take SPI_HEADER_SIZE rx)) (write_tx 0 [SPI_NACK] u))
         else if spi_state s = SPI_STATE_DATA_RX
         then if SPI_HEADER_SIZE + unat (spi_data_len_mosi u + 1) > SPI_BUF_SIZE then Overrun
              else if validate_checksum (take (unat (spi_data_len_mosi u + 1)) (drop SPI_HEADER_SIZE rx))
              then spi_dispatch txe b bd hw bi flash u else spi_data_nack False u
         else Sent (spi_respond 0 SPI_STATE_HEADER_NACK False u))"
  if "identity_ok bi"
  using version_packet_length [OF that, of bd] by (simp add: spi_rx_done_def parse_header_def Let_def)

lemma version_not_sync: "take 7 rx = version_text \<Longrightarrow> rx ! 0 \<noteq> SPI_SYNC_BYTE"
proof -
  assume v: "take 7 rx = version_text"
  then have "rx ! 0 = version_text ! 0" using nth_take [of 0 7 rx] by simp
  then show ?thesis by (simp add: version_text_def SPI_SYNC_BYTE_def)
qed

definition spi_taken ::
  "build_flags \<Rightarrow> board \<Rightarrow> core_behaviour \<Rightarrow> spi_panda \<Rightarrow> spi_panda \<Rightarrow> bool" where
  "spi_taken b bd hw s t \<longleftrightarrow> spi_ok t \<and> spi_buf_rx t = spi_buf_rx s \<and> spi_phase_ok (Responding, t) \<and>
     fw_progress b bd hw (fw (dev s)) (fw (dev t))"

lemma answered_mono: "spi_answered c z f n P out \<Longrightarrow> (\<And>t. P t \<Longrightarrow> Q t) \<Longrightarrow> spi_answered c z f n Q out"
  by (auto simp: spi_answered_def split: spi_outcome.splits)

lemma rx_done_answered:
  assumes "spi_ok s" "identity_ok bi" "fw_inv b (fw (dev s))" "running (fw (dev s))"
    and "spi_state s = SPI_STATE_HEADER \<or> spi_state s = SPI_STATE_DATA_RX \<and>
      unat (le_word16 (spi_buf_rx s ! 2) (spi_buf_rx s ! 3)) + 1 + SPI_HEADER_SIZE \<le> SPI_BUF_SIZE"
  shows "spi_answered (core_restarts hw) (spi_zero_baud s) (fw (dev s))
    (max 64 (unat (le_word16 (spi_buf_rx s ! 4) (spi_buf_rx s ! 5)))) (spi_taken b bd hw s)
    (spi_rx_done txe b bd hw bi flash s)"
proof -
  let ?c = "core_restarts hw" and ?z = "spi_zero_baud s" and ?f = "fw (dev s)"
  let ?u = "parse_header s" and ?n = "max 64 (unat (le_word16 (spi_buf_rx s ! 4) (spi_buf_rx s ! 5)))"
  have r: "spi_answered ?c ?z ?f ?n (spi_taken b bd hw s) (Sent (spi_respond k st v (write_tx 0 data ?u)))"
    if "length data \<le> 64" "st = SPI_STATE_HEADER_NACK \<or> st = SPI_STATE_HEADER_ACK \<and>
      spi_buf_rx s ! 0 = SPI_SYNC_BYTE \<and> validate_checksum (take SPI_HEADER_SIZE (spi_buf_rx s))" for k st v data
  proof -
    have "spi_ok (write_tx 0 data ?u)" using assms(1) that(1) by (intro spi_ok_write) (simp_all add: SPI_BUF_SIZE_def)
    then show ?thesis
      using that(2) same_but_count_fw(1) [OF spi_respond_same [of "write_tx 0 data ?u" k st v]]
      by (auto simp: spi_answered_def spi_taken_def spi_respond_ok)
  qed
  have a: "spi_taken b bd hw s t" if "spi_after b bd hw ?u t" for t
    using that by (auto simp: spi_after_def spi_taken_def)
  have z: "spi_zero_baud ?u = ?z" by (simp add: spi_zero_baud_def)
  have d: "spi_answered ?c ?z ?f ?n (spi_taken b bd hw s) (spi_dispatch txe b bd hw bi flash ?u)"
    "spi_answered ?c ?z ?f ?n (spi_taken b bd hw s) (spi_data_nack False ?u)"
    using answered_mono [OF answered_dispatch [of ?u bi b hw bd txe flash] a]
      answered_mono [OF answered_nack [of ?u ?c ?z ?f ?n b bd hw False] a] assms by (simp_all add: z)
  have l: "unat (x + 1) \<le> unat x + 1" for x :: u16
    using unatSuc [of x] by (cases "1 + x = 0") (simp_all add: add.commute)
  show ?thesis
    using assms(5) r [of "spi_version_packet bd bi"] version_packet_length [OF assms(2), of bd] r [of "[SPI_NACK]"] r [of "[SPI_HACK]"]
      d l [of "le_word16 (spi_buf_rx s ! 2) (spi_buf_rx s ! 3)"]
    by (auto simp: spi_rx_done_eq [OF assms(2)] Let_def)
qed

text \<open>A slice that is filled, as the handler finds it.\<close>

lemma filled_slice:
  assumes "spi_phase_ok (Receiving, s)" "spi_ok s" "length bytes = snd (spi_mosi s)" "spi_fits bytes s"
    and "u = spi_filled bytes s"
  shows "spi_ok u" "dev u = dev s"
    "spi_state u = SPI_STATE_HEADER \<or> spi_state u = SPI_STATE_DATA_RX \<and>
      unat (le_word16 (spi_buf_rx u ! 2) (spi_buf_rx u ! 3)) + 1 + SPI_HEADER_SIZE \<le> SPI_BUF_SIZE"
proof -
  have l: "length (spi_buf_rx s) = SPI_BUF_SIZE" using assms(2) by (simp add: spi_ok_def)
  then show "spi_ok u" "dev u = dev s"
    using assms(2,4) by (simp_all add: spi_ok_def assms(5) length_copy_to spi_filled_def spi_fits_def)
  have k: "copy_to SPI_HEADER_SIZE bytes (spi_buf_rx s) ! i = spi_buf_rx s ! i" if "i < 7" for i
    using l that by (simp add: copy_to_def nth_append SPI_HEADER_SIZE_def SPI_BUF_SIZE_def)
  show "spi_state u = SPI_STATE_HEADER \<or> spi_state u = SPI_STATE_DATA_RX \<and>
      unat (le_word16 (spi_buf_rx u ! 2) (spi_buf_rx u ! 3)) + 1 + SPI_HEADER_SIZE \<le> SPI_BUF_SIZE"
    using assms(1,3,4) by (auto simp: assms(5) k spi_filled_def spi_fits_def)
qed

lemma tx_done_facts [simp]:
  "dev (spi_tx_done r s) = dev s" "spi_buf_rx (spi_tx_done r s) = spi_buf_rx s" "spi_buf_tx (spi_tx_done r s) = spi_buf_tx s"
  "spi_ok (spi_tx_done r s) = spi_ok s"
  by (simp_all add: spi_tx_done_def llspi_mosi_dma_def spi_ok_def)

lemma phase_ok_tx_done: "spi_phase_ok (Responding, s) \<Longrightarrow> spi_phase_ok (Receiving, spi_tx_done r s)"
  by (auto simp: spi_tx_done_def llspi_mosi_dma_def)

lemma phase_ok_elsewhere: "spi_phase_ok (ph, upd_fw f s) = spi_phase_ok (ph, s)"
  by (cases ph) (simp_all add: upd_fw_def upd_dev_def)

definition spi_inv :: "build_flags \<Rightarrow> board \<Rightarrow> core_behaviour \<Rightarrow> spi_phase \<times> spi_panda \<Rightarrow> bool" where
  "spi_inv b bd hw x \<longleftrightarrow> fst x = Corrupted \<or>
     spi_phase_ok x \<and> fw_reachable b bd hw (fw (dev (snd x))) \<and> (spi_alive (fst x) \<longrightarrow> spi_ok (snd x))"

text \<open>The outcome of a slice that fits, in a state of the machine.\<close>

lemma slice_answered:
  assumes "spi_inv b bd hw (Receiving, s)" "identity_ok bi" "length bytes = snd (spi_mosi s)" "spi_fits bytes s"
    and "u = spi_filled bytes s"
  shows "spi_answered (core_restarts hw) (spi_zero_baud u) (fw (dev s))
    (max 64 (unat (le_word16 (spi_buf_rx u ! 4) (spi_buf_rx u ! 5)))) (spi_taken b bd hw u)
    (spi_rx_done txe b bd hw bi flash u)"
proof -
  have i: "spi_ok s" "spi_phase_ok (Receiving, s)" "fw_reachable b bd hw (fw (dev s))"
    using assms(1) by (simp_all add: spi_inv_def spi_alive_def)
  note f = filled_slice [OF i(2,1) assms(3,4,5)]
  have "fw_inv b (fw (dev u))" "running (fw (dev u))"
    using fw_inv_reachable [OF i(3)] running_reachable [OF i(3)] f(2) by simp_all
  from rx_done_answered [OF f(1) assms(2) this f(3), of hw bd txe flash] show ?thesis by (simp only: f(2))
qed

lemma spi_inv_step:
  assumes "spi_step txe b bd hw bi flash x e y" "spi_inv b bd hw x" "identity_ok bi"
  shows "spi_inv b bd hw y"
  using assms(1)
proof cases
  case (received bytes s t)
  have i: "spi_inv b bd hw (Receiving, s)" using assms(2) received(1) by simp
  have "spi_taken b bd hw (spi_filled bytes s) t"
    using slice_answered [OF i assms(3) received(4,5) refl, of txe flash] received(6) by (simp add: spi_answered_def)
  then show ?thesis
    using i fw_progress_reachable received(3)
    by (auto simp: spi_taken_def spi_inv_def spi_filled_def simp del: spi_phase_ok.simps)
next
  case (resets bytes s t)
  have i: "spi_inv b bd hw (Receiving, s)" using assms(2) resets(1) by simp
  have "fw (dev t) = fw (dev s)"
    using slice_answered [OF i assms(3) resets(4,5) refl, of txe flash] resets(6) by (simp add: spi_answered_def)
  then show ?thesis using i resets(3) by (simp add: spi_inv_def spi_alive_def)
next
  case (sticks bytes s)
  then show ?thesis using assms(2) by (simp add: spi_inv_def spi_alive_def)
next
  case (restarts t s)
  then show ?thesis
    by (simp add: spi_inv_def spi_start_def spi_init_def llspi_mosi_dma_def spi_ok_def)
next
  case (sent s reset)
  then show ?thesis using assms(2) phase_ok_tx_done [of s reset] by (simp add: spi_inv_def spi_alive_def)
next
  case (elsewhere ph s ev f)
  then have "fw_reachable b bd hw f"
    using assms(2) fw_progress_step fw_progress_reachable by (auto simp: spi_inv_def spi_alive_def)
  then show ?thesis using elsewhere assms(2) by (auto simp: spi_inv_def phase_ok_elsewhere)
next
  case (around ph d s)
  then show ?thesis using assms(2) by (cases ph) (simp_all add: spi_inv_def spi_alive_def)
qed (simp_all add: spi_inv_def)

text \<open>What the host must do to corrupt the memory.\<close>

definition spi_asks_too_much :: "u8 list \<Rightarrow> spi_panda \<Rightarrow> bool" where
  "spi_asks_too_much bytes s \<longleftrightarrow> \<not> spi_fits bytes s \<or>
     (let rx = spi_buf_rx (spi_filled bytes s)
      in SPI_BUF_SIZE < unat (le_word16 (rx ! 4) (rx ! 5)) + 4) \<or> spi_zero_baud (spi_filled bytes s)"

lemma spi_corrupted_by:
  assumes "spi_step txe b bd hw bi flash x e (Corrupted, t)" "spi_inv b bd hw x" "identity_ok bi" "fst x \<noteq> Corrupted"
  shows "\<exists>bytes s. x = (Receiving, s) \<and> e = Mosi bytes \<and> spi_asks_too_much bytes s"
  using assms(1)
proof cases
  case (overruns bytes s)
  show ?thesis
  proof (cases "spi_fits bytes s")
    case True
    have i: "spi_inv b bd hw (Receiving, s)" using assms(2) overruns(1) by simp
    have "spi_asks_too_much bytes s"
      using slice_answered [OF i assms(3) overruns(3) True refl, of txe flash] overruns(4) True
      by (auto simp: spi_answered_def spi_asks_too_much_def Let_def SPI_BUF_SIZE_def)
    then show ?thesis using overruns by blast
  next
    case False
    then show ?thesis using overruns by (simp add: spi_asks_too_much_def)
  qed
qed (use assms(4) in \<open>simp_all add: spi_alive_def\<close>)

lemma spi_inv_reachable: "spi_reachable txe b bd hw bi flash x \<Longrightarrow> identity_ok bi \<Longrightarrow> spi_inv b bd hw x"
proof (induction rule: spi_reachable.induct)
  case (start s)
  then show ?case
    by (simp add: spi_inv_def spi_start_def spi_init_def llspi_mosi_dma_def spi_ok_def spi_alive_def)
qed (rule spi_inv_step)

section \<open>Checksums detect a changed byte\<close>

lemma xor_fold: "fold (\<lambda>d c. c XOR d) xs (a XOR b :: u8) = fold (\<lambda>d c. c XOR d) xs a XOR b"
proof (induction xs arbitrary: a)
  case (Cons x xs)
  have "(a XOR b) XOR x = (a XOR x) XOR b" by (simp add: ac_simps)
  then show ?case by (simp only: fold.simps comp_apply Cons.IH)
qed simp

lemma xor_zero_iff: "a XOR d = 0 \<longleftrightarrow> a = (d :: u8)"
proof
  assume z: "a XOR d = 0"
  have "a = (a XOR d) XOR d" by (simp add: xor.assoc)
  then show "a = d" by (simp add: z)
qed simp

lemma spi_checksum_insert: "spi_checksum (xs @ d # ys) = spi_checksum (xs @ ys) XOR d"
  by (simp add: spi_checksum_def xor_fold)

lemma validate_iff: "validate_checksum (xs @ d # ys) \<longleftrightarrow> spi_checksum (xs @ ys) = d"
  by (simp add: validate_checksum_def spi_checksum_insert xor_zero_iff)

lemma validate_appended: "validate_checksum (xs @ [spi_checksum xs])"
  using validate_iff [of xs _ "[]"] by simp

lemma changed_byte_detected:
  assumes "validate_checksum data" "i < length data" "x \<noteq> data ! i"
  shows "\<not> validate_checksum (data[i := x])"
proof -
  have "data = take i data @ data ! i # drop (Suc i) data" using assms(2) by (rule id_take_nth_drop)
  then have "spi_checksum (take i data @ drop (Suc i) data) = data ! i" using assms(1) validate_iff by metis
  then show ?thesis using assms(2,3) by (simp add: upd_conv_take_nth_drop validate_iff)
qed

lemma le_word16_bytes: "le_bytes16 w = [a, c] \<Longrightarrow> le_word16 a c = w"
proof -
  have "push_bit 8 (ucast (ucast (drop_bit 8 w) :: u8)) OR ucast (ucast w :: u8) = (w :: u16)"
    by (rule bit_word_eqI) (auto simp: bit_simps)
  then show "le_bytes16 w = [a, c] \<Longrightarrow> le_word16 a c = w" by (auto simp: le_bytes16_def le_word16_def)
qed

text \<open>What the master makes of a response.\<close>

definition spi_parse :: "u8 list \<Rightarrow> u8 list option" where
  "spi_parse r =
     (if r ! 0 = SPI_DACK \<and> validate_checksum r \<and> length r = unat (le_word16 (r ! 1) (r ! 2)) + 4
      then Some (take (unat (le_word16 (r ! 1) (r ! 2))) (drop 3 r)) else None)"

lemma parse_frame:
  assumes "length p < 65536"
  shows "spi_parse (spi_frame p) = Some p"
proof -
  obtain a c where b: "le_bytes16 (of_nat (length p)) = [a, c]" by (simp add: le_bytes16_def)
  have n: "unat (le_word16 a c) = length p"
    using assms by (simp add: le_word16_bytes [OF b] unsigned_of_nat take_bit_nat_eq_self)
  have "validate_checksum (spi_frame p)"
    unfolding spi_frame_def Let_def by (rule validate_appended)
  then show ?thesis using n b by (simp add: spi_parse_def) (simp add: spi_frame_def Let_def b)
qed

text \<open>What is rejected leaves everything as it was, but for the count of errors.\<close>

definition spi_rejected :: "spi_panda \<Rightarrow> spi_panda \<Rightarrow> bool" where
  "spi_rejected s t \<longleftrightarrow> spi_miso t = [SPI_NACK] \<and> spi_state t = SPI_STATE_HEADER_NACK \<and>
     dev t = (if spi_checksum_error_count (dev s) = 0xFFFF then dev s
       else (dev s)\<lparr>spi_checksum_error_count := spi_checksum_error_count (dev s) + 1\<rparr>)"

lemma rejected_respond: "spi_rejected s (spi_respond 1 SPI_STATE_HEADER_NACK False (write_tx 0 [SPI_NACK] (parse_header s)))"
  by (simp add: spi_rejected_def spi_respond_dev spi_respond_miso) (simp add: write_tx_def copy_to_def)

lemma tl_update_zero: "tl (xs[0 := x]) = tl xs"
  by (cases xs) simp_all

lemma damaged_header:
  assumes "identity_ok bi" "spi_state s = SPI_STATE_HEADER"
    and "take 7 (spi_buf_rx s) = h[i := x]" "length h = 7" "h ! 0 = SPI_SYNC_BYTE" "validate_checksum h" "i < 7" "x \<noteq> h ! i"
  shows "\<exists>t. spi_rx_done txe b bd hw bi flash s = Sent t \<and> spi_rejected s t"
proof -
  have bad: "\<not> validate_checksum (take 7 (spi_buf_rx s))"
    using changed_byte_detected [OF assms(6)] assms(3,4,7,8) by simp
  have "take 7 (spi_buf_rx s) \<noteq> version_text"
  proof
    assume v: "take 7 (spi_buf_rx s) = version_text"
    then have u: "h[i := x] = version_text" using assms(3) by simp
    have "i = 0"
    proof (rule ccontr)
      assume "i \<noteq> 0"
      then have "version_text ! 0 = SPI_SYNC_BYTE" using u assms(4,5) by (metis nth_list_update_neq)
      then show False by (simp add: version_text_def SPI_SYNC_BYTE_def)
    qed
    then have "tl h = tl version_text" using u by (metis tl_update_zero)
    then have "h = SPI_SYNC_BYTE # tl version_text" using assms(4,5) by (cases h) simp_all
    then show False
      using assms(6) by (simp add: validate_checksum_def spi_checksum_def version_text_def SPI_SYNC_BYTE_def SPI_CHECKSUM_START_def)
  qed
  then show ?thesis
    using assms(2) bad rejected_respond by (simp add: spi_rx_done_eq [OF assms(1)] Let_def SPI_HEADER_SIZE_def)
qed

text \<open>The data of a transfer that is complete.\<close>

definition spi_data :: "spi_panda \<Rightarrow> u8 list" where
  "spi_data s = take (unat (le_word16 (spi_buf_rx s ! 2) (spi_buf_rx s ! 3)) + 1) (drop SPI_HEADER_SIZE (spi_buf_rx s))"

definition data_received :: "spi_panda \<Rightarrow> bool" where
  "data_received s \<longleftrightarrow> spi_ok s \<and> spi_state s = SPI_STATE_DATA_RX \<and> spi_buf_rx s ! 0 = SPI_SYNC_BYTE \<and>
     unat (le_word16 (spi_buf_rx s ! 2) (spi_buf_rx s ! 3)) + 1 + SPI_HEADER_SIZE \<le> SPI_BUF_SIZE"

lemma rx_done_data:
  assumes "data_received s" "identity_ok bi"
  shows "spi_rx_done txe b bd hw bi flash s =
    (if validate_checksum (spi_data s) then spi_dispatch txe b bd hw bi flash (parse_header s)
     else spi_data_nack False (parse_header s))"
proof -
  let ?n = "le_word16 (spi_buf_rx s ! 2) (spi_buf_rx s ! 3)"
  have n: "unat ?n + 1 + 7 \<le> 2048" using assms(1) by (simp add: data_received_def SPI_HEADER_SIZE_def SPI_BUF_SIZE_def)
  have "unat (?n + 1) = unat ?n + unat (1 :: u16)" by (rule unat_add_lem [THEN iffD1]) (use n in simp)
  then have "unat (?n + 1) = unat ?n + 1" by simp
  moreover have "take 7 (spi_buf_rx s) \<noteq> version_text"
    using assms(1) version_not_sync by (auto simp: data_received_def)
  ultimately show ?thesis
    using assms(1) n
    by (simp add: spi_rx_done_eq [OF assms(2)] Let_def data_received_def spi_data_def SPI_HEADER_SIZE_def SPI_BUF_SIZE_def)
qed

lemma damaged_data:
  assumes "data_received s" "identity_ok bi" "spi_data s = d[i := x]" "validate_checksum d" "i < length d" "x \<noteq> d ! i"
  shows "\<exists>t. spi_rx_done txe b bd hw bi flash s = Sent t \<and> spi_rejected s t"
proof -
  have "\<not> validate_checksum (spi_data s)" using changed_byte_detected [OF assms(4-6)] assms(3) by simp
  then show ?thesis using rejected_respond [of s] by (simp add: rx_done_data [OF assms(1,2)] spi_data_nack_def)
qed

text \<open>The answers, as the master reads them.\<close>

lemma control_answer:
  assumes "spi_ok s" "identity_ok bi" "comms_control_all b bd hw bi flash (control_packet data) (dev s) = Reply resp d"
  shows "\<exists>t. spi_control b bd hw bi flash data s = Sent t \<and> dev t = d \<and> spi_parse (spi_miso t) = Some resp"
proof -
  have p: "pd_ok (dev s)" using assms(1) by (simp add: spi_ok_def)
  note r = control_all_reply(2,3) [OF assms(3) p]
  let ?u = "write_tx 3 resp (s\<lparr>dev := d\<rparr>)"
  have u: "spi_ok ?u" using r(1) r(2) [OF assms(2)] assms(1) by (intro spi_ok_write) (simp_all add: SPI_BUF_SIZE_def)
  have "length resp + 4 \<le> SPI_BUF_SIZE" using r(2) [OF assms(2)] by (simp add: SPI_BUF_SIZE_def)
  from data_ack_frame [OF u this] show ?thesis
    using assms(1) r(2) [OF assms(2)] drop_write_tx [of resp "s\<lparr>dev := d\<rparr>"]
    by (auto simp: spi_control_def assms(3) parse_frame spi_ok_def SPI_BUF_SIZE_def)
qed

lemma read_answer:
  assumes "spi_ok s" "comms_can_read (unat (spi_data_len_miso s)) (fw (dev s)) = (out, f)" "length out + 4 \<le> SPI_BUF_SIZE"
  shows "\<exists>t. spi_can_read s = Sent t \<and> fw (dev t) = f \<and> spi_parse (spi_miso t) = Some out"
proof -
  let ?v = "upd_fw (\<lambda>_. f) s"
  have "spi_ok (write_tx 3 out ?v)" using assms(1,3) by (intro spi_ok_write) simp_all
  from data_ack_frame [OF this assms(3)] show ?thesis
    using assms drop_write_tx [of out ?v]
    by (auto simp: spi_can_read_def parse_frame spi_ok_def SPI_BUF_SIZE_def)
qed

text \<open>The test endpoint takes the length from the header, whatever it is.\<close>

lemma test_endpoint_overruns:
  assumes "data_received s" "identity_ok bi" "validate_checksum (spi_data s)" "spi_buf_rx s ! 1 = 0xAB"
    and "SPI_BUF_SIZE < unat (le_word16 (spi_buf_rx s ! 4) (spi_buf_rx s ! 5)) + 4"
  shows "spi_rx_done txe b bd hw bi flash s = Overrun"
  using assms(3-5) by (simp add: rx_done_data [OF assms(1,2)] spi_dispatch_def Let_def data_ack_overrun)

section \<open>A device on the bus\<close>

definition demo_identity :: board_identity where
  "demo_identity = \<lparr>fl_hw_type = 7, fl_uid = replicate 12 1, fl_serial = replicate 16 2, fl_provision = replicate 32 0xff,
     fl_gitversion = [49]\<rparr>"

definition demo_panda :: panda where
  "demo_panda = \<lparr>fw = demo_up, uart_ring_debug = UART_BUFFER FIFO_SIZE_INT FIFO_SIZE_INT True,
     uart_ring_som_debug = UART_BUFFER FIFO_SIZE_INT FIFO_SIZE_INT True, spi_checksum_error_count = 0, voltage_mV = 12000,
     current_mA = 0, interrupt_load = 0, interrupts_call_rate = replicate NUM_INTERRUPTS 0, fan_state_rpm = 0,
     fan_state_power = 0, fan_state_total_stall_count = 0, TIM1_ARR = 0, enter_bootloader_mode = 0\<rparr>"

text \<open>In state \<open>st\<close>, with \<open>rx\<close> at the start of the receive buffer.\<close>

definition demo_spi :: "spi_states \<Rightarrow> u8 list \<Rightarrow> spi_panda" where
  "demo_spi st rx = \<lparr>dev = demo_panda, spi_state = st, spi_data_len_mosi = 0, spi_data_len_miso = 0, spi_endpoint = 0,
     spi_buf_rx = rx @ replicate (SPI_BUF_SIZE - length rx) 0, spi_buf_tx = replicate SPI_BUF_SIZE 0,
     spi_mosi = (0, 0), spi_miso = []\<rparr>"

lemma demo_identity_ok: "identity_ok demo_identity"
  by (simp add: identity_ok_def demo_identity_def USBPACKET_MAX_SIZE_def)

lemma demo_spi_ok:
  assumes "length rx \<le> SPI_BUF_SIZE"
  shows "spi_ok (demo_spi st rx)"
proof -
  have "uart_ok (UART_BUFFER FIFO_SIZE_INT FIFO_SIZE_INT True)" by (rule uart_buffer_ok) (simp_all add: FIFO_SIZE_INT_def)
  then show ?thesis using assms by (simp add: spi_ok_def demo_spi_def pd_ok_def demo_panda_def)
qed

lemma demo_spi_start: "spi_start release demo_board demo_hw (demo_spi st [])"
  using demo_spi_ok [of "[]"] demo_up_reachable by (simp add: spi_start_def demo_spi_def demo_panda_def)

lemma demo_spi_reachable:
  "spi_reachable txe release demo_board demo_hw demo_identity flash (Receiving, spi_init (demo_spi st []))"
  by (rule spi_reachable.start) (rule demo_spi_start)

text \<open>A header for endpoint \<open>ep\<close> with \<open>n\<close> bytes to come and room for \<open>m\<close>.\<close>

definition demo_header :: "u8 \<Rightarrow> u16 \<Rightarrow> u16 \<Rightarrow> u8 list" where
  "demo_header ep n m = (let h = [SPI_SYNC_BYTE, ep] @ le_bytes16 n @ le_bytes16 m in h @ [spi_checksum h])"

definition demo_request :: "u8 list" where
  "demo_request = (let d = [0xc1, 0, 0, 0, 0, 0, 0] in d @ [spi_checksum d])"

lemma demo_headers_valid: "validate_checksum (demo_header ep n m)" "validate_checksum demo_request"
  unfolding demo_header_def demo_request_def Let_def by (rule validate_appended)+

end
