(* ===== verification/Rx_Drain.thy ===== *)
theory Rx_Drain
  imports Delivery
begin

text \<open>
  The receive interrupt ends. Its loop runs until the core reports an empty queue, and the recovery after an
  error waits for the core to leave its clock stop, so this rests on the
  core: \<open>core_restarts hw\<close>, and \<open>drains hw m\<close> says that \<open>m\<close> bounds the messages a core still has to deliver, those to come
  while the loop runs included, that acknowledging one uses one up, and that the other registers the loop
  writes bring no new ones.
\<close>

definition drains :: "core_behaviour \<Rightarrow> (fdcan \<Rightarrow> nat) \<Rightarrow> bool" where
  "drains hw m \<longleftrightarrow> (\<forall>c. RXF0S c AND FDCAN_RXF0S_F0FL \<noteq> 0 \<longrightarrow> 0 < m c) \<and>
     (\<forall>c i. m (write_RXF0A hw i c) \<le> m c - 1) \<and>
     (\<forall>c v. m (write_IR hw v c) \<le> m c) \<and> (\<forall>c v. m (write_TXBAR hw v c) \<le> m c)"

text \<open>No core has more to deliver in the second state than in the first.\<close>

definition cores_le :: "(fdcan \<Rightarrow> nat) \<Rightarrow> 'a cst \<Rightarrow> 'a cst \<Rightarrow> bool" where
  "cores_le m s t \<longleftrightarrow> length (cans t) = length (cans s) \<and> (\<forall>i < length (cans s). m (cans t ! i) \<le> m (cans s ! i))"

lemma cores_le_refl [simp]: "cans t = cans s \<Longrightarrow> cores_le m s t"
  by (simp add: cores_le_def)

lemma cores_le_trans [trans]: "cores_le m s t \<Longrightarrow> cores_le m t u \<Longrightarrow> cores_le m s u"
  by (auto simp: cores_le_def intro: order_trans)

lemma cores_le_upd: "(\<And>c. m (f c) \<le> m c) \<Longrightarrow> cores_le m s (upd_can n f s)"
proof -
  assume f: "\<And>c. m (f c) \<le> m c"
  then have "m ((cans s)[unat n := f (cans s ! unat n)] ! i) \<le> m (cans s ! i)" if "i < length (cans s)" for i
    using that by (cases "i = unat n") simp_all
  then show ?thesis by (simp add: cores_le_def upd_can_def)
qed

lemma cores_le_cans: "cores_le m s u \<Longrightarrow> cans t = cans u \<Longrightarrow> cores_le m s t"
  by (simp add: cores_le_def)

section \<open>The calls of the loop\<close>

lemma cores_le_send_element:
  assumes "drains hw m"
  shows "cores_le m s (send_element hw n p s)"
proof -
  have "cores_le m s (upd_can n (write_TXBAR hw v) (s\<lparr>tx_requests := r\<rparr>))" for v r
    by (rule cores_le_trans [OF cores_le_refl cores_le_upd]) (use assms in \<open>simp_all add: drains_def\<close>)
  then show ?thesis unfolding send_element_def Let_def by blast
qed

lemma cores_le_transmit:
  assumes "drains hw m"
  shows "cores_le m s (transmit_packet hw n bus p s)"
proof -
  let ?u = "send_element hw n p (upd_health n (\<lambda>h. h\<lparr>total_tx_cnt := total_tx_cnt h + 1\<rparr>) s)"
  have "cores_le m s ?u"
    by (rule cores_le_trans [OF cores_le_refl cores_le_send_element [OF assms]]) simp
  then show ?thesis
    by (cases "can_check_checksum p") (simp_all add: transmit_packet_def Let_def cores_le_cans)
qed

lemma cores_le_process:
  assumes "drains hw m"
  shows "cores_le m s (process_can hw n s)"
proof (cases "n = 0xFF")
  case False
  let ?s = "upd_can n (\<lambda>c. write_IR hw (IR c OR FDCAN_IR_TFE) c) s"
  have "cores_le m s ?s" using assms by (intro cores_le_upd) (simp add: drains_def)
  moreover have "cores_le m ?s (transmit_packet hw n bus p (?s\<lparr>can_queues := q\<rparr>))" for bus p q
    by (rule cores_le_trans [OF cores_le_refl cores_le_transmit [OF assms]]) simp
  ultimately show ?thesis
    using False by (auto simp: process_can_def Let_def case_prod_beta split: option.split intro: cores_le_trans)
qed (simp add: process_can_def)

lemma cores_le_send:
  assumes "drains hw m"
  shows "cores_le m s (can_send b hw p bus skip s)"
proof -
  have "cores_le m s (process_can hw n (push_tx bus p (s\<lparr>safety_vars := v\<rparr>)))" for n v
    by (rule cores_le_trans [OF cores_le_refl cores_le_process [OF assms]]) simp
  then show ?thesis by (simp add: can_send_def Let_def case_prod_beta)
qed

lemma cores_le_forward:
  assumes "drains hw m"
  shows "cores_le m s (forward_packet b hw n bus p s)"
proof -
  have "cores_le m s (upd_health n f (can_send b hw q k skip s))" for f q k skip
    by (rule cores_le_cans [OF cores_le_send [OF assms]]) simp
  then show ?thesis by (simp only: forward_packet_def Let_def cores_le_refl if_split) blast
qed

lemma cans_ignition [simp]: "cans (ignition_can_hook p s) = cans s"
  by (simp add: ignition_can_hook_def Let_def)

lemma cans_receive [simp]: "cans (receive_packet b p s) = cans s"
  by (simp add: receive_packet_def case_prod_beta)

section \<open>The loop\<close>

text \<open>Whatever a pass does, it acknowledges one message of its own core at the end.\<close>

lemma rx_one_less:
  assumes "drains hw m" "unat n < length (cans s)"
  shows "m (cans (can_rx_one b hw n bus s) ! unat n) \<le> m (cans s ! unat n) - 1"
    "length (cans (can_rx_one b hw n bus s)) = length (cans s)"
proof -
  let ?h = "upd_health n (\<lambda>h. h\<lparr>total_rx_cnt := total_rx_cnt h + 1\<rparr>) s"
  let ?c = "cans (?h\<lparr>pending_can_live := 1\<rparr>) ! unat n"
  let ?s = "if RXF0S ?c AND FDCAN_RXF0S_F0F = FDCAN_RXF0S_F0F
    then upd_health n (\<lambda>h. h\<lparr>total_rx_lost_cnt := total_rx_lost_cnt h + 1\<rparr>) (?h\<lparr>pending_can_live := 1\<rparr>)
    else ?h\<lparr>pending_can_live := 1\<rparr>"
  let ?p = "packet_of (stack_packet ?s) bus (rx_elements ?c ! unat (rx_index ?c))"
  have "\<exists>u. cans u = cans (forward_packet b hw n bus ?p ?s) \<and> can_rx_one b hw n bus s = upd_can n (write_RXF0A hw (rx_index ?c)) u"
    unfolding can_rx_one_def Let_def by (rule exI, rule conjI [rotated], rule refl) simp
  moreover have "cores_le m s (forward_packet b hw n bus ?p ?s)"
    by (rule cores_le_trans [OF cores_le_refl cores_le_forward [OF assms(1)]]) simp
  ultimately obtain u i where u: "cores_le m s u" "can_rx_one b hw n bus s = upd_can n (write_RXF0A hw i) u"
    using cores_le_cans by blast
  show "length (cans (can_rx_one b hw n bus s)) = length (cans s)" using u by (simp add: cores_le_def)
  have "m (cans u ! unat n) \<le> m (cans s ! unat n)" "unat n < length (cans u)" using u(1) assms(2) by (simp_all add: cores_le_def)
  moreover have "m (write_RXF0A hw i c) \<le> m c - 1" for i c using assms(1) by (simp add: drains_def)
  ultimately show "m (cans (can_rx_one b hw n bus s) ! unat n) \<le> m (cans s ! unat n) - 1"
    unfolding u(2) upd_can_def by (simp) (meson diff_le_mono le_trans)
qed

lemma rx_loop_ends:
  assumes "drains hw m" "unat n < length (cans s)" "m (cans s ! unat n) \<le> k"
  shows "\<exists>t. can_rx_loop b hw n bus k s = Some t"
  using assms(2,3)
proof (induction k arbitrary: s)
  case 0
  then have "RXF0S (cans s ! unat n) AND FDCAN_RXF0S_F0FL = 0" using assms(1) by (fastforce simp: drains_def)
  then show ?case by (simp add: can_rx_loop.simps)
next
  case (Suc k)
  let ?t = "can_rx_one b hw n bus s"
  note l = rx_one_less [OF assms(1) Suc.prems(1), of b bus]
  have "m (cans ?t ! unat n) \<le> k" using l(1) Suc.prems(2) by linarith
  then have "\<exists>t. can_rx_loop b hw n bus k ?t = Some t" using Suc.IH [of ?t] Suc.prems(1) l(2) by simp
  then show ?case by (simp add: can_rx_loop.simps [of b hw n bus "Suc k" s])
qed

lemma can_rx_ends:
  assumes "drains hw m" "unat n < length (cans s)" "m (cans s ! unat n) \<le> fuel" "core_restarts hw" "\<not> hung s"
  shows "\<exists>t. can_rx b hw fuel n s = Some t"
proof -
  let ?s = "upd_can n (\<lambda>c. write_IR hw (IR c OR FDCAN_IR_RF0N) c) s"
  have "cores_le m s ?s" using assms(1) by (intro cores_le_upd) (simp add: drains_def)
  then have "m (cans ?s ! unat n) \<le> fuel" "unat n < length (cans ?s)"
    using assms(2,3) by (auto simp: cores_le_def intro: order_trans)
  then obtain t where t: "can_rx_loop b hw n (BUS_NUM_FROM_CAN_NUM s n) fuel ?s = Some t"
    using rx_loop_ends [OF assms(1)] by blast
  have "\<not> hung t" using hung_rx_loop [OF t] assms(5) by simp
  then show ?thesis using t by (simp add: can_rx_def Let_def hung_setup [OF assms(4)])
qed

text \<open>A firmware with a message waiting in each core.\<close>

definition demo_waiting :: firmware where
  "demo_waiting = demo_up\<lparr>cans := replicate 3 (demo_core\<lparr>RXF0S := 1, rx_elements := [canfd_fifo_0]\<rparr>)\<rparr>"

lemma demo_waiting_reachable: "fw_reachable release demo_board demo_hw demo_waiting"
proof (rule reachable_step [OF demo_up_reachable])
  have p: "packet_ok (stack_packet demo_up)"
    using fw_inv_reachable [OF demo_up_reachable] by (simp add: fw_inv_def layer_inv_def can_ok_def)
  from fw_step.world [where b = release and bd = demo_board and hw = demo_hw and s = demo_up and cs = "cans demo_waiting"
      and p = "stack_packet demo_up" and ts = "microsecond_timer (safety_vars demo_up)" and ?o3.0 = "outep3_processing demo_up"
      and ?d3.0 = "DOEPCTL3 demo_up" and rdy = "spi_can_tx_ready demo_up" and rates = "irq_call_rates demo_up"
      and ign = "ignition_line demo_up" and ?a1.0 = "adc_sbu1 demo_up" and ?a2.0 = "adc_sbu2 demo_up"
      and g = "som_gpio demo_up" and sp = "som_serial_ptr demo_up" and ue = "usb_enumerated demo_up"]
  show "fw_step release demo_board demo_hw demo_up World demo_waiting" using p by (simp add: demo_waiting_def)
qed

lemma demo_drains: "drains demo_hw (\<lambda>c. if RXF0S c AND FDCAN_RXF0S_F0FL \<noteq> 0 then 1 else 0)"
  by (auto simp: drains_def demo_hw_def)

end
