(* ===== verification/Spec2Isabelle.thy ===== *)
theory Spec2Isabelle
  imports Spi Rx_Drain
begin

text \<open>
  panda is the firmware of an adapter between the CAN buses of a car and a computer that drives it. The
  computer sends packets over USB or SPI; the firmware puts on the buses only what the safety mode of
  the car allows, forwards what passes between the car and the driving assistant it replaces, reports
  what it receives, and falls silent when the computer does. This development models that path from the
  bytes of a transfer to the registers of a CAN controller and back, every safety mode, the timer that
  watches over it, and the boot loader that decides which firmware runs. The build is that of the
  STM32H7 boards (\<^verbatim>\<open>CANFD\<close> and \<^verbatim>\<open>STM32H7\<close> defined). Paths are below \<^verbatim>\<open>src/board\<close>, or \<^verbatim>\<open>src/crypto\<close>.

  \<^bold>\<open>How the code is translated.\<close> A record has the globals of a file as its fields, under
  their C names; a later layer extends the record of the layer below (\<open>fault_state\<close>, \<open>safety\<close>,
  \<open>statics\<close> for the safety layer, which is the field \<open>safety_vars\<close> of \<open>can_layer\<close>, extended to
  \<open>firmware\<close>). A function of the code is a definition of the same name that takes the state last and
  returns it; a chain of \<open>let s = ...\<close> is its sequence of statements, in their order, early
  returns as branches. Values with a fixed width are words and wrap around; C \<^verbatim>\<open>int\<close> values of the
  safety layer, which stay far from their limits, are \<open>int\<close>; single precision floats are
  rationals that each operation rounds (\<^verbatim>\<open>Float32\<close>). Function pointers of a mode are the record
  \<open>safety_hooks\<close>, and a mode in force is named by the datatype \<open>hooks_ref\<close>. A struct on the stack
  that is filled in part keeps the rest of what was there, a field of the state.

  \<^bold>\<open>What is a parameter.\<close> \<open>build_flags\<close>: the debug switches of the build. \<open>board\<close>: the
  capabilities in the struct of the board. \<open>core_behaviour\<close>: how the silicon of a controller answers
  a write to its command and flag registers; \<open>core_restarts\<close> is the hypothesis that a core asked to leave
  its clock stop does so. The time, the pins, the registers the hardware changes and
  the interrupt flags are fields that the step \<open>world\<close> of the firmware changes to anything.
  The public keys and the contents of the flash are arguments of the boot loader.

  \<^bold>\<open>The theories.\<close>
  \<^item> \<^verbatim>\<open>Prelude\<close>: \<^verbatim>\<open>utils.h\<close>, and the generic lemmas. \<^verbatim>\<open>Float32\<close>: rounding, its monotonicity, its error.
    \<^verbatim>\<open>Faults\<close>: \<^verbatim>\<open>faults.h\<close>.
  \<^item> \<^verbatim>\<open>Can_Packet\<close>, \<^verbatim>\<open>Can_Checksum\<close>: the packet, its bytes, its checksum. \<^verbatim>\<open>Can_Ring\<close>: the ring buffers,
    with the locale \<open>bounded_queue\<close> that they interpret.
  \<^item> \<^verbatim>\<open>Safety_Types\<close>, \<^verbatim>\<open>Safety_Core\<close>, \<^verbatim>\<open>Safety_Rx\<close>, \<^verbatim>\<open>Safety_Hooks\<close>: \<^verbatim>\<open>safety.h\<close> and \<^verbatim>\<open>safety_declarations.h\<close>,
    data and limits, validity of received packets, the dispatcher and the registry of modes.
    \<^verbatim>\<open>Signals\<close>, \<^verbatim>\<open>Steering\<close>, \<^verbatim>\<open>Rx_Validity\<close>: what the checks mean.
  \<^item> \<^verbatim>\<open>Mode_State\<close> has the variables of the modes, \<^verbatim>\<open>Mode_Contract\<close> the locale \<open>safety_mode\<close>: what the
    dispatcher relies on in a mode. Every theory \<^verbatim>\<open>Mode_...\<close> translates the files of one make of
    car under \<^verbatim>\<open>safety/\<close> and interprets the locale on its hooks, \<^verbatim>\<open>Safety_Hooks\<close> on the selected mode.
  \<^item> \<^verbatim>\<open>Safety_System\<close>, \<^verbatim>\<open>Engagement\<close>: the safety layer as a transition system
    (\<open>safety_reachable\<close>), its invariants by rule induction, the exact conditions of the permission.
  \<^item> \<^verbatim>\<open>Llfdcan\<close> (\<^verbatim>\<open>stm32h7/llfdcan.h\<close>), \<^verbatim>\<open>Can_Layer\<close> (\<^verbatim>\<open>drivers/can_common.h\<close>), \<^verbatim>\<open>Fdcan\<close>
    (\<^verbatim>\<open>drivers/fdcan.h\<close>), \<^verbatim>\<open>Can_Stream\<close> (\<^verbatim>\<open>can_comms.h\<close>): the path of a packet.
    \<^verbatim>\<open>Can_Invariant\<close>: what every operation of it keeps. \<^verbatim>\<open>Rx_Drain\<close>: the loop of the receive interrupt ends.
  \<^item> \<^verbatim>\<open>Main_Loop\<close> (\<^verbatim>\<open>main.c\<close> and the drivers it ticks), \<^verbatim>\<open>Control\<close> (\<^verbatim>\<open>main_comms.h\<close>): the timer and the
    requests of the host. \<^verbatim>\<open>Firmware\<close>: all entry points as one transition system
    (\<open>fw_reachable\<close>), a simulation of the safety layer's own system. \<^verbatim>\<open>Heartbeat\<close>: the silent host.
    \<^verbatim>\<open>Delivery\<close>: a packet on an idle bus; concrete runs. \<^verbatim>\<open>Scenarios\<close>: the frames they use.
  \<^item> \<^verbatim>\<open>Uart\<close> (\<^verbatim>\<open>drivers/uart.h\<close>, \<^verbatim>\<open>stm32h7/lluart.h\<close>): the serial ports; each direction of a port is seen as a
    ring of \<^verbatim>\<open>Can_Ring\<close>. \<^verbatim>\<open>Requests\<close>: the requests that \<^verbatim>\<open>Control\<close> leaves over, on the record \<open>panda\<close> that
    has the firmware as its field \<open>fw\<close>. \<^verbatim>\<open>Spi\<close> (\<^verbatim>\<open>drivers/spi.h\<close>, \<^verbatim>\<open>crc.h\<close>): the protocol in front of transfers and
    requests, as a transition system (\<open>spi_reachable\<close>) that refines the firmware's.
  \<^item> \<^verbatim>\<open>Sha1\<close>, \<^verbatim>\<open>Rsa\<close> (\<^verbatim>\<open>crypto/\<close>), \<^verbatim>\<open>Bootstub\<close> (\<^verbatim>\<open>bootstub.c\<close>, \<^verbatim>\<open>early_init.h\<close>), \<^verbatim>\<open>Flasher\<close> (\<^verbatim>\<open>flasher.h\<close>,
    \<^verbatim>\<open>stm32h7/llflash.h\<close>): the boot loader.

  \<^bold>\<open>What is proved.\<close> The safety layer: C1 to C5, C20 to C25. The firmware around it: C6 to C13,
  C8 being the simulation that carries the invariants of the safety layer over to the
  firmware; C6 follows every frame on a bus back to the event it came from and to the hook that accepted it.
  The queues, checksums, transfers and bit timing: C14 to C19, C19 with exactly the pairs of rates for which the
  registers are right. The boot loader: C26 to C32, against the published definitions of SHA-1 and of modular
  exponentiation. That nothing waits without end: C11 and C34 for the timer and the requests, C33 for the receive
  interrupt, C40 for the serial ports. The device on the SPI bus: C35 to C39, with the exact lengths for which it
  is safe in C36, and in C35 what happens beyond them.

  \<^bold>\<open>Loops.\<close> Loops over arrays and transfers are total. The switch to an unknown mode falls back to the
  silent one; a result \<open>None\<close> is the endless loop of the assertion that guards the fallback, and C11
  shows that it is never entered. The receive interrupt runs until the hardware reports an empty
  queue; it has fuel, any amount of it in the steps of the firmware, and C33 says how much is enough. The
  waits of the setup of a controller are bounded by the time-out of the code, but for the one for the
  acknowledged clock stop: \<open>csa_wait\<close> is a \<open>partial_function\<close> that is \<open>None\<close> if the core never leaves it.
  Inside a call of the CAN layer that did not return the flag \<open>hung\<close> is set and nothing changes any more; the entry
  point around it returns \<open>None\<close> then. So does the wait for the lock of the converter in
  \<open>set_intercept_relay\<close>, if it is held: the only holder, \<open>harness_detect_orientation\<close>, gives it back before it returns,
  and C34 shows that it is free at every entry point. The wait of a serial port for room is \<open>None\<close> if it never ends.

  The buffers of the SPI driver are lists of their size; an access past the end is the outcome
  \<open>Overrun\<close> of a transfer, and the DMA of a slice longer than the buffer leads to \<open>Corrupted\<close>. A division by a
  baud rate of 0 is the outcome \<open>Undefined\<close>. A model stops there: C says nothing of what follows.

  \<^bold>\<open>Not modelled.\<close> Registers without logic of their own: clocks, pins, ADC, timers, DMA, the USB core, the
  boards under \<^verbatim>\<open>boards/\<close>, the vendor's headers under \<^verbatim>\<open>stm32*/inc\<close> but for the constants in use. The
  controller of the older boards, \<^verbatim>\<open>drivers/bxcan.h\<close>: the two drivers share the layer above. The fan's
  control loop, the lamps, the counters of interrupts and of USB errors. The text printed for debugging. Interrupts are
  atomic: the code masks them around what they share, and an entry point is one step. The
  compiler may contract float operations into fused ones; every operation is rounded here. Python
  libraries and tests, and the firmware of the test rig under \<^verbatim>\<open>jungle/\<close>, are not C code of the adapter.
\<close>

section \<open>The safety layer as a whole\<close>

text \<open>
  C1. In every reachable state of the safety layer, a packet the transmit hook lets through is
  sent with no relay malfunction; it is on the white list of the mode in force, or the mode is that of
  the diagnostic tool, or this is a debug build in the mode without checks; and if it commands an
  actuator of the car, controls are allowed.
\<close>

theorem accepted_packet_is_safe:
  assumes "safety_reachable b s" and "fst (safety_tx_hook b p s)"
  shows "\<not> relay_malfunction s \<and>
    ((\<exists>m \<in> set (tx_msgs (current_safety_config s)).
        m_addr m = GET_ADDR p \<and> m_bus m = GET_BUS p \<and> m_len m = int (GET_LEN p)) \<or>
     current_hooks s = Elm327_hooks \<or> ALLOW_DEBUG b \<and> current_hooks s = Alloutput_hooks) \<and>
    (actuates_of (current_hooks s) p s \<longrightarrow> controls_allowed s)"
proof -
  have "(current_safety_mode s, current_hooks s) \<in> set (safety_hook_registry b)"
    using safety_inv_reachable [OF assms(1)] by (simp add: safety_inv_def dispatch_of_def)
  then have "current_safety_mode s = SAFETY_ALLOUTPUT \<Longrightarrow> ALLOW_DEBUG b \<and> current_hooks s = Alloutput_hooks"
    "current_safety_mode s = SAFETY_ELM327 \<Longrightarrow> current_hooks s = Elm327_hooks"
    by (simp_all add: registry_hooks)
  then show ?thesis
    using safety_tx_hook_accepts [OF assms(2)] unfolding msg_allowed_iff by blast
qed

theorem accepted_packet_is_safe_witness:
  "controls_allowed toyota_engaged \<and> actuates_of Toyota_hooks steer_frame toyota_engaged \<and>
   (\<exists>m \<in> set TOYOTA_COMMON_LONG_TX_MSGS. m_addr m = 0x2E4)"
  using accepted_packet_is_safe [OF toyota_engaged_reachable steer_frame_accepted(1)]
  by (auto simp: toyota_engaged_facts toyota_actuates_def)

text \<open>
  C2. Once a relay malfunction is recorded, nothing is sent and nothing is forwarded until the mode
  is switched, whatever is received, sent, ticked or written by the main loop in between.
\<close>

theorem relay_malfunction_latches:
  assumes "safety_reachable b s" and "relay_malfunction s" and "safety_run b s es t"
    and "\<And>m prm. Mode m prm \<notin> set es"
  shows "\<not> fst (safety_tx_hook b p t) \<and> safety_fwd_hook b bus addr t = - 1"
  using relay_run [OF assms(3) safety_inv_reachable [OF assms(1)] assms(2,4)] safety_tx_hook_accepts(1) [of b p t]
  by (auto simp: safety_fwd_hook_def)

theorem relay_malfunction_latches_witness:
  "\<not> fst (safety_tx_hook release steer_frame (safety_tick toyota_broken)) \<and>
   safety_fwd_hook release 0 0x123 (safety_tick toyota_broken) = - 1"
  by (rule relay_malfunction_latches [OF toyota_broken_reachable toyota_broken_relay
        safety_run.step [OF safety_step.tick safety_run.nil]]) simp

text \<open>
  C3. Controls become allowed in one way only: a packet on the bus that passes the checksum,
  counter and quality checks of the mode is handed to its receive hook. A debug build has a second way,
  the mode without checks.
\<close>

theorem engagement_needs_a_valid_packet:
  assumes "safety_reachable b s" and "safety_step b s e t" and "\<not> controls_allowed s" and "controls_allowed t"
  shows "(\<exists>p. e = Rx p \<and> valid_packet (hooks_of b (current_hooks s)) s p \<and>
      t = snd (safety_rx_hook b p s)) \<or>
    ALLOW_DEBUG b \<and> (\<exists>prm. e = Mode SAFETY_ALLOUTPUT prm)"
  using engagement_step [OF assms(2) safety_inv_reachable [OF assms(1)] assms(3,4)] assms(2)
  by (auto elim: safety_step_RxE)

theorem engagement_needs_a_valid_packet_witness:
  "\<exists>p. valid_packet (hooks_of release Toyota_hooks) toyota_idle p"
  using engagement_needs_a_valid_packet [OF toyota_idle_reachable safety_step.rx [of release toyota_idle cruise_frame]]
    toyota_engaged_allowed toyota_idle_facts(2,3)
  by (auto simp: toyota_engaged_def release_def)

text \<open>
  C4. In no reachable state is anybody in control with the brake or the regen paddle pressed while
  the car moves, a Hyundai with the camera's cruise control apart; and longitudinal control needs the gas
  pedal released in every mode.
\<close>

theorem no_control_against_the_brake:
  assumes "safety_reachable b s"
  shows "(controls_allowed s \<and> vehicle_moving s \<and> current_hooks s \<notin> {Hyundai_hooks, Hyundai_legacy_hooks} \<longrightarrow>
      \<not> brake_pressed s \<and> \<not> regen_braking s) \<and>
    (get_longitudinal_allowed s \<longleftrightarrow> controls_allowed s \<and> \<not> gas_pressed s)"
  using override_inv_reachable [OF assms]
  by (auto simp: override_inv_def settled_def prevs_current_def braking_def hyundai_family_def
      get_longitudinal_allowed_def)

theorem no_control_against_the_brake_witness:
  "get_longitudinal_allowed toyota_engaged \<longleftrightarrow> \<not> gas_pressed toyota_engaged"
  using no_control_against_the_brake [OF toyota_engaged_reachable] toyota_engaged_allowed by blast

text \<open>
  C5. A received packet that shows the brake pressed or the regen paddle pressed, where the state before
  did not, ends with controls not allowed, in every mode and every reachable state. So does one that shows the
  gas pedal newly pressed, unless the host has set the alternative experience that keeps controls on gas.
\<close>

theorem driver_press_disengages:
  assumes "safety_reachable b s" and "t = snd (safety_rx_hook b p s)"
    and "brake_pressed t \<and> \<not> brake_pressed s \<or> regen_braking t \<and> \<not> regen_braking s \<or>
      gas_pressed t \<and> \<not> gas_pressed s \<and> alternative_experience s AND ALT_EXP_DISABLE_DISENGAGE_ON_GAS = 0"
  shows "\<not> controls_allowed t"
  using rx_pressed [OF safety_inv_reachable [OF assms(1)] override_inv_reachable [OF assms(1)], of p] assms(2,3)
  by (simp add: pressed_def)

theorem driver_press_disengages_witness:
  "controls_allowed toyota_engaged \<and> \<not> controls_allowed (snd (safety_rx_hook release brake_frame toyota_engaged))"
  using driver_press_disengages [OF toyota_engaged_reachable refl, of brake_frame]
    toyota_braked toyota_engaged_brake(1) toyota_engaged_allowed by simp

section \<open>The firmware around it\<close>

text \<open>
  C6. Whatever the buses, the host, the timer and the world do, every element handed to a CAN
  controller goes back to an event of this run. Either the host wrote a transfer, and the element is that of a
  packet of the stream, whole with this transfer, which the transmit hook accepted when its turn came; or a
  controller received a packet that the forward hook sent on in that pass of the receive loop, and the element
  is that of its copy. The packet has a good checksum.
\<close>

theorem transmitted_frames_are_legitimate:
  assumes "fw_start s0" and "main_init b bd hw s0 = Some s1" and "fw_run b bd hw s1 es s"
    and "(n, i, e) \<in> set (tx_requests s)"
  shows "\<exists>p fd brs es1 ev es2 u. e = element_of fd brs p \<and> can_check_checksum p \<and>
    es = es1 @ ev # es2 \<and> fw_run b bd hw s1 es1 u \<and>
    (case ev of
       Host_write data \<Rightarrow>
         (let ps = fst (decode_stream (pending_write u @ data))
          in \<exists>k<length ps. p = ps ! k \<and>
               fst (safety_tx_hook b p (safety_vars (fold (send_packet b hw) (take k ps) u))))
     | Rx_irq m fuel \<Rightarrow>
         (let bus = BUS_NUM_FROM_CAN_NUM u m
          in \<exists>k q w. w = rx_passes b hw m bus k (rx_entry hw m u) \<and>
               (\<forall>j\<le>k. rx_pending m (rx_passes b hw m bus j (rx_entry hw m u))) \<and> q = received m bus w \<and>
               safety_fwd_hook b (uint bus) (GET_ADDR q) (safety_vars w) \<noteq> - 1 \<and>
               p = copy_packet (stack_packet w) False (p_bus q) q)
     | _ \<Rightarrow> False)"
proof -
  obtain p fd brs es1 ev es2 u where f: "es = es1 @ ev # es2" "fw_run b bd hw s1 es1 u" "granted b hw u ev p"
    "can_check_checksum p" "e = element_of fd brs p"
    using frames_granted [OF assms] by metis
  show ?thesis
    by (intro exI [of _ p] exI [of _ fd] exI [of _ brs] exI [of _ es1] exI [of _ ev] exI [of _ es2] exI [of _ u])
      (use f in \<open>cases ev; auto simp: granted_def accepted_def forwarded_def forwards_def Let_def\<close>)
qed

theorem transmitted_frames_are_legitimate_witness:
  "\<exists>i e p fd brs u. (1, i, e) \<in> set (tx_requests diag_sent) \<and> e = element_of fd brs p \<and> can_check_checksum p \<and>
     fw_run release demo_board demo_hw demo_up [Request \<lparr>request = 0xdc, param1 = 3, param2 = 1, cp_length = 0\<rparr>] u \<and>
     p \<in> set (fst (decode_stream (pending_write u @ packet_wire diag_frame)))"
proof -
  let ?r = "Request \<lparr>request = 0xdc, param1 = 3, param2 = 1, cp_length = 0\<rparr>"
  have "fw_step release demo_board demo_hw demo_elm (Host_write (packet_wire diag_frame)) diag_sent"
    unfolding diag_sent_def by (rule fw_step.host_write)
  then have r: "fw_run release demo_board demo_hw demo_up [?r, Host_write (packet_wire diag_frame)] diag_sent"
    using demo_elm_step by (auto intro: fw_run.intros)
  obtain i e where e: "(1, i, e) \<in> set (tx_requests diag_sent)" using diag_sent_request by blast
  have "\<exists>p fd brs u. e = element_of fd brs p \<and> can_check_checksum p \<and> fw_run release demo_board demo_hw demo_up [?r] u \<and>
      p \<in> set (fst (decode_stream (pending_write u @ packet_wire diag_frame)))"
    using transmitted_frames_are_legitimate [OF demo_start_ok demo_up r e]
    by (auto simp: Cons_eq_append_conv Let_def) (blast intro: nth_mem)
  then show ?thesis using e by blast
qed

text \<open>
  C7. In every reachable state of the firmware the arrays have their sizes, the bus numbers stay
  within them, the indices of every ring stay below its size, every queued packet is of full size, and the
  two transfer buffers hold less than one packet.
\<close>

theorem firmware_state_is_well_formed:
  assumes "fw_reachable b bd hw s"
  shows "can_ok s \<and> buffer_ok (can_write_buffer s) \<and> length (ab_data (can_read_buffer s)) = 72 \<and>
    ab_ptr (can_read_buffer s) \<le> 72 \<and> loop_counter s < 8"
  using fw_inv_reachable [OF assms] loop_reachable [OF assms] by (simp add: fw_inv_def read_ok_def)

theorem firmware_state_is_well_formed_witness: "can_ok demo_driving \<and> buffer_ok (can_write_buffer demo_driving)"
  using firmware_state_is_well_formed [OF demo_driving_reachable] by blast

text \<open>
  C8. The firmware is a refinement of the safety layer: in every reachable state of the firmware the
  variables of the safety layer are in a state its own machine reaches, so every invariant of that machine
  holds of them.
\<close>

theorem firmware_refines_safety_layer:
  assumes "fw_reachable b bd hw s"
  shows "safety_reachable b (safety_vars s)"
  using fw_inv_reachable [OF assms] by (simp add: fw_inv_def layer_inv_def)

theorem firmware_refines_safety_layer_witness: "safety_reachable release (safety_vars demo_driving)"
  by (rule firmware_refines_safety_layer [OF demo_driving_reachable])

text \<open>
  C9. A host that stops asking is noticed: from a reachable state with a car mode in force, the relay driven
  and the orientation of the harness taken over by the last tick, any run without a request that has forty
  ticks of the timer in it (five seconds) ends in the silent mode, in which nothing can be sent, whatever else
  happens in between.
\<close>

theorem lost_heartbeat_silences:
  assumes "fw_reachable b bd hw s" and "is_car_safety_mode (current_safety_mode (safety_vars s))"
    and "relay_driven (harness s)" and "prev_harness_status s = status (harness s)"
    and "fw_run b bd hw s es t" and "\<forall>e \<in> set es. \<not> is_request e" and "40 \<le> length (filter is_tick es)"
  shows "current_safety_mode (safety_vars t) = SAFETY_SILENT \<and> \<not> fst (safety_tx_hook b p (safety_vars t))"
proof -
  have d: "driving s" using assms(2-4) loop_reachable [OF assms(1)] by (simp add: driving_def)
  have "patience s \<le> length (filter is_tick es)" using patience_le [of s] assms(7) by linarith
  then have "silent t" using driving_run [OF assms(5) fw_inv_reachable [OF assms(1)] assms(6) d] by blast
  then show ?thesis
    using silent_sends_nothing [OF fw_inv_run [OF assms(5) fw_inv_reachable [OF assms(1)]]] by (simp add: silent_def)
qed

theorem lost_heartbeat_silences_witness:
  "\<exists>t. fw_run release demo_board demo_hw demo_driving (replicate 40 (Timer 1)) t \<and>
     current_safety_mode (safety_vars t) = SAFETY_SILENT"
proof -
  obtain t where t: "fw_run release demo_board demo_hw demo_driving (replicate 40 (Timer 1)) t"
    using ticks_run [OF demo_restarts running_reachable [OF demo_driving_reachable]] by blast
  have "current_safety_mode (safety_vars t) = SAFETY_SILENT"
    using lost_heartbeat_silences [OF demo_driving_reachable demo_driving_facts t]
    by (simp add: is_request_def is_tick_def)
  with t show ?thesis by blast
qed

text \<open>
  C10. While a car mode is in force no request but the one that switches the mode changes the mode,
  the parameter, the alternative experience, the permission or anything else the safety layer keeps, the
  host's engagement apart; and none switches the heartbeat check off.
\<close>

theorem settings_locked_in_car_mode:
  assumes "comms_control_handler b bd hw req s = Response resp t" and "request req \<noteq> 0xdc"
    and "is_car_safety_mode (current_safety_mode (safety_vars s))"
  shows "safety_vars t = (safety_vars s)\<lparr>heartbeat_engaged := heartbeat_engaged (safety_vars t)\<rparr> \<and>
    (heartbeat_disabled t \<longrightarrow> heartbeat_disabled s)"
  using request_settings [OF assms] request_heartbeat_disabled [OF assms(1,3)] assms(2) by blast

theorem settings_locked_in_car_mode_witness:
  "alternative_experience (safety_vars (req_alternative_experience 1 demo_driving)) =
     alternative_experience (safety_vars demo_driving)"
  using settings_locked_in_car_mode [where req = "\<lparr>request = 0xdf, param1 = 1, param2 = 0, cp_length = 0\<rparr>"
      and s = demo_driving and t = "req_alternative_experience 1 demo_driving" and b = release and bd = demo_board
      and hw = demo_hw and resp = "[]"] demo_driving_facts(1)
  by (simp add: comms_control_handler_def Let_def req_alternative_experience_def)

text \<open>
  C11. In a running firmware whose cores leave their clock stop when asked to, switching the mode ends: the
  fatal assertion is never reached, the wait for the lock of the converter is not entered, and the setup of the
  cores returns. A registered mode is in force afterwards, an unknown one leaves the silent mode; the relay
  malfunction is forgotten and, but for the mode without checks, controls are not allowed.
\<close>

theorem mode_switch_never_hangs:
  assumes "core_restarts hw" and "\<not> hung s" and "\<not> sbu_adc_lock (harness s)"
  shows "\<exists>t. set_safety_mode b bd hw m p s = Some t \<and> \<not> hung t \<and>
     current_safety_mode (safety_vars t) = (if m \<in> fst ` set (safety_hook_registry b) then m else SAFETY_SILENT) \<and>
     \<not> relay_malfunction (safety_vars t) \<and>
     (current_safety_mode (safety_vars t) = SAFETY_ALLOUTPUT \<or> \<not> controls_allowed (safety_vars t))"
proof -
  have v: "safety_vars (enter_mode bd hw n q w) = safety_vars w" for n q and w :: "'a fw"
    by (simp add: enter_mode_def set_can_mode_def Let_def)
  obtain t where t: "set_safety_mode b bd hw m p s = Some t" by (simp add: set_safety_mode_eq)
  have "\<not> hung t" using hung_set_mode [OF t assms(1,3)] assms(2) by simp
  then show ?thesis
    using t mode_vars_facts [of b m p "safety_vars s"]
    by (auto simp: set_safety_mode_eq v mode_chosen_def split: if_splits)
qed

theorem mode_switch_never_hangs_witness:
  "\<exists>t. set_safety_mode release demo_board demo_hw SAFETY_TOYOTA 73 demo_plugged = Some t \<and> \<not> hung t \<and>
     current_safety_mode (safety_vars t) = SAFETY_TOYOTA"
proof -
  have "SAFETY_TOYOTA \<in> fst ` set (safety_hook_registry release)" by (simp add: safety_hook_registry_def)
  moreover have "\<not> hung demo_plugged" "\<not> sbu_adc_lock (harness demo_plugged)"
    using running_reachable [OF reachable_step [OF demo_up_reachable demo_plugged_step]] by (simp_all add: running_def)
  ultimately show ?thesis
    using mode_switch_never_hangs [OF demo_restarts, of demo_plugged release demo_board SAFETY_TOYOTA 73] by auto
qed



section \<open>The CAN layer\<close>

text \<open>
  C12. A packet of the host that the transmit hook rejects goes nowhere but back: it is queued for the
  host, marked as rejected and with a good checksum, if there is room in the host's queue, and otherwise lost and
  counted. The rejection is counted, what the hook itself records is kept, and nothing else of the state changes.
\<close>

theorem rejected_packet_returns:
  assumes "can_ok s" and "\<not> fst (safety_tx_hook b p (safety_vars s))"
    and "q = can_set_checksum (p\<lparr>p_returned := False, p_rejected := True\<rparr>)"
    and "room \<longleftrightarrow> length (rx_content s) < ring_capacity (can_rx_q s)"
  shows "can_send b hw p bus False s =
      s\<lparr>safety_vars := snd (safety_tx_hook b p (safety_vars s)), safety_tx_blocked := safety_tx_blocked s + 1,
        can_rx_q := can_rx_q (can_send b hw p bus False s),
        rx_buffer_overflow := rx_buffer_overflow s + (if room then 0 else 1)\<rparr> \<and>
    rx_content (can_send b hw p bus False s) = rx_content s @ (if room then [q] else []) \<and>
    p_rejected q \<and> \<not> p_returned q \<and> p_data q = p_data p \<and> p_addr q = p_addr p \<and> can_check_checksum q"
proof -
  have r: "ring_ok (can_rx_q s)" using assms(1) by (simp add: can_ok_def queue_ok_def)
  have a: "fst (can_push (can_rx_q s) q) = room"
    using ring.push_accepts [OF r, of q] assms(4) by (simp add: rx_content_def)
  have e: "can_send b hw p bus False s = push_rx q (s\<lparr>safety_vars := snd (safety_tx_hook b p (safety_vars s)),
      safety_tx_blocked := safety_tx_blocked s + 1\<rparr>)"
    using assms(3) by (simp add: can_send_rejected [OF _ assms(2)])
  have "rx_content (can_send b hw p bus False s) = rx_content s @ (if room then [q] else [])"
    using ring.push_content [OF r, of q] a by (simp add: e rx_content_def)
  moreover have "p_rejected q" "\<not> p_returned q" "p_data q = p_data p" "p_addr q = p_addr p" "can_check_checksum q"
    using assms(3) by (simp_all add: can_check_set_checksum)
  ultimately show ?thesis by (simp add: e) (simp add: push_rx_def case_prod_beta a)
qed

theorem rejected_packet_returns_witness:
  "\<exists>q. rx_content (can_send release demo_hw diag_frame 1 False demo_start) = [q] \<and> p_rejected q \<and>
     tx_requests (can_send release demo_hw diag_frame 1 False demo_start) = []"
proof -
  have e: "rx_content demo_start = []" by (simp add: rx_content_def can_buffer_content)
  have c: "0 < ring_capacity (can_rx_q demo_start)"
    by (simp add: ring_capacity_def can_buffer_def CAN_RX_BUFFER_SIZE_def)
  have h: "\<not> fst (safety_tx_hook release diag_frame (safety_vars demo_start))" by simp
  have o: "can_ok demo_start" using demo_start_ok by (simp add: fw_start_def)
  show ?thesis
    using rejected_packet_returns [OF o h refl refl, of demo_hw 1] c e
    by (auto dest: arg_cong [of _ _ tx_requests])
qed

text \<open>
  C13. A packet that is accepted, or forwarded, while its bus is idle and the controller has room is
  handed to that controller in the same call, and the queue is empty again.
\<close>

theorem idle_bus_sends_at_once:
  assumes "can_ok s" "packet_ok p" "bus < 3" "skip \<or> fst (safety_tx_hook b p (safety_vars s))"
    and "tx_content s bus = []" "can_check_checksum p"
    and "BUS_NUM_FROM_CAN_NUM s (CAN_NUM_FROM_BUS_NUM s bus) = bus" "tx_ready hw (CAN_NUM_FROM_BUS_NUM s bus) s"
  shows "(\<exists>i fd brs. tx_requests (can_send b hw p bus skip s) =
      tx_requests s @ [(CAN_NUM_FROM_BUS_NUM s bus, i, element_of fd brs p)]) \<and>
    tx_content (can_send b hw p bus skip s) bus = []"
  using can_send_idle [OF assms] by blast

theorem idle_bus_sends_at_once_witness: "tx_content (can_send release demo_hw diag_frame 1 True demo_start) 1 = []"
proof -
  have "tx_content demo_start 1 = []" by (simp add: tx_content_def can_buffer_content)
  moreover have "tx_ready demo_hw k demo_start" for k by (simp add: tx_ready_def demo_hw_def)
  moreover have "BUS_NUM_FROM_CAN_NUM demo_start (CAN_NUM_FROM_BUS_NUM demo_start 1) = 1"
    by (simp add: CAN_NUM_FROM_BUS_NUM_def BUS_NUM_FROM_CAN_NUM_def bus_config_init_def)
  ultimately show ?thesis
    using idle_bus_sends_at_once [of demo_start diag_frame 1 True release demo_hw] demo_start_ok
    by (simp add: fw_start_def)
qed

text \<open>
  C33. The receive interrupt ends, if the core has a bounded number of messages to deliver, acknowledging
  one takes it out of the queue, and a core leaves its clock stop when the recovery after an error asks it to:
  as many passes as there are messages are enough, also with the transmissions that forwarding starts from
  within the loop.
\<close>

theorem receive_interrupt_ends:
  assumes "drains hw m" and "core_restarts hw" and "fw_reachable b bd hw s" and "n < 3" and "m (cans s ! unat n) \<le> fuel"
  shows "\<exists>t. can_rx b hw fuel n s = Some t \<and> fw_reachable b bd hw t"
proof -
  have "length (cans s) = 3" using fw_inv_reachable [OF assms(3)] by (simp add: fw_inv_def layer_inv_def can_ok_def)
  then have "unat n < length (cans s)" using assms(4) by (simp add: word_less_nat_alt)
  moreover have "\<not> hung s" using running_reachable [OF assms(3)] by (simp add: running_def)
  ultimately obtain t where t: "can_rx b hw fuel n s = Some t" using can_rx_ends [OF assms(1) _ assms(5,2)] by blast
  then show ?thesis using reachable_step [OF assms(3) fw_step.rx_irq [OF assms(4) t]] by blast
qed

theorem receive_interrupt_ends_witness:
  "RXF0S (cans demo_waiting ! 2) AND FDCAN_RXF0S_F0FL \<noteq> 0 \<and> (\<exists>t. can_rx release demo_hw 1 2 demo_waiting = Some t)"
proof -
  have "(2 :: u8) < 3" "(if RXF0S (cans demo_waiting ! unat (2 :: u8)) AND FDCAN_RXF0S_F0FL \<noteq> 0 then 1 else 0) \<le> (1 :: nat)"
    by simp_all
  from receive_interrupt_ends [OF demo_drains demo_restarts demo_waiting_reachable this]
  have "\<exists>t. can_rx release demo_hw 1 2 demo_waiting = Some t" by blast
  then show ?thesis by (simp add: demo_waiting_def FDCAN_RXF0S_F0FL_def)
qed

text \<open>
  C14. The ring buffers are queues: under any schedule of pushes and pops nothing is lost, duplicated or
  reordered among the elements accepted, the content stays within the capacity, and the count of free slots
  is exact, wrapping indices included.
\<close>

theorem ring_is_a_fifo:
  assumes "ring_ok q" and "queue_run can_push can_pop q ops = (ins, outs, t)"
  shows "ring_ok t \<and> ring_content q @ ins = outs @ ring_content t \<and> length (ring_content t) \<le> ring_capacity t \<and>
    unat (can_slots_empty t) = ring_capacity t - length (ring_content t)"
proof -
  have "ring_ok t" using ring.run_ok [OF assms(1), of ops] assms(2) by simp
  moreover have "ring_content q @ ins = outs @ ring_content t" using ring.run_fifo [OF assms(1), of ops] assms(2) by simp
  ultimately show ?thesis using ring.bounded can_slots_empty_spec by blast
qed

theorem ring_is_a_fifo_witness:
  "\<exists>ins outs t. queue_run can_push can_pop (can_buffer can_packet_0 CAN_TX_BUFFER_SIZE) [Push diag_frame, Pop, Pop] = (ins, outs, t) \<and>
     ins = outs @ ring_content t"
proof -
  obtain ins outs t where r: "queue_run can_push can_pop (can_buffer can_packet_0 CAN_TX_BUFFER_SIZE) [Push diag_frame, Pop, Pop] = (ins, outs, t)"
    by (metis prod_cases3)
  have "ring_ok (can_buffer can_packet_0 CAN_TX_BUFFER_SIZE)" by (rule can_buffer_ok) (simp add: CAN_TX_BUFFER_SIZE_def)
  then show ?thesis using ring_is_a_fifo [OF _ r] r by (auto simp: can_buffer_content)
qed

text \<open>
  C15. A packet whose checksum was set passes the check. One byte changed in the header or in the data
  makes it fail, if the change leaves the length of the packet as it was; a change of the length code itself is
  not always noticed.
\<close>

theorem checksum_protects_packets:
  assumes "packet_ok p" and "k < CANPACKET_HEAD_SIZE + GET_LEN p" and "v \<noteq> packet_bytes (can_set_checksum p) ! k"
    and "GET_LEN (bytes_packet ((packet_bytes (can_set_checksum p))[k := v])) = GET_LEN p"
  shows "can_check_checksum (can_set_checksum p) \<and>
    \<not> can_check_checksum (bytes_packet ((packet_bytes (can_set_checksum p))[k := v]))"
  using checksum_detects [of "can_set_checksum p" k v] assms by (simp add: can_check_set_checksum)

theorem checksum_protects_packets_witness:
  "\<exists>v. \<not> can_check_checksum (bytes_packet ((packet_bytes (can_set_checksum can_packet_0))[5 := v]))"
proof -
  have ok: "packet_ok can_packet_0" by (simp add: can_packet_0_def)
  define v where "v = packet_bytes (can_set_checksum can_packet_0) ! 5 + 1"
  have "v \<noteq> packet_bytes (can_set_checksum can_packet_0) ! 5" by (simp add: v_def)
  moreover have "GET_LEN (bytes_packet ((packet_bytes (can_set_checksum can_packet_0))[5 := v])) = GET_LEN can_packet_0"
    by (simp add: packet_bytes_Cons can_packet_0_def GET_LEN_def bytes_packet_def Let_def nth_default_def word_bytes_def packet_byte0_def)
  ultimately show ?thesis
    using checksum_protects_packets [OF ok, of 5 v] by (auto simp: CANPACKET_HEAD_SIZE_def)
qed

text \<open>
  C16. How the host cuts its stream of packets into transfers does not matter: the same bytes leave the
  safety layer in the same state and the same bytes waiting for their rest.
\<close>

theorem transfers_can_be_cut_anywhere:
  assumes "buffer_ok (can_write_buffer s)" and "concat chunks = concat chunks'"
  shows "safety_vars (comms_can_writes b hw chunks s) = safety_vars (comms_can_writes b hw chunks' s) \<and>
    pending_write (comms_can_writes b hw chunks s) = pending_write (comms_can_writes b hw chunks' s) \<and>
    pending_write (comms_can_writes b hw chunks s) = snd (decode_stream (pending_write s @ concat chunks))"
  using comms_can_writes_stream [OF assms(1), of b hw chunks] comms_can_writes_stream [OF assms(1), of b hw chunks']
    assms(2) by simp

theorem transfers_can_be_cut_anywhere_witness:
  "safety_vars (comms_can_writes release demo_hw [[0x82], [0xf8, 0x3e]] demo_start) =
   safety_vars (comms_can_writes release demo_hw [[0x82, 0xf8, 0x3e]] demo_start)"
  using transfers_can_be_cut_anywhere [of demo_start "[[0x82], [0xf8, 0x3e]]" "[[0x82, 0xf8, 0x3e]]" release demo_hw]
  by (simp add: buffer_ok_def asm_buffer_0_def)

text \<open>
  C17. The host reads the queue as one stream of bytes: whatever sizes it asks for, what it gets is what
  was waiting, in order, as much as it asked for or all there is.
\<close>

theorem host_reads_the_queue_in_order:
  assumes "read_ok s" and "comms_can_reads ks s = (outs, t)"
  shows "read_ok t \<and> readable s = concat outs @ readable t \<and>
    length (concat outs) = min (sum_list ks) (length (readable s))"
  by (rule comms_can_reads_spec [OF assms])

theorem host_reads_the_queue_in_order_witness: "\<exists>outs t. comms_can_reads [64, 8] demo_start = (outs, t) \<and> concat outs = []"
proof -
  obtain outs t where r: "comms_can_reads [64, 8] demo_start = (outs, t)" by fastforce
  have "read_ok demo_start" using demo_start_ok by (simp add: fw_start_def read_ok_def asm_buffer_0_def)
  moreover have "readable demo_start = []"
    by (simp add: readable_def asm_buffer_0_def rx_content_def can_buffer_content)
  ultimately show ?thesis using host_reads_the_queue_in_order [OF _ r] r by auto
qed

text \<open>
  C18. What the host reads, parsed the way the device parses its own input, is the list of the packets
  that were queued, with the bytes beyond their length cleared.
\<close>

theorem queue_survives_the_wire:
  assumes "read_ok s" and "ab_ptr (can_read_buffer s) = 0" and "comms_can_reads ks s = (outs, t)"
    and "length (readable s) \<le> sum_list ks"
  shows "decode_stream (concat outs) = (map clear_tail (rx_content s), [])"
proof -
  have r: "readable s = concat outs @ readable t" "length (concat outs) = length (readable s)"
    using comms_can_reads_spec [OF assms(1,3)] assms(4) by linarith+
  have "length (readable t) = 0" using arg_cong [OF r(1), of length] r(2) by simp
  then have "readable s = concat outs" using r(1) by simp
  moreover have "\<forall>p \<in> set (rx_content s). packet_ok p"
    using assms(1) queue_ok_content by (auto simp: read_ok_def can_ok_def rx_content_def)
  ultimately show ?thesis using assms(2) decode_wire [of "rx_content s"] by (simp add: readable_def)
qed

theorem queue_survives_the_wire_witness:
  "\<exists>outs t p. comms_can_reads [10, 62] (can_send release demo_hw diag_frame 1 False demo_start) = (outs, t) \<and>
     decode_stream (concat outs) = ([p], []) \<and> p_rejected p"
proof -
  let ?s = "can_send release demo_hw diag_frame 1 False demo_start"
  let ?p = "can_set_checksum (diag_frame\<lparr>p_returned := False, p_rejected := True\<rparr>)"
  obtain outs t where r: "comms_can_reads [10, 62] ?s = (outs, t)" by fastforce
  have i: "can_ok demo_start" "packet_ok diag_frame" using demo_start_ok by (simp_all add: fw_start_def)
  have p: "packet_ok ?p" using i(2) by (simp add: packet_ok_def)
  have b: "can_read_buffer ?s = asm_buffer_0" by (simp add: can_send_rejected push_rx_def case_prod_beta)
  have q: "ring_ok (can_rx_q demo_start)" by (simp add: can_buffer_ok CAN_RX_BUFFER_SIZE_def)
  have n: "0 < ring_capacity (can_rx_q demo_start)" by (simp add: ring_capacity_def can_buffer_def CAN_RX_BUFFER_SIZE_def)
  have c: "rx_content ?s = [?p]"
    using ring.push_content [OF q, of ?p] ring.push_accepts [OF q, of ?p] n
    by (simp add: can_send_rejected rx_content_def can_buffer_content)
  have "length (readable ?s) \<le> 72"
    using length_packet_wire [OF p] GET_LEN_le [of ?p] by (simp add: readable_def b c asm_buffer_0_def CANPACKET_HEAD_SIZE_def)
  moreover have "read_ok ?s" using can_send_ok [OF i] by (simp add: read_ok_def b asm_buffer_0_def)
  ultimately show ?thesis
    using queue_survives_the_wire [OF _ _ r] r by (auto simp: c b asm_buffer_0_def clear_tail_def)
qed

text \<open>
  C19. The bit timing written to the controller meets every nominal bit rate the host may choose exactly. The
  data phase has to use the prescaler of the nominal rate: a data rate the host may choose is met exactly if it is at
  least 1 Mbit/s and the nominal rate is at least 250 kbit/s, or if it is between 100 and 500 kbit/s and the
  nominal rate is below 250 kbit/s; in every other pair that the requests accept it is not met. Where a rate
  is met, the jump width is within the second segment.
\<close>

theorem bit_timing_is_exact:
  assumes "speed \<in> set speeds" and "data_speed \<in> set data_speeds"
  shows "nominal_rate_ok speed (NBTP_value speed (nominal_prescaler speed)) \<and>
    (data_rate_ok data_speed (DBTP_value data_speed (nominal_prescaler speed)) \<longleftrightarrow>
       (if speed < 2500 then 1000 \<le> data_speed \<and> data_speed \<le> 5000 else 10000 \<le> data_speed))"
  using nominal_timing [OF assms(1)] data_timing [OF assms(2)] by (simp add: data_rate_served_def)

theorem bit_timing_is_exact_witness:
  "data_rate_ok 20000 (DBTP_value 20000 (nominal_prescaler 5000)) \<and> \<not> data_rate_ok 5000 (DBTP_value 5000 (nominal_prescaler 2500))"
  using bit_timing_is_exact [of 5000 20000] bit_timing_is_exact [of 2500 5000] by (simp add: speeds_def data_speeds_def)

section \<open>The checks of the safety layer\<close>

text \<open>
  C20. The steering check of the code is the rule it stands for: a torque command is let through exactly
  when, with controls allowed, it lies in the window of the limits around the last command, the driver's or
  the motor's torque and the base of the current interval, and is zero otherwise; and a cut of the steering
  request is one the limits tolerate.
\<close>

theorem steering_check_is_the_window:
  "\<not> fst (steer_torque_cmd_checks t r lm s) \<longleftrightarrow>
     (if controls_allowed s then torque_admissible lm s t else t = 0) \<and> (r = 0 \<and> t \<noteq> 0 \<longrightarrow> cut_permitted lm s)"
  by (rule fst_steer_torque_cmd_checks)

theorem steering_check_is_the_window_witness:
  "\<not> fst (steer_torque_cmd_checks 0 0 TOYOTA_STEERING_LIMITS toyota_idle)"
  using steering_check_is_the_window [of 0 0 TOYOTA_STEERING_LIMITS toyota_idle] toyota_idle_facts(3) by simp

text \<open>
  C21. Along any run of accepted commands the torque stays within the maximum, and it grows by at most
  one step of the rate limit per command.
\<close>

theorem steering_torque_is_bounded:
  assumes "torque_run lm s cs t" and "0 \<le> max_rate_up lm" and "\<bar>desired_torque_last s\<bar> \<le> max_steer lm"
  shows "\<bar>desired_torque_last t\<bar> \<le> max_steer lm \<and>
    \<bar>desired_torque_last t\<bar> \<le> \<bar>desired_torque_last s\<bar> + int (length cs) * max_rate_up lm \<and>
    (\<forall>(e, torque, r) \<in> set cs. \<bar>torque\<bar> \<le> max_steer lm)"
  using torque_run_limit [OF assms(1,3)] torque_run_ramp [OF assms(1,2)] by blast

theorem steering_torque_is_bounded_witness:
  "\<bar>desired_torque_last (snd (steer_torque_cmd_checks 0 1 TOYOTA_STEERING_LIMITS toyota_idle))\<bar> \<le> 15"
proof -
  have "\<not> fst (steer_torque_cmd_checks 0 1 TOYOTA_STEERING_LIMITS toyota_idle)"
    using fst_steer_torque_cmd_checks [of 0 1 TOYOTA_STEERING_LIMITS toyota_idle] toyota_idle_facts(3) by simp
  then have r: "torque_run TOYOTA_STEERING_LIMITS toyota_idle
      ([] @ [(get_ts_elapsed (microsecond_timer toyota_idle) (ts_torque_check_last toyota_idle), 0, 1)])
      (snd (steer_torque_cmd_checks 0 1 TOYOTA_STEERING_LIMITS toyota_idle))"
    by (rule torque_run.run_cmd [OF torque_run.run_nil])
  have "max_rate_up TOYOTA_STEERING_LIMITS = 15" "max_steer TOYOTA_STEERING_LIMITS = 1500"
    by (simp_all add: TOYOTA_STEERING_LIMITS_def)
  then show ?thesis using steering_torque_is_bounded [OF r] by (simp add: toyota_idle_facts)
qed

text \<open>
  C22. While commands arrive within one interval of the real time check, every accepted torque stays
  within the real time limit of the base of the interval, or of zero.
\<close>

theorem steering_torque_is_bounded_in_real_time:
  assumes "torque_run lm s cs t" and "0 \<le> max_rt_delta lm" and "\<forall>(e, torque, r) \<in> set cs. e \<le> max_rt_interval lm"
  shows "\<forall>(e, torque, r) \<in> set cs.
    min (rt_torque_last s) 0 - max_rt_delta lm \<le> torque \<and> torque \<le> max (rt_torque_last s) 0 + max_rt_delta lm"
  using torque_run_rt [OF assms] by (auto simp: between_def)

theorem steering_torque_is_bounded_in_real_time_witness:
  "\<exists>e cs. torque_run TOYOTA_STEERING_LIMITS toyota_idle [(e, 0, 1)] cs \<and>
     0 \<le> max (rt_torque_last toyota_idle) 0 + max_rt_delta TOYOTA_STEERING_LIMITS"
proof -
  let ?e = "get_ts_elapsed (microsecond_timer toyota_idle) (ts_torque_check_last toyota_idle)"
  have "\<not> fst (steer_torque_cmd_checks 0 1 TOYOTA_STEERING_LIMITS toyota_idle)"
    using fst_steer_torque_cmd_checks [of 0 1 TOYOTA_STEERING_LIMITS toyota_idle] toyota_idle_facts(3) by simp
  then have r: "torque_run TOYOTA_STEERING_LIMITS toyota_idle ([] @ [(?e, 0, 1)])
      (snd (steer_torque_cmd_checks 0 1 TOYOTA_STEERING_LIMITS toyota_idle))"
    by (rule torque_run.run_cmd [OF torque_run.run_nil])
  have l: "max_rt_delta TOYOTA_STEERING_LIMITS = 450" "max_rt_interval TOYOTA_STEERING_LIMITS = 250000"
    by (simp_all add: TOYOTA_STEERING_LIMITS_def)
  have e: "?e = 0"
    by (simp add: get_ts_elapsed_def toyota_idle_eq statics_init_def safety_init_def statics.defs safety.defs)
  show ?thesis using steering_torque_is_bounded_in_real_time [OF r] r e by (auto simp: l toyota_idle_facts)
qed

text \<open>
  C23. Once a second a message that is monitored at 10 Hz or more is found lagging exactly when it was last
  seen more than a second ago, the wrap of the clock included; if any monitored message lags or is not
  valid, controls are no longer allowed, and the tick never allows them.
\<close>

theorem silent_sensor_disengages:
  assumes "\<forall>c \<in> set (rx_checks (current_safety_config s)). 10 \<le> frequency (rc_cur c)"
  shows "controls_allowed (safety_tick s) \<longleftrightarrow> controls_allowed s \<and>
    (\<forall>c \<in> set (rx_checks (current_safety_config s)).
       uint (get_ts_elapsed (microsecond_timer s) (last_timestamp (rc_status c))) \<le> 1000000 \<and> status_valid (rc_status c))"
  using safety_tick_spec [of s] assms lagging_iff by (auto simp: entry_bad_def not_less)

theorem silent_sensor_disengages_witness: "\<not> controls_allowed (safety_tick toyota_idle)"
proof -
  have "\<forall>c \<in> set (rx_checks (current_safety_config toyota_idle)). 10 \<le> frequency (rc_cur c)"
    using toyota_idle_facts(1) by (simp add: checks_of_def TOYOTA_COMMON_RX_CHECKS_def) code_simp
  then show ?thesis using silent_sensor_disengages toyota_idle_facts(3) by blast
qed

text \<open>
  C24. A received packet reaches the receive hook of the mode exactly when it is not monitored, or its
  checksum and quality are good and its counter was not wrong too often. If it does, the state is what the hook makes
  of it, after the bookkeeping of the monitored messages; if it does not, the bookkeeping and the loss of controls
  are all that happens. And a packet is never forwarded to the bus it came from, nor to a bus that does not exist.
\<close>

theorem only_valid_packets_count:
  assumes "safety_reachable b s" and "0 \<le> bus" and "H = hooks_of b (current_hooks s)"
    and "t = set_checks (checks_after H s p) s" and "u = h_rx H p t"
  shows "fst (safety_rx_hook b p s) = valid_packet H s p \<and>
    snd (safety_rx_hook b p s) =
      (if valid_packet H s p
       then if controls_allowed u \<and> \<not> controls_allowed s then u\<lparr>heartbeat_engaged_mismatches := 0\<rparr> else u
       else t\<lparr>controls_allowed := False\<rparr>) \<and>
    safety_fwd_hook b bus addr s \<in> {- 1, 0, 1, 2} \<and> safety_fwd_hook b bus addr s \<noteq> bus"
proof -
  have i: "checks_inv (rx_checks (current_safety_config s))"
    using safety_inv_reachable [OF assms(1)] by (simp add: safety_inv_def checks_of_def)
  show ?thesis
    using rx_gate_valid_iff [OF i, of H p] rx_gate_valid [OF i, of H p] rx_gate_invalid [OF i, of H p]
      safety_fwd_hook_range [OF assms(2), where b = b and s = s and addr = addr]
    by (simp add: safety_rx_hook_def assms(3-5) Let_def)
qed

theorem only_valid_packets_count_witness:
  "fst (safety_rx_hook release brake_frame toyota_engaged) \<and> safety_fwd_hook release 2 0x123 toyota_engaged \<noteq> 2"
proof -
  have "current_hooks toyota_engaged = Toyota_hooks" by (rule toyota_engaged_facts)
  then show ?thesis
    using only_valid_packets_count [OF toyota_engaged_reachable _ refl refl refl, of 2 brake_frame] brake_frame_valid by simp
qed

text \<open>
  C25. A new sample of a signal takes the first place of its window of six and the oldest leaves it; the
  minimum and the maximum kept are those of the new window. The sign of a field of any width is read as two's
  complement.
\<close>

theorem signals_are_read_exactly:
  assumes "length (s_values smp) = MAX_SAMPLE_VALS" and "0 \<le> d" and "d < 2 ^ Suc n"
  shows "s_values (update_sample smp x) = x # butlast (s_values smp) \<and>
    s_min (update_sample smp x) = Min (set (x # butlast (s_values smp))) \<and>
    s_max (update_sample smp x) = Max (set (x # butlast (s_values smp))) \<and>
    to_signed d (int (Suc n)) = signed_take_bit n d"
  using update_sample_exact [OF assms(1), of x] update_sample_window [OF assms(1), of x] to_signed_signed_take_bit [OF assms(2,3)]
  by (simp add: sample_exact_def)

theorem signals_are_read_exactly_witness:
  "s_values (update_sample sample_0 7) = [7, 0, 0, 0, 0, 0] \<and> s_max (update_sample sample_0 7) = 7 \<and> to_signed 0xfff 12 = - 1"
proof -
  have "signed_take_bit 11 0xfff = (- 1 :: int)" by (simp add: signed_take_bit_eq_if_positive)
  moreover have "butlast (s_values sample_0) = [0, 0, 0, 0, 0]" by (simp add: sample_0_def MAX_SAMPLE_VALS_def numeral_eq_Suc)
  ultimately show ?thesis
    using signals_are_read_exactly [where smp = sample_0 and d = "0xfff" and n = 11 and x = 7] by (simp add: sample_0_def)
qed

section \<open>The boot loader\<close>

text \<open>
  C26. The hash of the boot loader is SHA-1 as the standard defines it, of any data and whatever its
  context held before.
\<close>

theorem hash_is_sha1:
  assumes "length (ctx_buf memory) = 64" and "length (ctx_state memory) = 8"
  shows "SHA_hash memory data = sha1 data"
  by (rule SHA_hash_sha1 [OF assms])

theorem hash_is_sha1_witness: "SHA_hash blank_memory [0x61, 0x62, 0x63] = sha1 [0x61, 0x62, 0x63]"
  by (rule hash_is_sha1) (simp_all add: blank_memory_def)

text \<open>
  C27. The loop that pads the last block with zeroes ends after at most 63 of them, with room for just
  the eight bytes of the length.
\<close>

theorem padding_ends:
  "\<exists>k < 64. sha_pad ctx = ((\<lambda>c. SHA_update c [0]) ^^ k) ctx \<and> unat (ctx_count (sha_pad ctx)) mod 64 = 56"
proof -
  have "\<exists>k \<le> pad_missing ctx. sha_pad ctx = ((\<lambda>c. SHA_update c [0]) ^^ k) ctx \<and> unat (ctx_count (sha_pad ctx) AND 63) = 56"
  proof (induction ctx rule: sha_pad.induct)
    case (1 c)
    show ?case
    proof (cases "ctx_count c AND 63 = 56")
      case False
      then obtain k where k: "k \<le> pad_missing (SHA_update c [0])" "sha_pad (SHA_update c [0]) = ((\<lambda>c. SHA_update c [0]) ^^ k) (SHA_update c [0])"
        "unat (ctx_count (sha_pad (SHA_update c [0])) AND 63) = 56" using 1 by blast
      have "sha_pad c = sha_pad (SHA_update c [0])" using False by (subst sha_pad.simps) (simp del: sha_pad.simps)
      then show ?thesis using k pad_distance [OF False] funpow_swap1 [of "\<lambda>c. SHA_update c [0]" k c]
        by (intro exI [of _ "Suc k"]) (simp del: sha_pad.simps)
    qed (intro exI [of _ 0], simp)
  qed
  then obtain k where "k \<le> pad_missing ctx" "sha_pad ctx = ((\<lambda>c. SHA_update c [0]) ^^ k) ctx"
    "unat (ctx_count (sha_pad ctx)) mod 64 = 56" by (auto simp: and_63 simp del: sha_pad.simps)
  moreover have "pad_missing ctx < 64" by (simp add: pad_missing_def)
  ultimately show ?thesis using le_less_trans by blast
qed

text \<open>
  C28. Cutting the data into calls of the update function makes no difference to the context, so none to
  the hash.
\<close>

theorem hash_of_pieces: "fold (\<lambda>piece ctx. SHA_update ctx piece) pieces ctx = SHA_update ctx (concat pieces)"
proof (induction pieces arbitrary: ctx)
  case Nil
  then show ?case by (simp add: SHA_update_def)
qed (simp add: update_append)

text \<open>
  C29. Montgomery's multiplication keeps its arrays below \<open>R = 2 ^ (32 * k)\<close>, one subtraction of the
  modulus absorbs the carry, and the result is the product divided by \<open>R\<close>, modulo the key.
\<close>

theorem montgomery_multiplies:
  assumes "mont_key key k" and "length c = k" and "length a = k" and "length b = k"
  shows "0 \<le> num (montMul key c a b) \<and> num (montMul key c a b) < 2 ^ (32 * k) \<and>
    (2 ^ (32 * k) * num (montMul key c a b)) mod num (key_n key) = (num a * num b) mod num (key_n key)"
  using montMul_spec [OF assms] num_bounds [of "montMul key c a b"] by simp

theorem montgomery_multiplies_witness:
  "(2 ^ 32 * num (montMul \<lparr>key_len = 1, n0inv = 1, key_n = [0xffffffff], key_rr = [1], exponent = 3\<rparr> [0] [5] [7])) mod 0xffffffff = (35 :: int)"
  using montgomery_multiplies [of "\<lparr>key_len = 1, n0inv = 1, key_n = [0xffffffff], key_rr = [1], exponent = 3\<rparr>" 1 "[0]" "[5]" "[7]"]
  by (simp add: mont_key_def key_shape_def)

text \<open>
  C30. With a key as the build makes them, a signature of 128 bytes is accepted for a hash of 20 bytes exactly
  when its power with the exponent of the key, modulo the key, is the hash with the padding of PKCS 1; signatures
  and hashes said to be of another length are refused.
\<close>

theorem signature_check_is_rsa:
  assumes "build_key key" and "length signature = 128" and "length hash = 20" and "local_memory ctx memory"
  shows "RSA_verify memory key signature 128 hash 20 =
      Some (be_num signature ^ nat (exponent key) mod num (key_n key) = be_num (padded_hash hash)) \<and>
    (len \<noteq> 128 \<or> hash_len \<noteq> 20 \<longrightarrow> RSA_verify memory key signature len hash hash_len = Some False)"
proof -
  obtain a aR aaR where m: "memory = (a, aR, aaR)" by (cases memory)
  have r: "RSA_verify memory key signature len hash hash_len = Some False" if "len \<noteq> 128 \<or> hash_len \<noteq> 20"
    using that by (auto simp: RSA_verify_def RSANUMBYTES_def SHA_DIGEST_SIZE_def)
  then show ?thesis
    using RSA_verify_spec [of key signature hash a aR aaR] assms by (simp add: m build_key_def local_memory_def)
qed

theorem signature_check_is_rsa_witness:
  "RSA_verify (replicate 32 0, replicate 32 0, replicate 32 0) demo_key demo_signature 128 demo_hash 20 = Some True \<and>
   RSA_verify (replicate 32 0, replicate 32 0, replicate 32 0) demo_key demo_signature 128 (replicate 20 0) 20 = Some False"
proof -
  have m: "local_memory blank_memory (replicate 32 0, replicate 32 0, replicate 32 0)"
    by (simp add: local_memory_def blank_memory_def)
  have l: "length demo_signature = 128" "length demo_hash = 20" "length (replicate 20 0 :: u8 list) = 20"
    by (simp_all add: demo_signature_def demo_hash_def)
  have e: "nat (exponent demo_key) = 3" by (simp add: demo_key_def)
  have "padded_hash demo_hash \<noteq> padded_hash (replicate 20 0)" by (simp add: padded_hash_def demo_hash_def numeral_eq_Suc)
  then have "be_num (padded_hash demo_hash) \<noteq> be_num (padded_hash (replicate 20 0))"
    using be_num_inject [of "padded_hash demo_hash" "padded_hash (replicate 20 0)"] l by (simp add: padded_hash_def)
  then show ?thesis
    using signature_check_is_rsa [OF demo_key_build l(1,2) m] signature_check_is_rsa [OF demo_key_build l(1,3) m] demo_cube
    unfolding e demo_key_num by simp
qed

text \<open>
  C31. The boot loader starts the application exactly when the host did not ask for the flasher, its
  length is in range, its version is recent and it is signed with the release key, or in a debug build
  with the debug key; in every other case the flasher starts, and it always comes to one of the two.
\<close>

theorem only_signed_applications_run:
  assumes "build_key release_rsa_key" and "build_key debug_rsa_key" and "local_memory ctx memory"
  shows "bootstub_main allow_debug release_rsa_key debug_rsa_key ctx memory flash mode =
    Some (if mode \<noteq> ENTER_SOFTLOADER_MAGIC \<and> good_app allow_debug release_rsa_key debug_rsa_key flash
          then Run_app (le_word_at flash 4) else Soft_flasher)"
  by (rule bootstub_main_spec [OF assms])

theorem only_signed_applications_run_witness:
  "bootstub_main True demo_key demo_key blank_memory (replicate 32 0, replicate 32 0, replicate 32 0) (\<lambda>_. 0xff) BOOT_NORMAL = Some Soft_flasher"
proof -
  have m: "local_memory blank_memory (replicate 32 0, replicate 32 0, replicate 32 0)"
    by (simp add: local_memory_def blank_memory_def)
  have "le_word_at (\<lambda>_. 0xff) 0 = - 1" by (simp add: le_word_at_def be_word_def)
  then have "\<not> good_app True demo_key demo_key (\<lambda>_. 0xff)" by (simp add: good_app_def Let_def)
  then show ?thesis using only_signed_applications_run [OF demo_key_build demo_key_build m] by simp
qed

text \<open>
  C32. A host that unlocks the flash before it sends data, and sends less than the address space holds,
  can have no sector erased but those of the application, and no word programmed below it: the boot
  loader stays whole.
\<close>

theorem flasher_spares_the_boot_loader:
  assumes "unlocks_first es" and "4 * words_sent es \<le> 2 ^ 32 - 4 - 0x8020000" and "f \<in> set (flash_ops (flasher_run bi es flash_start))"
  shows "case f of Erase k \<Rightarrow> 0 < k \<and> k < 8 | Program p w \<Rightarrow> APP_START_ADDRESS \<le> p"
proof -
  have "flasher_ok (words_sent es) flash_start" by (simp add: flasher_ok_def flash_start_def soft_flasher_start_def)
  then have "list_all app_op (flash_ops (flasher_run bi es flash_start))" using flasher_ok_run assms(1,2) by blast
  then show ?thesis using assms(3) by (auto simp: list_all_iff app_op_def)
qed

theorem flasher_spares_the_boot_loader_witness:
  "\<exists>p w. Program p w \<in> set (flash_ops (flasher_run \<lparr>fl_hw_type = 7, fl_uid = [], fl_serial = [], fl_provision = [], fl_gitversion = []\<rparr>
     [Flash_request \<lparr>request = 0xb1, param1 = 0, param2 = 0, cp_length = 0\<rparr>, Flash_data [1, 2, 3, 4]] flash_start)) \<and> APP_START_ADDRESS \<le> p"
proof -
  let ?es = "[Flash_request \<lparr>request = 0xb1, param1 = 0, param2 = 0, cp_length = 0\<rparr>, Flash_data [1, 2, 3, 4]]"
  let ?bi = "\<lparr>fl_hw_type = 7, fl_uid = [], fl_serial = [], fl_provision = [], fl_gitversion = []\<rparr>"
  have f: "Program APP_START_ADDRESS (be_word [4, 3, 2, 1]) \<in> set (flash_ops (flasher_run ?bi ?es flash_start))"
    by (simp add: flasher_control_def flasher_write_def flash_write_word_def flash_unlock_def flash_start_def soft_flasher_start_def Let_def)
  show ?thesis using flasher_spares_the_boot_loader [OF _ _ f] f by auto
qed

section \<open>The device on the SPI bus\<close>

text \<open>
  C35. Whatever the host sends over SPI, in whatever order with the interrupts of the firmware: as long as it
  does not announce or ask for more than the buffers hold, nor ask for a baud rate of zero, the firmware behind the
  protocol is in a state that it reaches by itself, so that C6 to C10 hold of it, and the protocol is in a
  state that its handlers expect; also while the chip resets, and after that. If it does, the memory is
  corrupted, and nothing is claimed; and that is the only way there.
\<close>

theorem spi_refines_the_firmware:
  assumes "spi_reachable txe b bd hw bi flash (ph, s)" and "identity_ok bi" and "ph \<noteq> Corrupted"
  shows "fw_reachable b bd hw (fw (dev s)) \<and> spi_phase_ok (ph, s) \<and>
    (\<forall>e t. spi_step txe b bd hw bi flash (ph, s) e (Corrupted, t) \<longrightarrow>
       (\<exists>bytes rx. ph = Receiving \<and> e = Mosi bytes \<and> rx = copy_to (fst (spi_mosi s)) bytes (spi_buf_rx s) \<and>
         (SPI_BUF_SIZE < fst (spi_mosi s) + length bytes \<or> SPI_BUF_SIZE < unat (le_word16 (rx ! 4) (rx ! 5)) + 4 \<or>
          rx ! 1 = 0 \<and> zero_baud (control_packet (drop SPI_HEADER_SIZE rx)))))"
proof -
  have i: "spi_inv b bd hw (ph, s)" by (rule spi_inv_reachable [OF assms(1,2)])
  then have "fw_reachable b bd hw (fw (dev s))" "spi_phase_ok (ph, s)" using assms(3) by (simp_all add: spi_inv_def)
  moreover have "\<exists>bytes rx. ph = Receiving \<and> e = Mosi bytes \<and> rx = copy_to (fst (spi_mosi s)) bytes (spi_buf_rx s) \<and>
      (SPI_BUF_SIZE < fst (spi_mosi s) + length bytes \<or> SPI_BUF_SIZE < unat (le_word16 (rx ! 4) (rx ! 5)) + 4 \<or>
       rx ! 1 = 0 \<and> zero_baud (control_packet (drop SPI_HEADER_SIZE rx)))"
    if step: "spi_step txe b bd hw bi flash (ph, s) e (Corrupted, t)" for e t
  proof -
    obtain bytes where "ph = Receiving" "e = Mosi bytes" "spi_asks_too_much bytes s"
      using spi_corrupted_by [OF step i assms(2)] assms(3) by auto
    then show ?thesis
      by (auto simp: spi_asks_too_much_def spi_fits_def spi_zero_baud_def spi_filled_def Let_def)
  qed
  ultimately show ?thesis by blast
qed

theorem spi_refines_the_firmware_witness:
  "\<exists>s. s = spi_init (demo_spi SPI_STATE_DATA_TX []) \<and> spi_state s = SPI_STATE_HEADER \<and>
     fw_reachable release demo_board demo_hw (fw (dev s)) \<and> spi_phase_ok (Receiving, s)"
proof -
  have n: "Receiving \<noteq> Corrupted" by simp
  show ?thesis
    using spi_refines_the_firmware [OF demo_spi_reachable [of "\<lambda>_. True" "\<lambda>_. 0" SPI_STATE_DATA_TX] demo_identity_ok n]
    by (simp add: spi_init_def llspi_mosi_dma_def)
qed

text \<open>
  C36. With cores that leave their clock stop, a transfer that fits the receive buffer is answered, or resets
  the chip as it asks, if the answer it has room for fits the other buffer and it is not the request for a baud
  rate of zero, by which the code divides. The test endpoint takes the length of its answer from the host unchecked:
  asked for more, it runs past the end of the buffer.
\<close>

theorem spi_answers_what_fits:
  assumes "spi_reachable txe b bd hw bi flash (Receiving, s)" and "identity_ok bi" and "core_restarts hw"
    and "spi_mosi s = (off, length bytes)" and "off + length bytes \<le> SPI_BUF_SIZE"
    and "u = s\<lparr>spi_buf_rx := copy_to off bytes (spi_buf_rx s)\<rparr>"
    and "n = unat (le_word16 (spi_buf_rx u ! 4) (spi_buf_rx u ! 5))"
  shows "(n + 4 \<le> SPI_BUF_SIZE \<longrightarrow> (\<exists>t. spi_rx_done txe b bd hw bi flash u = Sent t \<or>
      spi_rx_done txe b bd hw bi flash u = Spi_reset t \<or>
      spi_rx_done txe b bd hw bi flash u = Spi_undefined \<and> spi_buf_rx u ! 1 = 0 \<and>
        zero_baud (control_packet (drop SPI_HEADER_SIZE (spi_buf_rx u))))) \<and>
    (SPI_BUF_SIZE < n + 4 \<and> data_received u \<and> validate_checksum (spi_data u) \<and> spi_buf_rx u ! 1 = 0xAB \<longrightarrow>
      spi_rx_done txe b bd hw bi flash u = Overrun)"
proof -
  have i: "spi_inv b bd hw (Receiving, s)" by (rule spi_inv_reachable [OF assms(1,2)])
  have u: "length bytes = snd (spi_mosi s)" "spi_fits bytes s" "u = spi_filled bytes s"
    using assms(4-6) by (simp_all add: spi_fits_def spi_filled_def)
  have "spi_answered True (spi_zero_baud u) (fw (dev s)) (max 64 n) (spi_taken b bd hw u) (spi_rx_done txe b bd hw bi flash u)"
    using slice_answered [OF i assms(2) u, of txe flash] assms(3,7) by simp
  then show ?thesis
    using test_endpoint_overruns [OF _ assms(2), of u txe b bd hw flash] assms(7)
    by (auto simp: spi_answered_def spi_zero_baud_def SPI_BUF_SIZE_def split: spi_outcome.splits)
qed

theorem spi_answers_what_fits_witness:
  "\<exists>s t. s = spi_init (demo_spi SPI_STATE_HEADER []) \<and>
     (spi_rx_done (\<lambda>_. True) release demo_board demo_hw demo_identity (\<lambda>_. 0)
        (s\<lparr>spi_buf_rx := copy_to 0 (demo_header 1 0 64) (spi_buf_rx s)\<rparr>) = Sent t \<or>
      spi_rx_done (\<lambda>_. True) release demo_board demo_hw demo_identity (\<lambda>_. 0)
        (s\<lparr>spi_buf_rx := copy_to 0 (demo_header 1 0 64) (spi_buf_rx s)\<rparr>) = Spi_reset t)"
proof -
  let ?s = "spi_init (demo_spi SPI_STATE_HEADER [])"
  have l: "length (demo_header 1 0 64) = 7" by (simp add: demo_header_def Let_def)
  have "spi_mosi ?s = (0, length (demo_header 1 0 64))" "0 + length (demo_header 1 0 64) \<le> SPI_BUF_SIZE"
    by (simp_all add: l spi_init_def llspi_mosi_dma_def SPI_HEADER_SIZE_def SPI_BUF_SIZE_def)
  from spi_answers_what_fits [OF demo_spi_reachable demo_identity_ok demo_restarts this refl refl, of "\<lambda>_. True" "\<lambda>_. 0"]
  show ?thesis
    by (simp add: copy_to_def demo_header_def le_bytes16_def le_word16_def Let_def SPI_BUF_SIZE_def)
qed

text \<open>
  C37. A header or data that arrive with one byte changed are refused, and leave the device as it was but
  for the count of such errors, which stops at its greatest value.
\<close>

theorem damaged_transfer_is_refused:
  assumes "identity_ok bi" and "validate_checksum d" and "i < length d" and "x \<noteq> d ! i"
    and "spi_state s = SPI_STATE_HEADER \<and> length d = 7 \<and> d ! 0 = SPI_SYNC_BYTE \<and> take 7 (spi_buf_rx s) = d[i := x] \<or>
      data_received s \<and> spi_data s = d[i := x]"
  shows "\<exists>t. spi_rx_done txe b bd hw bi flash s = Sent t \<and> spi_miso t = [SPI_NACK] \<and> spi_state t = SPI_STATE_HEADER_NACK \<and>
    dev t = (if spi_checksum_error_count (dev s) = 0xFFFF then dev s
      else (dev s)\<lparr>spi_checksum_error_count := spi_checksum_error_count (dev s) + 1\<rparr>)"
proof -
  have "\<exists>t. spi_rx_done txe b bd hw bi flash s = Sent t \<and> spi_rejected s t"
    using assms(5) damaged_header [OF assms(1), of s d i x] damaged_data [OF _ assms(1) _ assms(2-4), of s] assms(2-4)
    by auto
  then show ?thesis unfolding spi_rejected_def by blast
qed

theorem damaged_transfer_is_refused_witness:
  "\<exists>t. spi_rx_done (\<lambda>_. True) release demo_board demo_hw demo_identity (\<lambda>_. 0)
     (demo_spi SPI_STATE_HEADER ((demo_header 0 7 8)[1 := 3])) = Sent t \<and> spi_checksum_error_count (dev t) = 1"
proof -
  let ?s = "demo_spi SPI_STATE_HEADER ((demo_header 0 7 8)[1 := 3])"
  have "length (demo_header 0 7 8) = 7" "demo_header 0 7 8 ! 0 = SPI_SYNC_BYTE" "3 \<noteq> demo_header 0 7 8 ! 1"
    by (simp_all add: demo_header_def Let_def)
  moreover have "take 7 (spi_buf_rx ?s) = (demo_header 0 7 8)[1 := 3]" using calculation(1) by (simp add: demo_spi_def)
  moreover have "spi_state ?s = SPI_STATE_HEADER" "spi_checksum_error_count (dev ?s) = 0"
    by (simp_all add: demo_spi_def demo_panda_def)
  ultimately show ?thesis
    using damaged_transfer_is_refused [OF demo_identity_ok demo_headers_valid(1) [of 0 7 8], of 1 3 ?s "\<lambda>_. True" release demo_board demo_hw "\<lambda>_. 0"]
    by auto
qed

text \<open>
  C38. A request of the host that arrives whole is carried out and its answer is what the host reads; so
  are the packets queued for the host, as the bytes that C17 and C18 speak of.
\<close>

theorem spi_carries_requests_and_packets:
  assumes "data_received s" and "identity_ok bi" and "validate_checksum (spi_data s)"
    and "n = unat (le_word16 (spi_buf_rx s ! 2) (spi_buf_rx s ! 3))" and "m = unat (le_word16 (spi_buf_rx s ! 4) (spi_buf_rx s ! 5))"
  shows "(spi_buf_rx s ! 1 = 0 \<and> 7 \<le> n \<and>
      comms_control_all b bd hw bi flash (control_packet (drop 7 (spi_buf_rx s))) (dev s) = Reply resp d \<longrightarrow>
      (\<exists>t. spi_rx_done txe b bd hw bi flash s = Sent t \<and> dev t = d \<and> spi_parse (spi_miso t) = Some resp)) \<and>
    (spi_buf_rx s ! 1 = 1 \<and> n = 0 \<and> comms_can_read m (fw (dev s)) = (out, f) \<and> length out + 4 \<le> SPI_BUF_SIZE \<longrightarrow>
      (\<exists>t. spi_rx_done txe b bd hw bi flash s = Sent t \<and> fw (dev t) = f \<and> spi_parse (spi_miso t) = Some out))"
proof -
  have "spi_ok (parse_header s)" using assms(1) by (simp add: data_received_def)
  then show ?thesis
    using control_answer [of "parse_header s" bi b bd hw flash "drop 7 (spi_buf_rx s)" resp d] read_answer [of "parse_header s" out f]
      assms(2-5)
    by (auto simp: rx_done_data [OF assms(1,2)] spi_dispatch_def Let_def SPI_HEADER_SIZE_def)
qed

theorem spi_carries_requests_and_packets_witness:
  "\<exists>t. spi_rx_done (\<lambda>_. True) release demo_board demo_hw demo_identity (\<lambda>_. 0)
     (demo_spi SPI_STATE_DATA_RX (demo_header 0 7 8 @ demo_request)) = Sent t \<and> spi_parse (spi_miso t) = Some [hw_type demo_board]"
proof -
  let ?s = "demo_spi SPI_STATE_DATA_RX (demo_header 0 7 8 @ demo_request)"
  have l: "length (demo_header 0 7 8) = 7" "length demo_request = 8" by (simp_all add: demo_header_def demo_request_def Let_def)
  have h: "spi_buf_rx ?s ! 0 = SPI_SYNC_BYTE" "spi_buf_rx ?s ! 1 = 0" "le_word16 (spi_buf_rx ?s ! 2) (spi_buf_rx ?s ! 3) = 7"
    by (simp_all add: demo_spi_def demo_header_def le_bytes16_def le_word16_def Let_def)
  have d: "drop 7 (spi_buf_rx ?s) = demo_request @ replicate 2033 0" using l by (simp add: demo_spi_def SPI_BUF_SIZE_def)
  have r: "data_received ?s" "spi_data ?s = demo_request"
    using demo_spi_ok [of "demo_header 0 7 8 @ demo_request"] h d l
    by (simp_all add: data_received_def spi_data_def SPI_HEADER_SIZE_def SPI_BUF_SIZE_def) (simp add: demo_spi_def)
  have "request (control_packet (drop 7 (spi_buf_rx ?s))) = 0xc1" unfolding d by (simp add: control_packet_def demo_request_def Let_def)
  then have "comms_control_all release demo_board demo_hw demo_identity (\<lambda>_. 0) (control_packet (drop 7 (spi_buf_rx ?s))) (dev ?s) =
    Reply [hw_type demo_board] (dev ?s)"
    by (simp add: comms_control_all_def comms_control_handler_def Let_def)
  then show ?thesis
    using spi_carries_requests_and_packets [OF r(1) demo_identity_ok _ refl refl, of release demo_board demo_hw "\<lambda>_. 0"] h(2,3) r(2)
      demo_headers_valid(2) by fastforce
qed

text \<open>
  C39. In a running firmware whose cores leave their clock stop, every request of the host is answered with at
  most a packet of the bus, 64 bytes, unless it asks for a reset and may have it, or asks for a baud rate
  of zero on a serial port, by which the code divides. An answered request acts on the firmware as the requests of
  C10 do, or not at all.
\<close>

theorem every_request_is_answered:
  assumes "pd_ok s" and "identity_ok bi" and "core_restarts hw" and "running (fw s)"
  shows "case comms_control_all b bd hw bi flash req s of
      Reply resp t \<Rightarrow> length resp \<le> 64 \<and> pd_ok t \<and> (fw t = fw s \<or> fw_step b bd hw (fw s) (Request req) (fw t))
    | Chip_reset t \<Rightarrow> fw t = fw s \<and> (request req = 0xd8 \<or> request req = 0xd1 \<and> (param1 req = 1 \<or> param1 req = 0 \<and> ALLOW_DEBUG b))
    | Undefined \<Rightarrow> (request req = 0xe1 \<or> request req = 0xe4) \<and> param2 req = 0 \<and> (param1 req = 0 \<or> param1 req = 4)
    | Stuck \<Rightarrow> False"
proof (cases "comms_control_all b bd hw bi flash req s")
  case (Reply resp t)
  then show ?thesis using control_all_reply [OF Reply] assms by (auto intro: fw_step.host_request)
next
  case (Chip_reset t)
  then show ?thesis using control_all_reset [OF Chip_reset] by simp
next
  case Undefined
  then show ?thesis using control_all_undefined [of b bd hw bi flash req s] by (simp add: zero_baud_def)
qed (use control_all_not_stuck [OF assms(3,4)] in blast)

theorem every_request_is_answered_witness:
  "length (reply_bytes (comms_control_all release demo_board demo_hw demo_identity (\<lambda>_. 0)
     \<lparr>request = 0xd2, param1 = 0, param2 = 0, cp_length = 0\<rparr> demo_panda)) \<le> 64"
proof -
  let ?r = "\<lparr>request = 0xd2, param1 = 0, param2 = 0, cp_length = 0\<rparr>"
  have "comms_control_all release demo_board demo_hw demo_identity (\<lambda>_. 0) ?r demo_panda = Reply (get_health_pkt demo_panda) demo_panda"
    by (simp add: comms_control_all_def comms_control_handler_def requests_elsewhere_def comms_control_rest_def Let_def)
  moreover have "pd_ok demo_panda" using demo_spi_ok [of "[]" SPI_STATE_HEADER] by (simp add: spi_ok_def demo_spi_def)
  moreover have "running (fw demo_panda)" using running_reachable [OF demo_up_reachable] by (simp add: demo_panda_def)
  ultimately show ?thesis
    using every_request_is_answered [OF _ demo_identity_ok demo_restarts, of demo_panda release demo_board ?r "\<lambda>_. 0"] by simp
qed

text \<open>
  C40. The loop that sends bytes to a serial port ends, however slow the port is; and what is sent while
  there is room for it in the ring comes out of the port whole and in order.
\<close>

theorem sending_never_waits:
  assumes "uart_ok q"
  shows "\<exists>t. put_chars txe cs q = Some t \<and> uart_ok t \<and>
    (length (ring_content (tx_view q)) + length cs \<le> ring_capacity (tx_view q) \<longrightarrow>
       uart_TDR t @ ring_content (tx_view t) = uart_TDR q @ ring_content (tx_view q) @ cs)"
  using put_chars_ok [OF assms, of txe cs] by (simp add: uart_stream_def)

theorem sending_never_waits_witness:
  "\<exists>t. put_chars (\<lambda>_. False) [1, 2, 3] (UART_BUFFER FIFO_SIZE_INT FIFO_SIZE_INT True) = Some t \<and>
     uart_TDR t @ ring_content (tx_view t) = [1, 2, 3]"
proof -
  let ?q = "UART_BUFFER FIFO_SIZE_INT FIFO_SIZE_INT True"
  have "uart_ok ?q" by (rule uart_buffer_ok) (simp_all add: FIFO_SIZE_INT_def)
  moreover have "ring_content (tx_view ?q) = []" "uart_TDR ?q = []" "ring_capacity (tx_view ?q) = 1023"
    by (simp_all add: ring_content_def ring_count_def tx_view_def UART_BUFFER_def ring_capacity_def FIFO_SIZE_INT_def)
  ultimately show ?thesis using sending_never_waits [of ?q "\<lambda>_. False" "[1, 2, 3]"] by auto
qed

end
